(* ===== verification/SI_Prelude.thy ===== *)
theory SI_Prelude
  imports Main "HOL-Library.Char_ord" "HOL-Library.List_Lexorder"
begin

text \<open>
  What every component shares: the result type of fallible Rust code (\<open>Result<T, E>\<close> as a sum,
  the error on the left) with the meaning of the \<open>?\<close> operator, readers over a byte buffer
  (\<open>R: BufRead\<close>, instantiated by the code with \<open>Cursor<Vec<u8>>\<close>) as functions that return the
  bytes they leave, writers as functions that return the bytes they append, and the collections
  of rewrite rules the component proofs use.
\<close>

section \<open>Types\<close>

text \<open>A byte is an 8-bit character; a Rust \<open>Vec<u8>\<close>, \<open>&[u8]\<close> or (UTF-8 encoded) \<open>String\<close> is a
  list of them.\<close>

type_synonym bytes = "char list"

type_synonym ('e, 'a) result = "'e + 'a"

type_synonym ('e, 'a) reader = "bytes \<Rightarrow> ('e, 'a \<times> bytes) result"

named_theorems text_simps \<open>evaluation of text functions on known shapes\<close>
named_theorems reader_simps \<open>what a reader does on the bytes a writer produced\<close>
named_theorems node_defs \<open>writers, readers, normal forms and validity of the node types\<close>
named_theorems enum_roundtrip \<open>\<open>from_str\<close> inverts \<open>to_string\<close>\<close>

section \<open>Results\<close>

definition rbind :: "('e, 'a) result \<Rightarrow> ('a \<Rightarrow> ('e, 'b) result) \<Rightarrow> ('e, 'b) result" where
  "rbind r f = (case r of Inl e \<Rightarrow> Inl e | Inr x \<Rightarrow> f x)"

definition ok_or :: "'e \<Rightarrow> 'a option \<Rightarrow> ('e, 'a) result" where
  "ok_or e m = (case m of None \<Rightarrow> Inl e | Some x \<Rightarrow> Inr x)"

definition is_ok :: "('e, 'a) result \<Rightarrow> bool" where
  "is_ok r = (case r of Inl _ \<Rightarrow> False | Inr _ \<Rightarrow> True)"

definition map_err :: "('e \<Rightarrow> 'f) \<Rightarrow> ('e, 'a) result \<Rightarrow> ('f, 'a) result" where
  "map_err f r = (case r of Inl e \<Rightarrow> Inl (f e) | Inr x \<Rightarrow> Inr x)"

lemma rbind_simps [simp]: "rbind (Inl e) f = Inl e" "rbind (Inr x) f = f x"
  by (simp_all add: rbind_def)

lemma ok_or_simps [simp]: "ok_or e None = Inl e" "ok_or e (Some x) = Inr x"
  by (simp_all add: ok_or_def)

lemma is_ok_simps [simp]: "\<not> is_ok (Inl e)" "is_ok (Inr x)"
  by (simp_all add: is_ok_def)

lemma map_err_simps [simp]: "map_err f (Inl e) = Inl (f e)" "map_err f (Inr x) = Inr x"
  by (simp_all add: map_err_def)

lemma map_err_Inr_iff [simp]: "map_err f r = Inr x \<longleftrightarrow> r = Inr x"
  by (cases r) simp_all

lemma rbind_Inr_iff: "rbind r f = Inr y \<longleftrightarrow> (\<exists>x. r = Inr x \<and> f x = Inr y)"
  by (cases r) auto

lemma rbind_InrE [elim]:
  assumes "rbind r f = Inr y"
  obtains x where "r = Inr x" "f x = Inr y"
  using assms by (auto simp: rbind_Inr_iff)

lemma rbind_assoc: "rbind (rbind r f) g = rbind r (\<lambda>x. rbind (f x) g)"
  by (cases r) simp_all

lemma ok_or_Inr_iff [simp]: "ok_or e m = Inr x \<longleftrightarrow> m = Some x"
  by (cases m) simp_all

section \<open>Readers\<close>

definition preturn :: "'a \<Rightarrow> ('e, 'a) reader" where
  "preturn x = (\<lambda>r. Inr (x, r))"

definition pfail :: "'e \<Rightarrow> ('e, 'a) reader" where
  "pfail e = (\<lambda>r. Inl e)"

definition pbind :: "('e, 'a) reader \<Rightarrow> ('a \<Rightarrow> ('e, 'b) reader) \<Rightarrow> ('e, 'b) reader" where
  "pbind p f = (\<lambda>r. rbind (p r) (\<lambda>(x, r'). f x r'))"

definition plift :: "('e, 'a) result \<Rightarrow> ('e, 'a) reader" where
  "plift m = (\<lambda>r. rbind m (\<lambda>x. Inr (x, r)))"

lemma preturn_apply [simp]: "preturn x r = Inr (x, r)"
  by (simp add: preturn_def)

lemma pfail_apply [simp]: "pfail e r = Inl e"
  by (simp add: pfail_def)

lemma pbind_apply: "pbind p f r = (case p r of Inl e \<Rightarrow> Inl e | Inr (x, r') \<Rightarrow> f x r')"
  by (simp add: pbind_def rbind_def split: sum.split)

lemma pbind_Inr [simp]: "p r = Inr (x, r') \<Longrightarrow> pbind p f r = f x r'"
  by (simp add: pbind_apply)

lemma pbind_Inl [simp]: "p r = Inl e \<Longrightarrow> pbind p f r = Inl e"
  by (simp add: pbind_apply)

lemma plift_simps [simp]: "plift (Inl e) r = Inl e" "plift (Inr x) r = Inr (x, r)"
  by (simp_all add: plift_def)

section \<open>Writers\<close>

text \<open>A sequence of fallible writes, each followed by \<open>?\<close>: the bytes of all of them, or the first
  error.\<close>

fun wseq :: "('e, bytes) result list \<Rightarrow> ('e, bytes) result" where
  "wseq [] = Inr []"
| "wseq (w # ws) = rbind w (\<lambda>b. rbind (wseq ws) (\<lambda>bs. Inr (b @ bs)))"

lemma wseq_append: "wseq (xs @ ys) = rbind (wseq xs) (\<lambda>a. rbind (wseq ys) (\<lambda>b. Inr (a @ b)))"
  by (induction xs) (simp_all add: rbind_assoc rbind_def split: sum.split)

lemma wseq_Inr: "wseq (map Inr bs) = Inr (concat bs)"
  by (induction bs) simp_all

section \<open>Lists and options\<close>

text \<open>Rust's \<open>collect::<Result<Vec<_>, _>>\<close> and the loops that push \<open>f(x)?\<close>.\<close>

fun mapM :: "('a \<Rightarrow> ('e, 'b) result) \<Rightarrow> 'a list \<Rightarrow> ('e, 'b list) result" where
  "mapM f [] = Inr []"
| "mapM f (x # xs) = rbind (f x) (\<lambda>y. rbind (mapM f xs) (\<lambda>ys. Inr (y # ys)))"

lemma mapM_Inr: "(\<And>x. x \<in> set xs \<Longrightarrow> f x = Inr (g x)) \<Longrightarrow> mapM f xs = Inr (map g xs)"
  by (induction xs) simp_all

lemma mapM_all2: "list_all2 (\<lambda>x y. f x = Inr (g y)) xs ys \<Longrightarrow> mapM f xs = Inr (map g ys)"
  by (induction xs ys rule: list_all2_induct) simp_all

lemma mapM_Inr_length: "mapM f xs = Inr ys \<Longrightarrow> length ys = length xs"
  by (induction xs arbitrary: ys) (auto simp: rbind_Inr_iff)

text \<open>\<open>Option::unwrap_or("")\<close> and the reverse convention of the readers: an empty text is an absent
  value.\<close>

definition unwrap_or_empty :: "bytes option \<Rightarrow> bytes" where
  "unwrap_or_empty m = (case m of None \<Rightarrow> [] | Some s \<Rightarrow> s)"

definition none_if_empty :: "bytes \<Rightarrow> bytes option" where
  "none_if_empty s = (if s = [] then None else Some s)"

lemma unwrap_or_empty_simps [simp]:
  "unwrap_or_empty None = []" "unwrap_or_empty (Some s) = s"
  by (simp_all add: unwrap_or_empty_def)

lemma none_if_empty_simps [simp]:
  "none_if_empty [] = None" "none_if_empty (c # s) = Some (c # s)"
  by (simp_all add: none_if_empty_def)

definition opt_norm :: "bytes option \<Rightarrow> bytes option" where
  "opt_norm m = none_if_empty (unwrap_or_empty m)"

lemma opt_norm_simps [simp]:
  "opt_norm None = None" "opt_norm (Some []) = None" "opt_norm (Some (c # s)) = Some (c # s)"
  by (simp_all add: opt_norm_def)

lemma opt_norm_idem [simp]: "opt_norm (opt_norm m) = opt_norm m"
  by (cases m) (auto simp: opt_norm_def none_if_empty_def)

lemma opt_norm_id: "m \<noteq> Some [] \<Longrightarrow> opt_norm m = m"
  by (cases m) (auto simp: opt_norm_def none_if_empty_def)

lemma none_if_empty_unwrap [simp]: "none_if_empty (unwrap_or_empty m) = opt_norm m"
  by (simp add: opt_norm_def)

lemma unwrap_opt_norm [simp]: "unwrap_or_empty (opt_norm m) = unwrap_or_empty m"
  by (cases m) (auto simp: opt_norm_def none_if_empty_def)

end
