(* ===== verification/Rust_Text.thy ===== *)
theory Rust_Text
  imports SI_Prelude
begin

text \<open>
  The parts of Rust's \<open>str\<close>, \<open>String\<close>, \<open>BufRead\<close> and number formatting the sources use: UTF-8
  validation (\<open>str::from_utf8\<close>), \<open>chars().next_back()\<close>, \<open>split_once\<close>, \<open>splitn\<close>, \<open>trim_end\<close>,
  \<open>read_line\<close>, \<open>lines\<close>, and \<open>Display\<close> / \<open>FromStr\<close> of \<open>usize\<close>, \<open>i64\<close> and \<open>bool\<close>. The lemmas are the
  facts a client of these functions needs: text stays valid when it is joined or cut at an ASCII
  byte, and parsing inverts printing.
\<close>

abbreviation byte :: "char \<Rightarrow> nat" where
  "byte c \<equiv> of_char c"

abbreviation NL :: char where
  "NL \<equiv> CHR 0x0A"

abbreviation CR :: char where
  "CR \<equiv> CHR 0x0D"

section \<open>UTF-8\<close>

definition is_cont :: "char \<Rightarrow> bool" where
  "is_cont c \<longleftrightarrow> 0x80 \<le> byte c \<and> byte c \<le> 0xBF"

text \<open>The second byte of a three- or four-byte sequence: the ranges that exclude overlong forms,
  surrogates and values above U+10FFFF.\<close>

definition second3 :: "nat \<Rightarrow> char \<Rightarrow> bool" where
  "second3 b c \<longleftrightarrow> is_cont c \<and> (b = 0xE0 \<longrightarrow> 0xA0 \<le> byte c) \<and> (b = 0xED \<longrightarrow> byte c \<le> 0x9F)"

definition second4 :: "nat \<Rightarrow> char \<Rightarrow> bool" where
  "second4 b c \<longleftrightarrow> is_cont c \<and> (b = 0xF0 \<longrightarrow> 0x90 \<le> byte c) \<and> (b = 0xF4 \<longrightarrow> byte c \<le> 0x8F)"

text \<open>The length of the well-formed sequence a text starts with, if there is one.\<close>

fun utf8_width :: "bytes \<Rightarrow> nat option" where
  "utf8_width [] = None"
| "utf8_width (b # bs) =
     (if byte b < 0x80 then Some 1
      else if 0xC2 \<le> byte b \<and> byte b \<le> 0xDF then
        (case bs of c1 # _ \<Rightarrow> if is_cont c1 then Some 2 else None | _ \<Rightarrow> None)
      else if 0xE0 \<le> byte b \<and> byte b \<le> 0xEF then
        (case bs of c1 # c2 # _ \<Rightarrow> if second3 (byte b) c1 \<and> is_cont c2 then Some 3 else None
                  | _ \<Rightarrow> None)
      else if 0xF0 \<le> byte b \<and> byte b \<le> 0xF4 then
        (case bs of c1 # c2 # c3 # _ \<Rightarrow>
            if second4 (byte b) c1 \<and> is_cont c2 \<and> is_cont c3 then Some 4 else None
          | _ \<Rightarrow> None)
      else None)"

lemma utf8_width_bounds:
  "utf8_width bs = Some w \<Longrightarrow> 0 < w \<and> w \<le> length bs"
  by (cases bs) (auto split: if_splits list.splits)

declare utf8_width.simps(2) [simp del]

function utf8_ok :: "bytes \<Rightarrow> bool" where
  "utf8_ok bs = (case bs of [] \<Rightarrow> True
     | _ \<Rightarrow> (case utf8_width bs of None \<Rightarrow> False | Some w \<Rightarrow> utf8_ok (drop w bs)))"
  by pat_completeness auto
termination
  by (relation "measure length") (auto dest!: utf8_width_bounds)

declare utf8_ok.simps [simp del]

lemma utf8_ok_Nil [simp]: "utf8_ok []"
  by (simp add: utf8_ok.simps)

lemma utf8_ok_nonempty:
  "bs \<noteq> [] \<Longrightarrow> utf8_ok bs \<longleftrightarrow> (\<exists>w. utf8_width bs = Some w \<and> utf8_ok (drop w bs))"
  by (subst utf8_ok.simps) (auto split: list.split option.split)

lemma utf8_width_append:
  "utf8_width xs = Some w \<Longrightarrow> utf8_width (xs @ ys) = Some w"
  by (cases xs) (auto simp: utf8_width.simps(2) split: if_splits list.splits)

lemma utf8_ok_append:
  "utf8_ok xs \<Longrightarrow> utf8_ok (xs @ ys) \<longleftrightarrow> utf8_ok ys"
proof (induction xs rule: length_induct)
  case (1 xs)
  show ?case
  proof (cases "xs = []")
    case False
    with "1.prems" obtain w where w: "utf8_width xs = Some w" and ok: "utf8_ok (drop w xs)"
      by (auto simp: utf8_ok_nonempty)
    have le: "0 < w" "w \<le> length xs"
      using utf8_width_bounds [OF w] by auto
    then have "utf8_ok (drop w xs @ ys) \<longleftrightarrow> utf8_ok ys"
      using "1.IH" ok by auto
    with w le False show ?thesis
      by (simp add: utf8_ok_nonempty utf8_width_append)
  qed simp
qed

lemma utf8_ok_Cons_ascii [simp]: "byte c < 128 \<Longrightarrow> utf8_ok (c # cs) \<longleftrightarrow> utf8_ok cs"
  by (simp add: utf8_ok_nonempty utf8_width.simps(2))

lemma utf8_ok_ascii: "list_all (\<lambda>c. byte c < 128) s \<Longrightarrow> utf8_ok s"
  by (induction s) simp_all

text \<open>An ASCII byte is never inside a sequence, so text may be cut in front of one.\<close>

lemma ascii_not_cont [simp]:
  "byte c < 128 \<Longrightarrow> \<not> is_cont c" "byte c < 128 \<Longrightarrow> \<not> second3 b c" "byte c < 128 \<Longrightarrow> \<not> second4 b c"
  by (simp_all add: is_cont_def second3_def second4_def)

lemma utf8_width_before_ascii:
  assumes w: "utf8_width (xs @ c # ys) = Some w" and c: "byte c < 128" and "xs \<noteq> []"
  shows "utf8_width xs = Some w"
proof -
  from \<open>xs \<noteq> []\<close> obtain b bs where xs: "xs = b # bs" by (cases xs) auto
  consider "bs = []" | c1 where "bs = [c1]" | c1 c2 where "bs = [c1, c2]"
    | c1 c2 c3 r where "bs = c1 # c2 # c3 # r"
    by (metis neq_Nil_conv)
  then show ?thesis
    using w c unfolding xs
    by cases (simp_all add: utf8_width.simps(2) split: if_splits list.splits)
qed

lemma utf8_ok_cut:
  "utf8_ok (xs @ c # ys) \<Longrightarrow> byte c < 128 \<Longrightarrow> utf8_ok xs \<and> utf8_ok ys"
proof (induction xs rule: length_induct)
  case (1 xs)
  show ?case
  proof (cases "xs = []")
    case True
    with "1.prems" show ?thesis by simp
  next
    case False
    with "1.prems" obtain w where w: "utf8_width (xs @ c # ys) = Some w"
      and ok: "utf8_ok (drop w (xs @ c # ys))"
      by (auto simp: utf8_ok_nonempty)
    from w "1.prems"(2) False have w': "utf8_width xs = Some w"
      by (rule utf8_width_before_ascii)
    from utf8_width_bounds [OF w'] have le: "0 < w" "w \<le> length xs" by auto
    with ok have "utf8_ok (drop w xs @ c # ys)" by simp
    with "1.IH" "1.prems"(2) le have "utf8_ok (drop w xs) \<and> utf8_ok ys"
      by (metis diff_less length_drop length_greater_0_conv False)
    with False w' show ?thesis by (auto simp: utf8_ok_nonempty)
  qed
qed

text \<open>The code points of a valid text.\<close>

definition code_point :: "bytes \<Rightarrow> nat" where
  "code_point s = (case s of
      [a] \<Rightarrow> byte a
    | [a, b] \<Rightarrow> (byte a - 0xC0) * 64 + (byte b - 0x80)
    | [a, b, c] \<Rightarrow> (byte a - 0xE0) * 4096 + (byte b - 0x80) * 64 + (byte c - 0x80)
    | [a, b, c, d] \<Rightarrow> (byte a - 0xF0) * 262144 + (byte b - 0x80) * 4096
                      + (byte c - 0x80) * 64 + (byte d - 0x80)
    | _ \<Rightarrow> 0)"

function utf8_decode :: "bytes \<Rightarrow> nat list" where
  "utf8_decode bs = (case utf8_width bs of None \<Rightarrow> []
     | Some w \<Rightarrow> code_point (take w bs) # utf8_decode (drop w bs))"
  by pat_completeness auto
termination
  by (relation "measure length") (auto dest!: utf8_width_bounds)

declare utf8_decode.simps [simp del]

lemma utf8_decode_Nil [simp]: "utf8_decode [] = []"
  by (simp add: utf8_decode.simps)

lemma utf8_decode_ascii [simp]:
  "byte c < 128 \<Longrightarrow> utf8_decode (c # cs) = byte c # utf8_decode cs"
  by (subst utf8_decode.simps) (simp add: code_point_def utf8_width.simps(2))

text \<open>Unicode \<open>White_Space\<close>, which \<open>str::trim_end\<close> strips.\<close>

definition is_whitespace :: "nat \<Rightarrow> bool" where
  "is_whitespace n \<longleftrightarrow> (9 \<le> n \<and> n \<le> 13) \<or> n = 32 \<or> n = 0x85 \<or> n = 0xA0 \<or> n = 0x1680
     \<or> (0x2000 \<le> n \<and> n \<le> 0x200A) \<or> n = 0x2028 \<or> n = 0x2029 \<or> n = 0x202F \<or> n = 0x205F
     \<or> n = 0x3000"

definition trim_end_is_empty :: "bytes \<Rightarrow> bool" where
  "trim_end_is_empty s \<longleftrightarrow> list_all is_whitespace (utf8_decode s)"

text \<open>\<open>chars.next_back(); chars.as_str()\<close>: the text without its last character.\<close>

definition drop_last_char :: "bytes \<Rightarrow> bytes" where
  "drop_last_char s = rev (drop 1 (dropWhile is_cont (rev s)))"

lemma drop_last_char_snoc [simp]: "\<not> is_cont c \<Longrightarrow> drop_last_char (s @ [c]) = s"
  by (simp add: drop_last_char_def)

lemma NL_not_cont [simp]: "\<not> is_cont NL"
  by (simp add: is_cont_def)

section \<open>Splitting\<close>

fun split_once :: "char \<Rightarrow> bytes \<Rightarrow> (bytes \<times> bytes) option" where
  "split_once c [] = None"
| "split_once c (x # s) =
     (if x = c then Some ([], s)
      else (case split_once c s of None \<Rightarrow> None | Some (a, b) \<Rightarrow> Some (x # a, b)))"

lemma split_once_append [simp]:
  "c \<notin> set a \<Longrightarrow> split_once c (a @ c # b) = Some (a, b)"
  by (induction a) auto

lemma split_once_Some:
  "split_once c s = Some (a, b) \<Longrightarrow> s = a @ c # b \<and> c \<notin> set a"
  by (induction s arbitrary: a) (auto split: if_splits option.splits)

text \<open>\<open>str::splitn(n, c)\<close>: at most \<open>n\<close> parts, the last one unsplit.\<close>

fun splitn :: "nat \<Rightarrow> char \<Rightarrow> bytes \<Rightarrow> bytes list" where
  "splitn 0 c s = []"
| "splitn (Suc 0) c s = [s]"
| "splitn (Suc (Suc n)) c s =
     (case split_once c s of None \<Rightarrow> [s] | Some (a, b) \<Rightarrow> a # splitn (Suc n) c b)"

lemma length_splitn: "length (splitn n c s) \<le> n"
  by (induction n c s rule: splitn.induct) (auto split: option.splits)

section \<open>Reading lines\<close>

text \<open>The bytes up to and including the first newline (\<open>read_until\<close>), and the rest.\<close>

fun read_until_nl :: "bytes \<Rightarrow> bytes \<times> bytes" where
  "read_until_nl [] = ([], [])"
| "read_until_nl (c # cs) =
     (if c = NL then ([c], cs) else (case read_until_nl cs of (a, b) \<Rightarrow> (c # a, b)))"

lemma read_until_nl_append: "read_until_nl s = (a, b) \<Longrightarrow> s = a @ b"
  by (induction s arbitrary: a) (auto split: if_splits prod.splits)

lemma read_until_nl_line [simp]:
  "NL \<notin> set s \<Longrightarrow> read_until_nl (s @ NL # r) = (s @ [NL], r)"
  by (induction s) auto

lemma read_until_nl_eof [simp]: "NL \<notin> set s \<Longrightarrow> read_until_nl s = (s, [])"
  by (induction s) auto

text \<open>\<open>BufRead::lines\<close>: the lines of what is left, each without its \<open>\n\<close> or \<open>\r\n\<close>.\<close>

definition strip_eol :: "bytes \<Rightarrow> bytes" where
  "strip_eol l =
     (if l \<noteq> [] \<and> last l = NL then
        (let l' = butlast l in if l' \<noteq> [] \<and> last l' = CR then butlast l' else l')
      else l)"

lemma read_until_nl_length:
  "read_until_nl s = (a, b) \<Longrightarrow> s \<noteq> [] \<Longrightarrow> length b < length s"
  by (induction s arbitrary: a) (auto split: if_splits prod.splits, fastforce)

function raw_lines :: "bytes \<Rightarrow> bytes list" where
  "raw_lines s = (if s = [] then [] else
     (case read_until_nl s of (l, r) \<Rightarrow> l # raw_lines r))"
  by pat_completeness auto
termination
  by (relation "measure length") (auto dest: read_until_nl_length [OF sym])

declare raw_lines.simps [simp del]

lemma raw_lines_Nil [simp]: "raw_lines [] = []"
  by (simp add: raw_lines.simps)

lemma raw_lines_line [simp]:
  "NL \<notin> set s \<Longrightarrow> raw_lines (s @ NL # r) = (s @ [NL]) # raw_lines r"
  by (subst raw_lines.simps) simp

lemma strip_eol_line [simp]:
  "s = [] \<or> last s \<noteq> CR \<Longrightarrow> strip_eol (s @ [NL]) = s"
  by (auto simp: strip_eol_def Let_def)

section \<open>Numbers\<close>

definition digit_char :: "nat \<Rightarrow> char" where
  "digit_char d = char_of (48 + d)"

definition char_digit :: "char \<Rightarrow> nat option" where
  "char_digit c = (if 48 \<le> byte c \<and> byte c \<le> 57 then Some (byte c - 48) else None)"

lemma char_digit_digit_char [simp]: "d < 10 \<Longrightarrow> char_digit (digit_char d) = Some d"
  by (simp add: char_digit_def digit_char_def of_char_of)

lemma byte_digit_char: "d < 10 \<Longrightarrow> byte (digit_char d) = 48 + d"
  by (simp add: digit_char_def of_char_of)

fun show_nat :: "nat \<Rightarrow> bytes" where
  "show_nat n =
     (if n < 10 then [digit_char n] else show_nat (n div 10) @ [digit_char (n mod 10)])"

declare show_nat.simps [simp del]

lemma show_nat_nonempty [simp]: "show_nat n \<noteq> []"
  by (subst show_nat.simps) simp

lemma show_nat_digits: "c \<in> set (show_nat n) \<Longrightarrow> 48 \<le> byte c \<and> byte c \<le> 57"
proof (induction n rule: show_nat.induct)
  case (1 n)
  then show ?case
    by (subst (asm) (2) show_nat.simps) (auto simp: byte_digit_char split: if_splits)
qed

lemma show_nat_not_in: "byte c < 48 \<or> 57 < byte c \<Longrightarrow> c \<notin> set (show_nat n)"
  using show_nat_digits by fastforce

lemma utf8_ok_show_nat [simp]: "utf8_ok (show_nat n)"
  by (rule utf8_ok_ascii) (use show_nat_digits in \<open>fastforce simp: list_all_iff\<close>)

text \<open>The accumulation loop of \<open>from_str_radix\<close>; \<open>None\<close> on a character that is no digit.\<close>

fun parse_digits :: "nat \<Rightarrow> bytes \<Rightarrow> nat option" where
  "parse_digits acc [] = Some acc"
| "parse_digits acc (c # cs) =
     (case char_digit c of None \<Rightarrow> None | Some d \<Rightarrow> parse_digits (10 * acc + d) cs)"

lemma parse_digits_append:
  "parse_digits acc (s @ t) =
     (case parse_digits acc s of None \<Rightarrow> None | Some a \<Rightarrow> parse_digits a t)"
  by (induction s arbitrary: acc) (auto split: option.split)

lemma parse_digits_show [simp]: "parse_digits 0 (show_nat n) = Some n"
proof (induction n rule: show_nat.induct)
  case (1 n)
  show ?case
  proof (cases "n < 10")
    case True
    then show ?thesis by (subst show_nat.simps) simp
  next
    case False
    then show ?thesis
      using 1 by (subst show_nat.simps) (simp add: parse_digits_append)
  qed
qed

text \<open>\<open>usize::from_str\<close> on a 64-bit target: an optional \<open>+\<close>, at least one digit, no overflow.\<close>

definition usize_bound :: nat where
  "usize_bound = 18446744073709551616"

definition usize_from_str :: "bytes \<Rightarrow> nat option" where
  "usize_from_str s =
     (let ds = (case s of c # cs \<Rightarrow> if c = CHR ''+'' then cs else s | [] \<Rightarrow> []) in
      if ds = [] then None
      else (case parse_digits 0 ds of None \<Rightarrow> None
            | Some n \<Rightarrow> if n < usize_bound then Some n else None))"

lemma show_nat_hd: "48 \<le> byte (hd (show_nat n)) \<and> byte (hd (show_nat n)) \<le> 57"
  by (rule show_nat_digits [of _ n]) simp

lemma usize_from_str_show [simp]: "n < usize_bound \<Longrightarrow> usize_from_str (show_nat n) = Some n"
  using show_nat_hd [of n] parse_digits_show [of n] show_nat_nonempty [of n]
  by (cases "show_nat n") (auto simp: usize_from_str_def simp del: parse_digits_show show_nat_nonempty)

lemma usize_from_str_bound: "usize_from_str s = Some n \<Longrightarrow> n < usize_bound"
  by (auto simp: usize_from_str_def Let_def split: if_splits option.splits)

text \<open>\<open>i64\<close>: \<open>Display\<close> and \<open>FromStr\<close>.\<close>

definition i64_ok :: "int \<Rightarrow> bool" where
  "i64_ok i \<longleftrightarrow> - 9223372036854775808 \<le> i \<and> i < 9223372036854775808"

definition show_int :: "int \<Rightarrow> bytes" where
  "show_int i = (if i < 0 then CHR ''-'' # show_nat (nat (- i)) else show_nat (nat i))"

definition i64_from_str :: "bytes \<Rightarrow> int option" where
  "i64_from_str s =
     (let (neg, ds) = (case s of c # cs \<Rightarrow> if c = CHR ''+'' then (False, cs)
                                  else if c = CHR ''-'' then (True, cs) else (False, s)
                        | [] \<Rightarrow> (False, [])) in
      if ds = [] then None
      else (case parse_digits 0 ds of None \<Rightarrow> None
            | Some n \<Rightarrow> (let i = (if neg then - int n else int n) in
                         if i64_ok i then Some i else None)))"

lemma i64_from_str_show [simp]: "i64_ok i \<Longrightarrow> i64_from_str (show_int i) = Some i"
proof (cases "i < 0")
  case True
  assume "i64_ok i"
  with True show ?thesis by (simp add: i64_from_str_def show_int_def)
next
  case False
  assume "i64_ok i"
  moreover have "48 \<le> byte (hd (show_nat (nat i)))" using show_nat_hd by blast
  ultimately show ?thesis
    using False parse_digits_show [of "nat i"] show_nat_nonempty [of "nat i"]
    by (cases "show_nat (nat i)")
      (auto simp: i64_from_str_def show_int_def simp del: parse_digits_show show_nat_nonempty)
qed

lemma utf8_ok_show_int [simp]: "utf8_ok (show_int i)"
  by (simp add: show_int_def)

lemma show_int_nonempty [simp]: "show_int i \<noteq> []"
  by (simp add: show_int_def)

text \<open>\<open>bool\<close>: \<open>Display\<close> and \<open>FromStr\<close>.\<close>

definition show_bool :: "bool \<Rightarrow> bytes" where
  "show_bool b = (if b then ''true'' else ''false'')"

definition bool_from_str :: "bytes \<Rightarrow> bool option" where
  "bool_from_str s = (if s = ''true'' then Some True else if s = ''false'' then Some False else None)"

lemma bool_from_str_show [simp]: "bool_from_str (show_bool b) = Some b"
  by (simp add: bool_from_str_def show_bool_def)

lemma show_bool_props [simp]: "utf8_ok (show_bool b)" "show_bool b \<noteq> []" "length (show_bool b) \<le> 5"
  by (simp_all add: show_bool_def)

section \<open>Rust strings\<close>

text \<open>The invariant of \<open>String\<close>: valid UTF-8, and a length that fits \<open>isize\<close>.\<close>

definition rust_string :: "bytes \<Rightarrow> bool" where
  "rust_string s \<longleftrightarrow> utf8_ok s \<and> length s < 9223372036854775808"

lemma rust_string_utf8 [simp]: "rust_string s \<Longrightarrow> utf8_ok s"
  by (simp add: rust_string_def)

lemma rust_string_usize [simp]: "rust_string s \<Longrightarrow> length s < usize_bound"
  by (simp add: rust_string_def usize_bound_def)

lemma rust_string_Nil [simp]: "rust_string []"
  by (simp add: rust_string_def)

lemma rust_string_bool [simp]: "rust_string (show_bool b)"
  by (simp add: rust_string_def show_bool_def)

lemma show_nat_length: "n < 10 ^ Suc k \<Longrightarrow> length (show_nat n) \<le> Suc k"
proof (induction k arbitrary: n)
  case 0
  then show ?case by (subst show_nat.simps) simp
next
  case (Suc k)
  then have "n div 10 < 10 ^ Suc k" by (simp add: less_mult_imp_div_less mult.commute)
  with Suc.IH show ?case by (subst show_nat.simps) simp
qed

lemma rust_string_i64 [simp]:
  assumes "i64_ok i"
  shows "rust_string (show_int i)"
proof -
  have len: "length (show_nat k) \<le> Suc 18" if "k \<le> 9223372036854775808" for k
    using that by (intro show_nat_length) simp
  have "nat (- i) \<le> 9223372036854775808" "nat i \<le> 9223372036854775808"
    using assms unfolding i64_ok_def by linarith+
  from this [THEN len] have "length (show_int i) \<le> 20" by (simp add: show_int_def)
  then show ?thesis by (simp add: rust_string_def)
qed

definition rust_string_opt :: "bytes option \<Rightarrow> bool" where
  "rust_string_opt m = (case m of None \<Rightarrow> True | Some s \<Rightarrow> rust_string s)"

lemma rust_string_opt_simps [simp]:
  "rust_string_opt None" "rust_string_opt (Some s) = rust_string s"
  by (simp_all add: rust_string_opt_def)

lemma rust_string_opt_norm [simp]: "rust_string_opt m \<Longrightarrow> rust_string_opt (opt_norm m)"
  by (cases m) (auto simp: opt_norm_def none_if_empty_def)

lemma rust_string_unwrap [simp]: "rust_string_opt m \<Longrightarrow> rust_string (unwrap_or_empty m)"
  by (cases m) simp_all

end
