(* ===== verification/Bytes_Lines_Codec.thy ===== *)
theory Bytes_Lines_Codec
  imports Rust_Text
begin

text \<open>
  Framing of byte streams by lines, \<open>lib/bytes-lines-codec/src/lib.rs\<close>: a decoder that keeps its place in
  a growing buffer, refuses lines over a limit and discards the rest of them, and the encoder. The
  buffer of the framework (\<open>BytesMut\<close>) is the list of its bytes. A reference function says what the whole
  stream stands for; the decoder gives exactly that, however the stream is cut into pieces.
\<close>

section \<open>The codec\<close>

record BytesLinesCodec =
  next_index :: nat
  max_length :: nat
  is_discarding :: bool

text \<open>The error of the codec, and the panic of a slice whose start is behind its end.\<close>

datatype CodecError = InvalidInput | SliceIndexPanic

definition BytesLinesCodec_default :: BytesLinesCodec where
  "BytesLinesCodec_default = \<lparr>next_index = 0, max_length = 8 * 1024 * 1024, is_discarding = False\<rparr>"

definition new_with_max_length :: "nat \<Rightarrow> BytesLinesCodec" where
  "new_with_max_length n = BytesLinesCodec_default\<lparr>max_length := n\<rparr>"

definition saturating_add :: "nat \<Rightarrow> nat \<Rightarrow> nat" where
  "saturating_add a b = min (a + b) (usize_bound - 1)"

fun position :: "('a \<Rightarrow> bool) \<Rightarrow> 'a list \<Rightarrow> nat option" where
  "position P [] = None"
| "position P (x # xs) = (if P x then Some 0 else map_option Suc (position P xs))"

definition without_carriage_return :: "bytes \<Rightarrow> bytes" where
  "without_carriage_return src =
     (if src \<noteq> [] \<and> last src = CHR 0x0D then take (length src - 1) src else src)"

lemma position_less: "position P xs = Some k \<Longrightarrow> k < length xs"
  by (induction xs arbitrary: k) (auto split: if_splits)

lemma saturating_add_pos: "0 < saturating_add a (Suc 0)"
  by (simp add: saturating_add_def usize_bound_def)

function decode ::
  "BytesLinesCodec \<Rightarrow> bytes \<Rightarrow> (CodecError, bytes option) result \<times> BytesLinesCodec \<times> bytes" where
  "decode c src =
     (let read_to = min (saturating_add (max_length c) 1) (length src) in
      if read_to < next_index c then (Inl SliceIndexPanic, c, src) else
      (let newline_offset = position (\<lambda>b. b = NL) (drop (next_index c) (take read_to src)) in
       if is_discarding c then
         (case newline_offset of
            Some offset \<Rightarrow>
              decode (c\<lparr>is_discarding := False, next_index := 0\<rparr>) (drop (offset + next_index c + 1) src)
          | None \<Rightarrow>
              if drop read_to src = [] then (Inr None, c\<lparr>next_index := 0\<rparr>, [])
              else decode (c\<lparr>next_index := 0\<rparr>) (drop read_to src))
       else
         (case newline_offset of
            Some offset \<Rightarrow>
              (let newline_index = offset + next_index c in
               (Inr (Some (without_carriage_return (take newline_index src))), c\<lparr>next_index := 0\<rparr>,
                drop (newline_index + 1) src))
          | None \<Rightarrow>
              if max_length c < length src then (Inl InvalidInput, c\<lparr>is_discarding := True\<rparr>, src)
              else (Inr None, c\<lparr>next_index := read_to\<rparr>, src))))"
  by pat_completeness auto
termination
  by (relation "measure (length \<circ> snd)")
     (auto dest!: position_less [OF sym] intro!: diff_less saturating_add_pos)

declare decode.simps [simp del]

definition decode_eof ::
  "BytesLinesCodec \<Rightarrow> bytes \<Rightarrow> (CodecError, bytes option) result \<times> BytesLinesCodec \<times> bytes" where
  "decode_eof c src =
     (case decode c src of
        (Inl e, c', src') \<Rightarrow> (Inl e, c', src')
      | (Inr (Some frame), c', src') \<Rightarrow> (Inr (Some frame), c', src')
      | (Inr None, c', src') \<Rightarrow>
          if src' = [] \<or> src' = [CHR 0x0D] then (Inr None, c', src')
          else (Inr (Some (without_carriage_return src')), c'\<lparr>next_index := 0\<rparr>, []))"

definition encode :: "BytesLinesCodec \<Rightarrow> bytes \<Rightarrow> bytes \<Rightarrow> (CodecError, bytes) result" where
  "encode c data dst = (if max_length c < length data then Inl InvalidInput else Inr (dst @ data @ [NL]))"

section \<open>The stream a reader stands for\<close>

datatype line_event = Frame bytes | TooLong

text \<open>The events of a stream \<open>s\<close>: one for each line, and, when the stream is known to end there (\<open>eof\<close>), one for
  the bytes after the last line end unless they are nothing or a lone carriage return. A line over the
  limit, finished or not, is one error.\<close>

function events :: "bool \<Rightarrow> nat \<Rightarrow> bytes \<Rightarrow> line_event list" where
  "events eof limit s =
     (case split_once NL s of
        None \<Rightarrow>
          if limit < length s then [TooLong]
          else if eof \<and> s \<noteq> [] \<and> s \<noteq> [CHR 0x0D] then [Frame (without_carriage_return s)]
          else []
      | Some (line, rest) \<Rightarrow>
          (if length line \<le> limit then Frame (without_carriage_return line) else TooLong) # events eof limit rest)"
  by pat_completeness auto
termination
  by (relation "measure (length \<circ> snd \<circ> snd)") (auto dest!: split_once_Some)

declare events.simps [simp del]

lemma split_once_None [simp]: "c \<notin> set s \<Longrightarrow> split_once c s = None"
  by (induction s) auto

lemma split_once_skip:
  "c \<notin> set a \<Longrightarrow> split_once c (a @ s) = map_option (\<lambda>(x, y). (a @ x, y)) (split_once c s)"
  by (induction a) (auto simp: option.map_id0 split: option.splits)

lemma events_line:
  "NL \<notin> set line \<Longrightarrow> events eof limit (line @ NL # rest) =
     (if length line \<le> limit then Frame (without_carriage_return line) else TooLong) # events eof limit rest"
  by (subst events.simps) simp


lemma events_rest:
  "NL \<notin> set s \<Longrightarrow> events eof limit s =
     (if limit < length s then [TooLong]
      else if eof \<and> s \<noteq> [] \<and> s \<noteq> [CHR 0x0D] then [Frame (without_carriage_return s)] else [])"
  by (subst events.simps) simp

lemma events_Nil [simp]: "events eof limit [] = []"
  by (simp add: events_rest)

text \<open>What a reader in a given state still owes for the bytes it has not consumed.\<close>

definition owed :: "bool \<Rightarrow> BytesLinesCodec \<Rightarrow> bytes \<Rightarrow> line_event list" where
  "owed eof c s =
     (if is_discarding c
      then (case split_once NL s of None \<Rightarrow> [] | Some (_, rest) \<Rightarrow> events eof (max_length c) rest)
      else events eof (max_length c) s)"

text \<open>The state of a reader between two calls: the place it resumes at is inside the window it may look at,
  and no line ends before that place.\<close>

definition resumable :: "BytesLinesCodec \<Rightarrow> bytes \<Rightarrow> bool" where
  "resumable c src \<longleftrightarrow>
     Suc (max_length c) < usize_bound \<and> next_index c \<le> Suc (max_length c) \<and>
     next_index c \<le> length src \<and> NL \<notin> set (take (next_index c) src)"

text \<open>A reader that asks for more bytes has nothing left to give.\<close>

definition drained :: "BytesLinesCodec \<Rightarrow> bytes \<Rightarrow> bool" where
  "drained c src \<longleftrightarrow>
     (if is_discarding c then src = [] else NL \<notin> set src \<and> length src \<le> max_length c)"

fun emitted :: "(CodecError, bytes option) result \<Rightarrow> line_event list" where
  "emitted (Inl _) = [TooLong]"
| "emitted (Inr None) = []"
| "emitted (Inr (Some frame)) = [Frame frame]"

lemma position_None: "position (\<lambda>b. b = x) xs = None \<longleftrightarrow> x \<notin> set xs"
  by (induction xs) auto

lemma position_Some:
  "position (\<lambda>b. b = x) xs = Some k \<Longrightarrow> x \<notin> set (take k xs) \<and> k < length xs \<and> xs ! k = x"
  by (induction xs arbitrary: k) (auto split: if_splits)

lemma take_split:
  "a \<le> b \<Longrightarrow> take b xs = take a xs @ drop a (take b xs)"
  by (metis append_take_drop_id min.absorb1 take_take)

text \<open>The search of one turn of the loop: it finds the first line end of the window.\<close>

lemma window_None:
  assumes "resumable c src"
    and "position (\<lambda>b. b = NL) (drop (next_index c) (take r src)) = None"
    and "next_index c \<le> r"
  shows "NL \<notin> set (take r src)"
proof -
  have "NL \<notin> set (take (next_index c) src @ drop (next_index c) (take r src))"
    using assms by (simp add: resumable_def position_None)
  then show ?thesis using take_split [OF assms(3), of src] by simp
qed

lemma window_Some:
  assumes "resumable c src"
    and "position (\<lambda>b. b = NL) (drop (next_index c) (take r src)) = Some k"
  shows "\<exists>line rest. src = line @ NL # rest \<and> length line = k + next_index c \<and> length line < r \<and> NL \<notin> set line"
proof -
  let ?n = "k + next_index c"
  have k: "NL \<notin> set (take k (drop (next_index c) (take r src)))"
      "k < length (drop (next_index c) (take r src))" "drop (next_index c) (take r src) ! k = NL"
    using position_Some [OF assms(2)] by auto
  then have n: "?n < r" "?n < length src" by auto
  have "take ?n src = take (next_index c) src @ take k (drop (next_index c) src)"
    by (metis add.commute take_add)
  moreover have "take k (drop (next_index c) (take r src)) = take k (drop (next_index c) src)"
    using n by (simp add: take_drop min_def add.commute)
  ultimately have "NL \<notin> set (take ?n src)" using k assms(1) by (simp add: resumable_def)
  moreover have "src ! ?n = NL" using k n by (simp add: add.commute)
  then have "src = take ?n src @ NL # drop (Suc ?n) src" using n by (metis id_take_nth_drop)
  ultimately show ?thesis using n by (metis length_take less_imp_le min.absorb2)
qed

lemma saturating_add_resumable:
  "resumable c src \<Longrightarrow> saturating_add (max_length c) (Suc 0) = Suc (max_length c)"
  by (auto simp: resumable_def saturating_add_def)

lemma decode_turn:
  assumes "resumable c src"
  shows "decode c src =
    (if is_discarding c then
       (case split_once NL (take (Suc (max_length c)) src) of
          Some (line, _) \<Rightarrow> decode (c\<lparr>is_discarding := False, next_index := 0\<rparr>) (drop (Suc (length line)) src)
        | None \<Rightarrow>
            if length src \<le> Suc (max_length c) then (Inr None, c\<lparr>next_index := 0\<rparr>, [])
            else decode (c\<lparr>next_index := 0\<rparr>) (drop (Suc (max_length c)) src))
     else
       (case split_once NL (take (Suc (max_length c)) src) of
          Some (line, _) \<Rightarrow>
            (Inr (Some (without_carriage_return line)), c\<lparr>next_index := 0\<rparr>, drop (Suc (length line)) src)
        | None \<Rightarrow>
            if max_length c < length src then (Inl InvalidInput, c\<lparr>is_discarding := True\<rparr>, src)
            else (Inr None, c\<lparr>next_index := length src\<rparr>, src)))"
proof -
  let ?m = "Suc (max_length c)" and ?r = "min (Suc (max_length c)) (length src)"
  let ?p = "position (\<lambda>b. b = NL) (drop (next_index c) (take ?r src))"
  have r: "\<not> ?r < next_index c" "next_index c \<le> ?r" "take ?r src = take ?m src"
    using assms by (auto simp: resumable_def min_def)
  show ?thesis
  proof (cases ?p)
    case None
    then have "split_once NL (take ?m src) = None"
      using window_None [OF assms None] r by simp
    with None r assms show ?thesis
      by (subst decode.simps) (auto simp: Let_def saturating_add_resumable min_def)
  next
    case (Some k)
    then obtain line rest where line: "src = line @ NL # rest" "length line = k + next_index c"
        "length line < ?m" "NL \<notin> set line"
      using window_Some [OF assms Some] by auto
    then have "take ?m src = line @ NL # take (max_length c - length line) rest" by (simp add: take_Cons')
    then have "split_once NL (take ?m src) = Some (line, take (max_length c - length line) rest)"
      using line by simp
    with Some r assms line show ?thesis
      by (subst decode.simps) (auto simp: Let_def saturating_add_resumable)
  qed
qed


lemma owed_skip:
  "is_discarding c \<Longrightarrow> NL \<notin> set a \<Longrightarrow> owed eof c (a @ s) = owed eof c s"
  by (auto simp: owed_def split_once_skip split: option.splits)

lemma owed_next_index [simp]: "owed eof (c\<lparr>next_index := n\<rparr>) s = owed eof c s"
  by (simp add: owed_def cong: option.case_cong)

lemma owed_found:
  "NL \<notin> set line \<Longrightarrow> is_discarding c \<Longrightarrow>
   owed eof c (line @ NL # s) = owed eof (c\<lparr>is_discarding := False, next_index := n\<rparr>) s"
  by (simp add: owed_def)

lemma owed_too_long:
  assumes "NL \<notin> set (take (Suc (max_length c)) s)" and "max_length c < length s" and "\<not> is_discarding c"
  shows "owed eof c (s @ f) = TooLong # owed eof (c\<lparr>is_discarding := True\<rparr>) (s @ f)"
proof (cases "split_once NL (s @ f)")
  case None
  then show ?thesis using assms by (simp add: owed_def events.simps)
next
  case (Some p)
  then obtain line rest where lr: "p = (line, rest)" "s @ f = line @ NL # rest" "NL \<notin> set line"
    using split_once_Some by (metis surj_pair)
  have "max_length c < length line"
  proof (rule ccontr)
    assume "\<not> max_length c < length line"
    then have n: "length line < Suc (max_length c)" by simp
    then have "take (Suc (max_length c)) s ! length line = (s @ f) ! length line"
      using assms(2) by (simp add: nth_append)
    moreover have "(s @ f) ! length line = NL" using lr by simp
    ultimately have "NL \<in> set (take (Suc (max_length c)) s)"
      using n assms(2) by (metis Suc_leI length_take min.absorb2 nth_mem)
    with assms(1) show False by simp
  qed
  then show ?thesis using assms(3) lr by (simp add: owed_def events_line)
qed

lemma resumable_start:
  "resumable c src \<Longrightarrow> resumable (c\<lparr>next_index := 0\<rparr>) s"
  "resumable c src \<Longrightarrow> resumable (c\<lparr>is_discarding := d, next_index := 0\<rparr>) s"
  "resumable c src \<Longrightarrow> resumable (c\<lparr>is_discarding := d\<rparr>) src"
  by (simp_all add: resumable_def)

lemma resumable_append: "resumable c src \<Longrightarrow> resumable c (src @ f)"
  by (simp add: resumable_def)

text \<open>One call of the decoder on a resumable reader: it does not panic, leaves the reader resumable, gives the
  next event of what the reader owes whatever follows, and stops only when nothing is left to give.\<close>

definition decodes :: "BytesLinesCodec \<Rightarrow> bytes \<Rightarrow>
    (CodecError, bytes option) result \<times> BytesLinesCodec \<times> bytes \<Rightarrow> bool" where
  "decodes c src out \<longleftrightarrow>
     (case out of (r, c', src') \<Rightarrow>
        r \<noteq> Inl SliceIndexPanic \<and> resumable c' src' \<and> max_length c' = max_length c \<and>
        (\<forall>eof f. owed eof c (src @ f) = emitted r @ owed eof c' (src' @ f)) \<and> (r = Inr None \<longrightarrow> drained c' src'))"

lemma decodes_mono:
  assumes "decodes c1 src1 out" and "max_length c1 = max_length c"
    and "\<And>eof f. owed eof c (src @ f) = owed eof c1 (src1 @ f)"
  shows "decodes c src out"
  using assms by (auto simp: decodes_def)

lemma decode_decodes:
  "resumable c src \<Longrightarrow> decodes c src (decode c src)"
proof (induction "length src" arbitrary: c src rule: less_induct)
  case less
  let ?w = "take (Suc (max_length c)) src"
  have src: "src = ?w @ drop (Suc (max_length c)) src" by simp
  show ?case
  proof (cases "split_once NL ?w")
    case None
    then have w: "NL \<notin> set ?w" by (metis option.distinct(1) split_list_first split_once_append)
    show ?thesis
    proof (cases "is_discarding c \<and> Suc (max_length c) < length src")
      case True
      let ?c = "c\<lparr>next_index := 0\<rparr>" and ?s = "drop (Suc (max_length c)) src"
      have "decodes ?c ?s (decode ?c ?s)" using True less by (intro less) (auto intro: resumable_start)
      then have "decodes c src (decode ?c ?s)"
        by (rule decodes_mono)
          (simp, metis True append_assoc append_take_drop_id owed_next_index owed_skip w)
      then show ?thesis using True None less.prems by (subst decode_turn) simp_all
    next
      case False
      then show ?thesis
        using None w less.prems owed_skip [of c src] resumable_start [OF less.prems] owed_too_long [OF w]
        by (subst decode_turn) (auto simp: decodes_def drained_def, auto simp: resumable_def)
    qed
  next
    case (Some p)
    then obtain line t where p: "p = (line, t)" "?w = line @ NL # t" "NL \<notin> set line"
      using split_once_Some by (metis surj_pair)
    define rest where "rest = t @ drop (Suc (max_length c)) src"
    have lr: "src = line @ NL # rest" using src p by (simp add: rest_def)
    have len: "length line \<le> max_length c"
      using p(2) by (metis Suc_leI add_leD1 length_Cons length_append length_take less_Suc_eq_le
        linorder_not_le min_less_iff_conj not_less_eq_eq add_Suc_right)
    show ?thesis
    proof (cases "is_discarding c")
      case True
      let ?c = "c\<lparr>is_discarding := False, next_index := 0\<rparr>"
      have "decodes ?c rest (decode ?c rest)" using less lr by (intro less) (auto intro: resumable_start)
      then have "decodes c src (decode ?c rest)"
        by (rule decodes_mono) (use True p lr in \<open>simp_all add: owed_found [where n = 0]\<close>)
      then show ?thesis using True Some p less.prems by (subst decode_turn) (simp_all add: lr)
    next
      case False
      then show ?thesis using Some p len less.prems resumable_start(1) [OF less.prems, of rest]
        by (subst decode_turn) (auto simp: decodes_def lr owed_def events_line)
    qed
  qed
qed

section \<open>Readers\<close>

text \<open>The number of calls a reader can still answer with a frame or an error is bounded.\<close>

definition weight :: "BytesLinesCodec \<Rightarrow> bytes \<Rightarrow> nat" where
  "weight c src = 2 * length src + (if is_discarding c then 0 else 1)"

lemma decode_weight:
  "decode c src = (r, c', src') \<Longrightarrow>
   weight c' src' \<le> weight c src \<and>
   (weight c' src' < weight c src \<or> r = Inr None \<or> r = Inl SliceIndexPanic)"
proof (induction c src arbitrary: r c' src' rule: decode.induct)
  case (1 c src)
  let ?r = "min (saturating_add (max_length c) 1) (length src)"
  let ?p = "position (\<lambda>b. b = NL) (drop (next_index c) (take ?r src))"
  have pos: "0 < saturating_add (max_length c) (Suc 0)" by (rule saturating_add_pos)
  consider "?r < next_index c" | (found) k where "?p = Some k" "is_discarding c" "\<not> ?r < next_index c"
    | (more) "?p = None" "is_discarding c" "drop ?r src \<noteq> []" "\<not> ?r < next_index c"
    | (over) "?p = None" "is_discarding c" "drop ?r src = []" "\<not> ?r < next_index c"
    | (line) "\<not> is_discarding c" "\<not> ?r < next_index c"
    by blast
  then show ?case
  proof cases
    case found
    then have "k + next_index c < length src" using position_less [OF found(1)] by simp
    with found 1 show ?thesis
      by (fastforce simp: weight_def decode.simps [of c src])
  next
    case more
    then show ?thesis using 1 pos by (fastforce simp: weight_def decode.simps [of c src])
  next
    case line
    then show ?thesis
      using 1(3) by (auto simp: weight_def Let_def decode.simps [of c src] dest!: position_less split: option.splits if_splits)
  qed (use 1(3) in \<open>auto simp: weight_def Let_def decode.simps [of c src]\<close>)
qed

text \<open>A reader that calls a decoder until it asks for more bytes; \<open>None\<close> when it panicked.\<close>

function drain :: "BytesLinesCodec \<Rightarrow> bytes \<Rightarrow> (line_event list \<times> BytesLinesCodec \<times> bytes) option" where
  "drain c src =
     (case decode c src of
        (r, c', src') \<Rightarrow>
          if r = Inl SliceIndexPanic then None
          else if r = Inr None then Some ([], c', src')
          else map_option (\<lambda>(es, out). (emitted r @ es, out)) (drain c' src'))"
  by pat_completeness auto
termination
  by (relation "measure (\<lambda>(c, src). weight c src)") (auto dest!: decode_weight [OF sym])

declare drain.simps [simp del]

fun feed :: "BytesLinesCodec \<Rightarrow> bytes \<Rightarrow> bytes list \<Rightarrow> (line_event list \<times> BytesLinesCodec \<times> bytes) option" where
  "feed c src [] = Some ([], c, src)"
| "feed c src (chunk # chunks) =
     (case drain c (src @ chunk) of
        None \<Rightarrow> None
      | Some (es, c', src') \<Rightarrow> map_option (\<lambda>(es', out). (es @ es', out)) (feed c' src' chunks))"

lemma decode_eof_weight:
  assumes "decode_eof c src = (r, c', src')" and "r \<noteq> Inr None" and "r \<noteq> Inl SliceIndexPanic"
  shows "weight c' src' < weight c src"
proof -
  obtain r1 c1 s1 where d: "decode c src = (r1, c1, s1)" by (metis surj_pair)
  have "weight (c1\<lparr>next_index := 0\<rparr>) [] < weight c1 s1" if "s1 \<noteq> []"
    using that by (cases s1) (auto simp: weight_def)
  with assms decode_weight [OF d] show ?thesis
    by (fastforce simp: decode_eof_def d split: sum.splits option.splits if_splits)
qed

function drain_eof :: "BytesLinesCodec \<Rightarrow> bytes \<Rightarrow> (line_event list \<times> BytesLinesCodec \<times> bytes) option" where
  "drain_eof c src =
     (case decode_eof c src of
        (r, c', src') \<Rightarrow>
          if r = Inl SliceIndexPanic then None
          else if r = Inr None then Some ([], c', src')
          else map_option (\<lambda>(es, out). (emitted r @ es, out)) (drain_eof c' src'))"
  by pat_completeness auto
termination
  by (relation "measure (\<lambda>(c, src). weight c src)") (auto intro: decode_eof_weight [OF sym])

declare drain_eof.simps [simp del]

text \<open>A stream that arrives in pieces and ends.\<close>

definition read_stream :: "BytesLinesCodec \<Rightarrow> bytes list \<Rightarrow> line_event list option" where
  "read_stream c chunks =
     (case feed c [] chunks of
        None \<Rightarrow> None
      | Some (es, c', src') \<Rightarrow> map_option (\<lambda>(es', _). es @ es') (drain_eof c' src'))"

text \<open>A writer that encodes frame after frame into one buffer.\<close>

fun encode_all :: "BytesLinesCodec \<Rightarrow> bytes list \<Rightarrow> bytes \<Rightarrow> (CodecError, bytes) result" where
  "encode_all c [] dst = Inr dst"
| "encode_all c (data # frames) dst = rbind (encode c data dst) (encode_all c frames)"

definition runs_to :: "BytesLinesCodec \<Rightarrow> bytes \<Rightarrow> line_event list \<Rightarrow> BytesLinesCodec \<Rightarrow> bytes \<Rightarrow> bool" where
  "runs_to c src es c' src' \<longleftrightarrow>
     resumable c' src' \<and> drained c' src' \<and> max_length c' = max_length c \<and>
     (\<forall>eof f. owed eof c (src @ f) = es @ owed eof c' (src' @ f))"

lemma drain_runs:
  "resumable c src \<Longrightarrow> \<exists>es c' src'. drain c src = Some (es, c', src') \<and> runs_to c src es c' src'"
proof (induction c src rule: drain.induct)
  case (1 c src)
  obtain r c1 s1 where d: "decode c src = (r, c1, s1)" by (metis surj_pair)
  with decode_decodes [OF 1(2)] have step: "r \<noteq> Inl SliceIndexPanic" "resumable c1 s1"
      "max_length c1 = max_length c" "\<And>eof f. owed eof c (src @ f) = emitted r @ owed eof c1 (s1 @ f)"
      "r = Inr None \<Longrightarrow> drained c1 s1"
    by (auto simp: decodes_def)
  show ?case
  proof (cases "r = Inr None")
    case True
    with d step show ?thesis by (simp add: drain.simps [of c src] runs_to_def)
  next
    case False
    with 1(1) [OF d [symmetric] refl] step obtain es c' src' where
        "drain c1 s1 = Some (es, c', src')" "runs_to c1 s1 es c' src'"
      by blast
    with False d step show ?thesis by (simp add: drain.simps [of c src] runs_to_def)
  qed
qed

lemma feed_runs:
  "resumable c src \<Longrightarrow> drained c src \<Longrightarrow>
   \<exists>es c' src'. feed c src chunks = Some (es, c', src') \<and> runs_to c (src @ concat chunks) es c' src'"
proof (induction chunks arbitrary: c src)
  case Nil
  then show ?case by (simp add: runs_to_def)
next
  case (Cons chunk chunks)
  from drain_runs [OF resumable_append [OF Cons.prems(1), of chunk]]
  obtain es c1 s1 where d: "drain c (src @ chunk) = Some (es, c1, s1)" "runs_to c (src @ chunk) es c1 s1"
    by blast
  with Cons.IH [of c1 s1] obtain es' c' s' where "feed c1 s1 chunks = Some (es', c', s')"
      "runs_to c1 (s1 @ concat chunks) es' c' s'"
    by (auto simp: runs_to_def)
  with d show ?case by (auto simp: runs_to_def)
qed

lemma decode_drained:
  "resumable c src \<Longrightarrow> drained c src \<Longrightarrow>
   decode c src = (Inr None, c\<lparr>next_index := length src\<rparr>, src)"
  by (subst decode_turn) (auto simp: drained_def)

lemma drain_eof_drained:
  assumes "resumable c src" and "drained c src"
  shows "\<exists>out. drain_eof c src = Some (owed True c src, out)"
proof (cases "src = [] \<or> src = [CHR 0x0D]")
  case True
  then show ?thesis using assms decode_drained [OF assms]
    by (subst drain_eof.simps) (auto simp: decode_eof_def drained_def owed_def events_rest split: if_splits)
next
  case False
  then have "\<not> is_discarding c" using assms by (auto simp: drained_def split: if_splits)
  moreover have "resumable (c\<lparr>next_index := 0\<rparr>) []" using resumable_start(1) [OF assms(1)] .
  then have "drain_eof (c\<lparr>next_index := 0\<rparr>) [] = Some ([], c\<lparr>next_index := 0\<rparr>, [])"
    using decode_drained [of "c\<lparr>next_index := 0\<rparr>" "[]"]
    by (subst drain_eof.simps) (simp add: decode_eof_def drained_def)
  ultimately show ?thesis using False assms decode_drained [OF assms]
    by (subst drain_eof.simps) (auto simp: decode_eof_def drained_def owed_def events_rest)
qed

lemma resumable_new: "Suc limit < usize_bound \<Longrightarrow> resumable (new_with_max_length limit) []"
  by (simp add: resumable_def new_with_max_length_def BytesLinesCodec_default_def)

lemma owed_new: "owed eof (new_with_max_length limit) s = events eof limit s"
  by (simp add: owed_def new_with_max_length_def BytesLinesCodec_default_def)

lemma drained_new: "drained (new_with_max_length limit) []"
  by (simp add: drained_def new_with_max_length_def BytesLinesCodec_default_def)

lemma chunked_reader:
  assumes "Suc limit < usize_bound"
  shows "read_stream (new_with_max_length limit) chunks = Some (events True limit (concat chunks))"
proof -
  let ?c = "new_with_max_length limit"
  obtain es c' src' where f: "feed ?c [] chunks = Some (es, c', src')" "runs_to ?c (concat chunks) es c' src'"
    using feed_runs [OF resumable_new [OF assms] drained_new, of chunks] by auto
  then obtain out where "drain_eof c' src' = Some (owed True c' src', out)"
    using drain_eof_drained [of c' src'] by (auto simp: runs_to_def)
  moreover have "owed True ?c (concat chunks @ []) = es @ owed True c' (src' @ [])"
    using f(2) unfolding runs_to_def by blast
  ultimately show ?thesis using f by (simp add: read_stream_def owed_new)
qed

text \<open>C6: However a byte stream is cut into pieces, a reader that hands each piece to the decoder, asks until
  it wants more, and asks for the rest at the end of the stream gets exactly the events of the whole
  stream: every line within the limit once, without its line end, one error for each line over the limit
  and nothing else of that line, and the unfinished rest. It always ends and never panics.\<close>

theorem chunked_stream_decodes:
  "Suc limit < usize_bound \<Longrightarrow>
   read_stream (new_with_max_length limit) chunks = Some (events True limit (concat chunks))"
  by (rule chunked_reader)

lemma sample_events:
  "events True 4 (concat [''ab'', ''c'' @ [CHR 0x0D, NL] @ ''over'', ''long'' @ [NL] @ ''x'']) =
   [Frame ''abc'', TooLong, Frame ''x'']"
  by (simp add: events.simps without_carriage_return_def)

theorem chunked_stream_decodes_witness:
  "Suc 4 < usize_bound \<and>
   read_stream (new_with_max_length 4)
     [''ab'', ''c'' @ [CHR 0x0D, NL] @ ''over'', ''long'' @ [NL] @ ''x''] =
   Some [Frame ''abc'', TooLong, Frame ''x'']"
proof -
  have "Suc 4 < usize_bound" by (simp add: usize_bound_def)
  from this chunked_stream_decodes [OF this] show ?thesis using sample_events by simp
qed

text \<open>C34: After any sequence of pieces the reader holds at most \<open>limit\<close> bytes, however long the lines of the
  stream are, and the place it resumes at is inside what it holds.\<close>

theorem reader_buffer_bounded:
  assumes "Suc limit < usize_bound"
  shows "\<exists>es c' src'. feed (new_with_max_length limit) [] chunks = Some (es, c', src') \<and>
           length src' \<le> limit \<and> next_index c' \<le> length src'"
proof -
  have "max_length (new_with_max_length limit) = limit"
    by (simp add: new_with_max_length_def BytesLinesCodec_default_def)
  then show ?thesis using feed_runs [OF resumable_new [OF assms] drained_new, of chunks]
    by (auto simp: runs_to_def drained_def resumable_def split: if_splits)
qed

theorem reader_buffer_bounded_witness:
  "Suc 2 < usize_bound \<and>
   (\<exists>es c' src'. feed (new_with_max_length 2) [] [''abcdef'', ''g'' @ [NL] @ ''hi''] = Some (es, c', src') \<and>
      length src' \<le> 2 \<and> next_index c' \<le> length src')"
proof -
  have "Suc 2 < usize_bound" by (simp add: usize_bound_def)
  from this reader_buffer_bounded [OF this] show ?thesis by blast
qed

lemma encode_all_stream:
  "list_all (\<lambda>frame. length frame \<le> max_length c) frames \<Longrightarrow>
   encode_all c frames dst = Inr (dst @ concat (map (\<lambda>frame. frame @ [NL]) frames))"
  by (induction frames arbitrary: dst) (auto simp: encode_def rbind_def)

text \<open>Data the framing keeps: within the limit, without a line end in it, and not ending with a carriage
  return.\<close>

definition framable :: "nat \<Rightarrow> bytes \<Rightarrow> bool" where
  "framable limit frame \<longleftrightarrow>
     length frame \<le> limit \<and> NL \<notin> set frame \<and> (frame = [] \<or> last frame \<noteq> CHR 0x0D)"

lemma events_framed:
  "list_all (framable limit) frames \<Longrightarrow>
   events eof limit (concat (map (\<lambda>frame. frame @ [NL]) frames)) = map Frame frames"
  by (induction frames) (auto simp: events_line framable_def without_carriage_return_def)

text \<open>C15: Frames that keep to the framing survive the wire: the encoder accepts them, and a reader of the
  encoded bytes gets the same frames in the same order, however the bytes are cut into pieces.\<close>

theorem framed_stream_roundtrip:
  assumes "Suc limit < usize_bound" and "list_all (framable limit) frames"
  shows "\<exists>stream. encode_all (new_with_max_length limit) frames [] = Inr stream \<and>
           (\<forall>chunks. concat chunks = stream \<longrightarrow>
              read_stream (new_with_max_length limit) chunks = Some (map Frame frames))"
proof -
  have "list_all (\<lambda>frame. length frame \<le> max_length (new_with_max_length limit)) frames"
    using assms(2) by (auto simp: list_all_iff framable_def new_with_max_length_def BytesLinesCodec_default_def)
  then show ?thesis
    using encode_all_stream [of "new_with_max_length limit" frames "[]"] chunked_reader [OF assms(1)]
      events_framed [OF assms(2)] by simp
qed

theorem framed_stream_roundtrip_witness:
  "encode_all (new_with_max_length 8) [''one'', [], ''three''] [] =
     Inr (''one'' @ [NL] @ [NL] @ ''three'' @ [NL]) \<and>
   read_stream (new_with_max_length 8) [''on'', ''e'' @ [NL] @ [NL] @ ''thr'', ''ee'' @ [NL]] =
     Some (map Frame [''one'', [], ''three''])"
proof -
  have limit: "Suc 8 < usize_bound" by (simp add: usize_bound_def)
  have ok: "list_all (framable 8) [''one'', [], ''three'']" by (simp add: framable_def)
  have enc: "encode_all (new_with_max_length 8) [''one'', [], ''three''] [] =
     Inr (''one'' @ [NL] @ [NL] @ ''three'' @ [NL])"
    by (simp add: encode_def rbind_def new_with_max_length_def BytesLinesCodec_default_def)
  obtain stream where stream:
      "encode_all (new_with_max_length 8) [''one'', [], ''three''] [] = Inr stream"
      "\<And>chunks. concat chunks = stream \<Longrightarrow>
         read_stream (new_with_max_length 8) chunks = Some (map Frame [''one'', [], ''three''])"
    using framed_stream_roundtrip [OF limit ok] by blast
  show ?thesis
  proof
    show "read_stream (new_with_max_length 8) [''on'', ''e'' @ [NL] @ [NL] @ ''thr'', ''ee'' @ [NL]] =
        Some (map Frame [''one'', [], ''three''])"
      using enc stream(1) by (intro stream(2)) simp
  qed (rule enc)
qed

end
