(* ===== verification/Attribute_Context.thy ===== *)
theory Attribute_Context
  imports SI_Prelude "HOL-Library.Word"
begin

text \<open>
  Attribute contexts, \<open>lib/dal/src/attribute/context.rs\<close> and \<open>context/read.rs\<close>: which prop or provider a value
  belongs to, and to which component. Identifiers are the 128 bits of a ULID (\<open>lib/dal/src/standard_pk.rs\<close>),
  zero being unset. Every operation that does not read the database is modelled. A context is well formed
  when exactly one of the three least specific fields is set; the lemmas show that the checked builder
  gives only such contexts and what the operations do on them.
\<close>

type_synonym Ulid = "128 word"

definition NONE :: Ulid where
  "NONE = 0"

section \<open>Contexts and their builder\<close>

datatype AttributeContextLeastSpecificFieldKind =
  ExternalProvider Ulid | InternalProvider Ulid | Prop Ulid

record AttributeContext =
  prop_id :: Ulid
  internal_provider_id :: Ulid
  external_provider_id :: Ulid
  component_id :: Ulid

type_synonym AttributeContextBuilder = AttributeContext

datatype AttributeContextBuilderError =
    MultipleLeastSpecificFieldsSpecified AttributeContextBuilder
  | PrerequisteFieldsUnset AttributeContextBuilder "string list"

datatype AttributeContextError =
    AttributeContextBuilder AttributeContextBuilderError
  | LeastSpecificFieldKindNotFound

definition AttributeContextBuilder_new :: AttributeContextBuilder where
  "AttributeContextBuilder_new =
     \<lparr>prop_id = NONE, internal_provider_id = NONE, external_provider_id = NONE, component_id = NONE\<rparr>"

definition unset_prop_id :: "AttributeContextBuilder \<Rightarrow> AttributeContextBuilder" where
  "unset_prop_id b = b\<lparr>prop_id := NONE\<rparr>"

definition unset_internal_provider_id :: "AttributeContextBuilder \<Rightarrow> AttributeContextBuilder" where
  "unset_internal_provider_id b = b\<lparr>internal_provider_id := NONE\<rparr>"

definition unset_external_provider_id :: "AttributeContextBuilder \<Rightarrow> AttributeContextBuilder" where
  "unset_external_provider_id b = b\<lparr>external_provider_id := NONE\<rparr>"

definition unset_component_id :: "AttributeContextBuilder \<Rightarrow> AttributeContextBuilder" where
  "unset_component_id b = b\<lparr>component_id := NONE\<rparr>"

definition set_prop_id :: "Ulid \<Rightarrow> AttributeContextBuilder \<Rightarrow> AttributeContextBuilder" where
  "set_prop_id i b = (if i = NONE then unset_prop_id b else b\<lparr>prop_id := i\<rparr>)"

definition set_internal_provider_id :: "Ulid \<Rightarrow> AttributeContextBuilder \<Rightarrow> AttributeContextBuilder" where
  "set_internal_provider_id i b =
     (if i = NONE then unset_internal_provider_id b else b\<lparr>internal_provider_id := i\<rparr>)"

definition set_external_provider_id :: "Ulid \<Rightarrow> AttributeContextBuilder \<Rightarrow> AttributeContextBuilder" where
  "set_external_provider_id i b =
     (if i = NONE then unset_external_provider_id b else b\<lparr>external_provider_id := i\<rparr>)"

definition set_component_id :: "Ulid \<Rightarrow> AttributeContextBuilder \<Rightarrow> AttributeContextBuilder" where
  "set_component_id i b = (if i = NONE then unset_component_id b else b\<lparr>component_id := i\<rparr>)"

definition to_context_unchecked :: "AttributeContextBuilder \<Rightarrow> AttributeContext" where
  "to_context_unchecked b =
     \<lparr>prop_id = prop_id b, internal_provider_id = internal_provider_id b,
      external_provider_id = external_provider_id b, component_id = component_id b\<rparr>"

definition to_context :: "AttributeContextBuilder \<Rightarrow> (AttributeContextBuilderError, AttributeContext) result" where
  "to_context b =
     (let unset_prerequisite_fields =
            (if prop_id b = NONE \<and> internal_provider_id b = NONE \<and> external_provider_id b = NONE
             then [''PropId or InternalProviderId or ExternalProviderId''] else [])
      in if prop_id b \<noteq> NONE \<and> internal_provider_id b \<noteq> NONE \<or>
            prop_id b \<noteq> NONE \<and> external_provider_id b \<noteq> NONE \<or>
            internal_provider_id b \<noteq> NONE \<and> external_provider_id b \<noteq> NONE
         then Inl (MultipleLeastSpecificFieldsSpecified b)
         else if unset_prerequisite_fields \<noteq> []
         then Inl (PrerequisteFieldsUnset b unset_prerequisite_fields)
         else Inr \<lparr>prop_id = prop_id b, internal_provider_id = internal_provider_id b,
                external_provider_id = external_provider_id b, component_id = component_id b\<rparr>)"

definition builder_from_context :: "AttributeContext \<Rightarrow> AttributeContextBuilder" where
  "builder_from_context c =
     \<lparr>prop_id = prop_id c, internal_provider_id = internal_provider_id c,
      external_provider_id = external_provider_id c, component_id = component_id c\<rparr>"

definition is_prop_unset :: "AttributeContext \<Rightarrow> bool" where
  "is_prop_unset c \<longleftrightarrow> prop_id c = NONE"

definition is_internal_provider_unset :: "AttributeContext \<Rightarrow> bool" where
  "is_internal_provider_unset c \<longleftrightarrow> internal_provider_id c = NONE"

definition is_external_provider_unset :: "AttributeContext \<Rightarrow> bool" where
  "is_external_provider_unset c \<longleftrightarrow> external_provider_id c = NONE"

definition is_component_unset :: "AttributeContext \<Rightarrow> bool" where
  "is_component_unset c \<longleftrightarrow> component_id c = NONE"

definition is_least_specific :: "AttributeContext \<Rightarrow> bool" where
  "is_least_specific c \<longleftrightarrow> component_id c = NONE"

definition less_specific :: "AttributeContext \<Rightarrow> (AttributeContextError, AttributeContext) result" where
  "less_specific c =
     (let builder = builder_from_context c;
          builder = (if component_id c \<noteq> NONE then unset_component_id builder else builder)
      in map_err AttributeContextBuilder (to_context builder))"

definition least_specific_field_kind ::
  "AttributeContext \<Rightarrow> (AttributeContextError, AttributeContextLeastSpecificFieldKind) result" where
  "least_specific_field_kind c =
     (if prop_id c \<noteq> NONE then Inr (AttributeContextLeastSpecificFieldKind.Prop (prop_id c))
      else if internal_provider_id c \<noteq> NONE then Inr (InternalProvider (internal_provider_id c))
      else if external_provider_id c \<noteq> NONE then Inr (ExternalProvider (external_provider_id c))
      else Inl LeastSpecificFieldKindNotFound)"

definition is_least_specific_field_kind_prop :: "AttributeContext \<Rightarrow> (AttributeContextError, bool) result" where
  "is_least_specific_field_kind_prop c =
     rbind (least_specific_field_kind c) (\<lambda>k. Inr (case k of
       AttributeContextLeastSpecificFieldKind.Prop _ \<Rightarrow> True | _ \<Rightarrow> False))"

definition is_least_specific_field_kind_internal_provider ::
  "AttributeContext \<Rightarrow> (AttributeContextError, bool) result" where
  "is_least_specific_field_kind_internal_provider c =
     rbind (least_specific_field_kind c) (\<lambda>k. Inr (case k of InternalProvider _ \<Rightarrow> True | _ \<Rightarrow> False))"

definition is_least_specific_field_kind_internal_or_external_provider ::
  "AttributeContext \<Rightarrow> (AttributeContextError, bool) result" where
  "is_least_specific_field_kind_internal_or_external_provider c =
     rbind (least_specific_field_kind c) (\<lambda>k. Inr (case k of
       InternalProvider _ \<Rightarrow> True | ExternalProvider _ \<Rightarrow> True | _ \<Rightarrow> False))"

definition is_least_specific_field_kind_external_provider ::
  "AttributeContext \<Rightarrow> (AttributeContextError, bool) result" where
  "is_least_specific_field_kind_external_provider c =
     rbind (least_specific_field_kind c) (\<lambda>k. Inr (case k of ExternalProvider _ \<Rightarrow> True | _ \<Rightarrow> False))"

section \<open>The order of specificity\<close>

datatype Ordering = Less | Equal | Greater

definition partial_cmp :: "AttributeContext \<Rightarrow> AttributeContext \<Rightarrow> Ordering option" where
  "partial_cmp self other =
     (if \<not> is_component_unset self then
        (if \<not> is_component_unset other then Some Equal else Some Greater)
      else if \<not> is_external_provider_unset self then
        (if \<not> is_component_unset other then Some Less
         else if \<not> is_external_provider_unset other then Some Equal else None)
      else if \<not> is_internal_provider_unset self then
        (if \<not> is_component_unset other then Some Less
         else if \<not> is_internal_provider_unset other then Some Equal else None)
      else if \<not> is_prop_unset self then
        (if \<not> is_component_unset other then Some Less
         else if \<not> is_prop_unset other then Some Equal else None)
      else None)"

section \<open>Contexts for reading\<close>

record AttributeReadContext =
  read_prop_id :: "Ulid option"
  read_internal_provider_id :: "Ulid option"
  read_external_provider_id :: "Ulid option"
  read_component_id :: "Ulid option"

definition AttributeReadContext_default :: AttributeReadContext where
  "AttributeReadContext_default = \<lparr>read_prop_id = Some NONE, read_internal_provider_id = Some NONE,
     read_external_provider_id = Some NONE, read_component_id = Some NONE\<rparr>"

definition read_context_from :: "AttributeContext \<Rightarrow> AttributeReadContext" where
  "read_context_from c = \<lparr>read_prop_id = Some (prop_id c), read_internal_provider_id = Some (internal_provider_id c),
     read_external_provider_id = Some (external_provider_id c), read_component_id = Some (component_id c)\<rparr>"

definition default_with_prop :: "Ulid \<Rightarrow> AttributeReadContext" where
  "default_with_prop i = AttributeReadContext_default\<lparr>read_prop_id := Some i\<rparr>"

definition default_with_prop_and_component_id :: "Ulid \<Rightarrow> Ulid option \<Rightarrow> AttributeReadContext" where
  "default_with_prop_and_component_id i c = AttributeReadContext_default
     \<lparr>read_prop_id := Some i, read_component_id := (case c of Some c \<Rightarrow> Some c | None \<Rightarrow> Some NONE)\<rparr>"

definition default_with_internal_provider :: "Ulid \<Rightarrow> AttributeReadContext" where
  "default_with_internal_provider i = AttributeReadContext_default\<lparr>read_internal_provider_id := Some i\<rparr>"

definition default_with_external_provider :: "Ulid \<Rightarrow> AttributeReadContext" where
  "default_with_external_provider i = AttributeReadContext_default\<lparr>read_external_provider_id := Some i\<rparr>"

definition AttributeReadContext_any :: AttributeReadContext where
  "AttributeReadContext_any = \<lparr>read_prop_id = None, read_internal_provider_id = None,
     read_external_provider_id = None, read_component_id = None\<rparr>"

definition if_some :: "('a \<Rightarrow> 'b \<Rightarrow> 'b) \<Rightarrow> 'a option \<Rightarrow> 'b \<Rightarrow> 'b" where
  "if_some f m b = (case m of None \<Rightarrow> b | Some x \<Rightarrow> f x b)"

definition builder_from_read_context :: "AttributeReadContext \<Rightarrow> AttributeContextBuilder" where
  "builder_from_read_context r =
     if_some set_component_id (read_component_id r)
     (if_some set_external_provider_id (read_external_provider_id r)
     (if_some set_internal_provider_id (read_internal_provider_id r)
     (if_some set_prop_id (read_prop_id r) AttributeContextBuilder_new)))"

section \<open>Well-formed contexts\<close>

definition wf_context :: "AttributeContext \<Rightarrow> bool" where
  "wf_context c \<longleftrightarrow>
     length (filter (\<lambda>i. i \<noteq> NONE) [prop_id c, internal_provider_id c, external_provider_id c]) = 1"

lemmas context_defs = to_context_def builder_from_context_def is_prop_unset_def is_internal_provider_unset_def
  is_external_provider_unset_def is_component_unset_def is_least_specific_def unset_component_id_def

lemma to_context_iff: "to_context b = Inr c \<longleftrightarrow> wf_context b \<and> c = b"
  by (cases b) (auto simp: to_context_def wf_context_def Let_def)

lemma to_context_wf [simp]: "wf_context b \<Longrightarrow> to_context b = Inr b"
  by (simp add: to_context_iff)

text \<open>What a context is scoped to besides a component.\<close>

fun kind_of :: "AttributeContext \<Rightarrow> AttributeContextLeastSpecificFieldKind option" where
  "kind_of c = (case least_specific_field_kind c of Inl _ \<Rightarrow> None | Inr k \<Rightarrow> Some k)"

fun same_kind :: "AttributeContextLeastSpecificFieldKind \<Rightarrow> AttributeContextLeastSpecificFieldKind \<Rightarrow> bool" where
  "same_kind (ExternalProvider _) (ExternalProvider _) = True"
| "same_kind (InternalProvider _) (InternalProvider _) = True"
| "same_kind (AttributeContextLeastSpecificFieldKind.Prop _) (AttributeContextLeastSpecificFieldKind.Prop _) = True"
| "same_kind _ _ = False"

text \<open>C35: Contexts are well formed: the checked builder succeeds exactly when one and only one of prop, internal
  provider and external provider is set, whatever the component, and gives the fields it was given. On such
  a context the least specific field is found, the context it names is the builder's, and widening the scope
  succeeds, clears only the component and changes nothing when done again.\<close>

theorem context_well_formed:
  "(\<exists>c. to_context b = Inr c) = wf_context b \<and>
   (to_context b = Inr c \<longrightarrow>
      c = to_context_unchecked b \<and> wf_context c \<and> (\<exists>k. least_specific_field_kind c = Inr k) \<and>
      less_specific c = Inr (unset_component_id c) \<and> wf_context (unset_component_id c) \<and>
      is_least_specific (unset_component_id c) \<and>
      less_specific (unset_component_id c) = Inr (unset_component_id c))"
proof -
  have keep: "wf_context (unset_component_id c) = wf_context c" for c
    by (simp add: wf_context_def unset_component_id_def)
  have less: "less_specific c = Inr (unset_component_id c)" if "wf_context c" for c
  proof -
    have "(if component_id c \<noteq> NONE then unset_component_id (builder_from_context c) else builder_from_context c) =
        unset_component_id c"
      by (simp add: unset_component_id_def builder_from_context_def)
    then show ?thesis using that by (simp add: less_specific_def keep)
  qed
  have "\<exists>k. least_specific_field_kind c = Inr k" if "wf_context c" for c
    using that by (auto simp: least_specific_field_kind_def wf_context_def split: if_splits)
  then show ?thesis
    using less keep by (auto simp: to_context_iff to_context_unchecked_def is_least_specific_def
        unset_component_id_def)
qed

theorem context_well_formed_witness:
  "to_context (set_component_id 2 (set_prop_id 1 AttributeContextBuilder_new)) =
     Inr \<lparr>prop_id = 1, internal_provider_id = 0, external_provider_id = 0, component_id = 2\<rparr> \<and>
   less_specific \<lparr>prop_id = 1, internal_provider_id = 0, external_provider_id = 0, component_id = 2\<rparr> =
     Inr \<lparr>prop_id = 1, internal_provider_id = 0, external_provider_id = 0, component_id = 0\<rparr>"
proof -
  let ?b = "set_component_id 2 (set_prop_id 1 AttributeContextBuilder_new)"
  let ?c = "\<lparr>prop_id = 1, internal_provider_id = 0, external_provider_id = 0, component_id = 2\<rparr>"
  have b: "to_context ?b = Inr ?c"
    by (simp add: to_context_def set_component_id_def set_prop_id_def AttributeContextBuilder_new_def NONE_def)
  from context_well_formed [of ?b ?c] b have "less_specific ?c = Inr (unset_component_id ?c)" by blast
  with b show ?thesis by (simp add: unset_component_id_def NONE_def)
qed

lemma builder_from_read_context_back: "builder_from_read_context (read_context_from c) = c"
  by (cases c) (simp add: builder_from_read_context_def read_context_from_def if_some_def set_prop_id_def
    set_internal_provider_id_def set_external_provider_id_def set_component_id_def unset_prop_id_def
    unset_internal_provider_id_def unset_external_provider_id_def unset_component_id_def
    AttributeContextBuilder_new_def)

fun reverse :: "Ordering \<Rightarrow> Ordering" where
  "reverse Less = Greater"
| "reverse Equal = Equal"
| "reverse Greater = Less"

text \<open>C36: How contexts compare. A context with a component is above every context without one, whatever the
  two are scoped to, and equal to every context with a component; without components, contexts are equal
  when their least specific fields are of the same kind, and not comparable otherwise. Comparing the other
  way round gives the reverse.\<close>

theorem context_order:
  assumes "to_context b1 = Inr a" and "to_context b2 = Inr b"
    and "least_specific_field_kind a = Inr k" and "least_specific_field_kind b = Inr l"
  shows "partial_cmp a b =
     (if is_component_unset a \<and> is_component_unset b then (if same_kind k l then Some Equal else None)
      else if is_component_unset a then Some Less
      else if is_component_unset b then Some Greater else Some Equal) \<and>
   partial_cmp b a = map_option reverse (partial_cmp a b)"
proof -
  have wf: "wf_context a" "wf_context b" using assms(1,2) by (auto simp: to_context_iff)
  have kind: "(same_kind k l \<longleftrightarrow> (prop_id a \<noteq> NONE \<and> prop_id b \<noteq> NONE) \<or>
      (internal_provider_id a \<noteq> NONE \<and> internal_provider_id b \<noteq> NONE) \<or>
      (external_provider_id a \<noteq> NONE \<and> external_provider_id b \<noteq> NONE))"
    using assms(3,4) wf by (auto simp: least_specific_field_kind_def wf_context_def split: if_splits)
  show ?thesis unfolding kind using wf
    by (auto simp: partial_cmp_def context_defs wf_context_def split: if_splits)
qed

theorem context_order_witness:
  "to_context \<lparr>prop_id = 1, internal_provider_id = 0, external_provider_id = 0, component_id = 2\<rparr> =
     Inr \<lparr>prop_id = 1, internal_provider_id = 0, external_provider_id = 0, component_id = 2\<rparr> \<and>
   to_context \<lparr>prop_id = 0, internal_provider_id = 3, external_provider_id = 0, component_id = 4\<rparr> =
     Inr \<lparr>prop_id = 0, internal_provider_id = 3, external_provider_id = 0, component_id = 4\<rparr> \<and>
   partial_cmp \<lparr>prop_id = 1, internal_provider_id = 0, external_provider_id = 0, component_id = 2\<rparr>
     \<lparr>prop_id = 0, internal_provider_id = 3, external_provider_id = 0, component_id = 4\<rparr> = Some Equal"
proof -
  let ?a = "\<lparr>prop_id = 1, internal_provider_id = 0, external_provider_id = 0, component_id = 2\<rparr> :: AttributeContext"
  let ?b = "\<lparr>prop_id = 0, internal_provider_id = 3, external_provider_id = 0, component_id = 4\<rparr> :: AttributeContext"
  have a: "to_context ?a = Inr ?a" and b: "to_context ?b = Inr ?b"
    by (simp_all add: to_context_def NONE_def)
  have k: "least_specific_field_kind ?a = Inr (AttributeContextLeastSpecificFieldKind.Prop 1)"
    and l: "least_specific_field_kind ?b = Inr (InternalProvider 3)"
    by (simp_all add: least_specific_field_kind_def NONE_def)
  from context_order [OF a b k l] a b show ?thesis by (simp add: is_component_unset_def NONE_def)
qed

end
