(* ===== verification/Asset_Builder.thy ===== *)
theory Asset_Builder
  imports Rust_Text "HOL-Library.AList"
begin

text \<open>
  The builders with which the function of an asset describes it, \<open>bin/lang-js/src/asset_builder.ts\<close>. Every
  interface is a record whose fields are optional, because the builders start from the empty object; the
  state of a builder is the object it builds. A method is a function of that object, and an error it throws
  is the left of a result. Objects are passed by value: a builder is not used again after its object was
  handed on. Values of type \<open>any\<close> and numbers are of type parameters. The names of the interfaces carry
  the prefix \<open>Ts\<close>, since the data access layer has types of the same names.
\<close>

type_synonym 'a thrown = "(bytes, 'a) result"

section \<open>Sources of values and sockets\<close>

datatype ValueFromKind = inputSocket | outputSocket | fromProp

record TsValueFrom =
  tvf_kind :: "ValueFromKind option"
  tvf_socket_name :: "bytes option"
  tvf_prop_path :: "bytes list option"

definition ValueFromBuilder :: TsValueFrom where
  "ValueFromBuilder = \<lparr>tvf_kind = None, tvf_socket_name = None, tvf_prop_path = None\<rparr>"

definition ValueFromBuilder_setKind :: "ValueFromKind \<Rightarrow> TsValueFrom \<Rightarrow> TsValueFrom" where
  "ValueFromBuilder_setKind kind this = this\<lparr>tvf_kind := Some kind\<rparr>"

definition ValueFromBuilder_setSocketName :: "bytes \<Rightarrow> TsValueFrom \<Rightarrow> TsValueFrom" where
  "ValueFromBuilder_setSocketName name this =
     (if tvf_kind this \<noteq> Some inputSocket \<and> tvf_kind this \<noteq> Some outputSocket then this
      else this\<lparr>tvf_socket_name := Some name\<rparr>)"

definition ValueFromBuilder_setPropPath :: "bytes list \<Rightarrow> TsValueFrom \<Rightarrow> TsValueFrom" where
  "ValueFromBuilder_setPropPath path this =
     (if tvf_kind this \<noteq> Some fromProp then this else this\<lparr>tvf_prop_path := Some path\<rparr>)"

datatype SocketDefinitionArityType = many | one

record TsSocketDefinition =
  tsd_name :: "bytes option"
  tsd_arity :: "SocketDefinitionArityType option"
  tsd_uiHidden :: "bool option"
  tsd_valueFrom :: "TsValueFrom option"

definition SocketDefinitionBuilder :: TsSocketDefinition where
  "SocketDefinitionBuilder = \<lparr>tsd_name = None, tsd_arity = None, tsd_uiHidden = None, tsd_valueFrom = None\<rparr>"

definition SocketDefinitionBuilder_setArity ::
  "SocketDefinitionArityType \<Rightarrow> TsSocketDefinition \<Rightarrow> TsSocketDefinition" where
  "SocketDefinitionBuilder_setArity arity this = this\<lparr>tsd_arity := Some arity\<rparr>"

definition SocketDefinitionBuilder_setName :: "bytes \<Rightarrow> TsSocketDefinition \<Rightarrow> TsSocketDefinition" where
  "SocketDefinitionBuilder_setName name this = this\<lparr>tsd_name := Some name\<rparr>"

definition SocketDefinitionBuilder_setUiHidden :: "bool \<Rightarrow> TsSocketDefinition \<Rightarrow> TsSocketDefinition" where
  "SocketDefinitionBuilder_setUiHidden hidden this = this\<lparr>tsd_uiHidden := Some hidden\<rparr>"

definition SocketDefinitionBuilder_setValueFrom ::
  "TsValueFrom \<Rightarrow> TsSocketDefinition \<Rightarrow> TsSocketDefinition" where
  "SocketDefinitionBuilder_setValueFrom valueFrom this = this\<lparr>tsd_valueFrom := Some valueFrom\<rparr>"

section \<open>Validations\<close>

datatype ValidationKind =
    customValidation | integerIsBetweenTwoIntegers | integerIsNotEmpty | stringEquals | stringHasPrefix
  | stringInStringArray | stringIsHexColor | stringIsNotEmpty | stringIsValidIpAddr

record ('j, 'n) TsValidation =
  tva_kind :: "ValidationKind option"
  tva_funcUniqueId :: "(bytes \<times> 'j) list option"
  tva_lowerBound :: "'n option"
  tva_upperBound :: "'n option"
  tva_expected :: "bytes list option"
  tva_displayExpected :: "bool option"

text \<open>A property that is a list, pushed to: created on the first push.\<close>

definition push_to :: "'a \<Rightarrow> 'a list option \<Rightarrow> 'a list option" where
  "push_to x xs = Some ((case xs of None \<Rightarrow> [] | Some ys \<Rightarrow> ys) @ [x])"

definition ValidationBuilder :: "('j, 'n) TsValidation" where
  "ValidationBuilder = \<lparr>tva_kind = None, tva_funcUniqueId = None, tva_lowerBound = None, tva_upperBound = None,
     tva_expected = None, tva_displayExpected = None\<rparr>"

definition ValidationBuilder_addFuncUniqueId ::
  "bytes \<Rightarrow> 'j \<Rightarrow> ('j, 'n) TsValidation \<Rightarrow> ('j, 'n) TsValidation" where
  "ValidationBuilder_addFuncUniqueId key v this =
     (if tva_kind this \<noteq> Some customValidation then this
      else this\<lparr>tva_funcUniqueId :=
        Some (AList.update key v (case tva_funcUniqueId this of None \<Rightarrow> [] | Some m \<Rightarrow> m))\<rparr>)"

definition ValidationBuilder_setDisplayExpected ::
  "bool \<Rightarrow> ('j, 'n) TsValidation \<Rightarrow> ('j, 'n) TsValidation" where
  "ValidationBuilder_setDisplayExpected display this =
     (if tva_kind this \<noteq> Some stringInStringArray then this
      else this\<lparr>tva_displayExpected := Some display\<rparr>)"

definition ValidationBuilder_addExpected :: "bytes \<Rightarrow> ('j, 'n) TsValidation \<Rightarrow> ('j, 'n) TsValidation" where
  "ValidationBuilder_addExpected expected this =
     (if tva_kind this \<noteq> Some stringEquals \<and> tva_kind this \<noteq> Some stringHasPrefix \<and>
         tva_kind this \<noteq> Some stringInStringArray then this
      else this\<lparr>tva_expected := push_to expected (tva_expected this)\<rparr>)"

definition ValidationBuilder_setLowerBound :: "'n \<Rightarrow> ('j, 'n) TsValidation \<Rightarrow> ('j, 'n) TsValidation" where
  "ValidationBuilder_setLowerBound v this =
     (if tva_kind this \<noteq> Some integerIsBetweenTwoIntegers then this else this\<lparr>tva_lowerBound := Some v\<rparr>)"

definition ValidationBuilder_setKind :: "ValidationKind \<Rightarrow> ('j, 'n) TsValidation \<Rightarrow> ('j, 'n) TsValidation" where
  "ValidationBuilder_setKind kind this = this\<lparr>tva_kind := Some kind\<rparr>"

definition ValidationBuilder_setUpperBound :: "'n \<Rightarrow> ('j, 'n) TsValidation \<Rightarrow> ('j, 'n) TsValidation" where
  "ValidationBuilder_setUpperBound v this =
     (if tva_kind this \<noteq> Some integerIsBetweenTwoIntegers then this else this\<lparr>tva_upperBound := Some v\<rparr>)"

section \<open>Widgets, keys of maps and values of the component\<close>

datatype PropWidgetDefinitionKind =
  array | checkbox | color | comboBox | header | mapWidget | secret | select | textWidget | textArea

record Option =
  label :: bytes
  option_value :: bytes

record TsPropWidgetDefinition =
  tpw_kind :: "PropWidgetDefinitionKind option"
  tpw_options :: "Option list option"

definition PropWidgetDefinitionBuilder :: TsPropWidgetDefinition where
  "PropWidgetDefinitionBuilder = \<lparr>tpw_kind = None, tpw_options = None\<rparr>"

definition PropWidgetDefinitionBuilder_setKind ::
  "PropWidgetDefinitionKind \<Rightarrow> TsPropWidgetDefinition \<Rightarrow> TsPropWidgetDefinition" where
  "PropWidgetDefinitionBuilder_setKind kind this = this\<lparr>tpw_kind := Some kind\<rparr>"

definition PropWidgetDefinitionBuilder_addOption ::
  "bytes \<Rightarrow> bytes \<Rightarrow> TsPropWidgetDefinition \<Rightarrow> TsPropWidgetDefinition" where
  "PropWidgetDefinitionBuilder_addOption key v this =
     this\<lparr>tpw_options := push_to \<lparr>label = key, option_value = v\<rparr> (tpw_options this)\<rparr>"

record TsMapKeyFunc =
  tmk_key :: "bytes option"
  tmk_valueFrom :: "TsValueFrom option"

definition MapKeyFuncBuilder :: TsMapKeyFunc where
  "MapKeyFuncBuilder = \<lparr>tmk_key = None, tmk_valueFrom = None\<rparr>"

definition MapKeyFuncBuilder_setKey :: "bytes \<Rightarrow> TsMapKeyFunc \<Rightarrow> TsMapKeyFunc" where
  "MapKeyFuncBuilder_setKey key this = this\<lparr>tmk_key := Some key\<rparr>"

definition MapKeyFuncBuilder_setValueFrom :: "TsValueFrom \<Rightarrow> TsMapKeyFunc \<Rightarrow> TsMapKeyFunc" where
  "MapKeyFuncBuilder_setValueFrom valueFrom this = this\<lparr>tmk_valueFrom := Some valueFrom\<rparr>"

datatype SiPropValueFromDefinitionKind = siColor | siName | siResourcePayload

record SiPropValueFromDefinition =
  tsp_kind :: "SiPropValueFromDefinitionKind option"
  tsp_valueFrom :: "TsValueFrom option"

definition SiPropValueFromDefinitionBuilder :: SiPropValueFromDefinition where
  "SiPropValueFromDefinitionBuilder = \<lparr>tsp_kind = None, tsp_valueFrom = None\<rparr>"

definition SiPropValueFromDefinitionBuilder_setKind ::
  "SiPropValueFromDefinitionKind \<Rightarrow> SiPropValueFromDefinition \<Rightarrow> SiPropValueFromDefinition" where
  "SiPropValueFromDefinitionBuilder_setKind kind this = this\<lparr>tsp_kind := Some kind\<rparr>"

definition SiPropValueFromDefinitionBuilder_setValueFrom ::
  "TsValueFrom \<Rightarrow> SiPropValueFromDefinition \<Rightarrow> SiPropValueFromDefinition" where
  "SiPropValueFromDefinitionBuilder_setValueFrom valueFrom this = this\<lparr>tsp_valueFrom := Some valueFrom\<rparr>"

section \<open>Props\<close>

datatype PropDefinitionKind = arrayProp | booleanProp | integerProp | mapProp | objectProp | stringProp

text \<open>The fields of a prop other than the props it contains, and the prop.\<close>

record ('j, 'n) TsPropFields =
  tp_name :: "bytes option"
  tp_kind :: "PropDefinitionKind option"
  tp_docLinkRef :: "bytes option"
  tp_docLink :: "bytes option"
  tp_widget :: "TsPropWidgetDefinition option"
  tp_valueFrom :: "TsValueFrom option"
  tp_hidden :: "bool option"
  tp_defaultValue :: "'j option"
  tp_validations :: "('j, 'n) TsValidation list option"
  tp_mapKeyFuncs :: "TsMapKeyFunc list option"

datatype ('j, 'n) TsPropDefinition = TsPropDefinition
  (prop_fields: "('j, 'n) TsPropFields") (children: "('j, 'n) TsPropDefinition list option")
  (entry: "('j, 'n) TsPropDefinition option")

fun set_fields :: "(('j, 'n) TsPropFields \<Rightarrow> ('j, 'n) TsPropFields) \<Rightarrow>
    ('j, 'n) TsPropDefinition \<Rightarrow> ('j, 'n) TsPropDefinition" where
  "set_fields f (TsPropDefinition fs cs e) = TsPropDefinition (f fs) cs e"

definition no_fields :: "('j, 'n) TsPropFields" where
  "no_fields = \<lparr>tp_name = None, tp_kind = None, tp_docLinkRef = None, tp_docLink = None, tp_widget = None,
     tp_valueFrom = None, tp_hidden = None, tp_defaultValue = None, tp_validations = None,
     tp_mapKeyFuncs = None\<rparr>"

definition PropBuilder :: "('j, 'n) TsPropDefinition" where
  "PropBuilder = TsPropDefinition no_fields None None"

definition PropBuilder_addChild ::
  "('j, 'n) TsPropDefinition \<Rightarrow> ('j, 'n) TsPropDefinition \<Rightarrow> ('j, 'n) TsPropDefinition thrown" where
  "PropBuilder_addChild child this =
     (if tp_kind (prop_fields this) \<noteq> Some objectProp
      then Inl ''addChild can only be called on props that are objects''
      else Inr (TsPropDefinition (prop_fields this) (push_to child (children this)) (entry this)))"

definition PropBuilder_setEntry ::
  "('j, 'n) TsPropDefinition \<Rightarrow> ('j, 'n) TsPropDefinition \<Rightarrow> ('j, 'n) TsPropDefinition thrown" where
  "PropBuilder_setEntry e this =
     (if tp_kind (prop_fields this) \<noteq> Some arrayProp \<and> tp_kind (prop_fields this) \<noteq> Some mapProp
      then Inl ''setEntry can only be called on prop that are arrays or maps''
      else Inr (TsPropDefinition (prop_fields this) (children this) (Some e)))"

definition PropBuilder_addMapKeyFunc ::
  "TsMapKeyFunc \<Rightarrow> ('j, 'n) TsPropDefinition \<Rightarrow> ('j, 'n) TsPropDefinition" where
  "PropBuilder_addMapKeyFunc func = set_fields (\<lambda>p. p\<lparr>tp_mapKeyFuncs := push_to func (tp_mapKeyFuncs p)\<rparr>)"

definition PropBuilder_addValidation ::
  "('j, 'n) TsValidation \<Rightarrow> ('j, 'n) TsPropDefinition \<Rightarrow> ('j, 'n) TsPropDefinition" where
  "PropBuilder_addValidation validation =
     set_fields (\<lambda>p. p\<lparr>tp_validations := push_to validation (tp_validations p)\<rparr>)"

definition PropBuilder_setDefaultValue ::
  "'j \<Rightarrow> ('j, 'n) TsPropDefinition \<Rightarrow> ('j, 'n) TsPropDefinition" where
  "PropBuilder_setDefaultValue v = set_fields (\<lambda>p. p\<lparr>tp_defaultValue := Some v\<rparr>)"

definition PropBuilder_setDocLink :: "bytes \<Rightarrow> ('j, 'n) TsPropDefinition \<Rightarrow> ('j, 'n) TsPropDefinition" where
  "PropBuilder_setDocLink link = set_fields (\<lambda>p. p\<lparr>tp_docLink := Some link\<rparr>)"

definition PropBuilder_setDocLinkRef :: "bytes \<Rightarrow> ('j, 'n) TsPropDefinition \<Rightarrow> ('j, 'n) TsPropDefinition" where
  "PropBuilder_setDocLinkRef ref = set_fields (\<lambda>p. p\<lparr>tp_docLinkRef := Some ref\<rparr>)"

definition PropBuilder_setHidden :: "bool \<Rightarrow> ('j, 'n) TsPropDefinition \<Rightarrow> ('j, 'n) TsPropDefinition" where
  "PropBuilder_setHidden hidden = set_fields (\<lambda>p. p\<lparr>tp_hidden := Some hidden\<rparr>)"

definition PropBuilder_setKind ::
  "PropDefinitionKind \<Rightarrow> ('j, 'n) TsPropDefinition \<Rightarrow> ('j, 'n) TsPropDefinition" where
  "PropBuilder_setKind kind = set_fields (\<lambda>p. p\<lparr>tp_kind := Some kind\<rparr>)"

definition PropBuilder_setName :: "bytes \<Rightarrow> ('j, 'n) TsPropDefinition \<Rightarrow> ('j, 'n) TsPropDefinition" where
  "PropBuilder_setName name = set_fields (\<lambda>p. p\<lparr>tp_name := Some name\<rparr>)"

definition PropBuilder_setValueFrom ::
  "TsValueFrom \<Rightarrow> ('j, 'n) TsPropDefinition \<Rightarrow> ('j, 'n) TsPropDefinition" where
  "PropBuilder_setValueFrom valueFrom = set_fields (\<lambda>p. p\<lparr>tp_valueFrom := Some valueFrom\<rparr>)"

definition PropBuilder_setWidget ::
  "TsPropWidgetDefinition \<Rightarrow> ('j, 'n) TsPropDefinition \<Rightarrow> ('j, 'n) TsPropDefinition thrown" where
  "PropBuilder_setWidget widget this =
     (if tpw_kind widget = Some secret
      then Inl ''Cannot create prop with secret widget. Use addSecretProp() to create those.''
      else Inr (set_fields (\<lambda>p. p\<lparr>tp_widget := Some widget\<rparr>) this))"

section \<open>Secrets\<close>

record ('j, 'n) SecretPropDefinition =
  sp_prop :: "('j, 'n) TsPropDefinition"
  hasInputSocket :: bool

definition SecretPropBuilder :: "('j, 'n) SecretPropDefinition" where
  "SecretPropBuilder =
     \<lparr>sp_prop = TsPropDefinition (no_fields\<lparr>tp_kind := Some stringProp,
        tp_widget := Some \<lparr>tpw_kind = Some secret, tpw_options = Some []\<rparr>\<rparr>) None None,
      hasInputSocket = True\<rparr>"

definition SecretPropBuilder_setName ::
  "bytes \<Rightarrow> ('j, 'n) SecretPropDefinition \<Rightarrow> ('j, 'n) SecretPropDefinition" where
  "SecretPropBuilder_setName name this = this\<lparr>sp_prop := PropBuilder_setName name (sp_prop this)\<rparr>"

text \<open>Pushing to the options of a widget without options is a type error of the language.\<close>

definition SecretPropBuilder_setSecretKind ::
  "bytes \<Rightarrow> ('j, 'n) SecretPropDefinition \<Rightarrow> ('j, 'n) SecretPropDefinition thrown" where
  "SecretPropBuilder_setSecretKind kind this =
     (case tp_widget (prop_fields (sp_prop this)) of
        None \<Rightarrow> Inr this
      | Some widget \<Rightarrow> (case tpw_options widget of
            None \<Rightarrow> Inl ''TypeError''
          | Some os \<Rightarrow> Inr (this\<lparr>sp_prop := set_fields (\<lambda>p. p\<lparr>tp_widget := Some (widget\<lparr>tpw_options :=
              Some (os @ [\<lparr>label = ''secretKind'', option_value = kind\<rparr>])\<rparr>)\<rparr>) (sp_prop this)\<rparr>)))"

definition SecretPropBuilder_setDocLinkRef ::
  "bytes \<Rightarrow> ('j, 'n) SecretPropDefinition \<Rightarrow> ('j, 'n) SecretPropDefinition" where
  "SecretPropBuilder_setDocLinkRef ref this = this\<lparr>sp_prop := PropBuilder_setDocLinkRef ref (sp_prop this)\<rparr>"

definition SecretPropBuilder_setDocLink ::
  "bytes \<Rightarrow> ('j, 'n) SecretPropDefinition \<Rightarrow> ('j, 'n) SecretPropDefinition" where
  "SecretPropBuilder_setDocLink link this = this\<lparr>sp_prop := PropBuilder_setDocLink link (sp_prop this)\<rparr>"

definition SecretPropBuilder_addValidation ::
  "('j, 'n) TsValidation \<Rightarrow> ('j, 'n) SecretPropDefinition \<Rightarrow> ('j, 'n) SecretPropDefinition" where
  "SecretPropBuilder_addValidation validation this =
     this\<lparr>sp_prop := PropBuilder_addValidation validation (sp_prop this)\<rparr>"

definition SecretPropBuilder_skipInputSocket ::
  "('j, 'n) SecretPropDefinition \<Rightarrow> ('j, 'n) SecretPropDefinition" where
  "SecretPropBuilder_skipInputSocket this = this\<lparr>hasInputSocket := False\<rparr>"

definition secret_kind :: "('j, 'n) TsPropDefinition \<Rightarrow> bytes option" where
  "secret_kind p =
     Option.bind (tp_widget (prop_fields p)) (\<lambda>widget.
     Option.bind (tpw_options widget) (\<lambda>os.
     map_option option_value (find (\<lambda>opt. label opt = ''secretKind'') os)))"

definition SecretPropBuilder_build ::
  "('j, 'n) SecretPropDefinition \<Rightarrow> ('j, 'n) SecretPropDefinition thrown" where
  "SecretPropBuilder_build this =
     (if secret_kind (sp_prop this) = None then Inl ''must call setSecretKind() before build()'' else Inr this)"

record ('j, 'n) SecretDefinition =
  secret_name :: bytes
  secret_props :: "('j, 'n) TsPropDefinition list"

definition SecretDefinitionBuilder :: "('j, 'n) SecretDefinition" where
  "SecretDefinitionBuilder = \<lparr>secret_name = [], secret_props = []\<rparr>"

definition SecretDefinitionBuilder_setName ::
  "bytes \<Rightarrow> ('j, 'n) SecretDefinition \<Rightarrow> ('j, 'n) SecretDefinition" where
  "SecretDefinitionBuilder_setName name this = this\<lparr>secret_name := name\<rparr>"

definition SecretDefinitionBuilder_addProp ::
  "('j, 'n) TsPropDefinition \<Rightarrow> ('j, 'n) SecretDefinition \<Rightarrow> ('j, 'n) SecretDefinition" where
  "SecretDefinitionBuilder_addProp p this = this\<lparr>secret_props := secret_props this @ [p]\<rparr>"

definition SecretDefinitionBuilder_build :: "('j, 'n) SecretDefinition \<Rightarrow> ('j, 'n) SecretDefinition thrown" where
  "SecretDefinitionBuilder_build this =
     (if secret_name this = [] then Inl ''Cannot build SecretDefinition with empty name''
      else if secret_props this = [] then Inl ''Cannot build SecretDefinition with no props''
      else Inr this)"

section \<open>Assets\<close>

record ('j, 'n) Asset =
  as_props :: "('j, 'n) TsPropDefinition list option"
  as_secretProps :: "('j, 'n) SecretPropDefinition list option"
  as_secretDefinition :: "('j, 'n) TsPropDefinition list option"
  as_resourceProps :: "('j, 'n) TsPropDefinition list option"
  as_siPropValueFroms :: "SiPropValueFromDefinition list option"
  as_inputSockets :: "TsSocketDefinition list option"
  as_outputSockets :: "TsSocketDefinition list option"
  as_docLinks :: "(bytes \<times> bytes) list option"

definition AssetBuilder :: "('j, 'n) Asset" where
  "AssetBuilder = \<lparr>as_props = None, as_secretProps = None, as_secretDefinition = None, as_resourceProps = None,
     as_siPropValueFroms = None, as_inputSockets = None, as_outputSockets = None, as_docLinks = None\<rparr>"

definition AssetBuilder_addProp :: "('j, 'n) TsPropDefinition \<Rightarrow> ('j, 'n) Asset \<Rightarrow> ('j, 'n) Asset" where
  "AssetBuilder_addProp p this = this\<lparr>as_props := push_to p (as_props this)\<rparr>"

definition AssetBuilder_addInputSocket :: "TsSocketDefinition \<Rightarrow> ('j, 'n) Asset \<Rightarrow> ('j, 'n) Asset" where
  "AssetBuilder_addInputSocket socket this = this\<lparr>as_inputSockets := push_to socket (as_inputSockets this)\<rparr>"

definition AssetBuilder_addOutputSocket :: "TsSocketDefinition \<Rightarrow> ('j, 'n) Asset \<Rightarrow> ('j, 'n) Asset" where
  "AssetBuilder_addOutputSocket socket this = this\<lparr>as_outputSockets := push_to socket (as_outputSockets this)\<rparr>"

definition AssetBuilder_addSecretProp ::
  "('j, 'n) SecretPropDefinition \<Rightarrow> ('j, 'n) Asset \<Rightarrow> ('j, 'n) Asset thrown" where
  "AssetBuilder_addSecretProp p this =
     (if hasInputSocket p then
        (case secret_kind (sp_prop p) of
           None \<Rightarrow> Inl (''Could not find secretKind for '' @
             (case tp_name (prop_fields (sp_prop p)) of Some name \<Rightarrow> name | None \<Rightarrow> ''undefined''))
         | Some secretKind \<Rightarrow>
             (let this = AssetBuilder_addInputSocket
                    (SocketDefinitionBuilder_setName secretKind
                      (SocketDefinitionBuilder_setArity one SocketDefinitionBuilder)) this;
                  p = p\<lparr>sp_prop := PropBuilder_setValueFrom
                    (ValueFromBuilder_setSocketName secretKind
                      (ValueFromBuilder_setKind inputSocket ValueFromBuilder)) (sp_prop p)\<rparr>
              in Inr (this\<lparr>as_secretProps := push_to p (as_secretProps this)\<rparr>)))
      else Inr (this\<lparr>as_secretProps := push_to p (as_secretProps this)\<rparr>))"

definition AssetBuilder_defineSecret ::
  "('j, 'n) SecretDefinition \<Rightarrow> ('j, 'n) Asset \<Rightarrow> ('j, 'n) Asset thrown" where
  "AssetBuilder_defineSecret def this =
     rbind (SecretPropBuilder_setSecretKind (secret_name def)
              (SecretPropBuilder_setName (secret_name def) SecretPropBuilder)) (\<lambda>p.
     rbind (SecretPropBuilder_build (SecretPropBuilder_skipInputSocket p)) (\<lambda>p.
     rbind (AssetBuilder_addSecretProp p (this\<lparr>as_secretDefinition := Some (secret_props def)\<rparr>)) (\<lambda>this.
     Inr (AssetBuilder_addOutputSocket
            (SocketDefinitionBuilder_setValueFrom
              (ValueFromBuilder_setPropPath [''root'', ''secrets'', secret_name def]
                (ValueFromBuilder_setKind fromProp ValueFromBuilder))
              (SocketDefinitionBuilder_setName (secret_name def)
                (SocketDefinitionBuilder_setArity one SocketDefinitionBuilder))) this))))"

definition AssetBuilder_addResourceProp :: "('j, 'n) TsPropDefinition \<Rightarrow> ('j, 'n) Asset \<Rightarrow> ('j, 'n) Asset" where
  "AssetBuilder_addResourceProp p this = this\<lparr>as_resourceProps := push_to p (as_resourceProps this)\<rparr>"

definition AssetBuilder_addSiPropValueFrom ::
  "SiPropValueFromDefinition \<Rightarrow> ('j, 'n) Asset \<Rightarrow> ('j, 'n) Asset" where
  "AssetBuilder_addSiPropValueFrom v this = this\<lparr>as_siPropValueFroms := push_to v (as_siPropValueFroms this)\<rparr>"

definition AssetBuilder_addDocLink :: "bytes \<Rightarrow> bytes \<Rightarrow> ('j, 'n) Asset \<Rightarrow> ('j, 'n) Asset" where
  "AssetBuilder_addDocLink key v this =
     this\<lparr>as_docLinks := Some (AList.update key v (case as_docLinks this of None \<Rightarrow> [] | Some m \<Rightarrow> m))\<rparr>"

definition AssetBuilder_build :: "('j, 'n) Asset \<Rightarrow> ('j, 'n) Asset thrown" where
  "AssetBuilder_build this =
     (if as_secretDefinition this \<noteq> None \<and> map_option length (as_secretProps this) \<noteq> Some 1
      then Inl (''Secret defining schema shouldn'' @ [CHR 0x27] @ ''t define any extra secret props'')
      else Inr this)"

section \<open>Assets that can be built\<close>

abbreviation elements :: "'a list option \<Rightarrow> 'a set" where
  "elements xs \<equiv> case xs of None \<Rightarrow> {} | Some ys \<Rightarrow> set ys"

lemma elements_push_to [simp]: "elements (push_to x xs) = insert x (elements xs)"
  by (auto simp: push_to_def split: option.splits)

text \<open>The objects an asset builder can have, whatever methods were called on it and in whatever order, as
  long as none of them threw.\<close>

inductive buildable :: "('j, 'n) Asset \<Rightarrow> bool" where
  start: "buildable AssetBuilder"
| addProp: "buildable a \<Longrightarrow> buildable (AssetBuilder_addProp p a)"
| addSecretProp: "buildable a \<Longrightarrow> AssetBuilder_addSecretProp s a = Inr a' \<Longrightarrow> buildable a'"
| defineSecret: "buildable a \<Longrightarrow> AssetBuilder_defineSecret d a = Inr a' \<Longrightarrow> buildable a'"
| addResourceProp: "buildable a \<Longrightarrow> buildable (AssetBuilder_addResourceProp p a)"
| addInputSocket: "buildable a \<Longrightarrow> buildable (AssetBuilder_addInputSocket i a)"
| addOutputSocket: "buildable a \<Longrightarrow> buildable (AssetBuilder_addOutputSocket i a)"
| addSiPropValueFrom: "buildable a \<Longrightarrow> buildable (AssetBuilder_addSiPropValueFrom v a)"
| addDocLink: "buildable a \<Longrightarrow> buildable (AssetBuilder_addDocLink k l a)"

text \<open>A secret prop with a socket is fed by an input socket of the asset that carries the kind of secret.\<close>

definition secret_connected :: "('j, 'n) Asset \<Rightarrow> ('j, 'n) SecretPropDefinition \<Rightarrow> bool" where
  "secret_connected a p \<longleftrightarrow>
     (\<exists>kind. secret_kind (sp_prop p) = Some kind \<and>
        tp_valueFrom (prop_fields (sp_prop p)) =
          Some \<lparr>tvf_kind = Some inputSocket, tvf_socket_name = Some kind, tvf_prop_path = None\<rparr> \<and>
        (\<exists>socket \<in> elements (as_inputSockets a).
           tsd_name socket = Some kind \<and> tsd_arity socket = Some one))"

text \<open>An asset that defines a secret has a prop for it and an output socket that carries the prop.\<close>

definition secret_offered :: "('j, 'n) Asset \<Rightarrow> bytes \<Rightarrow> bool" where
  "secret_offered a name \<longleftrightarrow>
     (\<exists>p \<in> elements (as_secretProps a).
        \<not> hasInputSocket p \<and> tp_name (prop_fields (sp_prop p)) = Some name \<and> secret_kind (sp_prop p) = Some name) \<and>
     (\<exists>socket \<in> elements (as_outputSockets a). tsd_name socket = Some name \<and>
        tsd_valueFrom socket = Some \<lparr>tvf_kind = Some fromProp, tvf_socket_name = None,
          tvf_prop_path = Some [''root'', ''secrets'', name]\<rparr>)"

definition secrets_ok :: "('j, 'n) Asset \<Rightarrow> bool" where
  "secrets_ok a \<longleftrightarrow>
     (\<forall>p \<in> elements (as_secretProps a). hasInputSocket p \<longrightarrow> secret_connected a p) \<and>
     (as_secretDefinition a \<noteq> None \<longrightarrow> (\<exists>name. secret_offered a name))"

lemmas asset_methods = AssetBuilder_def AssetBuilder_addProp_def AssetBuilder_addResourceProp_def
  AssetBuilder_addInputSocket_def AssetBuilder_addOutputSocket_def AssetBuilder_addSiPropValueFrom_def
  AssetBuilder_addDocLink_def

lemma secret_connected_mono:
  "secret_connected a p \<Longrightarrow> elements (as_inputSockets a) \<subseteq> elements (as_inputSockets a') \<Longrightarrow>
   secret_connected a' p"
  unfolding secret_connected_def by blast

lemma secret_offered_mono:
  "secret_offered a n \<Longrightarrow> elements (as_secretProps a) \<subseteq> elements (as_secretProps a') \<Longrightarrow>
   elements (as_outputSockets a) \<subseteq> elements (as_outputSockets a') \<Longrightarrow> secret_offered a' n"
  unfolding secret_offered_def by blast

lemma secrets_ok_mono:
  assumes "secrets_ok a" and "as_secretProps a' = as_secretProps a"
    and "as_secretDefinition a' = as_secretDefinition a"
    and "elements (as_inputSockets a) \<subseteq> elements (as_inputSockets a')"
    and "elements (as_outputSockets a) \<subseteq> elements (as_outputSockets a')"
  shows "secrets_ok a'"
  using assms(1-3) secret_connected_mono [OF _ assms(4)] secret_offered_mono [OF _ _ assms(5)]
  unfolding secrets_ok_def by (metis order_refl)

lemma secrets_ok_push:
  assumes "secrets_ok a" and "as_secretProps a' = push_to p (as_secretProps a)"
    and "as_secretDefinition a' = as_secretDefinition a"
    and "elements (as_inputSockets a) \<subseteq> elements (as_inputSockets a')"
    and "elements (as_outputSockets a) \<subseteq> elements (as_outputSockets a')"
    and "hasInputSocket p \<Longrightarrow> secret_connected a' p"
  shows "secrets_ok a'"
proof -
  have e: "elements (as_secretProps a') = insert p (elements (as_secretProps a))" by (simp add: assms(2))
  have "secret_offered a' n" if "secret_offered a n" for n
    by (rule secret_offered_mono [OF that _ assms(5)]) (simp add: e subset_insertI)
  with assms(1,3,6) secret_connected_mono [OF _ assms(4)] show ?thesis
    unfolding secrets_ok_def e by (metis insertE)
qed

lemma set_fields_simps [simp]:
  "prop_fields (set_fields f p) = f (prop_fields p)"
  by (cases p) simp

lemma addSecretProp_ok:
  assumes "secrets_ok a" and "AssetBuilder_addSecretProp s a = Inr a'"
  shows "secrets_ok a'"
proof (cases "hasInputSocket s")
  case False
  then have a': "a' = a\<lparr>as_secretProps := push_to s (as_secretProps a)\<rparr>"
    using assms(2) by (simp add: AssetBuilder_addSecretProp_def)
  show ?thesis by (rule secrets_ok_push [OF assms(1), where p = s]) (simp_all add: a' False)
next
  case True
  then obtain kind where kind: "secret_kind (sp_prop s) = Some kind"
    using assms(2) by (cases "secret_kind (sp_prop s)") (auto simp: AssetBuilder_addSecretProp_def)
  define p where "p = s\<lparr>sp_prop := PropBuilder_setValueFrom
      \<lparr>tvf_kind = Some inputSocket, tvf_socket_name = Some kind, tvf_prop_path = None\<rparr> (sp_prop s)\<rparr>"
  have a': "a' = a\<lparr>as_inputSockets := push_to
        \<lparr>tsd_name = Some kind, tsd_arity = Some one, tsd_uiHidden = None, tsd_valueFrom = None\<rparr> (as_inputSockets a),
      as_secretProps := push_to p (as_secretProps a)\<rparr>"
    using assms(2) True kind
    by (simp add: AssetBuilder_addSecretProp_def p_def asset_methods SocketDefinitionBuilder_def
          SocketDefinitionBuilder_setName_def SocketDefinitionBuilder_setArity_def ValueFromBuilder_def
          ValueFromBuilder_setKind_def ValueFromBuilder_setSocketName_def Let_def)
  show ?thesis
    by (rule secrets_ok_push [OF assms(1), where p = p])
      (use kind in \<open>auto simp: a' secret_connected_def p_def PropBuilder_setValueFrom_def secret_kind_def\<close>)
qed

definition defined_prop :: "bytes \<Rightarrow> ('j, 'n) SecretPropDefinition" where
  "defined_prop name =
     \<lparr>sp_prop = TsPropDefinition (no_fields\<lparr>tp_kind := Some stringProp, tp_name := Some name,
        tp_widget := Some \<lparr>tpw_kind = Some secret,
          tpw_options = Some [\<lparr>label = ''secretKind'', option_value = name\<rparr>]\<rparr>\<rparr>) None None,
      hasInputSocket = False\<rparr>"

lemma defineSecret_eq:
  "AssetBuilder_defineSecret d a =
     Inr (a\<lparr>as_secretDefinition := Some (secret_props d),
       as_secretProps := push_to (defined_prop (secret_name d)) (as_secretProps a),
       as_outputSockets := push_to \<lparr>tsd_name = Some (secret_name d), tsd_arity = Some one, tsd_uiHidden = None,
         tsd_valueFrom = Some \<lparr>tvf_kind = Some fromProp, tvf_socket_name = None,
           tvf_prop_path = Some [''root'', ''secrets'', secret_name d]\<rparr>\<rparr> (as_outputSockets a)\<rparr>)"
  by (simp add: AssetBuilder_defineSecret_def SecretPropBuilder_setSecretKind_def SecretPropBuilder_setName_def
        PropBuilder_setName_def SecretPropBuilder_def SecretPropBuilder_build_def AssetBuilder_addSecretProp_def
        SecretPropBuilder_skipInputSocket_def secret_kind_def asset_methods SocketDefinitionBuilder_def
        SocketDefinitionBuilder_setName_def SocketDefinitionBuilder_setArity_def ValueFromBuilder_def
        ValueFromBuilder_setKind_def ValueFromBuilder_setPropPath_def SocketDefinitionBuilder_setValueFrom_def
        defined_prop_def)

lemma defined_prop_simps:
  "hasInputSocket (defined_prop n) = False" "tp_name (prop_fields (sp_prop (defined_prop n))) = Some n"
  "secret_kind (sp_prop (defined_prop n)) = Some n"
  by (simp_all add: defined_prop_def secret_kind_def)

lemma defineSecret_ok:
  assumes "secrets_ok a" and "AssetBuilder_defineSecret d a = Inr a'"
  shows "secrets_ok a'"
proof -
  note a' = assms(2) [unfolded defineSecret_eq, simplified, symmetric]
  have "secret_connected a' q" if "secret_connected a q" for q
    using that by (simp add: secret_connected_def a')
  moreover have "secret_offered a' (secret_name d)"
    by (simp add: secret_offered_def a' defined_prop_simps)
  moreover have "elements (as_secretProps a') = insert (defined_prop (secret_name d)) (elements (as_secretProps a))"
    by (simp add: a')
  ultimately show ?thesis using assms(1) defined_prop_simps(1) unfolding secrets_ok_def by (metis insertE)
qed

lemma buildable_secrets_ok: "buildable a \<Longrightarrow> secrets_ok a"
proof (induction rule: buildable.induct)
  case start
  then show ?case by (simp add: secrets_ok_def asset_methods)
next
  case addSecretProp
  then show ?case by (blast intro: addSecretProp_ok)
next
  case defineSecret
  then show ?case by (blast intro: defineSecret_ok)
qed (erule secrets_ok_mono; auto simp: asset_methods)+

end
