(* ===== verification/Key_Value_Lines.thy ===== *)
theory Key_Value_Lines
  imports Rust_Text
begin

text \<open>
  The line format of serialised nodes, \<open>lib/object-tree/src/graph.rs\<close>: \<open>key:len=value\<close> and a
  newline, where the value may itself hold newlines because its byte length is written in front of
  it. Writers (\<open>write_key_value_line\<close>, \<open>write_key_value_line_opt\<close>, \<open>write_separator_bytes\<close>) and
  readers (\<open>parse_key_line\<close>, \<open>read_key_value_line\<close>, \<open>read_key_value_line_opt\<close>, \<open>read_empty_line\<close>)
  are modelled with every error branch. The lemmas give the round trip for every Rust string and
  say when an optional line is skipped without consuming anything.
\<close>

section \<open>Errors\<close>

text \<open>\<open>io::Error\<close>, by the kind the code can meet on a \<open>Cursor<Vec<u8>>\<close>; the boxed source of
  \<open>GraphError::Parse\<close>, by the parser that raised it.\<close>

datatype io_error = InvalidData | UnexpectedEof

datatype parse_error =
    ParseIntError | ParseBoolError | VariantNotFound | Utf8Error | JsonError | UrlParseError
  | ChronoParseError | HashParseError

text \<open>A hash value is its bytes (\<open>si_hash::Hash\<close> wraps the 32-byte array of the hashing crate).\<close>

type_synonym Hash = bytes

text \<open>The variants of \<open>GraphError\<close>; \<open>Panicked\<close> is no variant but the outcome of a panic.\<close>

datatype GraphError =
    BufReadRangeError
  | CheckedArithmeticFailure bytes
  | InvalidNodeVersion bytes
  | IoRead io_error
  | IoWrite io_error
  | MissingRootNode
  | MultipleRootNode
  | NodeWeightNotFound nat bytes
  | Parse parse_error
  | ParseCustom bytes
  | ParseLineBlank bytes
  | ParseLineExpectedKey bytes bytes
  | ParseLineKeyValueFormat bytes
  | UnhashedChild bytes bytes
  | UnhashedNode bytes
  | Verify Hash Hash
  | Panicked bytes

type_synonym 'a graph_reader = "(GraphError, 'a) reader"
type_synonym graph_write = "(GraphError, bytes) result"

section \<open>Buffered reads\<close>

definition read_line :: "bytes graph_reader" where
  "read_line r = (case read_until_nl r of (line, r') \<Rightarrow>
     if utf8_ok line then Inr (line, r') else Inl (IoRead InvalidData))"

definition read_exact :: "nat \<Rightarrow> bytes graph_reader" where
  "read_exact n r =
     (if length r < n then Inl (IoRead UnexpectedEof) else Inr (take n r, drop n r))"

section \<open>Writing lines\<close>

definition kv_line :: "bytes \<Rightarrow> bytes \<Rightarrow> bytes" where
  "kv_line key value = key @ CHR '':'' # show_nat (length value) @ CHR ''='' # value @ [NL]"

definition write_key_value_line :: "bytes \<Rightarrow> bytes \<Rightarrow> graph_write" where
  "write_key_value_line key value = Inr (kv_line key value)"

definition write_key_value_line_opt :: "bytes \<Rightarrow> bytes option \<Rightarrow> graph_write" where
  "write_key_value_line_opt key maybe_value =
     (case maybe_value of Some value \<Rightarrow> write_key_value_line key value | None \<Rightarrow> Inr [])"

definition write_separator_bytes :: graph_write where
  "write_separator_bytes = Inr [NL]"

section \<open>Reading lines\<close>

definition parse_key_line :: "bytes \<Rightarrow> (GraphError, bytes \<times> nat \<times> bytes) result" where
  "parse_key_line line =
     rbind (ok_or (ParseLineKeyValueFormat line) (split_once (CHR ''='') line))
       (\<lambda>(line_key_and_len, line_value).
     rbind (ok_or (ParseLineKeyValueFormat line) (split_once (CHR '':'') line_key_and_len))
       (\<lambda>(line_key, len_str).
     rbind (ok_or (Parse ParseIntError) (usize_from_str len_str))
       (\<lambda>len. Inr (line_key, len, line_value))))"

definition checked_sub :: "nat \<Rightarrow> nat \<Rightarrow> nat option" where
  "checked_sub a b = (if b \<le> a then Some (a - b) else None)"

definition checked_add :: "nat \<Rightarrow> nat \<Rightarrow> nat option" where
  "checked_add a b = (if a + b < usize_bound then Some (a + b) else None)"

text \<open>\<open>vec![0; length]\<close> panics when the capacity does not fit \<open>isize\<close>.\<close>

definition alloc_zeroed :: "nat \<Rightarrow> (GraphError, unit) result" where
  "alloc_zeroed n =
     (if n < 9223372036854775808 then Inr () else Inl (Panicked ''capacity overflow''))"

definition value_of_line :: "nat \<Rightarrow> bytes \<Rightarrow> bytes graph_reader" where
  "value_of_line len line_value =
     (if length line_value - 1 = len then preturn (drop_last_char line_value)
      else if len < length line_value then
        pfail (ParseCustom (''Expected at most '' @ show_nat len @ '' characters, got ''
                 @ show_nat (length line_value) @ '' characters in '' @ line_value))
      else
        pbind (plift (ok_or (CheckedArithmeticFailure ''could not compute remaining bytes'')
                 (checked_sub len (length line_value)))) (\<lambda>remaining_bytes.
        pbind (plift (ok_or (CheckedArithmeticFailure ''could not compute length for remaining vec'')
                 (checked_add remaining_bytes 1))) (\<lambda>length.
        pbind (plift (alloc_zeroed length)) (\<lambda>_.
        pbind (read_exact length) (\<lambda>remaining.
          if utf8_ok remaining then preturn (line_value @ drop_last_char remaining)
          else pfail (Parse Utf8Error))))))"

definition read_key_value_line :: "bytes \<Rightarrow> bytes graph_reader" where
  "read_key_value_line key =
     pbind read_line (\<lambda>line.
     pbind (plift (parse_key_line line)) (\<lambda>(line_key, len, line_value).
       if line_key \<noteq> key then pfail (ParseLineExpectedKey key line_key)
       else value_of_line len line_value))"

definition read_key_value_line_opt :: "bytes \<Rightarrow> bytes option graph_reader" where
  "read_key_value_line_opt key r =
     (if length r < length key + 1 then Inr (None, r)
      else if \<not> utf8_ok (take (length key) r) then Inr (None, r)
      else if take (length key) r = key \<and> r ! length key = CHR '':'' then
        rbind (read_key_value_line key r) (\<lambda>(v, r'). Inr (Some v, r'))
      else Inr (None, r))"

definition read_empty_line :: "unit graph_reader" where
  "read_empty_line =
     pbind read_line (\<lambda>line.
       if trim_end_is_empty line then preturn () else pfail (ParseLineBlank line))"

section \<open>Keys\<close>

text \<open>What the format needs of a key: ASCII text without its two separators and without a newline.
  All keys of the sources are literals with these properties.\<close>

definition key_ok :: "bytes \<Rightarrow> bool" where
  "key_ok k \<longleftrightarrow> k \<noteq> [] \<and> list_all (\<lambda>c. byte c < 128 \<and> c \<noteq> CHR '':'' \<and> c \<noteq> CHR ''='' \<and> c \<noteq> NL) k"

lemma key_okD:
  assumes "key_ok k"
  shows "utf8_ok k" "CHR '':'' \<notin> set k" "CHR ''='' \<notin> set k" "NL \<notin> set k" "k \<noteq> []"
proof -
  have "list_all (\<lambda>c. byte c < 128) k"
    using assms unfolding key_ok_def by (auto elim!: list.pred_mono_strong)
  then show "utf8_ok k" by (rule utf8_ok_ascii)
qed (use assms in \<open>force simp: key_ok_def list_all_iff\<close>)+

lemma digits_clean [simp]:
  "CHR '':'' \<notin> set (show_nat n)" "CHR ''='' \<notin> set (show_nat n)" "NL \<notin> set (show_nat n)"
  by (rule show_nat_not_in, simp)+

section \<open>Round trip of one line\<close>

lemma parse_key_line_kv:
  assumes "key_ok key" and "len < usize_bound"
  shows "parse_key_line (key @ CHR '':'' # show_nat len @ CHR ''='' # v) = Inr (key, len, v)"
proof -
  have "split_once (CHR ''='') ((key @ CHR '':'' # show_nat len) @ CHR ''='' # v)
      = Some (key @ CHR '':'' # show_nat len, v)"
    by (rule split_once_append) (use key_okD [OF assms(1)] in simp)
  then have "split_once (CHR ''='') (key @ CHR '':'' # show_nat len @ CHR ''='' # v)
      = Some (key @ CHR '':'' # show_nat len, v)"
    by simp
  moreover have "split_once (CHR '':'') (key @ CHR '':'' # show_nat len) = Some (key, show_nat len)"
    by (rule split_once_append) (use key_okD [OF assms(1)] in simp)
  ultimately show ?thesis
    using assms(2) by (simp add: parse_key_line_def)
qed

text \<open>The first line of a serialised pair ends at the first newline of the value, or at the
  terminating one; \<open>read_exact\<close> then fetches what is missing.\<close>

lemma first_line_cases:
  obtains (single) "NL \<notin> set v"
  | (multi) a b where "v = a @ NL # b" "NL \<notin> set a"
  by (metis split_list_first)

lemma value_of_line_single:
  "NL \<notin> set v \<Longrightarrow> value_of_line (length v) (v @ [NL]) rest = Inr (v, rest)"
  by (simp add: value_of_line_def)

lemma value_of_line_multi:
  assumes "v = a @ NL # b" and "rust_string v"
  shows "value_of_line (length v) (a @ [NL]) (b @ NL # rest) = Inr (v, rest)"
proof -
  have "utf8_ok b" using assms utf8_ok_cut [of a NL b] by simp
  then have b: "utf8_ok (b @ [NL])" by (simp add: utf8_ok_append)
  have len: "length b + 1 < 9223372036854775808" "length b + 1 < usize_bound"
    using assms by (auto simp: rust_string_def usize_bound_def)
  then show ?thesis
    using b assms(1)
    by (simp add: value_of_line_def checked_sub_def checked_add_def alloc_zeroed_def read_exact_def)
qed

theorem read_kv_line:
  assumes k: "key_ok key" and v: "rust_string value"
  shows "read_key_value_line key (kv_line key value @ rest) = Inr (value, rest)"
proof -
  have pre: "utf8_ok (key @ CHR '':'' # show_nat (length value) @ [CHR ''=''])"
    using key_okD [OF k] by (simp add: utf8_ok_append)
  let ?p = "key @ CHR '':'' # show_nat (length value) @ [CHR ''='']"
  have nl: "NL \<notin> set ?p" using key_okD [OF k] by simp
  have parse: "parse_key_line (?p @ w) = Inr (key, length value, w)" for w
    using parse_key_line_kv [OF k, of "length value" w] v by simp
  show ?thesis
  proof (cases "value" rule: first_line_cases)
    case single
    have "read_until_nl (kv_line key value @ rest) = (?p @ value @ [NL], rest)"
      using read_until_nl_line [of "?p @ value" rest] nl single by (simp add: kv_line_def)
    moreover have "utf8_ok (?p @ value @ [NL])"
      using utf8_ok_append [OF pre] v by (simp add: utf8_ok_append)
    ultimately show ?thesis
      using parse [of "value @ [NL]"] single
      by (simp add: read_key_value_line_def read_line_def pbind_apply value_of_line_single)
  next
    case (multi a b)
    have "read_until_nl (kv_line key value @ rest) = (?p @ a @ [NL], b @ NL # rest)"
      using read_until_nl_line [of "?p @ a" "b @ NL # rest"] nl multi by (simp add: kv_line_def)
    moreover have "utf8_ok a" using v multi utf8_ok_cut [of a NL b] by simp
    then have "utf8_ok (?p @ a @ [NL])"
      using utf8_ok_append [OF pre] by (simp add: utf8_ok_append)
    ultimately show ?thesis
      using parse [of "a @ [NL]"] value_of_line_multi [OF multi(1) v]
      by (simp add: read_key_value_line_def read_line_def pbind_apply)
  qed
qed

lemma read_kv_line_opt:
  assumes k: "key_ok key" and v: "rust_string value"
  shows "read_key_value_line_opt key (kv_line key value @ rest) = Inr (Some value, rest)"
  using read_kv_line [OF k v, of rest] key_okD [OF k]
  by (simp add: read_key_value_line_opt_def kv_line_def nth_append)

text \<open>A line with another key, the end of the buffer, or a separator is left in place.\<close>

lemma prefix_key_eq:
  assumes "take (length k) (k' @ CHR '':'' # x) = k" and "(k' @ CHR '':'' # x) ! length k = CHR '':''"
    and "CHR '':'' \<notin> set k" and "CHR '':'' \<notin> set k'" and "length k < length (k' @ CHR '':'' # x)"
  shows "k = k'"
proof -
  consider "length k < length k'" | "length k = length k'" | "length k' < length k" by linarith
  then show ?thesis
  proof cases
    case 1
    then have "(k' @ CHR '':'' # x) ! length k \<in> set k'" by (simp add: nth_append)
    with assms show ?thesis by simp
  next
    case 2
    with assms(1) show ?thesis by simp
  next
    case 3
    then have "CHR '':'' \<in> set (take (length k) (k' @ CHR '':'' # x))"
      by (simp add: take_Cons')
    with assms(1,3) show ?thesis by simp
  qed
qed

lemma read_kv_line_opt_other:
  assumes "key_ok key" and "key_ok key'" and "key \<noteq> key'"
  shows "read_key_value_line_opt key (kv_line key' value @ rest) = Inr (None, kv_line key' value @ rest)"
proof -
  let ?r = "key' @ CHR '':'' # show_nat (length value) @ CHR ''='' # value @ NL # rest"
  have "\<not> (take (length key) ?r = key \<and> ?r ! length key = CHR '':'')"
    if "length key < length ?r"
    using prefix_key_eq [of key key'] that key_okD [OF assms(1)] key_okD [OF assms(2)] assms(3)
    by blast
  then show ?thesis
    by (auto simp: read_key_value_line_opt_def kv_line_def)
qed

definition rest_ok :: "bytes \<Rightarrow> bool" where
  "rest_ok r \<longleftrightarrow> r = [] \<or> hd r = NL"

lemma rest_ok_simps [simp]: "rest_ok []" "rest_ok (NL # r)"
  by (simp_all add: rest_ok_def)

lemma read_kv_line_opt_rest:
  assumes "key_ok key" and "rest_ok r"
  shows "read_key_value_line_opt key r = Inr (None, r)"
proof (cases r)
  case (Cons c cs)
  with assms(2) have "c = NL" by (simp add: rest_ok_def)
  moreover obtain d ds where "key = d # ds" "d \<noteq> NL"
    using key_okD [OF assms(1)] by (cases key) auto
  ultimately show ?thesis using Cons by (auto simp: read_key_value_line_opt_def)
qed (simp add: read_key_value_line_opt_def)

lemma read_empty_line_sep [simp]: "read_empty_line (NL # r) = Inr ((), r)"
  by (simp add: read_empty_line_def read_line_def pbind_apply trim_end_is_empty_def
      is_whitespace_def)

lemma read_empty_line_eof [simp]: "read_empty_line [] = Inr ((), [])"
  by (simp add: read_empty_line_def read_line_def pbind_apply trim_end_is_empty_def)

lemmas kv_reads = read_kv_line read_kv_line_opt read_kv_line_opt_other read_kv_line_opt_rest

end
