(* ===== verification/Node_Entries.thy ===== *)
theory Node_Entries
  imports Key_Value_Lines
begin

text \<open>
  The serialised form of a node with references to its children, \<open>lib/object-tree/src/graph.rs\<close>
  (\<open>NodeKind\<close>, \<open>NodeEntry\<close>, \<open>NodeWithEntriesRef\<close>, \<open>NodeWithEntries\<close>, \<open>HashedNode\<close>,
  \<open>HashedNodeWithEntries\<close>, \<open>VerifyHash\<close>, \<open>read_node_entry_lines\<close>, \<open>write_header_bytes\<close>), and the
  hash values of \<open>lib/si-hash\<close>. The functions of the hashing crate (\<open>blake3\<close>) are a record of
  parameters; what the code relies on is \<open>blake3_laws\<close>. The traits \<open>WriteBytes\<close> and \<open>ReadBytes\<close> are
  the locale \<open>node_codec\<close>, in which the node with its entries is proved to survive a write and a
  read for every implementation of the two traits.
\<close>

section \<open>Hash values\<close>

record blake3 =
  blake3_hash :: "bytes \<Rightarrow> Hash"
  blake3_to_hex :: "Hash \<Rightarrow> bytes"
  blake3_from_hex :: "bytes \<Rightarrow> Hash option"

definition Hash_new :: "blake3 \<Rightarrow> bytes \<Rightarrow> Hash" where
  "Hash_new B inp = blake3_hash B inp"

definition Hash_to_string :: "blake3 \<Rightarrow> Hash \<Rightarrow> bytes" where
  "Hash_to_string B h = blake3_to_hex B h"

definition Hash_short_string :: "blake3 \<Rightarrow> Hash \<Rightarrow> bytes" where
  "Hash_short_string B h = take 10 (Hash_to_string B h)"

definition Hash_from_str :: "blake3 \<Rightarrow> bytes \<Rightarrow> (parse_error, Hash) result" where
  "Hash_from_str B s = ok_or HashParseError (blake3_from_hex B s)"

text \<open>Documented behaviour of the hashing crate: a hash has 32 bytes, its text is lower-case
  hexadecimal, and parsing that text gives the hash back.\<close>

definition hex_digit :: "char \<Rightarrow> bool" where
  "hex_digit c \<longleftrightarrow> (48 \<le> byte c \<and> byte c \<le> 57) \<or> (97 \<le> byte c \<and> byte c \<le> 102)"

definition hash_ok :: "Hash \<Rightarrow> bool" where
  "hash_ok h \<longleftrightarrow> length h = 32"

definition blake3_laws :: "blake3 \<Rightarrow> bool" where
  "blake3_laws B \<longleftrightarrow> (\<forall>b. hash_ok (blake3_hash B b))
     \<and> (\<forall>h. hash_ok h \<longrightarrow> blake3_from_hex B (blake3_to_hex B h) = Some h
            \<and> length (blake3_to_hex B h) = 64 \<and> list_all hex_digit (blake3_to_hex B h))"

lemma blake3_lawsD:
  assumes "blake3_laws B"
  shows "hash_ok (Hash_new B b)"
    and "hash_ok h \<Longrightarrow> Hash_from_str B (Hash_to_string B h) = Inr h"
    and "hash_ok h \<Longrightarrow> list_all hex_digit (Hash_to_string B h)"
  using assms by (auto simp: blake3_laws_def Hash_new_def Hash_from_str_def Hash_to_string_def)

lemma hex_clean:
  assumes "list_all hex_digit s"
  shows "CHR '' '' \<notin> set s" "NL \<notin> set s" "utf8_ok s"
proof -
  have "list_all (\<lambda>c. byte c < 128) s"
    using assms by (rule list.pred_mono_strong) (auto simp: hex_digit_def)
  then show "utf8_ok s" by (rule utf8_ok_ascii)
qed (use assms in \<open>force simp: list_all_iff hex_digit_def\<close>)+

section \<open>Node kinds and entries\<close>

datatype NodeKind = Leaf | Tree

definition NodeKind_as_ref :: "NodeKind \<Rightarrow> bytes" where
  "NodeKind_as_ref k = (case k of Leaf \<Rightarrow> ''leaf'' | Tree \<Rightarrow> ''tree'')"

definition NodeKind_from_str :: "bytes \<Rightarrow> (parse_error, NodeKind) result" where
  "NodeKind_from_str s =
     (if s = ''leaf'' then Inr Leaf else if s = ''tree'' then Inr Tree else Inl VariantNotFound)"

lemma NodeKind_roundtrip [simp]: "NodeKind_from_str (NodeKind_as_ref k) = Inr k"
  by (cases k) (simp_all add: NodeKind_from_str_def NodeKind_as_ref_def)

lemma NodeKind_clean [simp]:
  "CHR '' '' \<notin> set (NodeKind_as_ref k)" "NL \<notin> set (NodeKind_as_ref k)"
  "rust_string (NodeKind_as_ref k)"
  by (cases k; simp add: NodeKind_as_ref_def rust_string_def)+

record NodeEntry =
  entry_kind :: NodeKind
  entry_hash :: Hash
  entry_name :: bytes

definition write_node_entry :: "blake3 \<Rightarrow> NodeEntry \<Rightarrow> graph_write" where
  "write_node_entry B e =
     Inr (NodeKind_as_ref (entry_kind e) @ CHR '' '' # Hash_to_string B (entry_hash e)
          @ CHR '' '' # entry_name e @ [NL])"

text \<open>One line of \<open>read_node_entry_lines\<close>: \<open>parts.pop()\<close> takes the last of at most three fields.\<close>

definition parse_node_entry_line :: "blake3 \<Rightarrow> bytes \<Rightarrow> (GraphError, NodeEntry) result" where
  "parse_node_entry_line B line =
     (case rev (splitn 3 (CHR '' '') line) of
        [] \<Rightarrow> Inl (ParseCustom ''missing name field in entry line'')
      | [name] \<Rightarrow> Inl (ParseCustom ''missing hash field in entry line'')
      | name # h # ps \<Rightarrow>
          rbind (map_err Parse (Hash_from_str B h)) (\<lambda>hash.
            case ps of
              [] \<Rightarrow> Inl (ParseCustom ''missing kind field in entry line'')
            | k # ps' \<Rightarrow>
                rbind (map_err Parse (NodeKind_from_str k)) (\<lambda>kind.
                  if ps' \<noteq> [] then
                    Inl (ParseCustom (''entry line has more than 3 fields: '' @ line))
                  else Inr \<lparr>entry_kind = kind, entry_hash = hash, entry_name = name\<rparr>)))"

definition read_node_entry_lines :: "blake3 \<Rightarrow> NodeEntry list graph_reader" where
  "read_node_entry_lines B r =
     rbind (mapM (\<lambda>line.
        if utf8_ok line then parse_node_entry_line B (strip_eol line)
        else Inl (IoRead InvalidData)) (raw_lines r))
       (\<lambda>entries. Inr (entries, []))"

section \<open>Nodes with entries\<close>

definition write_header_bytes :: "NodeKind \<Rightarrow> graph_write" where
  "write_header_bytes kind =
     wseq [write_key_value_line ''version'' ''1'',
           write_key_value_line ''node_kind'' (NodeKind_as_ref kind)]"

record 'n NodeWithEntries =
  nwe_kind :: NodeKind
  nwe_inner :: 'n
  nwe_entries :: "NodeEntry list"

definition write_node_with_entries ::
  "('n \<Rightarrow> graph_write) \<Rightarrow> blake3 \<Rightarrow> 'n NodeWithEntries \<Rightarrow> graph_write" where
  "write_node_with_entries write_inner B n =
     wseq ([write_header_bytes (nwe_kind n), write_separator_bytes, write_inner (nwe_inner n)]
       @ (if nwe_entries n \<noteq> [] then
            write_separator_bytes
              # map (write_node_entry B) (sort_key entry_name (nwe_entries n))
          else []))"

definition read_node_with_entries ::
  "'n option graph_reader \<Rightarrow> blake3 \<Rightarrow> 'n NodeWithEntries option graph_reader" where
  "read_node_with_entries read_inner B =
     pbind (read_key_value_line ''version'') (\<lambda>version_str.
       if version_str \<noteq> ''1'' then pfail (InvalidNodeVersion version_str) else
     pbind (read_key_value_line ''node_kind'') (\<lambda>kind_str.
     pbind (plift (map_err Parse (NodeKind_from_str kind_str))) (\<lambda>kind.
     pbind read_empty_line (\<lambda>_.
     pbind read_inner (\<lambda>maybe_node.
       case maybe_node of
         None \<Rightarrow> preturn None
       | Some node \<Rightarrow>
           pbind (case kind of
                    Leaf \<Rightarrow> preturn []
                  | Tree \<Rightarrow> pbind read_empty_line (\<lambda>_. read_node_entry_lines B))
             (\<lambda>entries. preturn
               (Some \<lparr>nwe_kind = kind, nwe_inner = node, nwe_entries = entries\<rparr>)))))))"

definition node_with_entries_from_bytes ::
  "'n option graph_reader \<Rightarrow> blake3 \<Rightarrow> bytes \<Rightarrow> (GraphError, 'n NodeWithEntries option) result" where
  "node_with_entries_from_bytes read_inner B buf =
     rbind (read_node_with_entries read_inner B buf) (\<lambda>(n, _). Inr n)"

section \<open>Hashed nodes\<close>

record 'n HashedNode =
  hn_kind :: NodeKind
  hn_hash :: Hash
  hn_inner :: 'n

record 'n HashedNodeWithEntries =
  hnwe_kind :: NodeKind
  hnwe_hash :: Hash
  hnwe_inner :: 'n
  hnwe_entries :: "NodeEntry list"

definition HashedNodeWithEntries_new ::
  "'n HashedNode \<Rightarrow> NodeEntry list \<Rightarrow> 'n HashedNodeWithEntries" where
  "HashedNodeWithEntries_new n es =
     \<lparr>hnwe_kind = hn_kind n, hnwe_hash = hn_hash n, hnwe_inner = hn_inner n, hnwe_entries = es\<rparr>"

definition from_node_with_entries_and_hash ::
  "'n NodeWithEntries \<Rightarrow> Hash \<Rightarrow> 'n HashedNodeWithEntries" where
  "from_node_with_entries_and_hash n h =
     \<lparr>hnwe_kind = nwe_kind n, hnwe_hash = h, hnwe_inner = nwe_inner n,
      hnwe_entries = nwe_entries n\<rparr>"

definition as_node_with_entries_ref :: "'n HashedNodeWithEntries \<Rightarrow> 'n NodeWithEntries" where
  "as_node_with_entries_ref n =
     \<lparr>nwe_kind = hnwe_kind n, nwe_inner = hnwe_inner n, nwe_entries = hnwe_entries n\<rparr>"

definition write_hashed_node_with_entries ::
  "('n \<Rightarrow> graph_write) \<Rightarrow> blake3 \<Rightarrow> 'n HashedNodeWithEntries \<Rightarrow> graph_write" where
  "write_hashed_node_with_entries write_inner B n =
     write_node_with_entries write_inner B (as_node_with_entries_ref n)"

definition verify_hash ::
  "('n \<Rightarrow> graph_write) \<Rightarrow> blake3 \<Rightarrow> 'n HashedNodeWithEntries \<Rightarrow> (GraphError, unit) result" where
  "verify_hash write_inner B n =
     rbind (write_hashed_node_with_entries write_inner B n) (\<lambda>inp.
       let computed = Hash_new B inp in
       if hnwe_hash n = computed then Inr () else Inl (Verify (hnwe_hash n) computed))"

definition into_hashed_node :: "'n HashedNodeWithEntries \<Rightarrow> 'n HashedNode \<times> NodeEntry list" where
  "into_hashed_node n =
     (\<lparr>hn_kind = hnwe_kind n, hn_hash = hnwe_hash n, hn_inner = hnwe_inner n\<rparr>, hnwe_entries n)"

definition node_entry_of :: "('n \<Rightarrow> bytes) \<Rightarrow> 'n HashedNode \<Rightarrow> NodeEntry" where
  "node_entry_of name n =
     \<lparr>entry_kind = hn_kind n, entry_hash = hn_hash n, entry_name = name (hn_inner n)\<rparr>"

section \<open>Entry lines survive a write and a read\<close>

text \<open>A name is written as it is and read up to the end of its line, so it must not hold a newline
  nor end in a carriage return.\<close>

definition entry_name_ok :: "bytes \<Rightarrow> bool" where
  "entry_name_ok s \<longleftrightarrow> utf8_ok s \<and> NL \<notin> set s \<and> (s = [] \<or> last s \<noteq> CR)"

definition entry_ok :: "NodeEntry \<Rightarrow> bool" where
  "entry_ok e \<longleftrightarrow> hash_ok (entry_hash e) \<and> entry_name_ok (entry_name e)"

definition entry_text :: "blake3 \<Rightarrow> NodeEntry \<Rightarrow> bytes" where
  "entry_text B e = NodeKind_as_ref (entry_kind e) @ CHR '' '' # Hash_to_string B (entry_hash e)
     @ CHR '' '' # entry_name e"

lemma write_node_entry_text: "write_node_entry B e = Inr (entry_text B e @ [NL])"
  by (simp add: write_node_entry_def entry_text_def)

lemma splitn_entry_text:
  assumes "blake3_laws B" and "entry_ok e"
  shows "splitn 3 (CHR '' '') (entry_text B e)
    = [NodeKind_as_ref (entry_kind e), Hash_to_string B (entry_hash e), entry_name e]"
  using hex_clean [OF blake3_lawsD(3) [OF assms(1), of "entry_hash e"]] assms(2)
  by (simp add: entry_text_def entry_ok_def numeral_3_eq_3)

lemma parse_entry_text:
  assumes "blake3_laws B" and "entry_ok e"
  shows "parse_node_entry_line B (entry_text B e) = Inr e"
  using assms blake3_lawsD(2) [OF assms(1), of "entry_hash e"]
  by (simp add: parse_node_entry_line_def splitn_entry_text entry_ok_def)

lemma entry_text_clean:
  assumes "blake3_laws B" and "entry_ok e"
  shows "NL \<notin> set (entry_text B e)" "utf8_ok (entry_text B e)"
    "strip_eol (entry_text B e @ [NL]) = entry_text B e"
proof -
  note h = hex_clean [OF blake3_lawsD(3) [OF assms(1), of "entry_hash e"]]
  show "NL \<notin> set (entry_text B e)" "utf8_ok (entry_text B e)"
    using h assms(2) by (auto simp: entry_text_def entry_ok_def entry_name_ok_def utf8_ok_append)
  have "last (entry_text B e) \<noteq> CR"
    using assms(2) by (auto simp: entry_text_def entry_ok_def entry_name_ok_def)
  then show "strip_eol (entry_text B e @ [NL]) = entry_text B e"
    by simp
qed

lemma read_entry_lines:
  assumes "blake3_laws B" and "list_all entry_ok es"
  shows "read_node_entry_lines B (concat (map (\<lambda>e. entry_text B e @ [NL]) es)) = Inr (es, [])"
proof -
  have lines: "raw_lines (concat (map (\<lambda>e. entry_text B e @ [NL]) es))
      = map (\<lambda>e. entry_text B e @ [NL]) es"
    using assms(2) by (induction es) (simp_all add: entry_text_clean [OF assms(1)])
  have "mapM (\<lambda>line. if utf8_ok line then parse_node_entry_line B (strip_eol line)
          else Inl (IoRead InvalidData)) (map (\<lambda>e. entry_text B e @ [NL]) es) = Inr es"
    using assms(2)
    by (induction es)
      (simp_all add: entry_text_clean [OF assms(1)] utf8_ok_append parse_entry_text [OF assms(1)])
  with lines show ?thesis
    by (simp add: read_node_entry_lines_def)
qed

lemma sort_key_idem: "sort_key f (sort_key f xs) = sort_key f xs"
  by (rule sort_key_id_if_sorted) simp

lemma sort_key_Nil_iff [simp]: "sort_key f xs = [] \<longleftrightarrow> xs = []"
  by (metis length_0_conv length_sort)

text \<open>What a node with entries must satisfy to be read back, and what is read: the normal form of the
  inner node, the entries in the order of their names.\<close>

definition nwe_ok :: "('n \<Rightarrow> bool) \<Rightarrow> 'n NodeWithEntries \<Rightarrow> bool" where
  "nwe_ok valid n \<longleftrightarrow> valid (nwe_inner n) \<and> list_all entry_ok (nwe_entries n)
     \<and> (nwe_kind n = Leaf \<longrightarrow> nwe_entries n = [])"

definition nwe_norm :: "('n \<Rightarrow> 'n) \<Rightarrow> 'n NodeWithEntries \<Rightarrow> 'n NodeWithEntries" where
  "nwe_norm norm n = n\<lparr>nwe_inner := norm (nwe_inner n),
                   nwe_entries := sort_key entry_name (nwe_entries n)\<rparr>"

lemma nwe_bytes:
  assumes "wr (nwe_inner n) = Inr b"
  shows "write_node_with_entries wr B n =
    Inr (kv_line ''version'' ''1'' @ kv_line ''node_kind'' (NodeKind_as_ref (nwe_kind n)) @ NL # b
      @ (if nwe_entries n = [] then [] else
          NL # concat (map (\<lambda>e. entry_text B e @ [NL]) (sort_key entry_name (nwe_entries n)))))"
proof -
  have "wseq (map (write_node_entry B) es) = Inr (concat (map (\<lambda>e. entry_text B e @ [NL]) es))" for es
    using wseq_Inr [of "map (\<lambda>e. entry_text B e @ [NL]) es"]
    by (simp add: write_node_entry_text [abs_def] comp_def)
  then show ?thesis
    using assms by (simp add: write_node_with_entries_def write_header_bytes_def
        write_key_value_line_def write_separator_bytes_def)
qed

lemma nwe_writable: "is_ok (wr (nwe_inner n)) \<Longrightarrow> is_ok (write_node_with_entries wr B n)"
  using nwe_bytes [where B = B and n = n and wr = wr] by (cases "wr (nwe_inner n)") auto

section \<open>The codec interface\<close>

text \<open>\<open>WriteBytes\<close> and \<open>ReadBytes\<close> of an inner node type: writing succeeds on well-formed values, and
  reading the bytes gives the normal form of the value and leaves what follows, which is the end of
  the buffer or the separator. A normal form is well formed and is written to the same bytes.\<close>

locale node_codec =
  fixes wr :: "'n \<Rightarrow> graph_write"
    and rd :: "'n option graph_reader"
    and norm :: "'n \<Rightarrow> 'n"
    and valid :: "'n \<Rightarrow> bool"
  assumes write_ok: "valid n \<Longrightarrow> is_ok (wr n)"
    and read_back: "valid n \<Longrightarrow> wr n = Inr b \<Longrightarrow> rest_ok rest \<Longrightarrow>
      rd (b @ rest) = Inr (Some (norm n), rest)"
    and norm_valid: "valid n \<Longrightarrow> valid (norm n)"
    and norm_write: "valid n \<Longrightarrow> wr (norm n) = wr n"
begin

lemma nwe_write_ok: "nwe_ok valid n \<Longrightarrow> is_ok (write_node_with_entries wr B n)"
  by (rule nwe_writable) (simp add: write_ok nwe_ok_def)

theorem nwe_roundtrip:
  assumes B: "blake3_laws B" and n: "nwe_ok valid n" and w: "write_node_with_entries wr B n = Inr bs"
  shows "node_with_entries_from_bytes rd B bs = Inr (Some (nwe_norm norm n))"
proof -
  from write_ok [of "nwe_inner n"] n obtain b where b: "wr (nwe_inner n) = Inr b"
    by (cases "wr (nwe_inner n)") (auto simp: nwe_ok_def)
  let ?es = "sort_key entry_name (nwe_entries n)"
  define rest where "rest = (if nwe_entries n = [] then []
    else NL # concat (map (\<lambda>e. entry_text B e @ [NL]) ?es))"
  have bs: "bs = kv_line ''version'' ''1'' @ kv_line ''node_kind'' (NodeKind_as_ref (nwe_kind n))
      @ NL # b @ rest"
    using nwe_bytes [where B = B and n = n and wr = wr, OF b] w by (simp add: rest_def)
  have rest: "rest_ok rest" by (simp add: rest_def)
  have keys: "key_ok ''version''" "key_ok ''node_kind''" by (simp_all add: key_ok_def)
  have one: "rust_string ''1''" by (simp add: rust_string_def)
  have "list_all entry_ok ?es" using n by (auto simp: nwe_ok_def list_all_iff)
  then have ents: "pbind read_empty_line (\<lambda>_. read_node_entry_lines B) rest = Inr (?es, [])"
    using read_entry_lines [OF B, of ?es]
    by (cases "nwe_entries n = []") (simp_all add: rest_def read_node_entry_lines_def)
  have inner: "rd (b @ rest) = Inr (Some (norm (nwe_inner n)), rest)"
    using n b rest by (intro read_back) (auto simp: nwe_ok_def)
  have kinds: "nwe_kind n = Leaf \<Longrightarrow> ?es = []" using n by (simp add: nwe_ok_def)
  show ?thesis
    using ents inner kinds
    by (cases "nwe_kind n")
      (simp_all add: bs node_with_entries_from_bytes_def read_node_with_entries_def
        read_kv_line [OF keys(1) one] read_kv_line [OF keys(2)] nwe_norm_def)
qed

lemma nwe_norm_write:
  assumes "nwe_ok valid n"
  shows "write_node_with_entries wr B (nwe_norm norm n) = write_node_with_entries wr B n"
  using assms norm_write [of "nwe_inner n"]
  by (simp add: sort_key_idem write_node_with_entries_def nwe_norm_def nwe_ok_def)

end

end
