(* ===== verification/Pkg_Enums.thy ===== *)
theory Pkg_Enums
  imports Node_Entries
begin

text \<open>
  The enumerations of \<open>lib/si-pkg/src/spec\<close> (and \<open>SiPkgKind\<close> of \<open>lib/si-pkg/src/pkg.rs\<close>) with the
  text forms their \<open>Display\<close> and \<open>EnumString\<close> derivations define: a variant is printed as its name
  (\<open>SiPkgKind\<close> in camel case) and parsed by comparing with these texts. The contract of such a
  derivation is the locale \<open>strum_enum\<close>, interpreted for every enumeration.
\<close>

section \<open>The derived conversions\<close>

definition enum_from_str :: "('a \<Rightarrow> bytes) \<Rightarrow> 'a list \<Rightarrow> bytes \<Rightarrow> (parse_error, 'a) result" where
  "enum_from_str to_str variants s = ok_or VariantNotFound (find (\<lambda>v. to_str v = s) variants)"

definition plain_name :: "bytes \<Rightarrow> bool" where
  "plain_name s \<longleftrightarrow> s \<noteq> [] \<and> length s < 1000 \<and> list_all (\<lambda>c. byte c < 128) s"

lemma plain_name_ok: "plain_name s \<Longrightarrow> rust_string s \<and> s \<noteq> []"
  by (simp add: plain_name_def rust_string_def utf8_ok_ascii)

locale strum_enum =
  fixes to_str :: "'a \<Rightarrow> bytes" and variants :: "'a list"
  assumes complete: "v \<in> set variants"
    and names_distinct: "distinct (map to_str variants)"
    and names_plain: "list_all (\<lambda>v. plain_name (to_str v)) variants"
begin

lemma to_str_inj: "to_str v = to_str w \<longleftrightarrow> v = w"
  using names_distinct complete by (auto simp: distinct_map dest: inj_onD)

lemma from_str_to_str: "enum_from_str to_str variants (to_str v) = Inr v"
proof -
  have "find (\<lambda>w. w = v) xs = Some v" if "v \<in> set xs" for xs
    using that by (induction xs) auto
  then show ?thesis
    using complete by (simp add: enum_from_str_def to_str_inj)
qed

lemma from_str_iff: "enum_from_str to_str variants s = Inr v \<longleftrightarrow> s = to_str v"
  using from_str_to_str by (auto simp: enum_from_str_def find_Some_iff)

lemma to_str_ok: "rust_string (to_str v)" "to_str v \<noteq> []"
  using names_plain complete [of v] plain_name_ok [of "to_str v"] by (auto simp: list_all_iff)

end

section \<open>The enumerations\<close>

datatype ActionFuncSpecKind =
    Create | Refresh | Other | Delete

fun ActionFuncSpecKind_to_string :: "ActionFuncSpecKind \<Rightarrow> bytes" where
  "ActionFuncSpecKind_to_string ActionFuncSpecKind.Create = ''Create''"
| "ActionFuncSpecKind_to_string ActionFuncSpecKind.Refresh = ''Refresh''"
| "ActionFuncSpecKind_to_string ActionFuncSpecKind.Other = ''Other''"
| "ActionFuncSpecKind_to_string ActionFuncSpecKind.Delete = ''Delete''"

definition ActionFuncSpecKind_variants :: "ActionFuncSpecKind list" where
  "ActionFuncSpecKind_variants =
     [ActionFuncSpecKind.Create, ActionFuncSpecKind.Refresh, ActionFuncSpecKind.Other,
     ActionFuncSpecKind.Delete]"

definition ActionFuncSpecKind_from_str :: "bytes \<Rightarrow> (parse_error, ActionFuncSpecKind) result" where
  "ActionFuncSpecKind_from_str = enum_from_str ActionFuncSpecKind_to_string ActionFuncSpecKind_variants"

interpretation action_func_spec_kind: strum_enum ActionFuncSpecKind_to_string ActionFuncSpecKind_variants
proof unfold_locales
  show "v \<in> set ActionFuncSpecKind_variants" for v by (cases v) (simp_all add: ActionFuncSpecKind_variants_def)
qed (simp_all add: ActionFuncSpecKind_variants_def plain_name_def)

lemma ActionFuncSpecKind_roundtrip [simp, enum_roundtrip]: "ActionFuncSpecKind_from_str (ActionFuncSpecKind_to_string v) = Inr v"
  by (simp add: ActionFuncSpecKind_from_str_def action_func_spec_kind.from_str_to_str)

declare action_func_spec_kind.to_str_ok [simp]

datatype AttrFuncInputSpecKind =
    InputSocket | OutputSocket | Prop

fun AttrFuncInputSpecKind_to_string :: "AttrFuncInputSpecKind \<Rightarrow> bytes" where
  "AttrFuncInputSpecKind_to_string AttrFuncInputSpecKind.InputSocket = ''InputSocket''"
| "AttrFuncInputSpecKind_to_string AttrFuncInputSpecKind.OutputSocket = ''OutputSocket''"
| "AttrFuncInputSpecKind_to_string AttrFuncInputSpecKind.Prop = ''Prop''"

definition AttrFuncInputSpecKind_variants :: "AttrFuncInputSpecKind list" where
  "AttrFuncInputSpecKind_variants =
     [AttrFuncInputSpecKind.InputSocket, AttrFuncInputSpecKind.OutputSocket,
     AttrFuncInputSpecKind.Prop]"

definition AttrFuncInputSpecKind_from_str :: "bytes \<Rightarrow> (parse_error, AttrFuncInputSpecKind) result" where
  "AttrFuncInputSpecKind_from_str = enum_from_str AttrFuncInputSpecKind_to_string AttrFuncInputSpecKind_variants"

interpretation attr_func_input_spec_kind: strum_enum AttrFuncInputSpecKind_to_string AttrFuncInputSpecKind_variants
proof unfold_locales
  show "v \<in> set AttrFuncInputSpecKind_variants" for v by (cases v) (simp_all add: AttrFuncInputSpecKind_variants_def)
qed (simp_all add: AttrFuncInputSpecKind_variants_def plain_name_def)

lemma AttrFuncInputSpecKind_roundtrip [simp, enum_roundtrip]: "AttrFuncInputSpecKind_from_str (AttrFuncInputSpecKind_to_string v) = Inr v"
  by (simp add: AttrFuncInputSpecKind_from_str_def attr_func_input_spec_kind.from_str_to_str)

declare attr_func_input_spec_kind.to_str_ok [simp]

datatype ChangeSetSpecStatus =
    Abandoned | Applied | Closed | Failed | Open

fun ChangeSetSpecStatus_to_string :: "ChangeSetSpecStatus \<Rightarrow> bytes" where
  "ChangeSetSpecStatus_to_string ChangeSetSpecStatus.Abandoned = ''Abandoned''"
| "ChangeSetSpecStatus_to_string ChangeSetSpecStatus.Applied = ''Applied''"
| "ChangeSetSpecStatus_to_string ChangeSetSpecStatus.Closed = ''Closed''"
| "ChangeSetSpecStatus_to_string ChangeSetSpecStatus.Failed = ''Failed''"
| "ChangeSetSpecStatus_to_string ChangeSetSpecStatus.Open = ''Open''"

definition ChangeSetSpecStatus_variants :: "ChangeSetSpecStatus list" where
  "ChangeSetSpecStatus_variants =
     [ChangeSetSpecStatus.Abandoned, ChangeSetSpecStatus.Applied, ChangeSetSpecStatus.Closed,
     ChangeSetSpecStatus.Failed, ChangeSetSpecStatus.Open]"

definition ChangeSetSpecStatus_from_str :: "bytes \<Rightarrow> (parse_error, ChangeSetSpecStatus) result" where
  "ChangeSetSpecStatus_from_str = enum_from_str ChangeSetSpecStatus_to_string ChangeSetSpecStatus_variants"

interpretation change_set_spec_status: strum_enum ChangeSetSpecStatus_to_string ChangeSetSpecStatus_variants
proof unfold_locales
  show "v \<in> set ChangeSetSpecStatus_variants" for v by (cases v) (simp_all add: ChangeSetSpecStatus_variants_def)
qed (simp_all add: ChangeSetSpecStatus_variants_def plain_name_def)

lemma ChangeSetSpecStatus_roundtrip [simp, enum_roundtrip]: "ChangeSetSpecStatus_from_str (ChangeSetSpecStatus_to_string v) = Inr v"
  by (simp add: ChangeSetSpecStatus_from_str_def change_set_spec_status.from_str_to_str)

declare change_set_spec_status.to_str_ok [simp]

datatype EdgeSpecKind =
    Configuration | Symbolic

fun EdgeSpecKind_to_string :: "EdgeSpecKind \<Rightarrow> bytes" where
  "EdgeSpecKind_to_string EdgeSpecKind.Configuration = ''Configuration''"
| "EdgeSpecKind_to_string EdgeSpecKind.Symbolic = ''Symbolic''"

definition EdgeSpecKind_variants :: "EdgeSpecKind list" where
  "EdgeSpecKind_variants =
     [EdgeSpecKind.Configuration, EdgeSpecKind.Symbolic]"

definition EdgeSpecKind_from_str :: "bytes \<Rightarrow> (parse_error, EdgeSpecKind) result" where
  "EdgeSpecKind_from_str = enum_from_str EdgeSpecKind_to_string EdgeSpecKind_variants"

interpretation edge_spec_kind: strum_enum EdgeSpecKind_to_string EdgeSpecKind_variants
proof unfold_locales
  show "v \<in> set EdgeSpecKind_variants" for v by (cases v) (simp_all add: EdgeSpecKind_variants_def)
qed (simp_all add: EdgeSpecKind_variants_def plain_name_def)

lemma EdgeSpecKind_roundtrip [simp, enum_roundtrip]: "EdgeSpecKind_from_str (EdgeSpecKind_to_string v) = Inr v"
  by (simp add: EdgeSpecKind_from_str_def edge_spec_kind.from_str_to_str)

declare edge_spec_kind.to_str_ok [simp]

datatype FuncArgumentKind =
    Any | Array | Boolean | Integer | Map | Object | String

fun FuncArgumentKind_to_string :: "FuncArgumentKind \<Rightarrow> bytes" where
  "FuncArgumentKind_to_string FuncArgumentKind.Any = ''Any''"
| "FuncArgumentKind_to_string FuncArgumentKind.Array = ''Array''"
| "FuncArgumentKind_to_string FuncArgumentKind.Boolean = ''Boolean''"
| "FuncArgumentKind_to_string FuncArgumentKind.Integer = ''Integer''"
| "FuncArgumentKind_to_string FuncArgumentKind.Map = ''Map''"
| "FuncArgumentKind_to_string FuncArgumentKind.Object = ''Object''"
| "FuncArgumentKind_to_string FuncArgumentKind.String = ''String''"

definition FuncArgumentKind_variants :: "FuncArgumentKind list" where
  "FuncArgumentKind_variants =
     [FuncArgumentKind.Any, FuncArgumentKind.Array, FuncArgumentKind.Boolean,
     FuncArgumentKind.Integer, FuncArgumentKind.Map, FuncArgumentKind.Object,
     FuncArgumentKind.String]"

definition FuncArgumentKind_from_str :: "bytes \<Rightarrow> (parse_error, FuncArgumentKind) result" where
  "FuncArgumentKind_from_str = enum_from_str FuncArgumentKind_to_string FuncArgumentKind_variants"

interpretation func_argument_kind: strum_enum FuncArgumentKind_to_string FuncArgumentKind_variants
proof unfold_locales
  show "v \<in> set FuncArgumentKind_variants" for v by (cases v) (simp_all add: FuncArgumentKind_variants_def)
qed (simp_all add: FuncArgumentKind_variants_def plain_name_def)

lemma FuncArgumentKind_roundtrip [simp, enum_roundtrip]: "FuncArgumentKind_from_str (FuncArgumentKind_to_string v) = Inr v"
  by (simp add: FuncArgumentKind_from_str_def func_argument_kind.from_str_to_str)

declare func_argument_kind.to_str_ok [simp]

datatype FuncSpecBackendKind =
    Array | Boolean | Diff | Identity | Integer | JsAction | JsAttribute | JsReconciliation |
    JsSchemaVariantDefinition | JsValidation | Map | Object | String | Unset | Validation

fun FuncSpecBackendKind_to_string :: "FuncSpecBackendKind \<Rightarrow> bytes" where
  "FuncSpecBackendKind_to_string FuncSpecBackendKind.Array = ''Array''"
| "FuncSpecBackendKind_to_string FuncSpecBackendKind.Boolean = ''Boolean''"
| "FuncSpecBackendKind_to_string FuncSpecBackendKind.Diff = ''Diff''"
| "FuncSpecBackendKind_to_string FuncSpecBackendKind.Identity = ''Identity''"
| "FuncSpecBackendKind_to_string FuncSpecBackendKind.Integer = ''Integer''"
| "FuncSpecBackendKind_to_string FuncSpecBackendKind.JsAction = ''JsAction''"
| "FuncSpecBackendKind_to_string FuncSpecBackendKind.JsAttribute = ''JsAttribute''"
| "FuncSpecBackendKind_to_string FuncSpecBackendKind.JsReconciliation = ''JsReconciliation''"
| "FuncSpecBackendKind_to_string FuncSpecBackendKind.JsSchemaVariantDefinition = ''JsSchemaVariantDefinition''"
| "FuncSpecBackendKind_to_string FuncSpecBackendKind.JsValidation = ''JsValidation''"
| "FuncSpecBackendKind_to_string FuncSpecBackendKind.Map = ''Map''"
| "FuncSpecBackendKind_to_string FuncSpecBackendKind.Object = ''Object''"
| "FuncSpecBackendKind_to_string FuncSpecBackendKind.String = ''String''"
| "FuncSpecBackendKind_to_string FuncSpecBackendKind.Unset = ''Unset''"
| "FuncSpecBackendKind_to_string FuncSpecBackendKind.Validation = ''Validation''"

definition FuncSpecBackendKind_variants :: "FuncSpecBackendKind list" where
  "FuncSpecBackendKind_variants =
     [FuncSpecBackendKind.Array, FuncSpecBackendKind.Boolean, FuncSpecBackendKind.Diff,
     FuncSpecBackendKind.Identity, FuncSpecBackendKind.Integer, FuncSpecBackendKind.JsAction,
     FuncSpecBackendKind.JsAttribute, FuncSpecBackendKind.JsReconciliation,
     FuncSpecBackendKind.JsSchemaVariantDefinition, FuncSpecBackendKind.JsValidation,
     FuncSpecBackendKind.Map, FuncSpecBackendKind.Object, FuncSpecBackendKind.String,
     FuncSpecBackendKind.Unset, FuncSpecBackendKind.Validation]"

definition FuncSpecBackendKind_from_str :: "bytes \<Rightarrow> (parse_error, FuncSpecBackendKind) result" where
  "FuncSpecBackendKind_from_str = enum_from_str FuncSpecBackendKind_to_string FuncSpecBackendKind_variants"

interpretation func_spec_backend_kind: strum_enum FuncSpecBackendKind_to_string FuncSpecBackendKind_variants
proof unfold_locales
  show "v \<in> set FuncSpecBackendKind_variants" for v by (cases v) (simp_all add: FuncSpecBackendKind_variants_def)
qed (simp_all add: FuncSpecBackendKind_variants_def plain_name_def)

lemma FuncSpecBackendKind_roundtrip [simp, enum_roundtrip]: "FuncSpecBackendKind_from_str (FuncSpecBackendKind_to_string v) = Inr v"
  by (simp add: FuncSpecBackendKind_from_str_def func_spec_backend_kind.from_str_to_str)

declare func_spec_backend_kind.to_str_ok [simp]

datatype FuncSpecBackendResponseType =
    Action | Array | Boolean | CodeGeneration | Identity | Integer | Json | Map | Object |
    Qualification | Reconciliation | SchemaVariantDefinition | String | Unset | Validation

fun FuncSpecBackendResponseType_to_string :: "FuncSpecBackendResponseType \<Rightarrow> bytes" where
  "FuncSpecBackendResponseType_to_string FuncSpecBackendResponseType.Action = ''Action''"
| "FuncSpecBackendResponseType_to_string FuncSpecBackendResponseType.Array = ''Array''"
| "FuncSpecBackendResponseType_to_string FuncSpecBackendResponseType.Boolean = ''Boolean''"
| "FuncSpecBackendResponseType_to_string FuncSpecBackendResponseType.CodeGeneration = ''CodeGeneration''"
| "FuncSpecBackendResponseType_to_string FuncSpecBackendResponseType.Identity = ''Identity''"
| "FuncSpecBackendResponseType_to_string FuncSpecBackendResponseType.Integer = ''Integer''"
| "FuncSpecBackendResponseType_to_string FuncSpecBackendResponseType.Json = ''Json''"
| "FuncSpecBackendResponseType_to_string FuncSpecBackendResponseType.Map = ''Map''"
| "FuncSpecBackendResponseType_to_string FuncSpecBackendResponseType.Object = ''Object''"
| "FuncSpecBackendResponseType_to_string FuncSpecBackendResponseType.Qualification = ''Qualification''"
| "FuncSpecBackendResponseType_to_string FuncSpecBackendResponseType.Reconciliation = ''Reconciliation''"
| "FuncSpecBackendResponseType_to_string FuncSpecBackendResponseType.SchemaVariantDefinition = ''SchemaVariantDefinition''"
| "FuncSpecBackendResponseType_to_string FuncSpecBackendResponseType.String = ''String''"
| "FuncSpecBackendResponseType_to_string FuncSpecBackendResponseType.Unset = ''Unset''"
| "FuncSpecBackendResponseType_to_string FuncSpecBackendResponseType.Validation = ''Validation''"

definition FuncSpecBackendResponseType_variants :: "FuncSpecBackendResponseType list" where
  "FuncSpecBackendResponseType_variants =
     [FuncSpecBackendResponseType.Action, FuncSpecBackendResponseType.Array,
     FuncSpecBackendResponseType.Boolean, FuncSpecBackendResponseType.CodeGeneration,
     FuncSpecBackendResponseType.Identity, FuncSpecBackendResponseType.Integer,
     FuncSpecBackendResponseType.Json, FuncSpecBackendResponseType.Map,
     FuncSpecBackendResponseType.Object, FuncSpecBackendResponseType.Qualification,
     FuncSpecBackendResponseType.Reconciliation,
     FuncSpecBackendResponseType.SchemaVariantDefinition, FuncSpecBackendResponseType.String,
     FuncSpecBackendResponseType.Unset, FuncSpecBackendResponseType.Validation]"

definition FuncSpecBackendResponseType_from_str :: "bytes \<Rightarrow> (parse_error, FuncSpecBackendResponseType) result" where
  "FuncSpecBackendResponseType_from_str = enum_from_str FuncSpecBackendResponseType_to_string FuncSpecBackendResponseType_variants"

interpretation func_spec_backend_response_type: strum_enum FuncSpecBackendResponseType_to_string FuncSpecBackendResponseType_variants
proof unfold_locales
  show "v \<in> set FuncSpecBackendResponseType_variants" for v by (cases v) (simp_all add: FuncSpecBackendResponseType_variants_def)
qed (simp_all add: FuncSpecBackendResponseType_variants_def plain_name_def)

lemma FuncSpecBackendResponseType_roundtrip [simp, enum_roundtrip]: "FuncSpecBackendResponseType_from_str (FuncSpecBackendResponseType_to_string v) = Inr v"
  by (simp add: FuncSpecBackendResponseType_from_str_def func_spec_backend_response_type.from_str_to_str)

declare func_spec_backend_response_type.to_str_ok [simp]

datatype LeafKind =
    CodeGeneration | Qualification

fun LeafKind_to_string :: "LeafKind \<Rightarrow> bytes" where
  "LeafKind_to_string LeafKind.CodeGeneration = ''CodeGeneration''"
| "LeafKind_to_string LeafKind.Qualification = ''Qualification''"

definition LeafKind_variants :: "LeafKind list" where
  "LeafKind_variants =
     [LeafKind.CodeGeneration, LeafKind.Qualification]"

definition LeafKind_from_str :: "bytes \<Rightarrow> (parse_error, LeafKind) result" where
  "LeafKind_from_str = enum_from_str LeafKind_to_string LeafKind_variants"

interpretation leaf_kind: strum_enum LeafKind_to_string LeafKind_variants
proof unfold_locales
  show "v \<in> set LeafKind_variants" for v by (cases v) (simp_all add: LeafKind_variants_def)
qed (simp_all add: LeafKind_variants_def plain_name_def)

lemma LeafKind_roundtrip [simp, enum_roundtrip]: "LeafKind_from_str (LeafKind_to_string v) = Inr v"
  by (simp add: LeafKind_from_str_def leaf_kind.from_str_to_str)

declare leaf_kind.to_str_ok [simp]

datatype PropSpecWidgetKind =
    Array | Checkbox | Color | ComboBox | Header | Map | Secret | Select | Text | TextArea

fun PropSpecWidgetKind_to_string :: "PropSpecWidgetKind \<Rightarrow> bytes" where
  "PropSpecWidgetKind_to_string PropSpecWidgetKind.Array = ''Array''"
| "PropSpecWidgetKind_to_string PropSpecWidgetKind.Checkbox = ''Checkbox''"
| "PropSpecWidgetKind_to_string PropSpecWidgetKind.Color = ''Color''"
| "PropSpecWidgetKind_to_string PropSpecWidgetKind.ComboBox = ''ComboBox''"
| "PropSpecWidgetKind_to_string PropSpecWidgetKind.Header = ''Header''"
| "PropSpecWidgetKind_to_string PropSpecWidgetKind.Map = ''Map''"
| "PropSpecWidgetKind_to_string PropSpecWidgetKind.Secret = ''Secret''"
| "PropSpecWidgetKind_to_string PropSpecWidgetKind.Select = ''Select''"
| "PropSpecWidgetKind_to_string PropSpecWidgetKind.Text = ''Text''"
| "PropSpecWidgetKind_to_string PropSpecWidgetKind.TextArea = ''TextArea''"

definition PropSpecWidgetKind_variants :: "PropSpecWidgetKind list" where
  "PropSpecWidgetKind_variants =
     [PropSpecWidgetKind.Array, PropSpecWidgetKind.Checkbox, PropSpecWidgetKind.Color,
     PropSpecWidgetKind.ComboBox, PropSpecWidgetKind.Header, PropSpecWidgetKind.Map,
     PropSpecWidgetKind.Secret, PropSpecWidgetKind.Select, PropSpecWidgetKind.Text,
     PropSpecWidgetKind.TextArea]"

definition PropSpecWidgetKind_from_str :: "bytes \<Rightarrow> (parse_error, PropSpecWidgetKind) result" where
  "PropSpecWidgetKind_from_str = enum_from_str PropSpecWidgetKind_to_string PropSpecWidgetKind_variants"

interpretation prop_spec_widget_kind: strum_enum PropSpecWidgetKind_to_string PropSpecWidgetKind_variants
proof unfold_locales
  show "v \<in> set PropSpecWidgetKind_variants" for v by (cases v) (simp_all add: PropSpecWidgetKind_variants_def)
qed (simp_all add: PropSpecWidgetKind_variants_def plain_name_def)

lemma PropSpecWidgetKind_roundtrip [simp, enum_roundtrip]: "PropSpecWidgetKind_from_str (PropSpecWidgetKind_to_string v) = Inr v"
  by (simp add: PropSpecWidgetKind_from_str_def prop_spec_widget_kind.from_str_to_str)

declare prop_spec_widget_kind.to_str_ok [simp]

datatype SiPropFuncSpecKind =
    Color | Name | ResourcePayload

fun SiPropFuncSpecKind_to_string :: "SiPropFuncSpecKind \<Rightarrow> bytes" where
  "SiPropFuncSpecKind_to_string SiPropFuncSpecKind.Color = ''Color''"
| "SiPropFuncSpecKind_to_string SiPropFuncSpecKind.Name = ''Name''"
| "SiPropFuncSpecKind_to_string SiPropFuncSpecKind.ResourcePayload = ''ResourcePayload''"

definition SiPropFuncSpecKind_variants :: "SiPropFuncSpecKind list" where
  "SiPropFuncSpecKind_variants =
     [SiPropFuncSpecKind.Color, SiPropFuncSpecKind.Name, SiPropFuncSpecKind.ResourcePayload]"

definition SiPropFuncSpecKind_from_str :: "bytes \<Rightarrow> (parse_error, SiPropFuncSpecKind) result" where
  "SiPropFuncSpecKind_from_str = enum_from_str SiPropFuncSpecKind_to_string SiPropFuncSpecKind_variants"

interpretation si_prop_func_spec_kind: strum_enum SiPropFuncSpecKind_to_string SiPropFuncSpecKind_variants
proof unfold_locales
  show "v \<in> set SiPropFuncSpecKind_variants" for v by (cases v) (simp_all add: SiPropFuncSpecKind_variants_def)
qed (simp_all add: SiPropFuncSpecKind_variants_def plain_name_def)

lemma SiPropFuncSpecKind_roundtrip [simp, enum_roundtrip]: "SiPropFuncSpecKind_from_str (SiPropFuncSpecKind_to_string v) = Inr v"
  by (simp add: SiPropFuncSpecKind_from_str_def si_prop_func_spec_kind.from_str_to_str)

declare si_prop_func_spec_kind.to_str_ok [simp]

datatype SocketSpecKind =
    Input | Output

fun SocketSpecKind_to_string :: "SocketSpecKind \<Rightarrow> bytes" where
  "SocketSpecKind_to_string SocketSpecKind.Input = ''Input''"
| "SocketSpecKind_to_string SocketSpecKind.Output = ''Output''"

definition SocketSpecKind_variants :: "SocketSpecKind list" where
  "SocketSpecKind_variants =
     [SocketSpecKind.Input, SocketSpecKind.Output]"

definition SocketSpecKind_from_str :: "bytes \<Rightarrow> (parse_error, SocketSpecKind) result" where
  "SocketSpecKind_from_str = enum_from_str SocketSpecKind_to_string SocketSpecKind_variants"

interpretation socket_spec_kind: strum_enum SocketSpecKind_to_string SocketSpecKind_variants
proof unfold_locales
  show "v \<in> set SocketSpecKind_variants" for v by (cases v) (simp_all add: SocketSpecKind_variants_def)
qed (simp_all add: SocketSpecKind_variants_def plain_name_def)

lemma SocketSpecKind_roundtrip [simp, enum_roundtrip]: "SocketSpecKind_from_str (SocketSpecKind_to_string v) = Inr v"
  by (simp add: SocketSpecKind_from_str_def socket_spec_kind.from_str_to_str)

declare socket_spec_kind.to_str_ok [simp]

datatype SocketSpecArity =
    Many | One

fun SocketSpecArity_to_string :: "SocketSpecArity \<Rightarrow> bytes" where
  "SocketSpecArity_to_string SocketSpecArity.Many = ''Many''"
| "SocketSpecArity_to_string SocketSpecArity.One = ''One''"

definition SocketSpecArity_variants :: "SocketSpecArity list" where
  "SocketSpecArity_variants =
     [SocketSpecArity.Many, SocketSpecArity.One]"

definition SocketSpecArity_from_str :: "bytes \<Rightarrow> (parse_error, SocketSpecArity) result" where
  "SocketSpecArity_from_str = enum_from_str SocketSpecArity_to_string SocketSpecArity_variants"

interpretation socket_spec_arity: strum_enum SocketSpecArity_to_string SocketSpecArity_variants
proof unfold_locales
  show "v \<in> set SocketSpecArity_variants" for v by (cases v) (simp_all add: SocketSpecArity_variants_def)
qed (simp_all add: SocketSpecArity_variants_def plain_name_def)

lemma SocketSpecArity_roundtrip [simp, enum_roundtrip]: "SocketSpecArity_from_str (SocketSpecArity_to_string v) = Inr v"
  by (simp add: SocketSpecArity_from_str_def socket_spec_arity.from_str_to_str)

declare socket_spec_arity.to_str_ok [simp]

datatype ValidationSpecKind =
    CustomValidation | IntegerIsBetweenTwoIntegers | IntegerIsNotEmpty | StringEquals |
    StringHasPrefix | StringInStringArray | StringIsHexColor | StringIsNotEmpty |
    StringIsValidIpAddr

fun ValidationSpecKind_to_string :: "ValidationSpecKind \<Rightarrow> bytes" where
  "ValidationSpecKind_to_string ValidationSpecKind.CustomValidation = ''CustomValidation''"
| "ValidationSpecKind_to_string ValidationSpecKind.IntegerIsBetweenTwoIntegers = ''IntegerIsBetweenTwoIntegers''"
| "ValidationSpecKind_to_string ValidationSpecKind.IntegerIsNotEmpty = ''IntegerIsNotEmpty''"
| "ValidationSpecKind_to_string ValidationSpecKind.StringEquals = ''StringEquals''"
| "ValidationSpecKind_to_string ValidationSpecKind.StringHasPrefix = ''StringHasPrefix''"
| "ValidationSpecKind_to_string ValidationSpecKind.StringInStringArray = ''StringInStringArray''"
| "ValidationSpecKind_to_string ValidationSpecKind.StringIsHexColor = ''StringIsHexColor''"
| "ValidationSpecKind_to_string ValidationSpecKind.StringIsNotEmpty = ''StringIsNotEmpty''"
| "ValidationSpecKind_to_string ValidationSpecKind.StringIsValidIpAddr = ''StringIsValidIpAddr''"

definition ValidationSpecKind_variants :: "ValidationSpecKind list" where
  "ValidationSpecKind_variants =
     [ValidationSpecKind.CustomValidation, ValidationSpecKind.IntegerIsBetweenTwoIntegers,
     ValidationSpecKind.IntegerIsNotEmpty, ValidationSpecKind.StringEquals,
     ValidationSpecKind.StringHasPrefix, ValidationSpecKind.StringInStringArray,
     ValidationSpecKind.StringIsHexColor, ValidationSpecKind.StringIsNotEmpty,
     ValidationSpecKind.StringIsValidIpAddr]"

definition ValidationSpecKind_from_str :: "bytes \<Rightarrow> (parse_error, ValidationSpecKind) result" where
  "ValidationSpecKind_from_str = enum_from_str ValidationSpecKind_to_string ValidationSpecKind_variants"

interpretation validation_spec_kind: strum_enum ValidationSpecKind_to_string ValidationSpecKind_variants
proof unfold_locales
  show "v \<in> set ValidationSpecKind_variants" for v by (cases v) (simp_all add: ValidationSpecKind_variants_def)
qed (simp_all add: ValidationSpecKind_variants_def plain_name_def)

lemma ValidationSpecKind_roundtrip [simp, enum_roundtrip]: "ValidationSpecKind_from_str (ValidationSpecKind_to_string v) = Inr v"
  by (simp add: ValidationSpecKind_from_str_def validation_spec_kind.from_str_to_str)

declare validation_spec_kind.to_str_ok [simp]

datatype SiPkgKind =
    Module | WorkspaceBackup

fun SiPkgKind_to_string :: "SiPkgKind \<Rightarrow> bytes" where
  "SiPkgKind_to_string SiPkgKind.Module = ''module''"
| "SiPkgKind_to_string SiPkgKind.WorkspaceBackup = ''workspaceBackup''"

definition SiPkgKind_variants :: "SiPkgKind list" where
  "SiPkgKind_variants =
     [SiPkgKind.Module, SiPkgKind.WorkspaceBackup]"

definition SiPkgKind_from_str :: "bytes \<Rightarrow> (parse_error, SiPkgKind) result" where
  "SiPkgKind_from_str = enum_from_str SiPkgKind_to_string SiPkgKind_variants"

interpretation si_pkg_kind: strum_enum SiPkgKind_to_string SiPkgKind_variants
proof unfold_locales
  show "v \<in> set SiPkgKind_variants" for v by (cases v) (simp_all add: SiPkgKind_variants_def)
qed (simp_all add: SiPkgKind_variants_def plain_name_def)

lemma SiPkgKind_roundtrip [simp, enum_roundtrip]: "SiPkgKind_from_str (SiPkgKind_to_string v) = Inr v"
  by (simp add: SiPkgKind_from_str_def si_pkg_kind.from_str_to_str)

declare si_pkg_kind.to_str_ok [simp]

text \<open>\<open>SchemaVariantSpecComponentType\<close> accepts two texts per variant. Which of the two its \<open>Display\<close>
  prints is decided by the derivation, so printing is a parameter (see the externals of the package
  nodes); parsing compares with both.\<close>

datatype SchemaVariantSpecComponentType = AggregationFrame | Component | ConfigurationFrame

fun component_type_texts :: "SchemaVariantSpecComponentType \<Rightarrow> bytes list" where
  "component_type_texts AggregationFrame = [''AggregationFrame'', ''aggregationFrame'']"
| "component_type_texts Component = [''Component'', ''component'']"
| "component_type_texts ConfigurationFrame = [''ConfigurationFrame'', ''configurationFrame'']"

definition SchemaVariantSpecComponentType_from_str ::
  "bytes \<Rightarrow> (parse_error, SchemaVariantSpecComponentType) result" where
  "SchemaVariantSpecComponentType_from_str s =
     ok_or VariantNotFound (find (\<lambda>v. s \<in> set (component_type_texts v))
       [AggregationFrame, Component, ConfigurationFrame])"

lemma component_type_roundtrip:
  "s \<in> set (component_type_texts v) \<Longrightarrow> SchemaVariantSpecComponentType_from_str s = Inr v"
  by (cases v) (auto simp: SchemaVariantSpecComponentType_from_str_def)

lemma component_type_text_ok:
  "s \<in> set (component_type_texts v) \<Longrightarrow> rust_string s \<and> s \<noteq> []"
  by (cases v) (auto simp: rust_string_def)

end
