(* ===== verification/Pkg_Node_Common.thy ===== *)
theory Pkg_Node_Common
  imports Pkg_Enums
begin

text \<open>
  What the package node types share: the code outside the repository they call (JSON, URLs, dates)
  as a record of parameters, the fields \<open>unique_id\<close> and \<open>deleted\<close> of \<open>lib/si-pkg/src/node/mod.rs\<close>,
  and the recurring idioms of their readers and writers (parse a line, parse a line unless it is
  empty, parse a line if it is there) with their round-trip laws.
\<close>

section \<open>Values with a JSON form\<close>

datatype AttributeValuePath =
    Prop bytes "bytes option" "int option"
  | InputSocket bytes
  | OutputSocket bytes

datatype ComponentSpecVariant =
    BuiltinVariant bytes bytes
  | WorkspaceVariant bytes

section \<open>Code outside the repository\<close>

text \<open>\<open>serde_json\<close> on values, value paths, component variants and string lists; \<open>url\<close>; \<open>chrono\<close>;
  and the text the derived \<open>Display\<close> picks for a component type.\<close>

record ('j, 'u, 'd) externals =
  json_to_string :: "'j \<Rightarrow> bytes option"
  json_from_str :: "bytes \<Rightarrow> 'j option"
  json_null :: 'j
  path_to_string :: "AttributeValuePath \<Rightarrow> bytes option"
  path_from_str :: "bytes \<Rightarrow> AttributeValuePath option"
  variant_to_string :: "ComponentSpecVariant \<Rightarrow> bytes option"
  variant_from_str :: "bytes \<Rightarrow> ComponentSpecVariant option"
  strings_to_string :: "bytes list \<Rightarrow> bytes option"
  strings_from_str :: "bytes \<Rightarrow> bytes list option"
  url_as_str :: "'u \<Rightarrow> bytes"
  url_parse :: "bytes \<Rightarrow> 'u option"
  to_rfc3339 :: "'d \<Rightarrow> bytes"
  datetime_parse :: "bytes \<Rightarrow> 'd option"
  component_type_display :: "SchemaVariantSpecComponentType \<Rightarrow> bytes"

text \<open>The values the called code itself prints and parses back. JSON numbers, for instance, are not
  all among them, so the round trips below ask it of the values a node holds.\<close>

definition text_ok :: "('a \<Rightarrow> bytes option) \<Rightarrow> (bytes \<Rightarrow> 'a option) \<Rightarrow> 'a \<Rightarrow> bool" where
  "text_ok to_text of_text x =
     (case to_text x of None \<Rightarrow> False
      | Some s \<Rightarrow> rust_string s \<and> s \<noteq> [] \<and> of_text s = Some x)"

definition text_of :: "('a \<Rightarrow> bytes option) \<Rightarrow> 'a \<Rightarrow> bytes" where
  "text_of to_text x = (case to_text x of None \<Rightarrow> [] | Some s \<Rightarrow> s)"

lemma text_okD:
  assumes "text_ok to_text of_text x"
  shows "to_text x = Some (text_of to_text x)" "rust_string (text_of to_text x)"
    "text_of to_text x \<noteq> []" "of_text (text_of to_text x) = Some x"
  using assms by (auto simp: text_ok_def text_of_def split: option.splits)

definition json_ok :: "('j, 'u, 'd) externals \<Rightarrow> 'j \<Rightarrow> bool" where
  "json_ok E = text_ok (json_to_string E) (json_from_str E)"

definition path_ok :: "('j, 'u, 'd) externals \<Rightarrow> AttributeValuePath \<Rightarrow> bool" where
  "path_ok E = text_ok (path_to_string E) (path_from_str E)"

definition variant_ok :: "('j, 'u, 'd) externals \<Rightarrow> ComponentSpecVariant \<Rightarrow> bool" where
  "variant_ok E = text_ok (variant_to_string E) (variant_from_str E)"

definition strings_ok :: "('j, 'u, 'd) externals \<Rightarrow> bytes list \<Rightarrow> bool" where
  "strings_ok E = text_ok (strings_to_string E) (strings_from_str E)"

definition url_ok :: "('j, 'u, 'd) externals \<Rightarrow> 'u \<Rightarrow> bool" where
  "url_ok E u \<longleftrightarrow> rust_string (url_as_str E u) \<and> url_as_str E u \<noteq> []
     \<and> url_parse E (url_as_str E u) = Some u"

definition datetime_ok :: "('j, 'u, 'd) externals \<Rightarrow> 'd \<Rightarrow> bool" where
  "datetime_ok E d \<longleftrightarrow> rust_string (to_rfc3339 E d) \<and> datetime_parse E (to_rfc3339 E d) = Some d"

definition component_type_ok :: "('j, 'u, 'd) externals \<Rightarrow> SchemaVariantSpecComponentType \<Rightarrow> bool"
  where "component_type_ok E t \<longleftrightarrow> component_type_display E t \<in> set (component_type_texts t)"

definition opt_ok :: "('a \<Rightarrow> bool) \<Rightarrow> 'a option \<Rightarrow> bool" where
  "opt_ok P m = (case m of None \<Rightarrow> True | Some x \<Rightarrow> P x)"

lemma opt_ok_simps [simp]: "opt_ok P None" "opt_ok P (Some x) = P x"
  by (simp_all add: opt_ok_def)

abbreviation json_text :: "('j, 'u, 'd) externals \<Rightarrow> 'j \<Rightarrow> bytes" where
  "json_text E \<equiv> text_of (json_to_string E)"

lemma json_okD [simp]:
  assumes "json_ok E x"
  shows "json_to_string E x = Some (text_of (json_to_string E) x)"
    "rust_string (text_of (json_to_string E) x)" "text_of (json_to_string E) x \<noteq> []"
    "json_from_str E (text_of (json_to_string E) x) = Some x"
  using text_okD [OF assms [unfolded json_ok_def]] by simp_all

lemma path_okD [simp]:
  assumes "path_ok E x"
  shows "path_to_string E x = Some (text_of (path_to_string E) x)"
    "rust_string (text_of (path_to_string E) x)" "text_of (path_to_string E) x \<noteq> []"
    "path_from_str E (text_of (path_to_string E) x) = Some x"
  using text_okD [OF assms [unfolded path_ok_def]] by simp_all

lemma variant_okD [simp]:
  assumes "variant_ok E x"
  shows "variant_to_string E x = Some (text_of (variant_to_string E) x)"
    "rust_string (text_of (variant_to_string E) x)" "text_of (variant_to_string E) x \<noteq> []"
    "variant_from_str E (text_of (variant_to_string E) x) = Some x"
  using text_okD [OF assms [unfolded variant_ok_def]] by simp_all

lemma strings_okD [simp]:
  assumes "strings_ok E x"
  shows "strings_to_string E x = Some (text_of (strings_to_string E) x)"
    "rust_string (text_of (strings_to_string E) x)" "text_of (strings_to_string E) x \<noteq> []"
    "strings_from_str E (text_of (strings_to_string E) x) = Some x"
  using text_okD [OF assms [unfolded strings_ok_def]] by simp_all

lemma url_okD [simp]:
  "url_ok E u \<Longrightarrow> rust_string (url_as_str E u)" "url_ok E u \<Longrightarrow> url_as_str E u \<noteq> []"
  "url_ok E u \<Longrightarrow> url_parse E (url_as_str E u) = Some u"
  by (simp_all add: url_ok_def)

lemma datetime_okD [simp]:
  "datetime_ok E d \<Longrightarrow> rust_string (to_rfc3339 E d)"
  "datetime_ok E d \<Longrightarrow> datetime_parse E (to_rfc3339 E d) = Some d"
  by (simp_all add: datetime_ok_def)

lemma component_type_okD [simp]:
  "component_type_ok E t \<Longrightarrow> rust_string (component_type_display E t)"
  "component_type_ok E t \<Longrightarrow>
     SchemaVariantSpecComponentType_from_str (component_type_display E t) = Inr t"
  by (simp_all add: component_type_ok_def component_type_text_ok component_type_roundtrip)

section \<open>Parsers with the error they raise\<close>

definition bool_parse :: "bytes \<Rightarrow> (parse_error, bool) result" where
  "bool_parse s = ok_or ParseBoolError (bool_from_str s)"

definition i64_parse :: "bytes \<Rightarrow> (parse_error, int) result" where
  "i64_parse s = ok_or ParseIntError (i64_from_str s)"

definition json_parse :: "('j, 'u, 'd) externals \<Rightarrow> bytes \<Rightarrow> (parse_error, 'j) result" where
  "json_parse E s = ok_or JsonError (json_from_str E s)"

text \<open>\<open>serde_json::from_str::<Option<Value>>\<close>: the JSON \<open>null\<close> is an absent value.\<close>

definition json_opt_parse :: "('j, 'u, 'd) externals \<Rightarrow> bytes \<Rightarrow> (parse_error, 'j option) result"
  where
  "json_opt_parse E s =
     rbind (json_parse E s) (\<lambda>v. Inr (if v = json_null E then None else Some v))"

definition path_parse :: "('j, 'u, 'd) externals \<Rightarrow> bytes \<Rightarrow> (parse_error, AttributeValuePath) result"
  where "path_parse E s = ok_or JsonError (path_from_str E s)"

definition variant_parse ::
  "('j, 'u, 'd) externals \<Rightarrow> bytes \<Rightarrow> (parse_error, ComponentSpecVariant) result" where
  "variant_parse E s = ok_or JsonError (variant_from_str E s)"

definition strings_parse :: "('j, 'u, 'd) externals \<Rightarrow> bytes \<Rightarrow> (parse_error, bytes list) result"
  where "strings_parse E s = ok_or JsonError (strings_from_str E s)"

definition url_parse_result :: "('j, 'u, 'd) externals \<Rightarrow> bytes \<Rightarrow> (parse_error, 'u) result" where
  "url_parse_result E s = ok_or UrlParseError (url_parse E s)"

definition rfc3339_parse :: "('j, 'u, 'd) externals \<Rightarrow> bytes \<Rightarrow> (parse_error, 'd) result" where
  "rfc3339_parse E s = ok_or ChronoParseError (datetime_parse E s)"

lemmas parse_defs [node_defs] = bool_parse_def i64_parse_def json_parse_def json_opt_parse_def
  path_parse_def variant_parse_def strings_parse_def url_parse_result_def rfc3339_parse_def

section \<open>Idioms of the readers\<close>

text \<open>\<open>T::from_str(&read_key_value_line(reader, key)?).map_err(GraphError::parse)?\<close>\<close>

definition read_parsed :: "bytes \<Rightarrow> (bytes \<Rightarrow> (parse_error, 'a) result) \<Rightarrow> 'a graph_reader" where
  "read_parsed key f = pbind (read_key_value_line key) (\<lambda>s. plift (map_err Parse (f s)))"

text \<open>\<open>if s.is_empty() { None } else { Some(f(&s).map_err(GraphError::parse)?) }\<close>\<close>

definition some_unless_empty ::
  "(bytes \<Rightarrow> (parse_error, 'a) result) \<Rightarrow> bytes \<Rightarrow> (GraphError, 'a option) result" where
  "some_unless_empty f s =
     (if s = [] then Inr None else rbind (map_err Parse (f s)) (\<lambda>x. Inr (Some x)))"

definition read_parsed_or_none ::
  "bytes \<Rightarrow> (bytes \<Rightarrow> (parse_error, 'a) result) \<Rightarrow> 'a option graph_reader" where
  "read_parsed_or_none key f = pbind (read_key_value_line key) (\<lambda>s. plift (some_unless_empty f s))"

definition read_text_or_none :: "bytes \<Rightarrow> bytes option graph_reader" where
  "read_text_or_none key = pbind (read_key_value_line key) (\<lambda>s. preturn (none_if_empty s))"

text \<open>\<open>match read_key_value_line_opt(reader, key)? { None => None, Some(s) => Some(f(&s)?) }\<close>\<close>

definition read_parsed_opt ::
  "bytes \<Rightarrow> (bytes \<Rightarrow> (parse_error, 'a) result) \<Rightarrow> 'a option graph_reader" where
  "read_parsed_opt key f = pbind (read_key_value_line_opt key) (\<lambda>m.
     case m of None \<Rightarrow> preturn None
     | Some s \<Rightarrow> pbind (plift (map_err Parse (f s))) (\<lambda>x. preturn (Some x)))"

section \<open>Idioms of the writers\<close>

text \<open>\<open>write_key_value_line(writer, key, to_text(v).map_err(GraphError::parse)?)\<close> and its variant for
  an optional value, where nothing is written as an empty text.\<close>

definition write_json :: "bytes \<Rightarrow> ('a \<Rightarrow> bytes option) \<Rightarrow> 'a \<Rightarrow> graph_write" where
  "write_json key to_text v =
     rbind (ok_or (Parse JsonError) (to_text v)) (\<lambda>s. write_key_value_line key s)"

definition write_json_or_empty :: "bytes \<Rightarrow> ('a \<Rightarrow> bytes option) \<Rightarrow> 'a option \<Rightarrow> graph_write" where
  "write_json_or_empty key to_text m =
     (case m of Some v \<Rightarrow> write_json key to_text v | None \<Rightarrow> write_key_value_line key [])"

definition text_or_empty :: "('a \<Rightarrow> bytes) \<Rightarrow> 'a option \<Rightarrow> bytes" where
  "text_or_empty f m = (case m of None \<Rightarrow> [] | Some x \<Rightarrow> f x)"

lemma text_or_empty_simps [simp]: "text_or_empty f None = []" "text_or_empty f (Some x) = f x"
  by (simp_all add: text_or_empty_def)

section \<open>Fields common to all nodes\<close>

definition read_unique_id :: "bytes option graph_reader" where
  "read_unique_id =
     pbind (read_key_value_line_opt ''unique_id'') (\<lambda>unique_id_opt_str.
       preturn (case unique_id_opt_str of None \<Rightarrow> None | Some s \<Rightarrow> none_if_empty s))"

definition read_common_fields :: "(bytes option \<times> bool) graph_reader" where
  "read_common_fields =
     pbind read_unique_id (\<lambda>unique_id.
     pbind (read_key_value_line_opt ''deleted'') (\<lambda>deleted_str.
     pbind (case deleted_str of None \<Rightarrow> preturn False
            | Some s \<Rightarrow> plift (map_err Parse (bool_parse s))) (\<lambda>deleted.
       preturn (unique_id, deleted))))"

definition write_unique_id :: "bytes option \<Rightarrow> graph_write" where
  "write_unique_id unique_id = write_key_value_line ''unique_id'' (unwrap_or_empty unique_id)"

definition write_common_fields :: "bytes option \<Rightarrow> bool \<Rightarrow> graph_write" where
  "write_common_fields unique_id deleted =
     wseq [write_unique_id unique_id, write_key_value_line ''deleted'' (show_bool deleted)]"

section \<open>Round trips of the idioms\<close>

lemma keys_ok [simp]:
  "key_ok ''node_kind''" "key_ok ''unique_id''" "key_ok ''deleted''" "key_ok ''kind''"
  "key_ok ''func_unique_id''" "key_ok ''name''" "key_ok ''prop_path''" "key_ok ''socket_name''"
  "key_ok ''backend_kind''" "key_ok ''response_type''" "key_ok ''code''"
  "key_ok ''func_binding_args''" "key_ok ''handler''" "key_ok ''output_stream''"
  "key_ok ''parent_path''" "key_ok ''path''" "key_ok ''is_proxy''" "key_ok ''sealed_proxy''"
  "key_ok ''unprocessed_value''" "key_ok ''value''" "key_ok ''component_specific''"
  "key_ok ''implicit_value''" "key_ok ''based_on_change_set''" "key_ok ''status''"
  "key_ok ''variant''" "key_ok ''needs_destroy''" "key_ok ''deletion_user_pk''"
  "key_ok ''edge_kind''" "key_ok ''from_component_unique_id''" "key_ok ''from_socket_name''"
  "key_ok ''to_component_unique_id''" "key_ok ''to_socket_name''" "key_ok ''creation_user_pk''"
  "key_ok ''deleted_implicitly''" "key_ok ''display_name''" "key_ok ''description''"
  "key_ok ''code_base64''" "key_ok ''hidden''" "key_ok ''link''" "key_ok ''is_from_builtin''"
  "key_ok ''element_kind''" "key_ok ''leaf_kind''" "key_ok ''input_domain''"
  "key_ok ''input_deleted_at''" "key_ok ''input_code''" "key_ok ''input_resource''" "key_ok ''key''"
  "key_ok ''created_at''" "key_ok ''created_by''" "key_ok ''default_change_set''"
  "key_ok ''version''" "key_ok ''workspace_pk''" "key_ok ''workspace_name''" "key_ok ''x''"
  "key_ok ''y''" "key_ok ''width''" "key_ok ''height''" "key_ok ''default_value''"
  "key_ok ''widget_kind''" "key_ok ''widget_options''" "key_ok ''doc_link''" "key_ok ''category''"
  "key_ok ''category_name''" "key_ok ''ui_hidden''" "key_ok ''default_schema_variant''"
  "key_ok ''color''" "key_ok ''component_type''" "key_ok ''arity''" "key_ok ''upper_bound''"
  "key_ok ''lower_bound''" "key_ok ''expected_string''" "key_ok ''expected_string_array''"
  "key_ok ''display_expected''"
  by (simp_all add: key_ok_def)

lemmas kv_reads_simp [reader_simps] = kv_reads

lemma read_parsed_kv [reader_simps]:
  "key_ok key \<Longrightarrow> rust_string s \<Longrightarrow>
     read_parsed key f (kv_line key s @ rest) = rbind (map_err Parse (f s)) (\<lambda>x. Inr (x, rest))"
  by (simp add: read_parsed_def read_kv_line plift_def)

lemma read_parsed_or_none_kv [reader_simps]:
  "key_ok key \<Longrightarrow> rust_string s \<Longrightarrow>
     read_parsed_or_none key f (kv_line key s @ rest)
       = rbind (some_unless_empty f s) (\<lambda>x. Inr (x, rest))"
  by (simp add: read_parsed_or_none_def read_kv_line plift_def)

lemma read_text_or_none_kv [reader_simps]:
  "key_ok key \<Longrightarrow> rust_string s \<Longrightarrow>
     read_text_or_none key (kv_line key s @ rest) = Inr (none_if_empty s, rest)"
  by (simp add: read_text_or_none_def read_kv_line)

lemma read_parsed_opt_kv [reader_simps]:
  "key_ok key \<Longrightarrow> rust_string s \<Longrightarrow>
     read_parsed_opt key f (kv_line key s @ rest)
       = rbind (map_err Parse (f s)) (\<lambda>x. Inr (Some x, rest))"
  by (cases "f s") (simp_all add: read_parsed_opt_def read_kv_line_opt)

lemma read_parsed_opt_rest [reader_simps]:
  "key_ok key \<Longrightarrow> rest_ok r \<Longrightarrow> read_parsed_opt key f r = Inr (None, r)"
  by (simp add: read_parsed_opt_def read_kv_line_opt_rest)

lemma some_unless_empty_simps [simp]:
  "some_unless_empty f [] = Inr None"
  "s \<noteq> [] \<Longrightarrow> some_unless_empty f s = rbind (map_err Parse (f s)) (\<lambda>x. Inr (Some x))"
  by (simp_all add: some_unless_empty_def)

lemma write_json_ok [simp]:
  "json_ok E v \<Longrightarrow> write_json key (json_to_string E) v = Inr (kv_line key (text_of (json_to_string E) v))"
  "path_ok E p \<Longrightarrow> write_json key (path_to_string E) p = Inr (kv_line key (text_of (path_to_string E) p))"
  "variant_ok E c \<Longrightarrow>
     write_json key (variant_to_string E) c = Inr (kv_line key (text_of (variant_to_string E) c))"
  "strings_ok E ss \<Longrightarrow>
     write_json key (strings_to_string E) ss = Inr (kv_line key (text_of (strings_to_string E) ss))"
  by (simp_all add: write_json_def write_key_value_line_def)

lemma write_json_or_empty_simps [simp]:
  "write_json_or_empty key f None = Inr (kv_line key [])"
  "write_json_or_empty key f (Some v) = write_json key f v"
  by (simp_all add: write_json_or_empty_def write_key_value_line_def)

definition common_text :: "bytes option \<Rightarrow> bool \<Rightarrow> bytes" where
  "common_text unique_id deleted =
     kv_line ''unique_id'' (unwrap_or_empty unique_id) @ kv_line ''deleted'' (show_bool deleted)"

lemma write_common_text [simp]: "write_common_fields u d = Inr (common_text u d)"
  by (simp add: write_common_fields_def write_unique_id_def write_key_value_line_def common_text_def)

lemma read_unique_id_kv [reader_simps]:
  "rust_string s \<Longrightarrow> read_unique_id (kv_line ''unique_id'' s @ rest) = Inr (none_if_empty s, rest)"
  by (simp add: read_unique_id_def read_kv_line_opt)

lemma read_common_text [reader_simps]:
  "rust_string_opt u \<Longrightarrow> read_common_fields (common_text u d @ rest) = Inr ((opt_norm u, d), rest)"
  by (simp add: read_common_fields_def common_text_def reader_simps bool_parse_def)

lemma read_opt_common [reader_simps]:
  "key_ok key \<Longrightarrow> key \<noteq> ''unique_id'' \<Longrightarrow>
     read_key_value_line_opt key (common_text u d @ rest) = Inr (None, common_text u d @ rest)"
  by (simp add: common_text_def read_kv_line_opt_other)

lemma common_text_norm [simp]: "common_text (opt_norm u) d = common_text u d"
  by (simp add: common_text_def)

lemmas writer_simps = write_key_value_line_def write_key_value_line_opt_def write_unique_id_def

end
