(* ===== verification/Pkg_Nodes_A.thy ===== *)
theory Pkg_Nodes_A
  imports Pkg_Node_Common
begin

text \<open>
  Package nodes, \<open>lib/si-pkg/src/node\<close>: action functions, attribute function inputs, attribute values,
  categories, change sets, components and edges. For every node type: its data, its \<open>WriteBytes\<close> and
  \<open>ReadBytes\<close> implementations, its normal form and validity (its strings are Rust strings, its
  foreign values survive their own conversion), and an interpretation of \<open>node_codec\<close>, which is the
  round trip of the type.
\<close>

section \<open>Action functions\<close>

record ActionFuncNode =
  af_name :: "bytes option"
  af_func_unique_id :: bytes
  af_kind :: ActionFuncSpecKind
  af_unique_id :: "bytes option"
  af_deleted :: bool

definition write_ActionFuncNode :: "ActionFuncNode \<Rightarrow> graph_write" where
  "write_ActionFuncNode n = wseq [
     write_key_value_line ''kind'' (ActionFuncSpecKind_to_string (af_kind n)),
     write_key_value_line ''func_unique_id'' (af_func_unique_id n),
     write_key_value_line_opt ''name'' (af_name n),
     write_common_fields (af_unique_id n) (af_deleted n)]"

definition read_ActionFuncNode :: "ActionFuncNode option graph_reader" where
  "read_ActionFuncNode =
     pbind (read_parsed ''kind'' ActionFuncSpecKind_from_str) (\<lambda>kind.
     pbind (read_key_value_line ''func_unique_id'') (\<lambda>func_unique_id.
     pbind (read_key_value_line_opt ''name'') (\<lambda>name.
     pbind read_common_fields (\<lambda>(unique_id, deleted).
       preturn (Some \<lparr>af_name = name, af_func_unique_id = func_unique_id, af_kind = kind,
                      af_unique_id = unique_id, af_deleted = deleted\<rparr>)))))"

definition norm_ActionFuncNode :: "ActionFuncNode \<Rightarrow> ActionFuncNode" where
  "norm_ActionFuncNode n = n\<lparr>af_unique_id := opt_norm (af_unique_id n)\<rparr>"

definition valid_ActionFuncNode :: "ActionFuncNode \<Rightarrow> bool" where
  "valid_ActionFuncNode n \<longleftrightarrow> rust_string (af_func_unique_id n) \<and> rust_string_opt (af_name n)
     \<and> rust_string_opt (af_unique_id n)"

lemmas ActionFuncNode_defs = write_ActionFuncNode_def read_ActionFuncNode_def
  norm_ActionFuncNode_def valid_ActionFuncNode_def writer_simps

interpretation action_func: node_codec
  write_ActionFuncNode read_ActionFuncNode norm_ActionFuncNode valid_ActionFuncNode
proof unfold_locales
  fix n b rest
  show "read_ActionFuncNode (b @ rest) = Inr (Some (norm_ActionFuncNode n), rest)"
    if "valid_ActionFuncNode n" "write_ActionFuncNode n = Inr b"
    using that by (cases "af_name n") (auto simp: ActionFuncNode_defs reader_simps)
  show "is_ok (write_ActionFuncNode n)"
    by (cases "af_name n") (simp_all add: ActionFuncNode_defs)
qed (simp_all add: ActionFuncNode_defs)

section \<open>Attribute function inputs\<close>

datatype AttrFuncInputNode =
    InputSocket bytes bytes "bytes option" bool
  | OutputSocket bytes bytes "bytes option" bool
  | Prop bytes bytes "bytes option" bool

fun AttrFuncInputNode_name :: "AttrFuncInputNode \<Rightarrow> bytes" where
  "AttrFuncInputNode_name (AttrFuncInputNode.Prop name _ _ _) = name"
| "AttrFuncInputNode_name (AttrFuncInputNode.InputSocket name _ _ _) = name"
| "AttrFuncInputNode_name (AttrFuncInputNode.OutputSocket name _ _ _) = name"

fun AttrFuncInputNode_kind_str :: "AttrFuncInputNode \<Rightarrow> bytes" where
  "AttrFuncInputNode_kind_str (AttrFuncInputNode.Prop _ _ _ _) =
     AttrFuncInputSpecKind_to_string AttrFuncInputSpecKind.Prop"
| "AttrFuncInputNode_kind_str (AttrFuncInputNode.InputSocket _ _ _ _) =
     AttrFuncInputSpecKind_to_string AttrFuncInputSpecKind.InputSocket"
| "AttrFuncInputNode_kind_str (AttrFuncInputNode.OutputSocket _ _ _ _) =
     AttrFuncInputSpecKind_to_string AttrFuncInputSpecKind.OutputSocket"

definition write_AttrFuncInputNode :: "AttrFuncInputNode \<Rightarrow> graph_write" where
  "write_AttrFuncInputNode n = wseq [
     write_key_value_line ''name'' (AttrFuncInputNode_name n),
     write_key_value_line ''kind'' (AttrFuncInputNode_kind_str n),
     (case n of
        AttrFuncInputNode.OutputSocket _ socket_name _ _ \<Rightarrow>
          write_key_value_line ''socket_name'' socket_name
      | AttrFuncInputNode.InputSocket _ socket_name _ _ \<Rightarrow>
          write_key_value_line ''socket_name'' socket_name
      | AttrFuncInputNode.Prop _ prop_path _ _ \<Rightarrow> write_key_value_line ''prop_path'' prop_path),
     (case n of
        AttrFuncInputNode.InputSocket _ _ unique_id deleted \<Rightarrow> write_common_fields unique_id deleted
      | AttrFuncInputNode.OutputSocket _ _ unique_id deleted \<Rightarrow> write_common_fields unique_id deleted
      | AttrFuncInputNode.Prop _ _ unique_id deleted \<Rightarrow> write_common_fields unique_id deleted)]"

definition read_AttrFuncInputNode :: "AttrFuncInputNode option graph_reader" where
  "read_AttrFuncInputNode =
     pbind (read_key_value_line ''name'') (\<lambda>name.
     pbind (read_parsed ''kind'' AttrFuncInputSpecKind_from_str) (\<lambda>kind.
       case kind of
         AttrFuncInputSpecKind.Prop \<Rightarrow>
           pbind (read_key_value_line ''prop_path'') (\<lambda>prop_path.
           pbind read_common_fields (\<lambda>(unique_id, deleted).
             preturn (Some (AttrFuncInputNode.Prop name prop_path unique_id deleted))))
       | AttrFuncInputSpecKind.InputSocket \<Rightarrow>
           pbind (read_key_value_line ''socket_name'') (\<lambda>socket_name.
           pbind read_common_fields (\<lambda>(unique_id, deleted).
             preturn (Some (AttrFuncInputNode.InputSocket name socket_name unique_id deleted))))
       | AttrFuncInputSpecKind.OutputSocket \<Rightarrow>
           pbind (read_key_value_line ''socket_name'') (\<lambda>socket_name.
           pbind read_common_fields (\<lambda>(unique_id, deleted).
             preturn (Some (AttrFuncInputNode.OutputSocket name socket_name unique_id deleted))))))"

fun norm_AttrFuncInputNode :: "AttrFuncInputNode \<Rightarrow> AttrFuncInputNode" where
  "norm_AttrFuncInputNode (AttrFuncInputNode.Prop n p u d) =
     AttrFuncInputNode.Prop n p (opt_norm u) d"
| "norm_AttrFuncInputNode (AttrFuncInputNode.InputSocket n s u d) =
     AttrFuncInputNode.InputSocket n s (opt_norm u) d"
| "norm_AttrFuncInputNode (AttrFuncInputNode.OutputSocket n s u d) =
     AttrFuncInputNode.OutputSocket n s (opt_norm u) d"

fun valid_AttrFuncInputNode :: "AttrFuncInputNode \<Rightarrow> bool" where
  "valid_AttrFuncInputNode (AttrFuncInputNode.Prop n p u d) \<longleftrightarrow>
     rust_string n \<and> rust_string p \<and> rust_string_opt u"
| "valid_AttrFuncInputNode (AttrFuncInputNode.InputSocket n s u d) \<longleftrightarrow>
     rust_string n \<and> rust_string s \<and> rust_string_opt u"
| "valid_AttrFuncInputNode (AttrFuncInputNode.OutputSocket n s u d) \<longleftrightarrow>
     rust_string n \<and> rust_string s \<and> rust_string_opt u"

lemmas AttrFuncInputNode_defs = write_AttrFuncInputNode_def read_AttrFuncInputNode_def writer_simps

interpretation attr_func_input: node_codec
  write_AttrFuncInputNode read_AttrFuncInputNode norm_AttrFuncInputNode valid_AttrFuncInputNode
proof unfold_locales
  fix n b rest
  show "read_AttrFuncInputNode (b @ rest) = Inr (Some (norm_AttrFuncInputNode n), rest)"
    if "valid_AttrFuncInputNode n" "write_AttrFuncInputNode n = Inr b"
    using that
    by (cases n) (auto simp: AttrFuncInputNode_defs reader_simps
        simp del: AttrFuncInputSpecKind_to_string.simps)
  show "is_ok (write_AttrFuncInputNode n)"
    "write_AttrFuncInputNode (norm_AttrFuncInputNode n) = write_AttrFuncInputNode n"
    by (cases n; simp add: AttrFuncInputNode_defs)+
  show "valid_AttrFuncInputNode (norm_AttrFuncInputNode n)" if "valid_AttrFuncInputNode n"
    using that by (cases n) simp_all
qed

section \<open>Nodes that are only a kind\<close>

text \<open>Categories and the child nodes hold nothing but a kind, which is written in one line.\<close>

definition write_kind :: "('a \<Rightarrow> bytes) \<Rightarrow> 'a \<Rightarrow> graph_write" where
  "write_kind kind_str n = write_key_value_line ''kind'' (kind_str n)"

lemma write_kind_eq: "write_kind f n = Inr (kv_line ''kind'' (f n))"
  by (simp add: write_kind_def write_key_value_line_def)

lemma kind_codec:
  assumes "\<And>n. rust_string (kind_str n)"
    and "\<And>n. of_kind (kind_str n) = Some n"
  shows "node_codec (write_kind kind_str)
    (pbind (read_key_value_line ''kind'') (\<lambda>s. preturn (of_kind s))) (\<lambda>n. n) (\<lambda>_. True)"
  using assms by unfold_locales (auto simp: write_kind_eq reader_simps)

datatype AttributeValueChildNode = AttrFuncInputs

fun AttributeValueChildNode_kind_str :: "AttributeValueChildNode \<Rightarrow> bytes" where
  "AttributeValueChildNode_kind_str AttributeValueChildNode.AttrFuncInputs = ''attr_func_inputs''"

definition AttributeValueChildNode_of_kind :: "bytes \<Rightarrow> AttributeValueChildNode option" where
  "AttributeValueChildNode_of_kind s =
     (if s = ''attr_func_inputs'' then Some AttributeValueChildNode.AttrFuncInputs else None)"

definition write_AttributeValueChildNode :: "AttributeValueChildNode \<Rightarrow> graph_write" where
  "write_AttributeValueChildNode = write_kind AttributeValueChildNode_kind_str"

definition read_AttributeValueChildNode :: "AttributeValueChildNode option graph_reader" where
  "read_AttributeValueChildNode =
     pbind (read_key_value_line ''kind'') (\<lambda>s. preturn (AttributeValueChildNode_of_kind s))"

interpretation attribute_value_child: node_codec
  write_AttributeValueChildNode read_AttributeValueChildNode "\<lambda>n. n" "\<lambda>_. True"
  unfolding write_AttributeValueChildNode_def read_AttributeValueChildNode_def
proof (rule kind_codec)
  show "rust_string (AttributeValueChildNode_kind_str n)"
    "AttributeValueChildNode_of_kind (AttributeValueChildNode_kind_str n) = Some n" for n
    by (cases n; simp add: rust_string_def AttributeValueChildNode_of_kind_def)+
qed

datatype CategoryNode = ChangeSets | Funcs | Schemas

fun CategoryNode_kind_str :: "CategoryNode \<Rightarrow> bytes" where
  "CategoryNode_kind_str CategoryNode.ChangeSets = ''change_sets''"
| "CategoryNode_kind_str CategoryNode.Funcs = ''funcs''"
| "CategoryNode_kind_str CategoryNode.Schemas = ''schemas''"

definition CategoryNode_of_kind :: "bytes \<Rightarrow> CategoryNode option" where
  "CategoryNode_of_kind s =
     (if s = ''change_sets'' then Some CategoryNode.ChangeSets
      else if s = ''funcs'' then Some CategoryNode.Funcs
      else if s = ''schemas'' then Some CategoryNode.Schemas
      else None)"

definition write_CategoryNode :: "CategoryNode \<Rightarrow> graph_write" where
  "write_CategoryNode = write_kind CategoryNode_kind_str"

definition read_CategoryNode :: "CategoryNode option graph_reader" where
  "read_CategoryNode =
     pbind (read_key_value_line ''kind'') (\<lambda>s. preturn (CategoryNode_of_kind s))"

interpretation category: node_codec write_CategoryNode read_CategoryNode "\<lambda>n. n" "\<lambda>_. True"
  unfolding write_CategoryNode_def read_CategoryNode_def
proof (rule kind_codec)
  show "rust_string (CategoryNode_kind_str n)"
    "CategoryNode_of_kind (CategoryNode_kind_str n) = Some n" for n
    by (cases n; simp add: rust_string_def CategoryNode_of_kind_def)+
qed

datatype ChangeSetChildNode = Components | Edges | Funcs | Schemas

fun ChangeSetChildNode_kind_str :: "ChangeSetChildNode \<Rightarrow> bytes" where
  "ChangeSetChildNode_kind_str ChangeSetChildNode.Components = ''components''"
| "ChangeSetChildNode_kind_str ChangeSetChildNode.Edges = ''edges''"
| "ChangeSetChildNode_kind_str ChangeSetChildNode.Funcs = ''funcs''"
| "ChangeSetChildNode_kind_str ChangeSetChildNode.Schemas = ''schemas''"

definition ChangeSetChildNode_of_kind :: "bytes \<Rightarrow> ChangeSetChildNode option" where
  "ChangeSetChildNode_of_kind s =
     (if s = ''components'' then Some ChangeSetChildNode.Components
      else if s = ''edges'' then Some ChangeSetChildNode.Edges
      else if s = ''funcs'' then Some ChangeSetChildNode.Funcs
      else if s = ''schemas'' then Some ChangeSetChildNode.Schemas
      else None)"

definition write_ChangeSetChildNode :: "ChangeSetChildNode \<Rightarrow> graph_write" where
  "write_ChangeSetChildNode = write_kind ChangeSetChildNode_kind_str"

definition read_ChangeSetChildNode :: "ChangeSetChildNode option graph_reader" where
  "read_ChangeSetChildNode =
     pbind (read_key_value_line ''kind'') (\<lambda>s. preturn (ChangeSetChildNode_of_kind s))"

interpretation change_set_child: node_codec
  write_ChangeSetChildNode read_ChangeSetChildNode "\<lambda>n. n" "\<lambda>_. True"
  unfolding write_ChangeSetChildNode_def read_ChangeSetChildNode_def
proof (rule kind_codec)
  show "rust_string (ChangeSetChildNode_kind_str n)"
    "ChangeSetChildNode_of_kind (ChangeSetChildNode_kind_str n) = Some n" for n
    by (cases n; simp add: rust_string_def ChangeSetChildNode_of_kind_def)+
qed

datatype ComponentChildNode = Attributes | InputSockets | OutputSockets | Position

fun ComponentChildNode_kind_str :: "ComponentChildNode \<Rightarrow> bytes" where
  "ComponentChildNode_kind_str ComponentChildNode.Attributes = ''attributes''"
| "ComponentChildNode_kind_str ComponentChildNode.InputSockets = ''input_sockets''"
| "ComponentChildNode_kind_str ComponentChildNode.OutputSockets = ''output_sockets''"
| "ComponentChildNode_kind_str ComponentChildNode.Position = ''position''"

definition ComponentChildNode_of_kind :: "bytes \<Rightarrow> ComponentChildNode option" where
  "ComponentChildNode_of_kind s =
     (if s = ''attributes'' then Some ComponentChildNode.Attributes
      else if s = ''input_sockets'' then Some ComponentChildNode.InputSockets
      else if s = ''output_sockets'' then Some ComponentChildNode.OutputSockets
      else if s = ''position'' then Some ComponentChildNode.Position
      else None)"

definition write_ComponentChildNode :: "ComponentChildNode \<Rightarrow> graph_write" where
  "write_ComponentChildNode = write_kind ComponentChildNode_kind_str"

definition read_ComponentChildNode :: "ComponentChildNode option graph_reader" where
  "read_ComponentChildNode =
     pbind (read_key_value_line ''kind'') (\<lambda>s. preturn (ComponentChildNode_of_kind s))"

interpretation component_child: node_codec
  write_ComponentChildNode read_ComponentChildNode "\<lambda>n. n" "\<lambda>_. True"
  unfolding write_ComponentChildNode_def read_ComponentChildNode_def
proof (rule kind_codec)
  show "rust_string (ComponentChildNode_kind_str n)"
    "ComponentChildNode_of_kind (ComponentChildNode_kind_str n) = Some n" for n
    by (cases n; simp add: rust_string_def ComponentChildNode_of_kind_def)+
qed

end
