(* ===== verification/Pkg_Nodes_B.thy ===== *)
theory Pkg_Nodes_B
  imports Pkg_Nodes_A
begin

text \<open>
  Package nodes, \<open>lib/si-pkg/src/node\<close>, continued: attribute values, change sets, components, edges,
  function arguments, leaf functions, map key functions, positions and packages.
\<close>

section \<open>Change sets\<close>

record ChangeSetNode =
  cs_name :: bytes
  cs_based_on_change_set :: "bytes option"
  cs_status :: ChangeSetSpecStatus

definition write_ChangeSetNode :: "ChangeSetNode \<Rightarrow> graph_write" where
  "write_ChangeSetNode n = wseq [
     write_key_value_line ''name'' (cs_name n),
     write_key_value_line ''based_on_change_set'' (unwrap_or_empty (cs_based_on_change_set n)),
     write_key_value_line ''status'' (ChangeSetSpecStatus_to_string (cs_status n))]"

definition read_ChangeSetNode :: "ChangeSetNode option graph_reader" where
  "read_ChangeSetNode =
     pbind (read_key_value_line ''name'') (\<lambda>name.
     pbind (read_text_or_none ''based_on_change_set'') (\<lambda>based_on_change_set.
     pbind (read_parsed ''status'' ChangeSetSpecStatus_from_str) (\<lambda>status.
       preturn (Some \<lparr>cs_name = name, cs_based_on_change_set = based_on_change_set,
                      cs_status = status\<rparr>))))"

definition norm_ChangeSetNode :: "ChangeSetNode \<Rightarrow> ChangeSetNode" where
  "norm_ChangeSetNode n = n\<lparr>cs_based_on_change_set := opt_norm (cs_based_on_change_set n)\<rparr>"

definition valid_ChangeSetNode :: "ChangeSetNode \<Rightarrow> bool" where
  "valid_ChangeSetNode n \<longleftrightarrow> rust_string (cs_name n) \<and> rust_string_opt (cs_based_on_change_set n)"

lemmas ChangeSetNode_defs = write_ChangeSetNode_def read_ChangeSetNode_def
  norm_ChangeSetNode_def valid_ChangeSetNode_def writer_simps

interpretation change_set: node_codec
  write_ChangeSetNode read_ChangeSetNode norm_ChangeSetNode valid_ChangeSetNode
  by unfold_locales (auto simp: ChangeSetNode_defs reader_simps)

section \<open>Components\<close>

record ComponentNode =
  cn_name :: bytes
  cn_variant :: ComponentSpecVariant
  cn_needs_destroy :: bool
  cn_deletion_user_pk :: "bytes option"
  cn_unique_id :: bytes
  cn_deleted :: bool

definition write_ComponentNode :: "('j, 'u, 'd) externals \<Rightarrow> ComponentNode \<Rightarrow> graph_write" where
  "write_ComponentNode E n = wseq [
     write_key_value_line ''name'' (cn_name n),
     write_json ''variant'' (variant_to_string E) (cn_variant n),
     write_key_value_line ''needs_destroy'' (show_bool (cn_needs_destroy n)),
     write_key_value_line ''deletion_user_pk'' (unwrap_or_empty (cn_deletion_user_pk n)),
     write_key_value_line ''unique_id'' (cn_unique_id n),
     write_key_value_line ''deleted'' (show_bool (cn_deleted n))]"

definition read_ComponentNode :: "('j, 'u, 'd) externals \<Rightarrow> ComponentNode option graph_reader" where
  "read_ComponentNode E =
     pbind (read_key_value_line ''name'') (\<lambda>name.
     pbind (read_parsed ''variant'' (variant_parse E)) (\<lambda>variant.
     pbind (read_parsed ''needs_destroy'' bool_parse) (\<lambda>needs_destroy.
     pbind (read_text_or_none ''deletion_user_pk'') (\<lambda>deletion_user_pk.
     pbind (read_key_value_line ''unique_id'') (\<lambda>unique_id.
     pbind (read_parsed ''deleted'' bool_parse) (\<lambda>deleted.
       preturn (Some \<lparr>cn_name = name, cn_variant = variant, cn_needs_destroy = needs_destroy,
                      cn_deletion_user_pk = deletion_user_pk, cn_unique_id = unique_id,
                      cn_deleted = deleted\<rparr>)))))))"

definition norm_ComponentNode :: "ComponentNode \<Rightarrow> ComponentNode" where
  "norm_ComponentNode n = n\<lparr>cn_deletion_user_pk := opt_norm (cn_deletion_user_pk n)\<rparr>"

definition valid_ComponentNode :: "('j, 'u, 'd) externals \<Rightarrow> ComponentNode \<Rightarrow> bool" where
  "valid_ComponentNode E n \<longleftrightarrow> rust_string (cn_name n) \<and> variant_ok E (cn_variant n)
     \<and> rust_string_opt (cn_deletion_user_pk n) \<and> rust_string (cn_unique_id n)"

lemmas ComponentNode_defs = write_ComponentNode_def read_ComponentNode_def
  norm_ComponentNode_def valid_ComponentNode_def writer_simps parse_defs

interpretation component: node_codec
  "write_ComponentNode E" "read_ComponentNode E" norm_ComponentNode "valid_ComponentNode E" for E
  by unfold_locales (auto simp: ComponentNode_defs reader_simps)

section \<open>Edges\<close>

record EdgeNode =
  en_edge_kind :: EdgeSpecKind
  en_from_component_unique_id :: bytes
  en_from_socket_name :: bytes
  en_to_component_unique_id :: bytes
  en_to_socket_name :: bytes
  en_creation_user_pk :: "bytes option"
  en_deletion_user_pk :: "bytes option"
  en_deleted_implicitly :: bool
  en_unique_id :: bytes
  en_deleted :: bool

definition write_EdgeNode :: "EdgeNode \<Rightarrow> graph_write" where
  "write_EdgeNode n = wseq [
     write_key_value_line ''edge_kind'' (EdgeSpecKind_to_string (en_edge_kind n)),
     write_key_value_line ''from_component_unique_id'' (en_from_component_unique_id n),
     write_key_value_line ''from_socket_name'' (en_from_socket_name n),
     write_key_value_line ''to_component_unique_id'' (en_to_component_unique_id n),
     write_key_value_line ''to_socket_name'' (en_to_socket_name n),
     write_key_value_line ''creation_user_pk'' (unwrap_or_empty (en_creation_user_pk n)),
     write_key_value_line ''deletion_user_pk'' (unwrap_or_empty (en_deletion_user_pk n)),
     write_key_value_line ''deleted_implicitly'' (show_bool (en_deleted_implicitly n)),
     write_key_value_line ''unique_id'' (en_unique_id n),
     write_key_value_line ''deleted'' (show_bool (en_deleted n))]"

definition read_EdgeNode :: "EdgeNode option graph_reader" where
  "read_EdgeNode =
     pbind (read_parsed ''edge_kind'' EdgeSpecKind_from_str) (\<lambda>edge_kind.
     pbind (read_key_value_line ''from_component_unique_id'') (\<lambda>from_component_unique_id.
     pbind (read_key_value_line ''from_socket_name'') (\<lambda>from_socket_name.
     pbind (read_key_value_line ''to_component_unique_id'') (\<lambda>to_component_unique_id.
     pbind (read_key_value_line ''to_socket_name'') (\<lambda>to_socket_name.
     pbind (read_text_or_none ''creation_user_pk'') (\<lambda>creation_user_pk.
     pbind (read_text_or_none ''deletion_user_pk'') (\<lambda>deletion_user_pk.
     pbind (read_parsed ''deleted_implicitly'' bool_parse) (\<lambda>deleted_implicitly.
     pbind (read_key_value_line ''unique_id'') (\<lambda>unique_id.
     pbind (read_parsed ''deleted'' bool_parse) (\<lambda>deleted.
       preturn (Some \<lparr>en_edge_kind = edge_kind,
                      en_from_component_unique_id = from_component_unique_id,
                      en_from_socket_name = from_socket_name,
                      en_to_component_unique_id = to_component_unique_id,
                      en_to_socket_name = to_socket_name,
                      en_creation_user_pk = creation_user_pk,
                      en_deletion_user_pk = deletion_user_pk,
                      en_deleted_implicitly = deleted_implicitly,
                      en_unique_id = unique_id, en_deleted = deleted\<rparr>)))))))))))"

definition norm_EdgeNode :: "EdgeNode \<Rightarrow> EdgeNode" where
  "norm_EdgeNode n = n\<lparr>en_creation_user_pk := opt_norm (en_creation_user_pk n),
                        en_deletion_user_pk := opt_norm (en_deletion_user_pk n)\<rparr>"

definition valid_EdgeNode :: "EdgeNode \<Rightarrow> bool" where
  "valid_EdgeNode n \<longleftrightarrow> rust_string (en_from_component_unique_id n)
     \<and> rust_string (en_from_socket_name n) \<and> rust_string (en_to_component_unique_id n)
     \<and> rust_string (en_to_socket_name n) \<and> rust_string_opt (en_creation_user_pk n)
     \<and> rust_string_opt (en_deletion_user_pk n) \<and> rust_string (en_unique_id n)"

lemmas EdgeNode_defs = write_EdgeNode_def read_EdgeNode_def
  norm_EdgeNode_def valid_EdgeNode_def writer_simps parse_defs

interpretation edge: node_codec write_EdgeNode read_EdgeNode norm_EdgeNode valid_EdgeNode
  by unfold_locales (auto simp: EdgeNode_defs reader_simps)

section \<open>Function arguments\<close>

record FuncArgumentNode =
  fa_name :: bytes
  fa_kind :: FuncArgumentKind
  fa_element_kind :: "FuncArgumentKind option"
  fa_unique_id :: "bytes option"
  fa_deleted :: bool

definition write_FuncArgumentNode :: "FuncArgumentNode \<Rightarrow> graph_write" where
  "write_FuncArgumentNode n = wseq [
     write_key_value_line ''name'' (fa_name n),
     write_key_value_line ''kind'' (FuncArgumentKind_to_string (fa_kind n)),
     write_key_value_line ''element_kind''
       (text_or_empty FuncArgumentKind_to_string (fa_element_kind n)),
     write_common_fields (fa_unique_id n) (fa_deleted n)]"

definition read_FuncArgumentNode :: "FuncArgumentNode option graph_reader" where
  "read_FuncArgumentNode =
     pbind (read_key_value_line ''name'') (\<lambda>name.
     pbind (read_parsed ''kind'' FuncArgumentKind_from_str) (\<lambda>kind.
     pbind (read_parsed_or_none ''element_kind'' FuncArgumentKind_from_str) (\<lambda>element_kind.
     pbind read_common_fields (\<lambda>(unique_id, deleted).
       preturn (Some \<lparr>fa_name = name, fa_kind = kind, fa_element_kind = element_kind,
                      fa_unique_id = unique_id, fa_deleted = deleted\<rparr>)))))"

definition norm_FuncArgumentNode :: "FuncArgumentNode \<Rightarrow> FuncArgumentNode" where
  "norm_FuncArgumentNode n = n\<lparr>fa_unique_id := opt_norm (fa_unique_id n)\<rparr>"

definition valid_FuncArgumentNode :: "FuncArgumentNode \<Rightarrow> bool" where
  "valid_FuncArgumentNode n \<longleftrightarrow> rust_string (fa_name n) \<and> rust_string_opt (fa_unique_id n)"

lemmas FuncArgumentNode_defs = write_FuncArgumentNode_def read_FuncArgumentNode_def
  norm_FuncArgumentNode_def valid_FuncArgumentNode_def writer_simps

interpretation func_argument: node_codec
  write_FuncArgumentNode read_FuncArgumentNode norm_FuncArgumentNode valid_FuncArgumentNode
proof unfold_locales
  fix n b rest
  show "read_FuncArgumentNode (b @ rest) = Inr (Some (norm_FuncArgumentNode n), rest)"
    if "valid_FuncArgumentNode n" "write_FuncArgumentNode n = Inr b"
    using that by (cases "fa_element_kind n") (auto simp: FuncArgumentNode_defs reader_simps)
qed (simp_all add: FuncArgumentNode_defs)

section \<open>Leaf functions\<close>

record LeafFunctionNode =
  lf_func_unique_id :: bytes
  lf_leaf_kind :: LeafKind
  lf_input_code :: bool
  lf_input_deleted_at :: bool
  lf_input_domain :: bool
  lf_input_resource :: bool
  lf_unique_id :: "bytes option"
  lf_deleted :: bool

definition write_LeafFunctionNode :: "LeafFunctionNode \<Rightarrow> graph_write" where
  "write_LeafFunctionNode n = wseq [
     write_key_value_line ''leaf_kind'' (LeafKind_to_string (lf_leaf_kind n)),
     write_key_value_line ''func_unique_id'' (lf_func_unique_id n),
     write_key_value_line ''input_code'' (show_bool (lf_input_code n)),
     write_key_value_line ''input_domain'' (show_bool (lf_input_domain n)),
     write_key_value_line ''input_deleted_at'' (show_bool (lf_input_deleted_at n)),
     write_key_value_line ''input_resource'' (show_bool (lf_input_resource n)),
     write_common_fields (lf_unique_id n) (lf_deleted n)]"

definition read_LeafFunctionNode :: "LeafFunctionNode option graph_reader" where
  "read_LeafFunctionNode =
     pbind (read_parsed ''leaf_kind'' LeafKind_from_str) (\<lambda>leaf_kind.
     pbind (read_key_value_line ''func_unique_id'') (\<lambda>func_unique_id.
     pbind (read_parsed ''input_code'' bool_parse) (\<lambda>input_code.
     pbind (read_parsed ''input_domain'' bool_parse) (\<lambda>input_domain.
     pbind (read_parsed ''input_deleted_at'' bool_parse) (\<lambda>input_deleted_at.
     pbind (read_parsed ''input_resource'' bool_parse) (\<lambda>input_resource.
     pbind read_common_fields (\<lambda>(unique_id, deleted).
       preturn (Some \<lparr>lf_func_unique_id = func_unique_id, lf_leaf_kind = leaf_kind,
                      lf_input_code = input_code, lf_input_deleted_at = input_deleted_at,
                      lf_input_domain = input_domain, lf_input_resource = input_resource,
                      lf_unique_id = unique_id, lf_deleted = deleted\<rparr>))))))))"

definition norm_LeafFunctionNode :: "LeafFunctionNode \<Rightarrow> LeafFunctionNode" where
  "norm_LeafFunctionNode n = n\<lparr>lf_unique_id := opt_norm (lf_unique_id n)\<rparr>"

definition valid_LeafFunctionNode :: "LeafFunctionNode \<Rightarrow> bool" where
  "valid_LeafFunctionNode n \<longleftrightarrow> rust_string (lf_func_unique_id n)
     \<and> rust_string_opt (lf_unique_id n)"

lemmas LeafFunctionNode_defs = write_LeafFunctionNode_def read_LeafFunctionNode_def
  norm_LeafFunctionNode_def valid_LeafFunctionNode_def writer_simps parse_defs

interpretation leaf_function: node_codec
  write_LeafFunctionNode read_LeafFunctionNode norm_LeafFunctionNode valid_LeafFunctionNode
  by unfold_locales (auto simp: LeafFunctionNode_defs reader_simps)

section \<open>Map key functions\<close>

record MapKeyFuncNode =
  mk_key :: bytes
  mk_func_unique_id :: bytes

definition write_MapKeyFuncNode :: "MapKeyFuncNode \<Rightarrow> graph_write" where
  "write_MapKeyFuncNode n = wseq [
     write_key_value_line ''key'' (mk_key n),
     write_key_value_line ''func_unique_id'' (mk_func_unique_id n)]"

definition read_MapKeyFuncNode :: "MapKeyFuncNode option graph_reader" where
  "read_MapKeyFuncNode =
     pbind (read_key_value_line ''key'') (\<lambda>key.
     pbind (read_key_value_line ''func_unique_id'') (\<lambda>func_unique_id.
       preturn (Some \<lparr>mk_key = key, mk_func_unique_id = func_unique_id\<rparr>)))"

definition valid_MapKeyFuncNode :: "MapKeyFuncNode \<Rightarrow> bool" where
  "valid_MapKeyFuncNode n \<longleftrightarrow> rust_string (mk_key n) \<and> rust_string (mk_func_unique_id n)"

interpretation map_key_func: node_codec
  write_MapKeyFuncNode read_MapKeyFuncNode "\<lambda>n. n" valid_MapKeyFuncNode
  by unfold_locales (auto simp: write_MapKeyFuncNode_def read_MapKeyFuncNode_def
      valid_MapKeyFuncNode_def writer_simps reader_simps)

section \<open>Positions\<close>

record PositionNode =
  pos_x :: bytes
  pos_y :: bytes
  pos_width :: "bytes option"
  pos_height :: "bytes option"

definition write_PositionNode :: "PositionNode \<Rightarrow> graph_write" where
  "write_PositionNode n = wseq [
     write_key_value_line ''x'' (pos_x n),
     write_key_value_line ''y'' (pos_y n),
     write_key_value_line ''width'' (unwrap_or_empty (pos_width n)),
     write_key_value_line ''height'' (unwrap_or_empty (pos_height n))]"

definition read_PositionNode :: "PositionNode option graph_reader" where
  "read_PositionNode =
     pbind (read_key_value_line ''x'') (\<lambda>x.
     pbind (read_key_value_line ''y'') (\<lambda>y.
     pbind (read_text_or_none ''width'') (\<lambda>width.
     pbind (read_text_or_none ''height'') (\<lambda>height.
       preturn (Some \<lparr>pos_x = x, pos_y = y, pos_width = width, pos_height = height\<rparr>)))))"

definition norm_PositionNode :: "PositionNode \<Rightarrow> PositionNode" where
  "norm_PositionNode n =
     n\<lparr>pos_width := opt_norm (pos_width n), pos_height := opt_norm (pos_height n)\<rparr>"

definition valid_PositionNode :: "PositionNode \<Rightarrow> bool" where
  "valid_PositionNode n \<longleftrightarrow> rust_string (pos_x n) \<and> rust_string (pos_y n)
     \<and> rust_string_opt (pos_width n) \<and> rust_string_opt (pos_height n)"

lemmas PositionNode_defs = write_PositionNode_def read_PositionNode_def
  norm_PositionNode_def valid_PositionNode_def writer_simps

interpretation position: node_codec
  write_PositionNode read_PositionNode norm_PositionNode valid_PositionNode
  by unfold_locales (auto simp: PositionNode_defs reader_simps)

section \<open>Packages\<close>

record 'd PackageNode =
  pkg_kind :: SiPkgKind
  pkg_name :: bytes
  pkg_version :: bytes
  pkg_description :: bytes
  pkg_created_at :: 'd
  pkg_created_by :: bytes
  pkg_default_change_set :: "bytes option"
  pkg_workspace_pk :: "bytes option"
  pkg_workspace_name :: "bytes option"

definition write_PackageNode :: "('j, 'u, 'd) externals \<Rightarrow> 'd PackageNode \<Rightarrow> graph_write" where
  "write_PackageNode E n = wseq [
     write_key_value_line ''kind'' (SiPkgKind_to_string (pkg_kind n)),
     write_key_value_line ''name'' (pkg_name n),
     write_key_value_line ''version'' (pkg_version n),
     write_key_value_line ''description'' (pkg_description n),
     write_key_value_line ''created_at'' (to_rfc3339 E (pkg_created_at n)),
     write_key_value_line ''created_by'' (pkg_created_by n),
     write_key_value_line_opt ''default_change_set'' (pkg_default_change_set n),
     write_key_value_line_opt ''workspace_pk'' (pkg_workspace_pk n),
     write_key_value_line_opt ''workspace_name'' (pkg_workspace_name n)]"

definition read_PackageNode :: "('j, 'u, 'd) externals \<Rightarrow> 'd PackageNode option graph_reader" where
  "read_PackageNode E =
     pbind (read_key_value_line_opt ''kind'') (\<lambda>maybe_kind.
     pbind (case maybe_kind of
              None \<Rightarrow> preturn SiPkgKind.Module
            | Some kind_str \<Rightarrow> plift (map_err Parse (SiPkgKind_from_str kind_str))) (\<lambda>kind.
     pbind (read_key_value_line ''name'') (\<lambda>name.
     pbind (read_key_value_line ''version'') (\<lambda>version.
     pbind (read_key_value_line ''description'') (\<lambda>description.
     pbind (read_parsed ''created_at'' (rfc3339_parse E)) (\<lambda>created_at.
     pbind (read_key_value_line ''created_by'') (\<lambda>created_by.
     pbind (read_key_value_line_opt ''default_change_set'') (\<lambda>default_change_set.
     pbind (read_key_value_line_opt ''workspace_pk'') (\<lambda>workspace_pk.
     pbind (read_key_value_line_opt ''workspace_name'') (\<lambda>workspace_name.
       preturn (Some \<lparr>pkg_kind = kind, pkg_name = name, pkg_version = version,
                      pkg_description = description, pkg_created_at = created_at,
                      pkg_created_by = created_by, pkg_default_change_set = default_change_set,
                      pkg_workspace_pk = workspace_pk,
                      pkg_workspace_name = workspace_name\<rparr>)))))))))))"

definition valid_PackageNode :: "('j, 'u, 'd) externals \<Rightarrow> 'd PackageNode \<Rightarrow> bool" where
  "valid_PackageNode E n \<longleftrightarrow> rust_string (pkg_name n) \<and> rust_string (pkg_version n)
     \<and> rust_string (pkg_description n) \<and> datetime_ok E (pkg_created_at n)
     \<and> rust_string (pkg_created_by n) \<and> rust_string_opt (pkg_default_change_set n)
     \<and> rust_string_opt (pkg_workspace_pk n) \<and> rust_string_opt (pkg_workspace_name n)"

lemmas PackageNode_defs = write_PackageNode_def read_PackageNode_def valid_PackageNode_def
  writer_simps parse_defs

interpretation package: node_codec
  "write_PackageNode E" "read_PackageNode E" "\<lambda>n. n" "valid_PackageNode E" for E
proof unfold_locales
  fix n b rest
  show "read_PackageNode E (b @ rest) = Inr (Some n, rest)"
    if "valid_PackageNode E n" "write_PackageNode E n = Inr b" "rest_ok rest"
    using that
    by (cases "pkg_default_change_set n"; cases "pkg_workspace_pk n"; cases "pkg_workspace_name n")
      (auto simp: PackageNode_defs reader_simps)
  show "is_ok (write_PackageNode E n)"
    by (simp add: PackageNode_defs split: option.split)
qed simp_all

end
