(* ===== verification/Pkg_Nodes_C.thy ===== *)
theory Pkg_Nodes_C
  imports Pkg_Nodes_B
begin

text \<open>
  Package nodes, \<open>lib/si-pkg/src/node\<close>, continued: attribute values, functions, props and their
  children.
\<close>

section \<open>Attribute values\<close>

record 'j AttributeValueNode =
  av_backend_kind :: FuncSpecBackendKind
  av_code_base64 :: "bytes option"
  av_func_binding_args :: 'j
  av_func_unique_id :: bytes
  av_handler :: "bytes option"
  av_output_stream :: "'j option"
  av_parent_path :: "AttributeValuePath option"
  av_path :: AttributeValuePath
  av_response_type :: FuncSpecBackendResponseType
  av_is_proxy :: bool
  av_sealed_proxy :: bool
  av_component_specific :: bool
  av_unprocessed_value :: "'j option"
  av_value :: "'j option"
  av_implicit_value :: "'j option"

definition write_AttributeValueNode ::
  "('j, 'u, 'd) externals \<Rightarrow> 'j AttributeValueNode \<Rightarrow> graph_write" where
  "write_AttributeValueNode E n = wseq [
     write_key_value_line ''backend_kind'' (FuncSpecBackendKind_to_string (av_backend_kind n)),
     write_key_value_line ''code'' (unwrap_or_empty (av_code_base64 n)),
     write_json ''func_binding_args'' (json_to_string E) (av_func_binding_args n),
     write_key_value_line ''func_unique_id'' (av_func_unique_id n),
     write_key_value_line ''handler'' (unwrap_or_empty (av_handler n)),
     write_json_or_empty ''output_stream'' (json_to_string E) (av_output_stream n),
     write_json_or_empty ''parent_path'' (path_to_string E) (av_parent_path n),
     write_json ''path'' (path_to_string E) (av_path n),
     write_key_value_line ''response_type''
       (FuncSpecBackendResponseType_to_string (av_response_type n)),
     write_key_value_line ''is_proxy'' (show_bool (av_is_proxy n)),
     write_key_value_line ''sealed_proxy'' (show_bool (av_sealed_proxy n)),
     write_key_value_line ''component_specific'' (show_bool (av_component_specific n)),
     write_json_or_empty ''unprocessed_value'' (json_to_string E) (av_unprocessed_value n),
     write_json_or_empty ''value'' (json_to_string E) (av_value n),
     (case av_implicit_value n of
        Some v \<Rightarrow> write_json ''implicit_value'' (json_to_string E) v
      | None \<Rightarrow> write_key_value_line_opt ''implicit_value'' None)]"

definition read_AttributeValueNode ::
  "('j, 'u, 'd) externals \<Rightarrow> 'j AttributeValueNode option graph_reader" where
  "read_AttributeValueNode E =
     pbind (read_parsed ''backend_kind'' FuncSpecBackendKind_from_str) (\<lambda>backend_kind.
     pbind (read_text_or_none ''code'') (\<lambda>code_base64.
     pbind (read_parsed ''func_binding_args'' (json_parse E)) (\<lambda>func_binding_args.
     pbind (read_key_value_line ''func_unique_id'') (\<lambda>func_unique_id.
     pbind (read_text_or_none ''handler'') (\<lambda>handler.
     pbind (read_parsed_or_none ''output_stream'' (json_parse E)) (\<lambda>output_stream.
     pbind (read_parsed_or_none ''parent_path'' (path_parse E)) (\<lambda>parent_path.
     pbind (read_parsed ''path'' (path_parse E)) (\<lambda>path.
     pbind (read_parsed ''response_type'' FuncSpecBackendResponseType_from_str) (\<lambda>response_type.
     pbind (read_parsed ''is_proxy'' bool_parse) (\<lambda>is_proxy.
     pbind (read_parsed ''sealed_proxy'' bool_parse) (\<lambda>sealed_proxy.
     pbind (read_parsed ''component_specific'' bool_parse) (\<lambda>component_specific.
     pbind (read_parsed_or_none ''unprocessed_value'' (json_parse E)) (\<lambda>unprocessed_value.
     pbind (read_parsed_or_none ''value'' (json_parse E)) (\<lambda>value.
     pbind (read_parsed_opt ''implicit_value'' (json_parse E)) (\<lambda>implicit_value.
       preturn (Some \<lparr>av_backend_kind = backend_kind, av_code_base64 = code_base64,
                      av_func_binding_args = func_binding_args,
                      av_func_unique_id = func_unique_id, av_handler = handler,
                      av_output_stream = output_stream, av_parent_path = parent_path,
                      av_path = path, av_response_type = response_type, av_is_proxy = is_proxy,
                      av_sealed_proxy = sealed_proxy,
                      av_component_specific = component_specific,
                      av_unprocessed_value = unprocessed_value, av_value = value,
                      av_implicit_value = implicit_value\<rparr>))))))))))))))))"

definition norm_AttributeValueNode :: "'j AttributeValueNode \<Rightarrow> 'j AttributeValueNode" where
  "norm_AttributeValueNode n =
     n\<lparr>av_code_base64 := opt_norm (av_code_base64 n), av_handler := opt_norm (av_handler n)\<rparr>"

definition valid_AttributeValueNode ::
  "('j, 'u, 'd) externals \<Rightarrow> 'j AttributeValueNode \<Rightarrow> bool" where
  "valid_AttributeValueNode E n \<longleftrightarrow> rust_string_opt (av_code_base64 n)
     \<and> json_ok E (av_func_binding_args n) \<and> rust_string (av_func_unique_id n)
     \<and> rust_string_opt (av_handler n) \<and> opt_ok (json_ok E) (av_output_stream n)
     \<and> opt_ok (path_ok E) (av_parent_path n) \<and> path_ok E (av_path n)
     \<and> opt_ok (json_ok E) (av_unprocessed_value n) \<and> opt_ok (json_ok E) (av_value n)
     \<and> opt_ok (json_ok E) (av_implicit_value n)"

lemmas AttributeValueNode_defs = write_AttributeValueNode_def read_AttributeValueNode_def
  norm_AttributeValueNode_def valid_AttributeValueNode_def writer_simps parse_defs

text \<open>An optional JSON field, written and read back, whether it is there or not.\<close>

lemma read_json_field [reader_simps]:
  "key_ok key \<Longrightarrow> opt_ok (json_ok E) m \<Longrightarrow>
     read_parsed_or_none key (json_parse E) (kv_line key (text_or_empty (json_text E) m) @ rest)
       = Inr (m, rest)"
  "key_ok key \<Longrightarrow> opt_ok (path_ok E) p \<Longrightarrow>
     read_parsed_or_none key (path_parse E)
       (kv_line key (text_or_empty (text_of (path_to_string E)) p) @ rest) = Inr (p, rest)"
  by (cases m; cases p; simp add: reader_simps parse_defs)+

lemma write_json_field [simp]:
  "opt_ok (json_ok E) m \<Longrightarrow> write_json_or_empty key (json_to_string E) m
     = Inr (kv_line key (text_or_empty (json_text E) m))"
  "opt_ok (path_ok E) p \<Longrightarrow> write_json_or_empty key (path_to_string E) p
     = Inr (kv_line key (text_or_empty (text_of (path_to_string E)) p))"
  by (cases m; cases p; simp)+

interpretation attribute_value: node_codec
  "write_AttributeValueNode E" "read_AttributeValueNode E" norm_AttributeValueNode
  "valid_AttributeValueNode E" for E
proof unfold_locales
  fix n b rest
  show "read_AttributeValueNode E (b @ rest) = Inr (Some (norm_AttributeValueNode n), rest)"
    if "valid_AttributeValueNode E n" "write_AttributeValueNode E n = Inr b" "rest_ok rest"
    using that
    by (cases "av_implicit_value n")
      (auto simp: write_AttributeValueNode_def read_AttributeValueNode_def
        norm_AttributeValueNode_def valid_AttributeValueNode_def writer_simps reader_simps
        json_parse_def [of E "json_text E v" for v] path_parse_def [of E "text_of to p" for to p]
        bool_parse_def)
  show "is_ok (write_AttributeValueNode E n)" if "valid_AttributeValueNode E n"
    using that
    by (cases "av_implicit_value n")
      (auto simp: write_AttributeValueNode_def valid_AttributeValueNode_def writer_simps)
qed (simp_all add: AttributeValueNode_defs)

section \<open>Functions\<close>

record 'u FuncData =
  fd_name :: bytes
  fd_display_name :: "bytes option"
  fd_description :: "bytes option"
  fd_handler :: bytes
  fd_code_base64 :: bytes
  fd_backend_kind :: FuncSpecBackendKind
  fd_response_type :: FuncSpecBackendResponseType
  fd_hidden :: bool
  fd_link :: "'u option"

record 'u FuncNode =
  fn_name :: bytes
  fn_data :: "'u FuncData option"
  fn_unique_id :: bytes
  fn_deleted :: bool
  fn_is_from_builtin :: "bool option"

definition write_FuncNode :: "('j, 'u, 'd) externals \<Rightarrow> 'u FuncNode \<Rightarrow> graph_write" where
  "write_FuncNode E n = wseq ([
     write_key_value_line ''name'' (fn_name n)]
     @ (case fn_data n of None \<Rightarrow> [] | Some data \<Rightarrow> [
       write_key_value_line ''display_name'' (unwrap_or_empty (fd_display_name data)),
       write_key_value_line ''description'' (unwrap_or_empty (fd_description data)),
       write_key_value_line ''handler'' (fd_handler data),
       write_key_value_line ''code_base64'' (fd_code_base64 data),
       write_key_value_line ''backend_kind''
         (FuncSpecBackendKind_to_string (fd_backend_kind data)),
       write_key_value_line ''response_type''
         (FuncSpecBackendResponseType_to_string (fd_response_type data)),
       write_key_value_line ''hidden'' (show_bool (fd_hidden data)),
       write_key_value_line ''link'' (text_or_empty (url_as_str E) (fd_link data))])
     @ [write_common_fields (Some (fn_unique_id n)) (fn_deleted n),
        write_key_value_line_opt ''is_from_builtin'' (map_option show_bool (fn_is_from_builtin n))])"

definition read_FuncNode :: "('j, 'u, 'd) externals \<Rightarrow> 'u FuncNode option graph_reader" where
  "read_FuncNode E =
     pbind (read_key_value_line ''name'') (\<lambda>name.
     pbind (read_key_value_line_opt ''display_name'') (\<lambda>maybe_display_name.
     pbind (case maybe_display_name of
         None \<Rightarrow> preturn None
       | Some display_name_str \<Rightarrow>
           pbind (read_text_or_none ''description'') (\<lambda>description.
           pbind (read_key_value_line ''handler'') (\<lambda>handler.
           pbind (read_key_value_line ''code_base64'') (\<lambda>code_base64.
           pbind (read_parsed ''backend_kind'' FuncSpecBackendKind_from_str) (\<lambda>backend_kind.
           pbind (read_parsed ''response_type'' FuncSpecBackendResponseType_from_str)
             (\<lambda>response_type.
           pbind (read_parsed ''hidden'' bool_parse) (\<lambda>hidden.
           pbind (read_parsed_or_none ''link'' (url_parse_result E)) (\<lambda>link.
             preturn (Some \<lparr>fd_name = name, fd_display_name = none_if_empty display_name_str,
                            fd_description = description, fd_handler = handler,
                            fd_code_base64 = code_base64, fd_backend_kind = backend_kind,
                            fd_response_type = response_type, fd_hidden = hidden,
                            fd_link = link\<rparr>)))))))))
       (\<lambda>data.
     pbind read_common_fields (\<lambda>(unique_id, deleted).
     pbind (read_parsed_opt ''is_from_builtin'' bool_parse) (\<lambda>is_from_builtin.
       preturn (Some \<lparr>fn_name = name, fn_data = data, fn_unique_id = unwrap_or_empty unique_id,
                      fn_deleted = deleted, fn_is_from_builtin = is_from_builtin\<rparr>))))))"

definition norm_FuncNode :: "'u FuncNode \<Rightarrow> 'u FuncNode" where
  "norm_FuncNode n = n\<lparr>fn_data := map_option (\<lambda>d. d\<lparr>fd_name := fn_name n,
     fd_display_name := opt_norm (fd_display_name d),
     fd_description := opt_norm (fd_description d)\<rparr>) (fn_data n)\<rparr>"

definition valid_FuncData :: "('j, 'u, 'd) externals \<Rightarrow> 'u FuncData \<Rightarrow> bool" where
  "valid_FuncData E d \<longleftrightarrow> rust_string_opt (fd_display_name d) \<and> rust_string_opt (fd_description d)
     \<and> rust_string (fd_handler d) \<and> rust_string (fd_code_base64 d) \<and> opt_ok (url_ok E) (fd_link d)"

definition valid_FuncNode :: "('j, 'u, 'd) externals \<Rightarrow> 'u FuncNode \<Rightarrow> bool" where
  "valid_FuncNode E n \<longleftrightarrow> rust_string (fn_name n) \<and> opt_ok (valid_FuncData E) (fn_data n)
     \<and> rust_string (fn_unique_id n)"

lemmas FuncNode_defs = write_FuncNode_def read_FuncNode_def norm_FuncNode_def valid_FuncNode_def
  valid_FuncData_def writer_simps bool_parse_def

lemma read_url_field [reader_simps]:
  "key_ok key \<Longrightarrow> opt_ok (url_ok E) m \<Longrightarrow>
     read_parsed_or_none key (url_parse_result E) (kv_line key (text_or_empty (url_as_str E) m) @ rest)
       = Inr (m, rest)"
  by (cases m) (simp_all add: reader_simps parse_defs)

interpretation func: node_codec
  "write_FuncNode E" "read_FuncNode E" norm_FuncNode "valid_FuncNode E" for E
proof unfold_locales
  fix n b rest
  show "read_FuncNode E (b @ rest) = Inr (Some (norm_FuncNode n), rest)"
    if "valid_FuncNode E n" "write_FuncNode E n = Inr b" "rest_ok rest"
    using that
    by (cases "fn_data n"; cases "fn_is_from_builtin n") (auto simp: FuncNode_defs reader_simps)
  show "is_ok (write_FuncNode E n)"
    by (simp add: FuncNode_defs split: option.split)
  show "write_FuncNode E (norm_FuncNode n) = write_FuncNode E n"
    "valid_FuncNode E n \<Longrightarrow> valid_FuncNode E (norm_FuncNode n)"
    by (cases "fn_data n"; simp add: FuncNode_defs)+
qed

section \<open>Props\<close>

record ('j, 'u) PropNodeData =
  pd_name :: bytes
  pd_func_unique_id :: "bytes option"
  pd_default_value :: "'j option"
  pd_widget_kind :: PropSpecWidgetKind
  pd_widget_options :: "'j option"
  pd_doc_link :: "'u option"
  pd_hidden :: bool

datatype ('j, 'u) PropNode =
    Array bytes "('j, 'u) PropNodeData option" "bytes option"
  | Boolean bytes "('j, 'u) PropNodeData option" "bytes option"
  | Integer bytes "('j, 'u) PropNodeData option" "bytes option"
  | Map bytes "('j, 'u) PropNodeData option" "bytes option"
  | Object bytes "('j, 'u) PropNodeData option" "bytes option"
  | String bytes "('j, 'u) PropNodeData option" "bytes option"

fun PropNode_kind_str :: "('j, 'u) PropNode \<Rightarrow> bytes" where
  "PropNode_kind_str (PropNode.String _ _ _) = ''string''"
| "PropNode_kind_str (PropNode.Integer _ _ _) = ''integer''"
| "PropNode_kind_str (PropNode.Boolean _ _ _) = ''boolean''"
| "PropNode_kind_str (PropNode.Map _ _ _) = ''map''"
| "PropNode_kind_str (PropNode.Array _ _ _) = ''array''"
| "PropNode_kind_str (PropNode.Object _ _ _) = ''object''"

fun PropNode_name :: "('j, 'u) PropNode \<Rightarrow> bytes" where
  "PropNode_name (PropNode.String name _ _) = name"
| "PropNode_name (PropNode.Integer name _ _) = name"
| "PropNode_name (PropNode.Boolean name _ _) = name"
| "PropNode_name (PropNode.Map name _ _) = name"
| "PropNode_name (PropNode.Array name _ _) = name"
| "PropNode_name (PropNode.Object name _ _) = name"

fun PropNode_data :: "('j, 'u) PropNode \<Rightarrow> ('j, 'u) PropNodeData option" where
  "PropNode_data (PropNode.String _ data _) = data"
| "PropNode_data (PropNode.Integer _ data _) = data"
| "PropNode_data (PropNode.Boolean _ data _) = data"
| "PropNode_data (PropNode.Map _ data _) = data"
| "PropNode_data (PropNode.Array _ data _) = data"
| "PropNode_data (PropNode.Object _ data _) = data"

fun PropNode_unique_id :: "('j, 'u) PropNode \<Rightarrow> bytes option" where
  "PropNode_unique_id (PropNode.String _ _ unique_id) = unique_id"
| "PropNode_unique_id (PropNode.Integer _ _ unique_id) = unique_id"
| "PropNode_unique_id (PropNode.Boolean _ _ unique_id) = unique_id"
| "PropNode_unique_id (PropNode.Map _ _ unique_id) = unique_id"
| "PropNode_unique_id (PropNode.Array _ _ unique_id) = unique_id"
| "PropNode_unique_id (PropNode.Object _ _ unique_id) = unique_id"

definition write_PropNode :: "('j, 'u, 'd) externals \<Rightarrow> ('j, 'u) PropNode \<Rightarrow> graph_write" where
  "write_PropNode E n = wseq ([
     write_key_value_line ''kind'' (PropNode_kind_str n),
     write_key_value_line ''name'' (PropNode_name n)]
     @ (case PropNode_data n of None \<Rightarrow> [] | Some data \<Rightarrow> [
       write_key_value_line ''func_unique_id'' (unwrap_or_empty (pd_func_unique_id data)),
       write_json_or_empty ''default_value'' (json_to_string E) (pd_default_value data),
       write_key_value_line ''widget_kind'' (PropSpecWidgetKind_to_string (pd_widget_kind data)),
       write_json_or_empty ''widget_options'' (json_to_string E) (pd_widget_options data),
       write_key_value_line ''hidden'' (show_bool (pd_hidden data)),
       write_key_value_line ''doc_link'' (text_or_empty (url_as_str E) (pd_doc_link data))])
     @ (case PropNode_unique_id n of None \<Rightarrow> []
        | Some unique_id \<Rightarrow> [write_key_value_line ''unique_id'' unique_id]))"

definition read_widget_options :: "('j, 'u, 'd) externals \<Rightarrow> 'j option graph_reader" where
  "read_widget_options E =
     pbind (read_key_value_line ''widget_options'') (\<lambda>widget_options_str.
       if widget_options_str = [] then preturn None
       else plift (map_err Parse (json_opt_parse E widget_options_str)))"

definition read_PropNode :: "('j, 'u, 'd) externals \<Rightarrow> ('j, 'u) PropNode option graph_reader" where
  "read_PropNode E =
     pbind (read_key_value_line ''kind'') (\<lambda>kind_str.
     pbind (read_key_value_line ''name'') (\<lambda>name.
     pbind (read_key_value_line_opt ''func_unique_id'') (\<lambda>maybe_func_unique_id.
     pbind (case maybe_func_unique_id of
         None \<Rightarrow> preturn None
       | Some func_unique_id_str \<Rightarrow>
           pbind (read_parsed_or_none ''default_value'' (json_parse E)) (\<lambda>default_value.
           pbind (read_parsed ''widget_kind'' PropSpecWidgetKind_from_str) (\<lambda>widget_kind.
           pbind (read_widget_options E) (\<lambda>widget_options.
           pbind (read_parsed ''hidden'' bool_parse) (\<lambda>hidden.
           pbind (read_parsed_or_none ''doc_link'' (url_parse_result E)) (\<lambda>doc_link.
             preturn (Some \<lparr>pd_name = name, pd_func_unique_id = none_if_empty func_unique_id_str,
                            pd_default_value = default_value, pd_widget_kind = widget_kind,
                            pd_widget_options = widget_options, pd_doc_link = doc_link,
                            pd_hidden = hidden\<rparr>)))))))
       (\<lambda>data.
     pbind (read_key_value_line_opt ''unique_id'') (\<lambda>unique_id.
       if kind_str = ''string'' then preturn (Some (PropNode.String name data unique_id))
       else if kind_str = ''integer'' then preturn (Some (PropNode.Integer name data unique_id))
       else if kind_str = ''boolean'' then preturn (Some (PropNode.Boolean name data unique_id))
       else if kind_str = ''map'' then preturn (Some (PropNode.Map name data unique_id))
       else if kind_str = ''array'' then preturn (Some (PropNode.Array name data unique_id))
       else if kind_str = ''object'' then preturn (Some (PropNode.Object name data unique_id))
       else pfail (ParseCustom (''invalid prop node kind: '' @ kind_str)))))))"

definition norm_PropNodeData :: "bytes \<Rightarrow> ('j, 'u) PropNodeData \<Rightarrow> ('j, 'u) PropNodeData" where
  "norm_PropNodeData name d =
     d\<lparr>pd_name := name, pd_func_unique_id := opt_norm (pd_func_unique_id d)\<rparr>"

fun norm_PropNode :: "('j, 'u) PropNode \<Rightarrow> ('j, 'u) PropNode" where
  "norm_PropNode (PropNode.String n d u) = PropNode.String n (map_option (norm_PropNodeData n) d) u"
| "norm_PropNode (PropNode.Integer n d u) = PropNode.Integer n (map_option (norm_PropNodeData n) d) u"
| "norm_PropNode (PropNode.Boolean n d u) = PropNode.Boolean n (map_option (norm_PropNodeData n) d) u"
| "norm_PropNode (PropNode.Map n d u) = PropNode.Map n (map_option (norm_PropNodeData n) d) u"
| "norm_PropNode (PropNode.Array n d u) = PropNode.Array n (map_option (norm_PropNodeData n) d) u"
| "norm_PropNode (PropNode.Object n d u) = PropNode.Object n (map_option (norm_PropNodeData n) d) u"

definition valid_PropNodeData :: "('j, 'u, 'd) externals \<Rightarrow> ('j, 'u) PropNodeData \<Rightarrow> bool" where
  "valid_PropNodeData E d \<longleftrightarrow> rust_string_opt (pd_func_unique_id d)
     \<and> opt_ok (json_ok E) (pd_default_value d) \<and> opt_ok (json_ok E) (pd_widget_options d)
     \<and> pd_widget_options d \<noteq> Some (json_null E) \<and> opt_ok (url_ok E) (pd_doc_link d)"

definition valid_PropNode :: "('j, 'u, 'd) externals \<Rightarrow> ('j, 'u) PropNode \<Rightarrow> bool" where
  "valid_PropNode E n \<longleftrightarrow> rust_string (PropNode_name n)
     \<and> opt_ok (valid_PropNodeData E) (PropNode_data n) \<and> rust_string_opt (PropNode_unique_id n)"

lemma norm_PropNode_parts [simp]:
  "PropNode_kind_str (norm_PropNode n) = PropNode_kind_str n"
  "PropNode_name (norm_PropNode n) = PropNode_name n"
  "PropNode_data (norm_PropNode n) = map_option (norm_PropNodeData (PropNode_name n)) (PropNode_data n)"
  "PropNode_unique_id (norm_PropNode n) = PropNode_unique_id n"
  by (cases n; simp)+

lemma read_widget_options_kv [reader_simps]:
  "opt_ok (json_ok E) m \<Longrightarrow> m \<noteq> Some (json_null E) \<Longrightarrow>
     read_widget_options E (kv_line ''widget_options'' (text_or_empty (json_text E) m) @ rest)
       = Inr (m, rest)"
  by (cases m) (auto simp: read_widget_options_def reader_simps parse_defs)

lemmas PropNode_defs = valid_PropNode_def valid_PropNodeData_def norm_PropNodeData_def writer_simps

lemma write_PropNode_ok:
  "valid_PropNode E n \<Longrightarrow> is_ok (write_PropNode E n)"
  "valid_PropNode E n \<Longrightarrow> write_PropNode E (norm_PropNode n) = write_PropNode E n"
  "valid_PropNode E n \<Longrightarrow> valid_PropNode E (norm_PropNode n)"
  by (cases "PropNode_data n"; cases "PropNode_unique_id n";
      simp add: write_PropNode_def PropNode_defs)+

text \<open>What is read before the kind decides the variant.\<close>

lemma read_PropNode_write:
  assumes v: "valid_PropNode E n" and w: "write_PropNode E n = Inr b" and r: "rest_ok rest"
  shows "read_PropNode E (b @ rest) = Inr (Some (norm_PropNode n), rest)"
proof -
  have kind: "rust_string (PropNode_kind_str n)"
    by (cases n) (simp_all add: rust_string_def)
  show ?thesis
    using v w r kind
    by (cases "PropNode_data n"; cases "PropNode_unique_id n"; cases n)
      (auto simp: write_PropNode_def read_PropNode_def PropNode_defs reader_simps bool_parse_def)
qed

interpretation prop_node: node_codec
  "write_PropNode E" "read_PropNode E" norm_PropNode "valid_PropNode E" for E
  by unfold_locales (simp_all add: write_PropNode_ok read_PropNode_write)

datatype PropChildNode = AttrFuncInputs | MapKeyFuncs | Props | Validations

fun PropChildNode_kind_str :: "PropChildNode \<Rightarrow> bytes" where
  "PropChildNode_kind_str PropChildNode.AttrFuncInputs = ''attr_func_inputs''"
| "PropChildNode_kind_str PropChildNode.Props = ''props''"
| "PropChildNode_kind_str PropChildNode.MapKeyFuncs = ''map_key_funcs''"
| "PropChildNode_kind_str PropChildNode.Validations = ''validations''"

definition PropChildNode_of_kind :: "bytes \<Rightarrow> PropChildNode option" where
  "PropChildNode_of_kind s =
     (if s = ''attr_func_inputs'' then Some PropChildNode.AttrFuncInputs
      else if s = ''map_key_funcs'' then Some PropChildNode.MapKeyFuncs
      else if s = ''props'' then Some PropChildNode.Props
      else if s = ''validations'' then Some PropChildNode.Validations
      else None)"

definition write_PropChildNode :: "PropChildNode \<Rightarrow> graph_write" where
  "write_PropChildNode = write_kind PropChildNode_kind_str"

definition read_PropChildNode :: "PropChildNode option graph_reader" where
  "read_PropChildNode =
     pbind (read_key_value_line ''kind'') (\<lambda>s. preturn (PropChildNode_of_kind s))"

interpretation prop_child: node_codec write_PropChildNode read_PropChildNode "\<lambda>n. n" "\<lambda>_. True"
  unfolding write_PropChildNode_def read_PropChildNode_def
proof (rule kind_codec)
  show "rust_string (PropChildNode_kind_str n)"
    "PropChildNode_of_kind (PropChildNode_kind_str n) = Some n" for n
    by (cases n; simp add: rust_string_def PropChildNode_of_kind_def)+
qed

end
