(* ===== verification/Pkg_Nodes_D.thy ===== *)
theory Pkg_Nodes_D
  imports Pkg_Nodes_C
begin

text \<open>
  Package nodes, \<open>lib/si-pkg/src/node\<close>, concluded: schemas, schema variants and their children, prop
  functions, sockets and validations.
\<close>

section \<open>Schemas\<close>

record SchemaData =
  sd_name :: bytes
  sd_category :: bytes
  sd_category_name :: "bytes option"
  sd_ui_hidden :: bool
  sd_default_schema_variant :: "bytes option"

record SchemaNode =
  sn_name :: bytes
  sn_data :: "SchemaData option"
  sn_unique_id :: "bytes option"
  sn_deleted :: bool

definition write_SchemaNode :: "SchemaNode \<Rightarrow> graph_write" where
  "write_SchemaNode n = wseq ([
     write_key_value_line ''name'' (sn_name n)]
     @ (case sn_data n of None \<Rightarrow> [] | Some data \<Rightarrow> [
       write_key_value_line ''category'' (sd_category data),
       write_key_value_line ''category_name'' (unwrap_or_empty (sd_category_name data)),
       write_key_value_line ''ui_hidden'' (show_bool (sd_ui_hidden data)),
       write_key_value_line_opt ''default_schema_variant'' (sd_default_schema_variant data)])
     @ [write_common_fields (sn_unique_id n) (sn_deleted n)])"

definition read_SchemaNode :: "SchemaNode option graph_reader" where
  "read_SchemaNode =
     pbind (read_key_value_line ''name'') (\<lambda>name.
     pbind (read_key_value_line_opt ''category'') (\<lambda>maybe_category.
     pbind (case maybe_category of
         None \<Rightarrow> preturn None
       | Some category \<Rightarrow>
           pbind (read_text_or_none ''category_name'') (\<lambda>category_name.
           pbind (read_parsed ''ui_hidden'' bool_parse) (\<lambda>ui_hidden.
           pbind (read_key_value_line_opt ''default_schema_variant'') (\<lambda>default_schema_variant.
             preturn (Some \<lparr>sd_name = name, sd_category = category,
                            sd_category_name = category_name, sd_ui_hidden = ui_hidden,
                            sd_default_schema_variant = default_schema_variant\<rparr>)))))
       (\<lambda>data.
     pbind read_common_fields (\<lambda>(unique_id, deleted).
       preturn (Some \<lparr>sn_name = name, sn_data = data, sn_unique_id = unique_id,
                      sn_deleted = deleted\<rparr>)))))"

definition norm_SchemaNode :: "SchemaNode \<Rightarrow> SchemaNode" where
  "norm_SchemaNode n = n\<lparr>
     sn_data := map_option (\<lambda>d. d\<lparr>sd_name := sn_name n,
       sd_category_name := opt_norm (sd_category_name d)\<rparr>) (sn_data n),
     sn_unique_id := opt_norm (sn_unique_id n)\<rparr>"

definition valid_SchemaData :: "SchemaData \<Rightarrow> bool" where
  "valid_SchemaData d \<longleftrightarrow> rust_string (sd_category d) \<and> rust_string_opt (sd_category_name d)
     \<and> rust_string_opt (sd_default_schema_variant d)"

definition valid_SchemaNode :: "SchemaNode \<Rightarrow> bool" where
  "valid_SchemaNode n \<longleftrightarrow> rust_string (sn_name n) \<and> opt_ok valid_SchemaData (sn_data n)
     \<and> rust_string_opt (sn_unique_id n)"

lemmas SchemaNode_defs = write_SchemaNode_def read_SchemaNode_def norm_SchemaNode_def
  valid_SchemaNode_def valid_SchemaData_def writer_simps bool_parse_def

interpretation schema: node_codec
  write_SchemaNode read_SchemaNode norm_SchemaNode valid_SchemaNode
proof unfold_locales
  fix n b rest
  show "read_SchemaNode (b @ rest) = Inr (Some (norm_SchemaNode n), rest)"
    if "valid_SchemaNode n" "write_SchemaNode n = Inr b"
  proof (cases "sn_data n")
    case (Some d)
    with that show ?thesis
      by (cases "sd_default_schema_variant d") (auto simp: SchemaNode_defs reader_simps)
  qed (use that in \<open>auto simp: SchemaNode_defs reader_simps\<close>)
  show "is_ok (write_SchemaNode n)"
    by (simp add: SchemaNode_defs split: option.split)
  show "write_SchemaNode (norm_SchemaNode n) = write_SchemaNode n"
    "valid_SchemaNode n \<Longrightarrow> valid_SchemaNode (norm_SchemaNode n)"
    by (cases "sn_data n"; simp add: SchemaNode_defs)+
qed

section \<open>Schema variants\<close>

record 'u SchemaVariantData =
  svd_name :: bytes
  svd_link :: "'u option"
  svd_color :: "bytes option"
  svd_component_type :: SchemaVariantSpecComponentType
  svd_func_unique_id :: bytes

record 'u SchemaVariantNode =
  sv_name :: bytes
  sv_data :: "'u SchemaVariantData option"
  sv_unique_id :: "bytes option"
  sv_deleted :: bool

definition write_SchemaVariantNode ::
  "('j, 'u, 'd) externals \<Rightarrow> 'u SchemaVariantNode \<Rightarrow> graph_write" where
  "write_SchemaVariantNode E n = wseq ([
     write_key_value_line ''name'' (sv_name n)]
     @ (case sv_data n of None \<Rightarrow> [] | Some data \<Rightarrow> [
       write_key_value_line ''link'' (text_or_empty (url_as_str E) (svd_link data)),
       write_key_value_line ''color'' (unwrap_or_empty (svd_color data)),
       write_key_value_line ''component_type''
         (component_type_display E (svd_component_type data)),
       write_key_value_line ''func_unique_id'' (svd_func_unique_id data)])
     @ [write_common_fields (sv_unique_id n) (sv_deleted n)])"

definition read_SchemaVariantNode ::
  "('j, 'u, 'd) externals \<Rightarrow> 'u SchemaVariantNode option graph_reader" where
  "read_SchemaVariantNode E =
     pbind (read_key_value_line ''name'') (\<lambda>name.
     pbind (read_key_value_line_opt ''link'') (\<lambda>maybe_link.
     pbind (case maybe_link of
         Some link_str \<Rightarrow>
           pbind (plift (some_unless_empty (url_parse_result E) link_str)) (\<lambda>link.
           pbind (read_text_or_none ''color'') (\<lambda>color.
           pbind (read_parsed ''component_type'' SchemaVariantSpecComponentType_from_str)
             (\<lambda>component_type.
           pbind (read_key_value_line ''func_unique_id'') (\<lambda>func_unique_id.
             preturn (Some \<lparr>svd_name = name, svd_link = link, svd_color = color,
                            svd_component_type = component_type,
                            svd_func_unique_id = func_unique_id\<rparr>)))))
       | None \<Rightarrow> preturn None)
       (\<lambda>data.
     pbind read_common_fields (\<lambda>(unique_id, deleted).
       preturn (Some \<lparr>sv_name = name, sv_data = data, sv_unique_id = unique_id,
                      sv_deleted = deleted\<rparr>)))))"

definition norm_SchemaVariantNode :: "'u SchemaVariantNode \<Rightarrow> 'u SchemaVariantNode" where
  "norm_SchemaVariantNode n = n\<lparr>
     sv_data := map_option (\<lambda>d. d\<lparr>svd_name := sv_name n, svd_color := opt_norm (svd_color d)\<rparr>)
       (sv_data n),
     sv_unique_id := opt_norm (sv_unique_id n)\<rparr>"

definition valid_SchemaVariantData :: "('j, 'u, 'd) externals \<Rightarrow> 'u SchemaVariantData \<Rightarrow> bool" where
  "valid_SchemaVariantData E d \<longleftrightarrow> opt_ok (url_ok E) (svd_link d) \<and> rust_string_opt (svd_color d)
     \<and> component_type_ok E (svd_component_type d) \<and> rust_string (svd_func_unique_id d)"

definition valid_SchemaVariantNode :: "('j, 'u, 'd) externals \<Rightarrow> 'u SchemaVariantNode \<Rightarrow> bool" where
  "valid_SchemaVariantNode E n \<longleftrightarrow> rust_string (sv_name n)
     \<and> opt_ok (valid_SchemaVariantData E) (sv_data n) \<and> rust_string_opt (sv_unique_id n)"

lemmas SchemaVariantNode_defs = write_SchemaVariantNode_def read_SchemaVariantNode_def
  norm_SchemaVariantNode_def valid_SchemaVariantNode_def valid_SchemaVariantData_def writer_simps
  parse_defs

interpretation schema_variant: node_codec
  "write_SchemaVariantNode E" "read_SchemaVariantNode E" norm_SchemaVariantNode
  "valid_SchemaVariantNode E" for E
proof unfold_locales
  fix n b rest
  show "read_SchemaVariantNode E (b @ rest) = Inr (Some (norm_SchemaVariantNode n), rest)"
    if "valid_SchemaVariantNode E n" "write_SchemaVariantNode E n = Inr b"
  proof (cases "sv_data n")
    case (Some d)
    with that show ?thesis
      by (cases "svd_link d") (auto simp: SchemaVariantNode_defs reader_simps)
  qed (use that in \<open>auto simp: SchemaVariantNode_defs reader_simps\<close>)
  show "is_ok (write_SchemaVariantNode E n)"
    by (simp add: SchemaVariantNode_defs split: option.split)
  show "write_SchemaVariantNode E (norm_SchemaVariantNode n) = write_SchemaVariantNode E n"
    "valid_SchemaVariantNode E n \<Longrightarrow> valid_SchemaVariantNode E (norm_SchemaVariantNode n)"
    by (cases "sv_data n"; simp add: SchemaVariantNode_defs)+
qed

datatype SchemaVariantChildNode =
    ActionFuncs | Domain | LeafFunctions | ResourceValue | SecretDefinition | Secrets | SiPropFuncs
  | Sockets

fun SchemaVariantChildNode_kind_str :: "SchemaVariantChildNode \<Rightarrow> bytes" where
  "SchemaVariantChildNode_kind_str SchemaVariantChildNode.ActionFuncs = ''action_funcs''"
| "SchemaVariantChildNode_kind_str SchemaVariantChildNode.Domain = ''domain''"
| "SchemaVariantChildNode_kind_str SchemaVariantChildNode.LeafFunctions = ''leaf_functions''"
| "SchemaVariantChildNode_kind_str SchemaVariantChildNode.ResourceValue = ''resource_value''"
| "SchemaVariantChildNode_kind_str SchemaVariantChildNode.SecretDefinition = ''secret_definition''"
| "SchemaVariantChildNode_kind_str SchemaVariantChildNode.Secrets = ''secrets''"
| "SchemaVariantChildNode_kind_str SchemaVariantChildNode.SiPropFuncs = ''si_prop_funcs''"
| "SchemaVariantChildNode_kind_str SchemaVariantChildNode.Sockets = ''sockets''"

definition SchemaVariantChildNode_of_kind :: "bytes \<Rightarrow> SchemaVariantChildNode option" where
  "SchemaVariantChildNode_of_kind s =
     (if s = ''action_funcs'' then Some SchemaVariantChildNode.ActionFuncs
      else if s = ''domain'' then Some SchemaVariantChildNode.Domain
      else if s = ''leaf_functions'' then Some SchemaVariantChildNode.LeafFunctions
      else if s = ''resource_value'' then Some SchemaVariantChildNode.ResourceValue
      else if s = ''si_prop_funcs'' then Some SchemaVariantChildNode.SiPropFuncs
      else if s = ''sockets'' then Some SchemaVariantChildNode.Sockets
      else if s = ''secrets'' then Some SchemaVariantChildNode.Secrets
      else if s = ''secret_definition'' then Some SchemaVariantChildNode.SecretDefinition
      else None)"

definition write_SchemaVariantChildNode :: "SchemaVariantChildNode \<Rightarrow> graph_write" where
  "write_SchemaVariantChildNode = write_kind SchemaVariantChildNode_kind_str"

definition read_SchemaVariantChildNode :: "SchemaVariantChildNode option graph_reader" where
  "read_SchemaVariantChildNode =
     pbind (read_key_value_line ''kind'') (\<lambda>s. preturn (SchemaVariantChildNode_of_kind s))"

interpretation schema_variant_child: node_codec
  write_SchemaVariantChildNode read_SchemaVariantChildNode "\<lambda>n. n" "\<lambda>_. True"
  unfolding write_SchemaVariantChildNode_def read_SchemaVariantChildNode_def
proof (rule kind_codec)
  show "rust_string (SchemaVariantChildNode_kind_str n)"
    "SchemaVariantChildNode_of_kind (SchemaVariantChildNode_kind_str n) = Some n" for n
    by (cases n; simp add: rust_string_def SchemaVariantChildNode_of_kind_def)+
qed

section \<open>Prop functions\<close>

record SiPropFuncNode =
  sp_kind :: SiPropFuncSpecKind
  sp_func_unique_id :: bytes
  sp_unique_id :: "bytes option"
  sp_deleted :: bool

definition write_SiPropFuncNode :: "SiPropFuncNode \<Rightarrow> graph_write" where
  "write_SiPropFuncNode n = wseq [
     write_key_value_line ''kind'' (SiPropFuncSpecKind_to_string (sp_kind n)),
     write_key_value_line ''func_unique_id'' (sp_func_unique_id n),
     write_common_fields (sp_unique_id n) (sp_deleted n)]"

definition read_SiPropFuncNode :: "SiPropFuncNode option graph_reader" where
  "read_SiPropFuncNode =
     pbind (read_parsed ''kind'' SiPropFuncSpecKind_from_str) (\<lambda>kind.
     pbind (read_key_value_line ''func_unique_id'') (\<lambda>func_unique_id.
     pbind read_common_fields (\<lambda>(unique_id, deleted).
       preturn (Some \<lparr>sp_kind = kind, sp_func_unique_id = func_unique_id,
                      sp_unique_id = unique_id, sp_deleted = deleted\<rparr>))))"

definition norm_SiPropFuncNode :: "SiPropFuncNode \<Rightarrow> SiPropFuncNode" where
  "norm_SiPropFuncNode n = n\<lparr>sp_unique_id := opt_norm (sp_unique_id n)\<rparr>"

definition valid_SiPropFuncNode :: "SiPropFuncNode \<Rightarrow> bool" where
  "valid_SiPropFuncNode n \<longleftrightarrow> rust_string (sp_func_unique_id n) \<and> rust_string_opt (sp_unique_id n)"

lemmas SiPropFuncNode_defs = write_SiPropFuncNode_def read_SiPropFuncNode_def
  norm_SiPropFuncNode_def valid_SiPropFuncNode_def writer_simps

interpretation si_prop_func: node_codec
  write_SiPropFuncNode read_SiPropFuncNode norm_SiPropFuncNode valid_SiPropFuncNode
  by unfold_locales (auto simp: SiPropFuncNode_defs reader_simps)

section \<open>Sockets\<close>

record SocketData =
  skd_name :: bytes
  skd_kind :: SocketSpecKind
  skd_arity :: SocketSpecArity
  skd_func_unique_id :: "bytes option"
  skd_ui_hidden :: bool

record SocketNode =
  sk_name :: bytes
  sk_data :: "SocketData option"
  sk_unique_id :: "bytes option"

definition write_SocketNode :: "SocketNode \<Rightarrow> graph_write" where
  "write_SocketNode n = wseq ([
     write_key_value_line ''name'' (sk_name n)]
     @ (case sk_data n of None \<Rightarrow> [] | Some data \<Rightarrow> [
       write_key_value_line ''kind'' (SocketSpecKind_to_string (skd_kind data)),
       write_key_value_line ''arity'' (SocketSpecArity_to_string (skd_arity data)),
       write_key_value_line ''func_unique_id'' (unwrap_or_empty (skd_func_unique_id data)),
       write_key_value_line ''ui_hidden'' (show_bool (skd_ui_hidden data))])
     @ [write_unique_id (sk_unique_id n)])"

definition read_SocketNode :: "SocketNode option graph_reader" where
  "read_SocketNode =
     pbind (read_key_value_line ''name'') (\<lambda>name.
     pbind (read_key_value_line_opt ''kind'') (\<lambda>maybe_kind.
     pbind (case maybe_kind of
         None \<Rightarrow> preturn None
       | Some kind_str \<Rightarrow>
           pbind (plift (map_err Parse (SocketSpecKind_from_str kind_str))) (\<lambda>kind.
           pbind (read_parsed ''arity'' SocketSpecArity_from_str) (\<lambda>arity.
           pbind (read_text_or_none ''func_unique_id'') (\<lambda>func_unique_id.
           pbind (read_parsed ''ui_hidden'' bool_parse) (\<lambda>ui_hidden.
             preturn (Some \<lparr>skd_name = name, skd_kind = kind, skd_arity = arity,
                            skd_func_unique_id = func_unique_id,
                            skd_ui_hidden = ui_hidden\<rparr>))))))
       (\<lambda>data.
     pbind read_unique_id (\<lambda>unique_id.
       preturn (Some \<lparr>sk_name = name, sk_data = data, sk_unique_id = unique_id\<rparr>)))))"

definition norm_SocketNode :: "SocketNode \<Rightarrow> SocketNode" where
  "norm_SocketNode n = n\<lparr>
     sk_data := map_option (\<lambda>d. d\<lparr>skd_name := sk_name n,
       skd_func_unique_id := opt_norm (skd_func_unique_id d)\<rparr>) (sk_data n),
     sk_unique_id := opt_norm (sk_unique_id n)\<rparr>"

definition valid_SocketNode :: "SocketNode \<Rightarrow> bool" where
  "valid_SocketNode n \<longleftrightarrow> rust_string (sk_name n)
     \<and> opt_ok (\<lambda>d. rust_string_opt (skd_func_unique_id d)) (sk_data n)
     \<and> rust_string_opt (sk_unique_id n)"

lemmas SocketNode_defs = write_SocketNode_def read_SocketNode_def norm_SocketNode_def
  valid_SocketNode_def writer_simps bool_parse_def

interpretation socket: node_codec
  write_SocketNode read_SocketNode norm_SocketNode valid_SocketNode
proof unfold_locales
  fix n b rest
  show "read_SocketNode (b @ rest) = Inr (Some (norm_SocketNode n), rest)"
    if "valid_SocketNode n" "write_SocketNode n = Inr b"
    using that by (cases "sk_data n") (auto simp: SocketNode_defs reader_simps)
  show "is_ok (write_SocketNode n)"
    by (simp add: SocketNode_defs split: option.split)
  show "write_SocketNode (norm_SocketNode n) = write_SocketNode n"
    "valid_SocketNode n \<Longrightarrow> valid_SocketNode (norm_SocketNode n)"
    by (cases "sk_data n"; simp add: SocketNode_defs)+
qed

section \<open>Validations\<close>

record ValidationNode =
  vn_kind :: ValidationSpecKind
  vn_upper_bound :: "int option"
  vn_lower_bound :: "int option"
  vn_expected_string :: "bytes option"
  vn_expected_string_array :: "bytes list option"
  vn_display_expected :: "bool option"
  vn_func_unique_id :: "bytes option"
  vn_unique_id :: "bytes option"
  vn_deleted :: bool

definition ValidationNode_default :: ValidationNode where
  "ValidationNode_default = \<lparr>vn_kind = ValidationSpecKind.CustomValidation, vn_upper_bound = None,
     vn_lower_bound = None, vn_expected_string = None, vn_expected_string_array = None,
     vn_display_expected = None, vn_func_unique_id = None, vn_unique_id = None,
     vn_deleted = False\<rparr>"

definition strings_or_empty :: "bytes list option \<Rightarrow> bytes list" where
  "strings_or_empty m = (case m of None \<Rightarrow> [] | Some ss \<Rightarrow> ss)"

definition write_ValidationNode :: "('j, 'u, 'd) externals \<Rightarrow> ValidationNode \<Rightarrow> graph_write" where
  "write_ValidationNode E n = wseq ([
     write_key_value_line ''kind'' (ValidationSpecKind_to_string (vn_kind n))]
     @ (case vn_kind n of
         ValidationSpecKind.IntegerIsBetweenTwoIntegers \<Rightarrow> [
           write_key_value_line ''upper_bound'' (text_or_empty show_int (vn_upper_bound n)),
           write_key_value_line ''lower_bound'' (text_or_empty show_int (vn_lower_bound n))]
       | ValidationSpecKind.StringEquals \<Rightarrow> [
           write_key_value_line ''expected_string'' (unwrap_or_empty (vn_expected_string n))]
       | ValidationSpecKind.StringHasPrefix \<Rightarrow> [
           write_key_value_line ''expected_string'' (unwrap_or_empty (vn_expected_string n))]
       | ValidationSpecKind.StringInStringArray \<Rightarrow> [
           write_json ''expected_string_array'' (strings_to_string E)
             (strings_or_empty (vn_expected_string_array n)),
           write_key_value_line ''display_expected''
             (text_or_empty show_bool (vn_display_expected n))]
       | ValidationSpecKind.CustomValidation \<Rightarrow> [
           write_key_value_line ''func_unique_id'' (unwrap_or_empty (vn_func_unique_id n))]
       | ValidationSpecKind.IntegerIsNotEmpty \<Rightarrow> []
       | ValidationSpecKind.StringIsValidIpAddr \<Rightarrow> []
       | ValidationSpecKind.StringIsHexColor \<Rightarrow> []
       | ValidationSpecKind.StringIsNotEmpty \<Rightarrow> [])
     @ [write_common_fields (vn_unique_id n) (vn_deleted n)])"

definition read_ValidationNode :: "('j, 'u, 'd) externals \<Rightarrow> ValidationNode option graph_reader" where
  "read_ValidationNode E =
     pbind (read_parsed ''kind'' ValidationSpecKind_from_str) (\<lambda>kind.
     pbind (case kind of
         ValidationSpecKind.IntegerIsBetweenTwoIntegers \<Rightarrow>
           pbind (read_parsed ''upper_bound'' i64_parse) (\<lambda>upper_bound.
           pbind (read_parsed ''lower_bound'' i64_parse) (\<lambda>lower_bound.
             preturn (ValidationNode_default\<lparr>vn_upper_bound := Some upper_bound,
                                             vn_lower_bound := Some lower_bound\<rparr>)))
       | ValidationSpecKind.StringEquals \<Rightarrow>
           pbind (read_text_or_none ''expected_string'') (\<lambda>expected_string.
             preturn (ValidationNode_default\<lparr>vn_expected_string := expected_string\<rparr>))
       | ValidationSpecKind.StringHasPrefix \<Rightarrow>
           pbind (read_text_or_none ''expected_string'') (\<lambda>expected_string.
             preturn (ValidationNode_default\<lparr>vn_expected_string := expected_string\<rparr>))
       | ValidationSpecKind.StringInStringArray \<Rightarrow>
           pbind (read_parsed ''expected_string_array'' (strings_parse E)) (\<lambda>strings.
           pbind (read_parsed_or_none ''display_expected'' bool_parse) (\<lambda>display_expected.
             preturn (ValidationNode_default\<lparr>
               vn_expected_string_array := (if strings \<noteq> [] then Some strings else None),
               vn_display_expected := display_expected\<rparr>)))
       | ValidationSpecKind.CustomValidation \<Rightarrow>
           pbind (read_key_value_line ''func_unique_id'') (\<lambda>func_unique_id.
             preturn (ValidationNode_default\<lparr>vn_func_unique_id := Some func_unique_id\<rparr>))
       | ValidationSpecKind.IntegerIsNotEmpty \<Rightarrow> preturn ValidationNode_default
       | ValidationSpecKind.StringIsValidIpAddr \<Rightarrow> preturn ValidationNode_default
       | ValidationSpecKind.StringIsHexColor \<Rightarrow> preturn ValidationNode_default
       | ValidationSpecKind.StringIsNotEmpty \<Rightarrow> preturn ValidationNode_default)
       (\<lambda>node.
     pbind read_common_fields (\<lambda>(unique_id, deleted).
       preturn (Some (node\<lparr>vn_kind := kind, vn_unique_id := unique_id,
                            vn_deleted := deleted\<rparr>)))))"

text \<open>Only the fields of its kind survive.\<close>

definition norm_ValidationNode :: "ValidationNode \<Rightarrow> ValidationNode" where
  "norm_ValidationNode n =
     (case vn_kind n of
        ValidationSpecKind.IntegerIsBetweenTwoIntegers \<Rightarrow>
          ValidationNode_default\<lparr>vn_upper_bound := vn_upper_bound n,
                                 vn_lower_bound := vn_lower_bound n\<rparr>
      | ValidationSpecKind.StringEquals \<Rightarrow>
          ValidationNode_default\<lparr>vn_expected_string := opt_norm (vn_expected_string n)\<rparr>
      | ValidationSpecKind.StringHasPrefix \<Rightarrow>
          ValidationNode_default\<lparr>vn_expected_string := opt_norm (vn_expected_string n)\<rparr>
      | ValidationSpecKind.StringInStringArray \<Rightarrow>
          ValidationNode_default\<lparr>
            vn_expected_string_array :=
              (if vn_expected_string_array n = Some [] then None else vn_expected_string_array n),
            vn_display_expected := vn_display_expected n\<rparr>
      | ValidationSpecKind.CustomValidation \<Rightarrow>
          ValidationNode_default\<lparr>
            vn_func_unique_id := Some (unwrap_or_empty (vn_func_unique_id n))\<rparr>
      | _ \<Rightarrow> ValidationNode_default)
     \<lparr>vn_kind := vn_kind n, vn_unique_id := opt_norm (vn_unique_id n), vn_deleted := vn_deleted n\<rparr>"

text \<open>A range needs both its bounds: without one it is written but cannot be read.\<close>

definition bound_ok :: "int option \<Rightarrow> bool" where
  "bound_ok m = (case m of None \<Rightarrow> False | Some i \<Rightarrow> i64_ok i)"

definition valid_ValidationNode :: "('j, 'u, 'd) externals \<Rightarrow> ValidationNode \<Rightarrow> bool" where
  "valid_ValidationNode E n \<longleftrightarrow> rust_string_opt (vn_unique_id n)
     \<and> (case vn_kind n of
          ValidationSpecKind.IntegerIsBetweenTwoIntegers \<Rightarrow>
            bound_ok (vn_upper_bound n) \<and> bound_ok (vn_lower_bound n)
        | ValidationSpecKind.StringEquals \<Rightarrow> rust_string_opt (vn_expected_string n)
        | ValidationSpecKind.StringHasPrefix \<Rightarrow> rust_string_opt (vn_expected_string n)
        | ValidationSpecKind.StringInStringArray \<Rightarrow>
            strings_ok E (strings_or_empty (vn_expected_string_array n))
        | ValidationSpecKind.CustomValidation \<Rightarrow> rust_string_opt (vn_func_unique_id n)
        | _ \<Rightarrow> True)"

lemmas ValidationNode_defs = write_ValidationNode_def norm_ValidationNode_def
  valid_ValidationNode_def ValidationNode_default_def writer_simps

lemma bound_okE:
  assumes "bound_ok m"
  obtains i where "m = Some i" "i64_ok i"
  using assms by (auto simp: bound_ok_def split: option.splits)

lemma strings_norm [simp]:
  "strings_or_empty (if m = Some [] then None else m) = strings_or_empty m"
  "(if strings_or_empty m \<noteq> [] then Some (strings_or_empty m) else None)
     = (if m = Some [] then None else m)"
  by (auto simp: strings_or_empty_def split: option.splits)

lemma read_bool_field [reader_simps]:
  "key_ok key \<Longrightarrow> read_parsed_or_none key bool_parse (kv_line key (text_or_empty show_bool m) @ rest)
     = Inr (m, rest)"
  by (cases m) (simp_all add: reader_simps bool_parse_def)

lemma ValidationNode_eqI:
  "vn_kind m = vn_kind n \<Longrightarrow> vn_upper_bound m = vn_upper_bound n \<Longrightarrow>
   vn_lower_bound m = vn_lower_bound n \<Longrightarrow> vn_expected_string m = vn_expected_string n \<Longrightarrow>
   vn_expected_string_array m = vn_expected_string_array n \<Longrightarrow>
   vn_display_expected m = vn_display_expected n \<Longrightarrow> vn_func_unique_id m = vn_func_unique_id n \<Longrightarrow>
   vn_unique_id m = vn_unique_id n \<Longrightarrow> vn_deleted m = vn_deleted n \<Longrightarrow> (m :: ValidationNode) = n"
  by simp

lemma read_ValidationNode_write:
  assumes v: "valid_ValidationNode E n" and w: "write_ValidationNode E n = Inr b"
  shows "read_ValidationNode E (b @ rest) = Inr (Some (norm_ValidationNode n), rest)"
proof (cases "vn_kind n")
  case IntegerIsBetweenTwoIntegers
  with v w show ?thesis
    by (auto simp: ValidationNode_defs read_ValidationNode_def reader_simps i64_parse_def
        elim!: bound_okE simp del: ValidationSpecKind_to_string.simps)
next
  case StringInStringArray
  with v w show ?thesis
    by (auto simp: ValidationNode_defs read_ValidationNode_def reader_simps strings_parse_def
        simp del: ValidationSpecKind_to_string.simps strings_norm intro!: ValidationNode_eqI
        simp flip: strings_norm(2))
qed (use v w in \<open>auto simp: ValidationNode_defs read_ValidationNode_def reader_simps
       simp del: ValidationSpecKind_to_string.simps\<close>)

interpretation validation: node_codec
  "write_ValidationNode E" "read_ValidationNode E" norm_ValidationNode "valid_ValidationNode E" for E
proof unfold_locales
  fix n
  show "is_ok (write_ValidationNode E n)" if "valid_ValidationNode E n"
    using that by (cases "vn_kind n") (simp_all add: ValidationNode_defs)
  show "valid_ValidationNode E (norm_ValidationNode n)" if "valid_ValidationNode E n"
    using that by (cases "vn_kind n") (simp_all add: ValidationNode_defs)
  show "write_ValidationNode E (norm_ValidationNode n) = write_ValidationNode E n"
    by (cases "vn_kind n") (simp_all add: ValidationNode_defs)
qed (rule read_ValidationNode_write)

end
