(* ===== verification/Graph_Interface.thy ===== *)
theory Graph_Interface
  imports SI_Prelude
begin

text \<open>
  The graph library the object tree is built on (\<open>petgraph\<close>), which is not part of the repository: the
  operations the code calls are a record of parameters, and what their documentation promises is the
  locale \<open>petgraph\<close>. \<open>add_node\<close> returns an unused index; \<open>neighbors_directed(_, Outgoing)\<close> lists the
  targets of a node in the reverse of the order in which their edges were added;
  \<open>DfsPostOrder\<close> emits every node reachable from its start once, after the nodes it points to. The
  promise about \<open>DfsPostOrder\<close> is used for trees only and stated for them only. Inside the locale: a
  tree that is added node by node, each child under its parent, is found in the graph afterwards.
\<close>

record ('g, 'w) petgraph =
  pg_new :: 'g
  pg_add_node :: "'g \<Rightarrow> 'w \<Rightarrow> 'g \<times> nat"
  pg_add_edge :: "'g \<Rightarrow> nat \<Rightarrow> nat \<Rightarrow> 'g"
  pg_node_weight :: "'g \<Rightarrow> nat \<Rightarrow> 'w option"
  pg_neighbors :: "'g \<Rightarrow> nat \<Rightarrow> nat list"
  pg_dfs_post_order :: "'g \<Rightarrow> nat \<Rightarrow> nat list"

section \<open>Trees of weights and of indices\<close>

datatype 'w wtree = WTree (root_weight: 'w) (wsubs: "'w wtree list")

datatype itree = ITree (idx: nat) (isubs: "itree list")

fun indices :: "itree \<Rightarrow> nat list" where
  "indices (ITree i its) = i # concat (map indices its)"

text \<open>The graph below an index is a tree of this shape.\<close>

fun spans :: "('g, 'w) petgraph \<Rightarrow> 'g \<Rightarrow> itree \<Rightarrow> bool" where
  "spans P g (ITree i its) \<longleftrightarrow>
     pg_node_weight P g i \<noteq> None \<and> pg_neighbors P g i = rev (map idx its) \<and> list_all (spans P g) its"

text \<open>\<dots> and its weights are those of a given tree.\<close>

fun repr :: "('g, 'w) petgraph \<Rightarrow> 'g \<Rightarrow> itree \<Rightarrow> 'w wtree \<Rightarrow> bool" where
  "repr P g (ITree i its) (WTree w ts) \<longleftrightarrow>
     pg_node_weight P g i = Some w \<and> pg_neighbors P g i = rev (map idx its)
     \<and> list_all2 (repr P g) its ts"

definition represents :: "('g, 'w) petgraph \<Rightarrow> 'g \<Rightarrow> nat \<Rightarrow> 'w wtree \<Rightarrow> bool" where
  "represents P g i t \<longleftrightarrow> (\<exists>it. idx it = i \<and> distinct (indices it) \<and> repr P g it t)"

definition post_order :: "('i \<Rightarrow> 'i list) \<Rightarrow> 'i list \<Rightarrow> bool" where
  "post_order nb xs \<longleftrightarrow> (\<forall>k < length xs. set (nb (xs ! k)) \<subseteq> set (take k xs))"

lemma post_order_Nil [simp]: "post_order nb []"
  by (simp add: post_order_def)

lemma post_order_append:
  assumes "post_order nb xs" and "post_order nb ys"
  shows "post_order nb (xs @ ys)"
  unfolding post_order_def
proof (intro allI impI)
  fix k assume k: "k < length (xs @ ys)"
  show "set (nb ((xs @ ys) ! k)) \<subseteq> set (take k (xs @ ys))"
  proof (cases "k < length xs")
    case True
    with assms(1) show ?thesis by (auto simp: post_order_def nth_append)
  next
    case False
    with k have "set (nb (ys ! (k - length xs))) \<subseteq> set (take (k - length xs) ys)"
      using assms(2) unfolding post_order_def by (metis add_diff_inverse_nat length_append nat_add_left_cancel_less)
    with False show ?thesis by (auto simp: nth_append)
  qed
qed

lemma post_order_snoc:
  "post_order nb xs \<Longrightarrow> set (nb i) \<subseteq> set xs \<Longrightarrow> post_order nb (xs @ [i])"
  by (auto simp: post_order_def nth_append less_Suc_eq)

lemma repr_spans: "repr P g it t \<Longrightarrow> spans P g it"
proof (induction it arbitrary: t)
  case (ITree i its)
  then show ?case
    by (cases t) (auto simp: list_all_length list_all2_conv_all_nth)
qed

lemma repr_cong:
  assumes "repr P g it t"
    and "\<And>i. i \<in> set (indices it) \<Longrightarrow> pg_node_weight Q g' i = pg_node_weight P g i"
    and "\<And>i. i \<in> set (indices it) \<Longrightarrow> pg_neighbors Q g' i = pg_neighbors P g i"
  shows "repr Q g' it t"
  using assms
proof (induction it arbitrary: t)
  case (ITree i its)
  obtain w ts where t: "t = WTree w ts" by (cases t) auto
  have "list_all2 (repr Q g') its ts"
  proof (rule list_all2_all_nthI)
    show "length its = length ts" using ITree.prems(1) t by (auto dest: list_all2_lengthD)
    fix k assume k: "k < length its"
    then have mem: "its ! k \<in> set its" by simp
    then show "repr Q g' (its ! k) (ts ! k)"
    proof (rule ITree.IH)
      show "repr P g (its ! k) (ts ! k)" using ITree.prems(1) t k by (auto simp: list_all2_nthD)
      fix j assume "j \<in> set (indices (its ! k))"
      with mem have "j \<in> set (indices (ITree i its))" by auto
      then show "pg_node_weight Q g' j = pg_node_weight P g j"
        "pg_neighbors Q g' j = pg_neighbors P g j" using ITree.prems(2,3) by blast+
    qed
  qed
  with ITree.prems t show ?case by simp
qed

section \<open>Graphs made through the interface\<close>

inductive built :: "('g, 'w) petgraph \<Rightarrow> 'g \<Rightarrow> bool" for P where
  built_new: "built P (pg_new P)"
| built_add_node: "built P g \<Longrightarrow> built P (fst (pg_add_node P g w))"
| built_add_edge: "built P g \<Longrightarrow> pg_node_weight P g a \<noteq> None \<Longrightarrow> pg_node_weight P g b \<noteq> None \<Longrightarrow>
    built P (pg_add_edge P g a b)"

locale petgraph =
  fixes P :: "('g, 'w) petgraph"
  assumes new_weight: "pg_node_weight P (pg_new P) i = None"
    and fresh: "built P g \<Longrightarrow> pg_node_weight P g (snd (pg_add_node P g w)) = None"
    and add_node_weight: "built P g \<Longrightarrow>
      pg_node_weight P (fst (pg_add_node P g w)) i
        = (if i = snd (pg_add_node P g w) then Some w else pg_node_weight P g i)"
    and add_node_neighbors: "built P g \<Longrightarrow>
      pg_neighbors P (fst (pg_add_node P g w)) i = pg_neighbors P g i"
    and no_node: "built P g \<Longrightarrow> pg_node_weight P g i = None \<Longrightarrow> pg_neighbors P g i = []"
    and add_edge_weight: "built P g \<Longrightarrow> pg_node_weight P g a \<noteq> None \<Longrightarrow> pg_node_weight P g b \<noteq> None \<Longrightarrow>
      pg_node_weight P (pg_add_edge P g a b) i = pg_node_weight P g i"
    and add_edge_neighbors: "built P g \<Longrightarrow> pg_node_weight P g a \<noteq> None \<Longrightarrow>
      pg_node_weight P g b \<noteq> None \<Longrightarrow>
      pg_neighbors P (pg_add_edge P g a b) i
        = (if i = a then b # pg_neighbors P g a else pg_neighbors P g i)"
    and dfs_post_order: "built P g \<Longrightarrow> spans P g it \<Longrightarrow> distinct (indices it) \<Longrightarrow>
      distinct (pg_dfs_post_order P g (idx it))
      \<and> set (pg_dfs_post_order P g (idx it)) = set (indices it)
      \<and> post_order (pg_neighbors P g) (pg_dfs_post_order P g (idx it))"

section \<open>Adding a tree\<close>

text \<open>The graph after a tree was added below a parent, node by node and first child first: what the
  stack loops of the code compute.\<close>

fun grow :: "('g, 'w) petgraph \<Rightarrow> nat option \<Rightarrow> 'w wtree \<Rightarrow> 'g \<Rightarrow> 'g" where
  "grow P parent (WTree w ts) g =
     (let (g1, i) = pg_add_node P g w;
          g2 = (case parent of Some p \<Rightarrow> pg_add_edge P g1 p i | None \<Rightarrow> g1)
      in fold (grow P (Some i)) ts g2)"

definition attached :: "nat option \<Rightarrow> nat list \<Rightarrow> nat \<Rightarrow> nat list" where
  "attached parent cs j = (if parent = Some j then cs else [])"

lemma attached_simps [simp]:
  "attached None cs j = []" "attached (Some i) cs i = cs" "attached (Some i) [] j = []"
  "i \<noteq> j \<Longrightarrow> attached (Some i) cs j = []"
  by (simp_all add: attached_def)

text \<open>\<open>g'\<close> extends \<open>g\<close> by the trees \<open>its\<close> below \<open>parent\<close>.\<close>

definition extends ::
  "('g, 'w) petgraph \<Rightarrow> 'g \<Rightarrow> nat option \<Rightarrow> itree list \<Rightarrow> 'g \<Rightarrow> bool" where
  "extends P g parent its g' \<longleftrightarrow>
     built P g' \<and> distinct (concat (map indices its))
     \<and> (\<forall>i \<in> set (concat (map indices its)).
          pg_node_weight P g i = None \<and> pg_node_weight P g' i \<noteq> None)
     \<and> (\<forall>i. i \<notin> set (concat (map indices its)) \<longrightarrow>
          pg_node_weight P g' i = pg_node_weight P g i
          \<and> pg_neighbors P g' i = rev (attached parent (map idx its) i) @ pg_neighbors P g i)"

lemma extendsD:
  assumes "extends P g parent its g'"
  shows "built P g'" "distinct (concat (map indices its))"
    "i \<in> set (concat (map indices its)) \<Longrightarrow> pg_node_weight P g i = None"
    "i \<in> set (concat (map indices its)) \<Longrightarrow> pg_node_weight P g' i \<noteq> None"
    "i \<notin> set (concat (map indices its)) \<Longrightarrow> pg_node_weight P g' i = pg_node_weight P g i"
    "i \<notin> set (concat (map indices its)) \<Longrightarrow>
       pg_neighbors P g' i = rev (attached parent (map idx its) i) @ pg_neighbors P g i"
  using assms unfolding extends_def by blast+

lemma extends_old:
  assumes "extends P g parent its g'" and "pg_node_weight P g i \<noteq> None"
  shows "i \<notin> set (concat (map indices its))" "pg_node_weight P g' i = pg_node_weight P g i"
    "pg_neighbors P g' i = rev (attached parent (map idx its) i) @ pg_neighbors P g i"
proof -
  show new: "i \<notin> set (concat (map indices its))" using extendsD(3) [OF assms(1), of i] assms(2) by auto
  show "pg_node_weight P g' i = pg_node_weight P g i"
    "pg_neighbors P g' i = rev (attached parent (map idx its) i) @ pg_neighbors P g i"
    using extendsD(5,6) [OF assms(1) new] by blast+
qed

lemma extends_refl: "built P g \<Longrightarrow> extends P g parent [] g"
  by (simp add: extends_def attached_def)

lemma attached_append:
  "attached parent (xs @ ys) i = attached parent xs i @ attached parent ys i"
  by (simp add: attached_def)

lemma extends_trans:
  assumes g1: "extends P g parent its1 g1" and g2: "extends P g1 parent its2 g2"
  shows "extends P g parent (its1 @ its2) g2"
  unfolding extends_def
proof (intro conjI ballI allI impI)
  let ?n1 = "set (concat (map indices its1))" and ?n2 = "set (concat (map indices its2))"
  have disj: "i \<notin> ?n2" if "i \<in> ?n1" for i
    using extendsD(3) [OF g2] extendsD(4) [OF g1] that by blast
  show "built P g2" by (rule extendsD(1) [OF g2])
  show "distinct (concat (map indices (its1 @ its2)))"
    using extendsD(2) [OF g1] extendsD(2) [OF g2] disj by auto
  fix i
  have split: "i \<in> set (concat (map indices (its1 @ its2))) \<longleftrightarrow> i \<in> ?n1 \<or> i \<in> ?n2" by simp
  {
    assume "i \<in> set (concat (map indices (its1 @ its2)))"
    then consider "i \<in> ?n1" | "i \<in> ?n2" "i \<notin> ?n1" unfolding split by blast
    note this = this
    then show "pg_node_weight P g i = None"
      using extendsD(3,5) [OF g1] extendsD(3) [OF g2] by cases metis+
    from this show "pg_node_weight P g2 i \<noteq> None"
      using extendsD(4) [OF g1] extendsD(4,5) [OF g2] disj
      by (metis \<open>i \<in> set (concat (map indices (its1 @ its2)))\<close> split)
  next
    assume "i \<notin> set (concat (map indices (its1 @ its2)))"
    then have i: "i \<notin> ?n1" "i \<notin> ?n2" unfolding split by blast+
    show "pg_node_weight P g2 i = pg_node_weight P g i"
      using extendsD(5) [OF g1 i(1)] extendsD(5) [OF g2 i(2)] by simp
    show "pg_neighbors P g2 i = rev (attached parent (map idx (its1 @ its2)) i) @ pg_neighbors P g i"
      using extendsD(6) [OF g1 i(1)] extendsD(6) [OF g2 i(2)] by (simp add: attached_append)
  }
qed

text \<open>A tree found in the graph stays when others are added elsewhere.\<close>

lemma extends_repr:
  assumes "repr P g it t" and "extends P g parent its g'"
    and "\<And>i. i \<in> set (indices it) \<Longrightarrow> pg_node_weight P g i \<noteq> None \<and> parent \<noteq> Some i"
  shows "repr P g' it t"
  using assms(1)
proof (rule repr_cong)
  fix i assume "i \<in> set (indices it)"
  with assms(3) have i: "pg_node_weight P g i \<noteq> None" "parent \<noteq> Some i" by auto
  with extends_old [OF assms(2) i(1)]
  show "pg_node_weight P g' i = pg_node_weight P g i" "pg_neighbors P g' i = pg_neighbors P g i"
    by (simp_all add: attached_def)
qed

lemma repr_weight: "repr P g it t \<Longrightarrow> i \<in> set (indices it) \<Longrightarrow> pg_node_weight P g i \<noteq> None"
proof (induction it arbitrary: t)
  case (ITree j its)
  then show ?case
    by (cases t) (auto simp: list_all2_conv_all_nth in_set_conv_nth, metis nth_mem)
qed

lemma idx_in_indices [simp]: "idx it \<in> set (indices it)"
  by (cases it) simp

context petgraph
begin

lemma add_child:
  assumes g: "built P g" and p: "\<And>p. parent = Some p \<Longrightarrow> pg_node_weight P g p \<noteq> None"
    and add: "pg_add_node P g w = (g1, i)"
    and g2: "g2 = (case parent of Some p \<Rightarrow> pg_add_edge P g1 p i | None \<Rightarrow> g1)"
  shows "extends P g parent [ITree i []] g2" "pg_node_weight P g2 i = Some w"
    "pg_neighbors P g2 i = []"
proof -
  have g1: "built P g1" using built_add_node [OF g, of w] add by simp
  have w1: "pg_node_weight P g1 j = (if j = i then Some w else pg_node_weight P g j)" for j
    using add_node_weight [OF g, of w j] add by simp
  have n1: "pg_neighbors P g1 j = pg_neighbors P g j" for j
    using add_node_neighbors [OF g, of w j] add by simp
  have i: "pg_node_weight P g i = None" using fresh [OF g, of w] add by simp
  then have ni: "pg_neighbors P g i = []" by (rule no_node [OF g])
  have "extends P g parent [ITree i []] g2 \<and> pg_node_weight P g2 i = Some w
      \<and> pg_neighbors P g2 i = []"
  proof (cases parent)
    case None
    then show ?thesis using g1 w1 n1 i ni g2 by (auto simp: extends_def)
  next
    case (Some q)
    then have q: "pg_node_weight P g q \<noteq> None" "q \<noteq> i" using p i by auto
    then have ends: "pg_node_weight P g1 q \<noteq> None" "pg_node_weight P g1 i \<noteq> None"
      using w1 by auto
    have g2: "g2 = pg_add_edge P g1 q i" using Some g2 by simp
    show ?thesis
      using built_add_edge [OF g1 ends] add_edge_weight [OF g1 ends] add_edge_neighbors [OF g1 ends]
        w1 n1 i ni q Some unfolding g2 by (auto simp: extends_def attached_def)
  qed
  then show "extends P g parent [ITree i []] g2" "pg_node_weight P g2 i = Some w"
    "pg_neighbors P g2 i = []" by blast+
qed

lemma extends_nest:
  assumes g1: "extends P g parent [ITree i []] g1" and g2: "extends P g1 (Some i) its g2"
  shows "extends P g parent [ITree i its] g2"
  unfolding extends_def
proof (intro conjI ballI allI impI)
  let ?n = "set (concat (map indices its))"
  have i: "pg_node_weight P g i = None" "pg_node_weight P g1 i \<noteq> None"
    using extendsD(3,4) [OF g1] by auto
  have new: "i \<notin> ?n" using extends_old(1) [OF g2 i(2)] .
  show "built P g2" by (rule extendsD(1) [OF g2])
  show "distinct (concat (map indices [ITree i its]))"
    using extendsD(2) [OF g2] new by simp
  fix j
  {
    assume j: "j \<in> set (concat (map indices [ITree i its]))"
    show "pg_node_weight P g j = None"
    proof (cases "j = i")
      case False
      with j have "j \<in> ?n" by simp
      from extendsD(3) [OF g2 this] extendsD(5) [OF g1, of j] False show ?thesis by simp
    qed (use i in simp)
    show "pg_node_weight P g2 j \<noteq> None"
    proof (cases "j = i")
      case True
      with extends_old(2) [OF g2 i(2)] i show ?thesis by simp
    next
      case False
      with j have "j \<in> ?n" by simp
      then show ?thesis by (rule extendsD(4) [OF g2])
    qed
  next
    assume "j \<notin> set (concat (map indices [ITree i its]))"
    then have j: "j \<notin> ?n" "j \<noteq> i" "j \<notin> set (concat (map indices [ITree i []]))" by auto
    show "pg_node_weight P g2 j = pg_node_weight P g j"
      using extendsD(5) [OF g1 j(3)] extendsD(5) [OF g2 j(1)] by simp
    show "pg_neighbors P g2 j = rev (attached parent (map idx [ITree i its]) j) @ pg_neighbors P g j"
      using extendsD(6) [OF g1 j(3)] extendsD(6) [OF g2 j(1)] j(2) by simp
  }
qed

lemma grow_list:
  assumes step: "\<And>t g p. t \<in> set ts \<Longrightarrow> built P g \<Longrightarrow> pg_node_weight P g p \<noteq> None \<Longrightarrow>
      \<exists>it. extends P g (Some p) [it] (grow P (Some p) t g) \<and> repr P (grow P (Some p) t g) it t"
    and "built P g" and "pg_node_weight P g i \<noteq> None"
  shows "\<exists>its. extends P g (Some i) its (fold (grow P (Some i)) ts g)
    \<and> list_all2 (repr P (fold (grow P (Some i)) ts g)) its ts"
  using assms
proof (induction ts arbitrary: g)
  case Nil
  then show ?case using extends_refl by fastforce
next
  case (Cons t ts)
  let ?g1 = "grow P (Some i) t g" and ?g2 = "fold (grow P (Some i)) ts (grow P (Some i) t g)"
  from Cons.prems obtain it where it: "extends P g (Some i) [it] ?g1" "repr P ?g1 it t"
    by (metis list.set_intros(1))
  have i1: "pg_node_weight P ?g1 i \<noteq> None"
    using extends_old(2) [OF it(1) Cons.prems(3)] Cons.prems(3) by simp
  have "\<exists>its. extends P ?g1 (Some i) its ?g2 \<and> list_all2 (repr P ?g2) its ts"
    by (rule Cons.IH) (use Cons.prems(1) extendsD(1) [OF it(1)] i1 in auto)
  then obtain its where its: "extends P ?g1 (Some i) its ?g2" "list_all2 (repr P ?g2) its ts"
    by blast
  have "repr P ?g2 it t"
    using it(2) its(1)
  proof (rule extends_repr)
    fix j assume j: "j \<in> set (indices it)"
    then have "j \<in> set (concat (map indices [it]))" by simp
    from extendsD(3) [OF it(1) this] extendsD(4) [OF it(1) this] Cons.prems(3)
    show "pg_node_weight P ?g1 j \<noteq> None \<and> Some i \<noteq> Some j" by auto
  qed
  with its(2) have "list_all2 (repr P ?g2) (it # its) (t # ts)" by simp
  moreover have "extends P g (Some i) (it # its) ?g2"
    using extends_trans [OF it(1) its(1)] by simp
  ultimately show ?case by (simp del: list_all2_Cons) blast
qed

lemma grow_extends:
  assumes "built P g" and "\<And>p. parent = Some p \<Longrightarrow> pg_node_weight P g p \<noteq> None"
  shows "\<exists>it. idx it = snd (pg_add_node P g (root_weight t))
    \<and> extends P g parent [it] (grow P parent t g) \<and> repr P (grow P parent t g) it t"
  using assms
proof (induction t arbitrary: g parent)
  case (WTree w ts)
  obtain g1 i where add: "pg_add_node P g w = (g1, i)" by fastforce
  define g2 where "g2 = (case parent of Some p \<Rightarrow> pg_add_edge P g1 p i | None \<Rightarrow> g1)"
  note child = add_child [OF WTree.prems add g2_def]
  let ?g' = "fold (grow P (Some i)) ts g2"
  have "\<exists>its. extends P g2 (Some i) its ?g' \<and> list_all2 (repr P ?g') its ts"
  proof (rule grow_list)
    show "\<exists>it. extends P g (Some p) [it] (grow P (Some p) t g) \<and> repr P (grow P (Some p) t g) it t"
      if "t \<in> set ts" "built P g" "pg_node_weight P g p \<noteq> None" for t g p
      using WTree.IH [OF that(1,2), of "Some p"] that(3) by blast
    show "built P g2" by (rule extendsD(1) [OF child(1)])
    show "pg_node_weight P g2 i \<noteq> None" using child(2) by simp
  qed
  then obtain its where its: "extends P g2 (Some i) its ?g'" "list_all2 (repr P ?g') its ts" by blast
  have grow: "grow P parent (WTree w ts) g = ?g'" by (simp add: add g2_def)
  have "repr P ?g' (ITree i its) (WTree w ts)"
    using extends_old [OF its(1), of i] child(2,3) its(2) by simp
  with extends_nest [OF child(1) its(1)] grow add show ?case
    by (intro exI [of _ "ITree i its"]) simp
qed

text \<open>A tree added to the empty graph is the graph.\<close>

lemma grow_new:
  "built P (grow P None t (pg_new P))"
  "represents P (grow P None t (pg_new P)) (snd (pg_add_node P (pg_new P) (root_weight t))) t"
proof -
  obtain it where it: "idx it = snd (pg_add_node P (pg_new P) (root_weight t))"
      "extends P (pg_new P) None [it] (grow P None t (pg_new P))"
      "repr P (grow P None t (pg_new P)) it t"
    using grow_extends [OF built_new, of None t] by auto
  then show "built P (grow P None t (pg_new P))" by (metis extendsD(1))
  from it extendsD(2) [OF it(2)]
  show "represents P (grow P None t (pg_new P)) (snd (pg_add_node P (pg_new P) (root_weight t))) t"
    by (auto simp: represents_def)
qed

end

section \<open>What sits at an index\<close>

definition sits :: "('g, 'w) petgraph \<Rightarrow> 'g \<Rightarrow> nat \<Rightarrow> 'w wtree \<Rightarrow> bool" where
  "sits P g i t \<longleftrightarrow> (\<exists>it. idx it = i \<and> repr P g it t)"

lemma represents_sits: "represents P g i t \<Longrightarrow> sits P g i t"
  by (auto simp: represents_def sits_def)

lemma sits_weight: "sits P g i t \<Longrightarrow> pg_node_weight P g i = Some (root_weight t)"
  by (cases t) (auto simp: sits_def elim!: repr.elims)

lemma sits_children:
  assumes "sits P g i t"
  obtains cs where "pg_neighbors P g i = rev cs" "list_all2 (sits P g) cs (wsubs t)"
proof -
  obtain its w ts where it: "repr P g (ITree i its) (WTree w ts)" "t = WTree w ts"
    using assms by (auto simp: sits_def elim!: repr.elims)
  have "list_all2 (sits P g) (map idx its) ts"
    using it(1) by (auto simp: list_all2_conv_all_nth sits_def)
  with it that [of "map idx its"] show ?thesis by simp
qed

lemma repr_sits: "repr P g it t \<Longrightarrow> i \<in> set (indices it) \<Longrightarrow> \<exists>t'. sits P g i t'"
proof (induction it arbitrary: t)
  case (ITree j its)
  show ?case
  proof (cases "i = j")
    case True
    with ITree.prems(1) show ?thesis by (auto simp: sits_def intro!: exI [of _ "ITree j its"])
  next
    case False
    with ITree.prems(2) obtain it where it: "it \<in> set its" "i \<in> set (indices it)" by auto
    with ITree.prems(1) obtain t' where "repr P g it t'"
      by (cases t) (auto simp: list_all2_conv_all_nth in_set_conv_nth)
    with ITree.IH it show ?thesis by blast
  qed
qed

lemma sits_unique: "sits P g i t \<Longrightarrow> sits P g i t' \<Longrightarrow> t = t'"
proof (induction t arbitrary: i t')
  case (WTree w ts)
  obtain cs where cs: "pg_neighbors P g i = rev cs" "list_all2 (sits P g) cs ts"
    using sits_children [OF WTree.prems(1)] by auto
  obtain cs' where cs': "pg_neighbors P g i = rev cs'" "list_all2 (sits P g) cs' (wsubs t')"
    using sits_children [OF WTree.prems(2)] by auto
  have "cs' = cs" using cs(1) cs'(1) by simp
  with cs(2) cs'(2) have "ts = wsubs t'"
    by (intro nth_equalityI) (auto simp: list_all2_conv_all_nth intro!: WTree.IH nth_mem)
  moreover have "w = root_weight t'"
    using sits_weight [OF WTree.prems(1)] sits_weight [OF WTree.prems(2)] by simp
  ultimately show ?case by simp
qed

section \<open>A graph of the kind the library documents\<close>

text \<open>Weights by index, edges latest first, and the recursive post order: the promises of the locale
  can be kept.\<close>

fun ref_post :: "nat \<Rightarrow> (nat \<Rightarrow> nat list) \<Rightarrow> nat \<Rightarrow> nat list" where
  "ref_post 0 nb i = []"
| "ref_post (Suc k) nb i = concat (map (ref_post k nb) (nb i)) @ [i]"

definition ref_neighbors :: "'w list \<times> (nat \<times> nat) list \<Rightarrow> nat \<Rightarrow> nat list" where
  "ref_neighbors g i = map snd (filter (\<lambda>e. fst e = i) (snd g))"

definition ref_graph :: "('w list \<times> (nat \<times> nat) list, 'w) petgraph" where
  "ref_graph = \<lparr>
     pg_new = ([], []),
     pg_add_node = (\<lambda>(ws, es) w. ((ws @ [w], es), length ws)),
     pg_add_edge = (\<lambda>(ws, es) a b. (ws, (a, b) # es)),
     pg_node_weight = (\<lambda>(ws, es) i. if i < length ws then Some (ws ! i) else None),
     pg_neighbors = ref_neighbors,
     pg_dfs_post_order = (\<lambda>g i. ref_post (length (fst g)) (ref_neighbors g) i)\<rparr>"

lemma distinct_concat_rev: "distinct (concat (rev xss)) \<longleftrightarrow> distinct (concat xss)"
  by (induction xss) auto

lemma ref_post_tree:
  assumes "spans P g it" and "distinct (indices it)" and "length (indices it) \<le> k"
  shows "set (ref_post k (pg_neighbors P g) (idx it)) = set (indices it)
    \<and> distinct (ref_post k (pg_neighbors P g) (idx it))
    \<and> post_order (pg_neighbors P g) (ref_post k (pg_neighbors P g) (idx it))"
  using assms
proof (induction it arbitrary: k)
  case (ITree i its)
  let ?nb = "pg_neighbors P g"
  obtain k' where k: "k = Suc k'" using ITree.prems(3) by (cases k) auto
  have sub: "set (ref_post k' ?nb (idx it)) = set (indices it)
      \<and> distinct (ref_post k' ?nb (idx it)) \<and> post_order ?nb (ref_post k' ?nb (idx it))"
    if "it \<in> set its" for it
  proof (rule ITree.IH [OF that])
    show "spans P g it" using ITree.prems(1) that by (simp add: list_all_iff)
    show "distinct (indices it)" using ITree.prems(2) that by (auto simp: distinct_concat_iff)
    have "length (indices it) \<le> length (concat (map indices its))"
      using that by (induction its) auto
    then show "length (indices it) \<le> k'" using ITree.prems(3) k by simp
  qed
  have concat: "set (concat (map (\<lambda>it. ref_post k' ?nb (idx it)) xs)) = set (concat (map indices xs))
      \<and> distinct (concat (map (\<lambda>it. ref_post k' ?nb (idx it)) xs))
      \<and> post_order ?nb (concat (map (\<lambda>it. ref_post k' ?nb (idx it)) xs))"
    if "set xs \<subseteq> set its" "distinct (concat (map indices xs))" for xs
    using that by (induction xs) (use sub in \<open>auto intro: post_order_append\<close>)
  have rev: "distinct (concat (map indices (rev its)))"
    using ITree.prems(2) by (simp add: rev_map [symmetric] distinct_concat_rev)
  define xs where "xs = concat (map (\<lambda>it. ref_post k' ?nb (idx it)) (rev its))"
  have xs: "set xs = set (concat (map indices its))" "distinct xs" "post_order ?nb xs"
    using concat [of "rev its", OF _ rev] unfolding xs_def by simp_all
  have nb: "?nb i = rev (map idx its)" using ITree.prems(1) by simp
  then have "set (?nb i) \<subseteq> set xs"
    unfolding xs(1) by (simp del: idx_in_indices) (blast intro: idx_in_indices)
  then have "post_order ?nb (xs @ [i])" by (rule post_order_snoc [OF xs(3)])
  moreover have "ref_post k ?nb i = xs @ [i]"
    using nb by (simp add: k rev_map comp_def xs_def)
  moreover have "i \<notin> set xs" using ITree.prems(2) xs(1) by simp
  ultimately show ?case using xs by auto
qed

lemma ref_built:
  "built ref_graph g \<Longrightarrow> \<forall>e \<in> set (snd g). fst e < length (fst g) \<and> snd e < length (fst g)"
proof (induction rule: built.induct)
  case (built_add_node g w)
  then show ?case by (cases g) (auto simp: ref_graph_def dest!: bspec)
next
  case (built_add_edge g a b)
  then show ?case by (cases g) (auto simp: ref_graph_def split: if_splits)
qed (simp add: ref_graph_def)

interpretation ref_graph: petgraph ref_graph
proof unfold_locales
  fix g :: "'w list \<times> (nat \<times> nat) list" and it i
  show "pg_neighbors ref_graph g i = []"
    if "built ref_graph g" "pg_node_weight ref_graph g i = None"
    using ref_built [OF that(1)] that(2)
    by (cases g) (auto simp: ref_graph_def ref_neighbors_def filter_empty_conv split: if_splits)
  assume it: "built ref_graph g" "spans ref_graph g it" "distinct (indices it)"
  have "\<forall>i \<in> set (indices it). i < length (fst g)"
    using it(2)
  proof (induction it)
    case (ITree i its)
    then show ?case by (cases g) (auto simp: ref_graph_def list_all_iff split: if_splits)
  qed
  then have "length (indices it) \<le> length (fst g)"
    using it(3) by (metis distinct_card finite_atLeastLessThan card_mono subsetI atLeastLessThan_iff
        le0 card_atLeastLessThan diff_zero)
  from ref_post_tree [OF it(2,3) this]
  show "distinct (pg_dfs_post_order ref_graph g (idx it))
      \<and> set (pg_dfs_post_order ref_graph g (idx it)) = set (indices it)
      \<and> post_order (pg_neighbors ref_graph g) (pg_dfs_post_order ref_graph g (idx it))"
    by (simp add: ref_graph_def)
qed (auto simp: ref_graph_def ref_neighbors_def nth_append split: prod.splits if_splits)

end
