(* ===== verification/Hashing_Tree.thy ===== *)
theory Hashing_Tree
  imports Node_Entries Graph_Interface
begin

text \<open>
  The Merkle tree of \<open>lib/object-tree/src/graph.rs\<close>: \<open>NodeWithChildren\<close>, \<open>HashingTree\<close>
  (\<open>create_from_root\<close>, \<open>compute_hashes\<close>, \<open>create_hashed_tree\<close>, \<open>hash_tree\<close>) and \<open>ObjectTree\<close>. The code
  builds a graph with an explicit stack, hashes its nodes in post order, and copies it with the
  hashes into a second graph. The specification is a recursive function, \<open>merkle\<close>; the result of the
  section is that the three loops return, without an error, a graph that is the tree with exactly
  these hashes. The graph library is a parameter (\<open>Graph_Interface\<close>), once for each of the two
  weight types.
\<close>

section \<open>Data\<close>

record 'n Node =
  node_kind :: NodeKind
  node_inner :: 'n

text \<open>The children of a \<open>NodeWithChildren\<close> are trait objects, converted by
  \<open>as_node_with_children\<close> when the node is taken apart; here they are converted already.\<close>

datatype 'n NodeWithChildren =
  NodeWithChildren (nwc_kind: NodeKind) (nwc_inner: 'n) (nwc_children: "'n NodeWithChildren list")

definition into_parts :: "'n NodeWithChildren \<Rightarrow> 'n Node \<times> 'n NodeWithChildren list" where
  "into_parts n = (\<lparr>node_kind = nwc_kind n, node_inner = nwc_inner n\<rparr>, nwc_children n)"

lemma size_children: "sum_list (map size (nwc_children n)) < size n"
proof (cases n)
  case (NodeWithChildren k x cs)
  have "sum_list (map size cs) \<le> size_list size cs" by (induction cs) simp_all
  with NodeWithChildren show ?thesis by simp
qed

record 'g HashingTree =
  ht_graph :: 'g
  ht_root_idx :: nat
  ht_hashes :: "nat \<rightharpoonup> Hash"

record 'g ObjectTree =
  ot_graph :: 'g
  ot_root_idx :: nat

definition HashedNode_new :: "'n Node \<Rightarrow> Hash \<Rightarrow> 'n HashedNode" where
  "HashedNode_new node hash =
     \<lparr>hn_kind = node_kind node, hn_hash = hash, hn_inner = node_inner node\<rparr>"

section \<open>Building the graph\<close>

text \<open>The loop \<open>while let Some(..) = stack.pop()\<close>; the top of the stack is the head of the list.\<close>

function create_from_root_loop ::
  "('g, 'n Node) petgraph \<Rightarrow> 'g \<Rightarrow> nat option \<Rightarrow> ('n NodeWithChildren \<times> nat option) list \<Rightarrow>
   (GraphError, 'g \<times> nat option) result" where
  "create_from_root_loop P graph root_idx [] = Inr (graph, root_idx)"
| "create_from_root_loop P graph root_idx ((node_with_children, parent_idx) # stack) =
     (let (node, children) = into_parts node_with_children;
          (graph1, node_idx) = pg_add_node P graph node;
          stack' = map (\<lambda>c. (c, Some node_idx)) children @ stack
      in case parent_idx of
           Some p \<Rightarrow> create_from_root_loop P (pg_add_edge P graph1 p node_idx) root_idx stack'
         | None \<Rightarrow>
             (case root_idx of
                None \<Rightarrow> create_from_root_loop P graph1 (Some node_idx) stack'
              | Some _ \<Rightarrow> Inl MultipleRootNode))"
  by pat_completeness auto
termination
  by (relation "measure (\<lambda>(P, g, r, stack). sum_list (map (\<lambda>x. size (fst x)) stack))")
    (auto simp: into_parts_def comp_def size_children)

definition HashingTree_create_from_root ::
  "('g, 'n Node) petgraph \<Rightarrow> 'n NodeWithChildren \<Rightarrow> (GraphError, 'g HashingTree) result" where
  "HashingTree_create_from_root P node =
     rbind (create_from_root_loop P (pg_new P) None [(node, None)]) (\<lambda>(graph, root_idx).
       case root_idx of
         Some r \<Rightarrow> Inr \<lparr>ht_graph = graph, ht_root_idx = r, ht_hashes = Map.empty\<rparr>
       | None \<Rightarrow> Inl MissingRootNode)"

section \<open>Computing the hashes\<close>

definition child_entry ::
  "('n \<Rightarrow> bytes) \<Rightarrow> ('g, 'n Node) petgraph \<Rightarrow> 'g \<Rightarrow> (nat \<rightharpoonup> Hash) \<Rightarrow> 'n Node \<Rightarrow> nat \<Rightarrow>
   (GraphError, NodeEntry) result" where
  "child_entry name P graph hashes node child_idx =
     rbind (ok_or (NodeWeightNotFound child_idx ''could not find child weight for index'')
              (pg_node_weight P graph child_idx)) (\<lambda>child_node.
     rbind (ok_or (UnhashedChild (name (node_inner node)) (name (node_inner child_node)))
              (hashes child_idx)) (\<lambda>child_hash.
       Inr \<lparr>entry_kind = node_kind child_node, entry_hash = child_hash,
            entry_name = name (node_inner child_node)\<rparr>))"

definition compute_hash ::
  "('n \<Rightarrow> graph_write) \<Rightarrow> ('n \<Rightarrow> bytes) \<Rightarrow> blake3 \<Rightarrow> ('g, 'n Node) petgraph \<Rightarrow> 'g \<Rightarrow>
   (nat \<rightharpoonup> Hash) \<Rightarrow> nat \<Rightarrow> (GraphError, nat \<rightharpoonup> Hash) result" where
  "compute_hash wr name B P graph hashes node_idx =
     rbind (ok_or (NodeWeightNotFound node_idx ''could not find node for next item in dfspo'')
              (pg_node_weight P graph node_idx)) (\<lambda>node.
     rbind (mapM (child_entry name P graph hashes node) (pg_neighbors P graph node_idx)) (\<lambda>entries.
     rbind (write_node_with_entries wr B
              \<lparr>nwe_kind = node_kind node, nwe_inner = node_inner node, nwe_entries = entries\<rparr>)
       (\<lambda>bytes. Inr (hashes(node_idx \<mapsto> Hash_new B bytes)))))"

fun compute_hashes_loop ::
  "('n \<Rightarrow> graph_write) \<Rightarrow> ('n \<Rightarrow> bytes) \<Rightarrow> blake3 \<Rightarrow> ('g, 'n Node) petgraph \<Rightarrow> 'g \<Rightarrow>
   nat list \<Rightarrow> (nat \<rightharpoonup> Hash) \<Rightarrow> (GraphError, nat \<rightharpoonup> Hash) result" where
  "compute_hashes_loop wr name B P graph [] hashes = Inr hashes"
| "compute_hashes_loop wr name B P graph (node_idx # dfspo) hashes =
     rbind (compute_hash wr name B P graph hashes node_idx)
       (compute_hashes_loop wr name B P graph dfspo)"

definition compute_hashes ::
  "('n \<Rightarrow> graph_write) \<Rightarrow> ('n \<Rightarrow> bytes) \<Rightarrow> blake3 \<Rightarrow> ('g, 'n Node) petgraph \<Rightarrow> 'g HashingTree \<Rightarrow>
   (GraphError, 'g HashingTree) result" where
  "compute_hashes wr name B P tree =
     rbind (compute_hashes_loop wr name B P (ht_graph tree)
              (pg_dfs_post_order P (ht_graph tree) (ht_root_idx tree)) (ht_hashes tree))
       (\<lambda>hashes. Inr (tree\<lparr>ht_hashes := hashes\<rparr>))"

section \<open>Copying the graph with its hashes\<close>

definition hashed_child ::
  "('n \<Rightarrow> bytes) \<Rightarrow> ('g, 'n Node) petgraph \<Rightarrow> 'g HashingTree \<Rightarrow> nat \<Rightarrow> nat \<Rightarrow>
   (GraphError, 'n HashedNode \<times> nat \<times> nat option) result" where
  "hashed_child name P tree node_idx other_child_idx =
     rbind (ok_or (NodeWeightNotFound other_child_idx ''could not find other child node for index'')
              (pg_node_weight P (ht_graph tree) other_child_idx)) (\<lambda>other_node.
     rbind (ok_or (UnhashedNode (name (node_inner other_node))) (ht_hashes tree other_child_idx))
       (\<lambda>other_node_hash.
         Inr (HashedNode_new other_node other_node_hash, other_child_idx, Some node_idx)))"

text \<open>The loop follows the edges of a graph it does not check for cycles, so it need not end: the
  value \<open>None\<close>. The entries are pushed in the order of the neighbours, so the last one is on top.\<close>

partial_function (option) create_hashed_tree_loop ::
  "('n \<Rightarrow> bytes) \<Rightarrow> ('g, 'n Node) petgraph \<Rightarrow> ('h, 'n HashedNode) petgraph \<Rightarrow> 'g HashingTree \<Rightarrow>
   'h \<Rightarrow> nat option \<Rightarrow> ('n HashedNode \<times> nat \<times> nat option) list \<Rightarrow>
   (GraphError, 'h \<times> nat option) result option" where
  "create_hashed_tree_loop name P Q tree graph root_idx stack =
     (case stack of
        [] \<Rightarrow> Some (Inr (graph, root_idx))
      | (hashed_node, other_idx, parent_idx) # stack1 \<Rightarrow>
          (let (graph1, node_idx) = pg_add_node Q graph hashed_node in
           case (case parent_idx of
                   Some p \<Rightarrow> Inr (pg_add_edge Q graph1 p node_idx, root_idx)
                 | None \<Rightarrow> (case root_idx of None \<Rightarrow> Inr (graph1, Some node_idx)
                           | Some _ \<Rightarrow> Inl MultipleRootNode)) of
             Inl e \<Rightarrow> Some (Inl e)
           | Inr (graph2, root2) \<Rightarrow>
               (case mapM (hashed_child name P tree node_idx)
                       (pg_neighbors P (ht_graph tree) other_idx) of
                  Inl e \<Rightarrow> Some (Inl e)
                | Inr pushed \<Rightarrow>
                    create_hashed_tree_loop name P Q tree graph2 root2 (rev pushed @ stack1))))"

definition create_hashed_tree ::
  "('n \<Rightarrow> bytes) \<Rightarrow> ('g, 'n Node) petgraph \<Rightarrow> ('h, 'n HashedNode) petgraph \<Rightarrow> 'g HashingTree \<Rightarrow>
   (GraphError, 'h ObjectTree) result option" where
  "create_hashed_tree name P Q tree =
     (case pg_node_weight P (ht_graph tree) (ht_root_idx tree) of
        None \<Rightarrow> Some (Inl (NodeWeightNotFound (ht_root_idx tree)
                  ''could not find weight for other root node''))
      | Some other_root_node \<Rightarrow>
          (case ht_hashes tree (ht_root_idx tree) of
             None \<Rightarrow> Some (Inl (UnhashedNode (name (node_inner other_root_node))))
           | Some hash \<Rightarrow>
               map_option (\<lambda>r. rbind r (\<lambda>(graph, root_idx).
                   case root_idx of
                     Some r \<Rightarrow> Inr \<lparr>ot_graph = graph, ot_root_idx = r\<rparr>
                   | None \<Rightarrow> Inl MissingRootNode))
                 (create_hashed_tree_loop name P Q tree (pg_new Q) None
                    [(HashedNode_new other_root_node hash, ht_root_idx tree, None)])))"

definition hash_tree ::
  "('n \<Rightarrow> graph_write) \<Rightarrow> ('n \<Rightarrow> bytes) \<Rightarrow> blake3 \<Rightarrow> ('g, 'n Node) petgraph \<Rightarrow>
   ('h, 'n HashedNode) petgraph \<Rightarrow> 'g HashingTree \<Rightarrow> (GraphError, 'h ObjectTree) result option" where
  "hash_tree wr name B P Q tree =
     (case compute_hashes wr name B P tree of
        Inl e \<Rightarrow> Some (Inl e)
      | Inr tree' \<Rightarrow> create_hashed_tree name P Q tree')"

definition ObjectTree_create_from_root ::
  "('n \<Rightarrow> graph_write) \<Rightarrow> ('n \<Rightarrow> bytes) \<Rightarrow> blake3 \<Rightarrow> ('g, 'n Node) petgraph \<Rightarrow>
   ('h, 'n HashedNode) petgraph \<Rightarrow> 'n NodeWithChildren \<Rightarrow>
   (GraphError, 'h ObjectTree) result option" where
  "ObjectTree_create_from_root wr name B P Q node =
     (case HashingTree_create_from_root P node of
        Inl e \<Rightarrow> Some (Inl e)
      | Inr tree \<Rightarrow> hash_tree wr name B P Q tree)"

section \<open>Specification\<close>

text \<open>The hash of a node is that of its bytes, which hold the hashes of its children. Children enter
  in the reverse of their order (as the graph lists them) before they are sorted by name.\<close>

definition node_bytes :: "('n \<Rightarrow> graph_write) \<Rightarrow> blake3 \<Rightarrow> NodeKind \<Rightarrow> 'n \<Rightarrow> NodeEntry list \<Rightarrow> bytes"
  where
  "node_bytes wr B k x es =
     (case write_node_with_entries wr B \<lparr>nwe_kind = k, nwe_inner = x, nwe_entries = es\<rparr> of
        Inl _ \<Rightarrow> [] | Inr b \<Rightarrow> b)"

fun merkle :: "('n \<Rightarrow> graph_write) \<Rightarrow> ('n \<Rightarrow> bytes) \<Rightarrow> blake3 \<Rightarrow> 'n NodeWithChildren \<Rightarrow> Hash" where
  "merkle wr name B (NodeWithChildren k x cs) =
     Hash_new B (node_bytes wr B k x (rev (map (\<lambda>c.
       \<lparr>entry_kind = nwc_kind c, entry_hash = merkle wr name B c,
        entry_name = name (nwc_inner c)\<rparr>) cs)))"

definition merkle_entry ::
  "('n \<Rightarrow> graph_write) \<Rightarrow> ('n \<Rightarrow> bytes) \<Rightarrow> blake3 \<Rightarrow> 'n NodeWithChildren \<Rightarrow> NodeEntry" where
  "merkle_entry wr name B c = \<lparr>entry_kind = nwc_kind c, entry_hash = merkle wr name B c,
     entry_name = name (nwc_inner c)\<rparr>"

definition merkle_node ::
  "('n \<Rightarrow> graph_write) \<Rightarrow> ('n \<Rightarrow> bytes) \<Rightarrow> blake3 \<Rightarrow> 'n NodeWithChildren \<Rightarrow> 'n HashedNode" where
  "merkle_node wr name B c = \<lparr>hn_kind = nwc_kind c, hn_hash = merkle wr name B c,
     hn_inner = nwc_inner c\<rparr>"

fun hashed_tree ::
  "('n \<Rightarrow> graph_write) \<Rightarrow> ('n \<Rightarrow> bytes) \<Rightarrow> blake3 \<Rightarrow> 'n NodeWithChildren \<Rightarrow> 'n HashedNode wtree" where
  "hashed_tree wr name B (NodeWithChildren k x cs) =
     WTree (merkle_node wr name B (NodeWithChildren k x cs)) (map (hashed_tree wr name B) cs)"

fun node_tree :: "'n NodeWithChildren \<Rightarrow> 'n Node wtree" where
  "node_tree (NodeWithChildren k x cs) =
     WTree \<lparr>node_kind = k, node_inner = x\<rparr> (map node_tree cs)"

fun all_inner :: "('n \<Rightarrow> bool) \<Rightarrow> 'n NodeWithChildren \<Rightarrow> bool" where
  "all_inner ok (NodeWithChildren k x cs) \<longleftrightarrow> ok x \<and> list_all (all_inner ok) cs"

lemma merkle_eq:
  "merkle wr name B n
     = Hash_new B (node_bytes wr B (nwc_kind n) (nwc_inner n)
         (rev (map (merkle_entry wr name B) (nwc_children n))))"
  by (cases n) (simp add: merkle_entry_def [abs_def])

lemma node_tree_parts [simp]:
  "root_weight (node_tree n) = \<lparr>node_kind = nwc_kind n, node_inner = nwc_inner n\<rparr>"
  "wsubs (node_tree n) = map node_tree (nwc_children n)"
  by (cases n; simp)+

lemma hashed_tree_root [simp]: "root_weight (hashed_tree wr name B n) = merkle_node wr name B n"
  by (cases n) simp

lemma node_tree_inj: "node_tree a = node_tree b \<Longrightarrow> a = b"
proof (induction a arbitrary: b)
  case (NodeWithChildren k x cs)
  obtain k' x' cs' where b: "b = NodeWithChildren k' x' cs'" by (cases b)
  from NodeWithChildren.prems b have eq: "map node_tree cs = map node_tree cs'" by simp
  have "cs = cs'"
  proof (rule nth_equalityI)
    show len: "length cs = length cs'" using map_eq_imp_length_eq [OF eq] .
    fix m assume m: "m < length cs"
    with eq len have "node_tree (cs ! m) = node_tree (cs' ! m)" by (metis nth_map)
    with m show "cs ! m = cs' ! m" by (intro NodeWithChildren.IH) simp_all
  qed
  with NodeWithChildren.prems b show ?case by simp
qed

lemma node_tree_surj: "\<exists>n. t = node_tree n"
proof (induction t)
  case (WTree w ts)
  then obtain f where f: "\<And>t. t \<in> set ts \<Longrightarrow> t = node_tree (f t)" by metis
  have "WTree w ts = node_tree (NodeWithChildren (node_kind w) (node_inner w) (map f ts))"
    using f by (simp add: map_idI)
  then show ?case by blast
qed

section \<open>The first graph is the tree\<close>

lemma into_parts_eq:
  "into_parts n = (root_weight (node_tree n), nwc_children n)"
  by (simp add: into_parts_def)

lemma create_from_root_loop_list:
  assumes "\<And>c g stack'. c \<in> set cs \<Longrightarrow> create_from_root_loop P g r ((c, Some i) # stack')
      = create_from_root_loop P (grow P (Some i) (node_tree c) g) r stack'"
  shows "create_from_root_loop P g r (map (\<lambda>c. (c, Some i)) cs @ stack)
    = create_from_root_loop P (fold (grow P (Some i)) (map node_tree cs) g) r stack"
  using assms by (induction cs arbitrary: g) simp_all

lemma create_from_root_loop_child:
  "create_from_root_loop P g r ((n, Some p) # stack)
     = create_from_root_loop P (grow P (Some p) (node_tree n) g) r stack"
proof (induction n arbitrary: g p stack)
  case (NodeWithChildren k x cs)
  obtain g1 i where add: "pg_add_node P g \<lparr>node_kind = k, node_inner = x\<rparr> = (g1, i)" by fastforce
  have "create_from_root_loop P g r ((NodeWithChildren k x cs, Some p) # stack)
      = create_from_root_loop P (pg_add_edge P g1 p i) r (map (\<lambda>c. (c, Some i)) cs @ stack)"
    by (simp add: into_parts_def add)
  also have "\<dots> = create_from_root_loop P
      (fold (grow P (Some i)) (map node_tree cs) (pg_add_edge P g1 p i)) r stack"
    by (rule create_from_root_loop_list) (rule NodeWithChildren)
  finally show ?case by (simp add: add)
qed

lemma create_from_root_eq:
  "HashingTree_create_from_root P n =
     Inr \<lparr>ht_graph = grow P None (node_tree n) (pg_new P),
          ht_root_idx = snd (pg_add_node P (pg_new P) (root_weight (node_tree n))),
          ht_hashes = Map.empty\<rparr>"
proof (cases n)
  case (NodeWithChildren k x cs)
  obtain g1 i where add: "pg_add_node P (pg_new P) \<lparr>node_kind = k, node_inner = x\<rparr> = (g1, i)"
    by fastforce
  have "create_from_root_loop P (pg_new P) None [(n, None)]
      = create_from_root_loop P g1 (Some i) (map (\<lambda>c. (c, Some i)) cs @ [])"
    by (simp add: NodeWithChildren into_parts_def add)
  also have "\<dots> = Inr (fold (grow P (Some i)) (map node_tree cs) g1, Some i)"
    by (subst create_from_root_loop_list) (rule create_from_root_loop_child, simp)
  finally show ?thesis
    by (simp add: HashingTree_create_from_root_def NodeWithChildren add)
qed

section \<open>Every node gets its Merkle hash\<close>

lemma sits_nodes:
  assumes "sits P g i (node_tree n)"
  obtains js where "pg_neighbors P g i = rev js"
    "list_all2 (\<lambda>j c. sits P g j (node_tree c)) js (nwc_children n)"
proof -
  from sits_children [OF assms] obtain js where "pg_neighbors P g i = rev js"
    "list_all2 (sits P g) js (map node_tree (nwc_children n))" by auto
  with that show ?thesis by (simp add: list.rel_map)
qed

lemma compute_hash_merkle:
  assumes at: "sits P g i (node_tree n)" and ok: "is_ok (wr (nwc_inner n))"
    and below: "\<And>j c. j \<in> set (pg_neighbors P g i) \<Longrightarrow> sits P g j (node_tree c) \<Longrightarrow>
      hs j = Some (merkle wr name B c)"
  shows "compute_hash wr name B P g hs i = Inr (hs(i \<mapsto> merkle wr name B n))"
proof -
  obtain js where js: "pg_neighbors P g i = rev js"
      "list_all2 (\<lambda>j c. sits P g j (node_tree c)) js (nwc_children n)"
    by (rule sits_nodes [OF at])
  let ?node = "\<lparr>node_kind = nwc_kind n, node_inner = nwc_inner n\<rparr>"
  have entry: "child_entry name P g hs ?node j = Inr (merkle_entry wr name B c)"
    if "j \<in> set js" "sits P g j (node_tree c)" for j c
    using sits_weight [OF that(2)] below [OF _ that(2)] that(1) js(1)
    by (simp add: child_entry_def merkle_entry_def)
  have "list_all2 (\<lambda>j c. child_entry name P g hs ?node j = Inr (merkle_entry wr name B c))
      (rev js) (rev (nwc_children n))"
    using js(2) entry unfolding list_all2_rev
    by (auto simp: list_all2_conv_all_nth intro!: entry nth_mem)
  from mapM_all2 [OF this]
  have "mapM (child_entry name P g hs ?node) (pg_neighbors P g i)
      = Inr (rev (map (merkle_entry wr name B) (nwc_children n)))"
    by (simp add: js(1) rev_map)
  moreover from nwe_writable ok obtain b where
    "write_node_with_entries wr B \<lparr>nwe_kind = nwc_kind n, nwe_inner = nwc_inner n,
       nwe_entries = rev (map (merkle_entry wr name B) (nwc_children n))\<rparr> = Inr b"
    by (metis is_ok_simps(1) NodeWithEntries.select_convs(2) sumE)
  ultimately show ?thesis
    using sits_weight [OF at] by (simp add: compute_hash_def merkle_eq [of _ _ _ n] node_bytes_def)
qed

lemma compute_hashes_loop_merkle:
  assumes "\<And>i. i \<in> set zs \<Longrightarrow> \<exists>n. sits P g i (node_tree n) \<and> is_ok (wr (nwc_inner n))"
    and "\<And>k. k < length zs \<Longrightarrow> set (pg_neighbors P g (zs ! k)) \<subseteq> S \<union> set (take k zs)"
    and "\<And>i n. i \<in> S \<Longrightarrow> sits P g i (node_tree n) \<Longrightarrow> hs i = Some (merkle wr name B n)"
  shows "\<exists>hs'. compute_hashes_loop wr name B P g zs hs = Inr hs'
    \<and> (\<forall>i n. i \<in> S \<union> set zs \<longrightarrow> sits P g i (node_tree n) \<longrightarrow> hs' i = Some (merkle wr name B n))"
  using assms
proof (induction zs arbitrary: S hs)
  case (Cons z zs)
  from Cons.prems(1) obtain n where n: "sits P g z (node_tree n)" "is_ok (wr (nwc_inner n))"
    by (metis list.set_intros(1))
  have nb: "set (pg_neighbors P g z) \<subseteq> S" using Cons.prems(2) [of 0] by simp
  have step: "compute_hash wr name B P g hs z = Inr (hs(z \<mapsto> merkle wr name B n))"
    using n nb Cons.prems(3) by (intro compute_hash_merkle) auto
  have unique: "m = n" if "sits P g z (node_tree m)" for m
  proof -
    show ?thesis using sits_unique [OF that n(1)] by (rule node_tree_inj)
  qed
  have "\<exists>hs'. compute_hashes_loop wr name B P g zs (hs(z \<mapsto> merkle wr name B n)) = Inr hs'
    \<and> (\<forall>i n. i \<in> insert z S \<union> set zs \<longrightarrow> sits P g i (node_tree n) \<longrightarrow>
         hs' i = Some (merkle wr name B n))"
  proof (rule Cons.IH)
    show "set (pg_neighbors P g (zs ! k)) \<subseteq> insert z S \<union> set (take k zs)" if "k < length zs" for k
      using Cons.prems(2) [of "Suc k"] that by auto
  qed (use Cons.prems unique in auto)
  with step show ?case by auto
qed auto

lemma repr_sits_all:
  assumes "repr P g it (node_tree n)" and "all_inner ok n" and "i \<in> set (indices it)"
  shows "\<exists>m. sits P g i (node_tree m) \<and> ok (nwc_inner m)"
  using assms
proof (induction it arbitrary: n)
  case (ITree j its)
  obtain k x cs where n: "n = NodeWithChildren k x cs" by (cases n)
  show ?case
  proof (cases "i = j")
    case True
    then have "sits P g i (node_tree n)"
      using ITree.prems(1) by (auto simp: sits_def intro!: exI [of _ "ITree j its"])
    moreover have "ok (nwc_inner n)" using ITree.prems(2) n by simp
    ultimately show ?thesis by blast
  next
    case False
    with ITree.prems(3) obtain it' where "it' \<in> set its" "i \<in> set (indices it')" by auto
    then obtain m where m: "m < length its" "i \<in> set (indices (its ! m))"
      by (auto simp: in_set_conv_nth [of it' its])
    with ITree.prems n have "repr P g (its ! m) (node_tree (cs ! m))" "all_inner ok (cs ! m)"
      by (auto simp: list_all2_conv_all_nth list_all_length)
    with ITree.IH m show ?thesis by (meson nth_mem)
  qed
qed

lemma spans_closed:
  "spans P g it \<Longrightarrow> i \<in> set (indices it) \<Longrightarrow> set (pg_neighbors P g i) \<subseteq> set (indices it)"
proof (induction it)
  case (ITree j its)
  then show ?case
    by (cases "i = j") (auto simp: list_all_iff intro: bexI [OF _ idx_in_indices] | blast)+
qed

lemma compute_hashes_merkle:
  assumes "petgraph P" and "built P (ht_graph tree)"
    and it: "repr P (ht_graph tree) it (node_tree n)" "distinct (indices it)"
    and root: "ht_root_idx tree = idx it"
    and ok: "all_inner (\<lambda>x. is_ok (wr x)) n"
  obtains hs where "compute_hashes wr name B P tree = Inr (tree\<lparr>ht_hashes := hs\<rparr>)"
    and "\<And>i m. i \<in> set (indices it) \<Longrightarrow> sits P (ht_graph tree) i (node_tree m) \<Longrightarrow>
      hs i = Some (merkle wr name B m)"
proof -
  let ?g = "ht_graph tree" and ?xs = "pg_dfs_post_order P (ht_graph tree) (idx it)"
  from petgraph.dfs_post_order [OF assms(1,2) repr_spans [OF it(1)] it(2)]
  have xs: "set ?xs = set (indices it)" "post_order (pg_neighbors P ?g) ?xs" by auto
  have "\<exists>hs'. compute_hashes_loop wr name B P ?g ?xs (ht_hashes tree) = Inr hs'
    \<and> (\<forall>i n. i \<in> {} \<union> set ?xs \<longrightarrow> sits P ?g i (node_tree n) \<longrightarrow> hs' i = Some (merkle wr name B n))"
  proof (rule compute_hashes_loop_merkle)
    show "\<exists>m. sits P ?g i (node_tree m) \<and> is_ok (wr (nwc_inner m))" if "i \<in> set ?xs" for i
      using repr_sits_all [OF it(1) ok] that xs(1) by blast
    show "set (pg_neighbors P ?g (?xs ! k)) \<subseteq> {} \<union> set (take k ?xs)" if "k < length ?xs" for k
      using xs(2) that by (simp add: post_order_def)
  qed simp
  then obtain hs where "compute_hashes_loop wr name B P ?g ?xs (ht_hashes tree) = Inr hs"
    "\<forall>i m. i \<in> set (indices it) \<longrightarrow> sits P ?g i (node_tree m) \<longrightarrow> hs i = Some (merkle wr name B m)"
    using xs(1) by auto
  with that root show ?thesis by (simp add: compute_hashes_def)
qed

section \<open>The second graph is the tree with its hashes\<close>

lemma hashed_loop_list:
  assumes "length js = length cs"
    and "\<And>j c g stack'. (j, c) \<in> set (zip js cs) \<Longrightarrow>
      create_hashed_tree_loop name P Q tree g r ((merkle_node wr name B c, j, Some i) # stack')
      = create_hashed_tree_loop name P Q tree (grow Q (Some i) (hashed_tree wr name B c) g) r stack'"
  shows "create_hashed_tree_loop name P Q tree g r
      (map (\<lambda>(j, c). (merkle_node wr name B c, j, Some i)) (zip js cs) @ stack)
    = create_hashed_tree_loop name P Q tree
        (fold (grow Q (Some i)) (map (hashed_tree wr name B) cs) g) r stack"
  using assms by (induction js cs arbitrary: g rule: list_induct2) simp_all

lemma hashed_children:
  assumes "list_all2 (\<lambda>j c. sits P (ht_graph tree) j (node_tree c)) js cs"
    and "\<And>j c. (j, c) \<in> set (zip js cs) \<Longrightarrow> ht_hashes tree j = Some (merkle wr name B c)"
  shows "mapM (hashed_child name P tree i) (rev js)
    = Inr (rev (map (\<lambda>(j, c). (merkle_node wr name B c, j, Some i)) (zip js cs)))"
proof -
  have child: "hashed_child name P tree i j = Inr (merkle_node wr name B c, j, Some i)"
    if "(j, c) \<in> set (zip js cs)" "sits P (ht_graph tree) j (node_tree c)" for j c
    using sits_weight [OF that(2)] assms(2) [OF that(1)]
    by (simp add: hashed_child_def HashedNode_new_def merkle_node_def)
  have "list_all2 (\<lambda>j x. hashed_child name P tree i j
        = Inr ((\<lambda>(j, c). (merkle_node wr name B c, j, Some i)) x)) js (zip js cs)"
    using assms(1) by (auto simp: list_all2_conv_all_nth set_zip intro!: child)
  then have "list_all2 (\<lambda>j x. hashed_child name P tree i j
        = Inr ((\<lambda>(j, c). (merkle_node wr name B c, j, Some i)) x)) (rev js) (rev (zip js cs))"
    by simp
  from mapM_all2 [OF this] show ?thesis by (simp add: rev_map)
qed

text \<open>The common part of a step: the children of the copied node are pushed.\<close>

lemma hashed_loop_step:
  assumes at: "sits P (ht_graph tree) j (node_tree (NodeWithChildren k x cs))" and j: "j \<in> I"
    and closed: "\<And>j. j \<in> I \<Longrightarrow> set (pg_neighbors P (ht_graph tree) j) \<subseteq> I"
    and hs: "\<And>j m. j \<in> I \<Longrightarrow> sits P (ht_graph tree) j (node_tree m) \<Longrightarrow>
      ht_hashes tree j = Some (merkle wr name B m)"
    and add: "pg_add_node Q g (merkle_node wr name B (NodeWithChildren k x cs)) = (g1, i)"
    and go: "(case parent of
        Some p \<Rightarrow> Inr (pg_add_edge Q g1 p i, r)
      | None \<Rightarrow> (case r of None \<Rightarrow> Inr (g1, Some i) | Some _ \<Rightarrow> Inl MultipleRootNode)) = Inr (g2, r2)"
  obtains js where "length js = length cs" "set js \<subseteq> I"
    "list_all2 (\<lambda>j c. sits P (ht_graph tree) j (node_tree c)) js cs"
    "create_hashed_tree_loop name P Q tree g r
       ((merkle_node wr name B (NodeWithChildren k x cs), j, parent) # stack)
     = create_hashed_tree_loop name P Q tree g2 r2
         (map (\<lambda>(j, c). (merkle_node wr name B c, j, Some i)) (zip js cs) @ stack)"
proof -
  obtain js where js: "pg_neighbors P (ht_graph tree) j = rev js"
      "list_all2 (\<lambda>j c. sits P (ht_graph tree) j (node_tree c)) js cs"
    using sits_nodes [OF at] by auto
  have I: "set js \<subseteq> I" using closed [OF j] js(1) by simp
  have "ht_hashes tree j' = Some (merkle wr name B c)" if "(j', c) \<in> set (zip js cs)" for j' c
    using that js(2) I by (intro hs) (auto simp: list_all2_iff dest: set_zip_leftD)
  from hashed_children [OF js(2) this]
  have "create_hashed_tree_loop name P Q tree g r
       ((merkle_node wr name B (NodeWithChildren k x cs), j, parent) # stack)
     = create_hashed_tree_loop name P Q tree g2 r2
         (map (\<lambda>(j, c). (merkle_node wr name B c, j, Some i)) (zip js cs) @ stack)"
    by (subst create_hashed_tree_loop.simps) (simp add: add go js(1))
  with that I js(2) show ?thesis by (auto dest: list_all2_lengthD)
qed

lemma hashed_loop_child:
  assumes closed: "\<And>j. j \<in> I \<Longrightarrow> set (pg_neighbors P (ht_graph tree) j) \<subseteq> I"
    and hs: "\<And>j m. j \<in> I \<Longrightarrow> sits P (ht_graph tree) j (node_tree m) \<Longrightarrow>
      ht_hashes tree j = Some (merkle wr name B m)"
    and "sits P (ht_graph tree) j (node_tree n)" and "j \<in> I"
  shows "create_hashed_tree_loop name P Q tree g r ((merkle_node wr name B n, j, Some p) # stack)
    = create_hashed_tree_loop name P Q tree (grow Q (Some p) (hashed_tree wr name B n) g) r stack"
  using assms(3,4)
proof (induction n arbitrary: j g p stack)
  case (NodeWithChildren k x cs)
  let ?n = "NodeWithChildren k x cs"
  obtain g1 i where add: "pg_add_node Q g (merkle_node wr name B ?n) = (g1, i)" by fastforce
  obtain js where js: "length js = length cs" "set js \<subseteq> I"
    "list_all2 (\<lambda>j c. sits P (ht_graph tree) j (node_tree c)) js cs"
    "create_hashed_tree_loop name P Q tree g r ((merkle_node wr name B ?n, j, Some p) # stack)
     = create_hashed_tree_loop name P Q tree (pg_add_edge Q g1 p i) r
         (map (\<lambda>(j, c). (merkle_node wr name B c, j, Some i)) (zip js cs) @ stack)"
    by (rule hashed_loop_step [OF NodeWithChildren.prems closed hs add, where parent = "Some p"
          and r = r and stack = stack]) auto
  have "create_hashed_tree_loop name P Q tree (pg_add_edge Q g1 p i) r
         (map (\<lambda>(j, c). (merkle_node wr name B c, j, Some i)) (zip js cs) @ stack)
    = create_hashed_tree_loop name P Q tree
        (fold (grow Q (Some i)) (map (hashed_tree wr name B) cs) (pg_add_edge Q g1 p i)) r stack"
    using js(1)
  proof (rule hashed_loop_list)
    fix j' c g stack' assume "(j', c) \<in> set (zip js cs)"
    with js(2,3) show "create_hashed_tree_loop name P Q tree g r
        ((merkle_node wr name B c, j', Some i) # stack')
      = create_hashed_tree_loop name P Q tree (grow Q (Some i) (hashed_tree wr name B c) g) r stack'"
      by (intro NodeWithChildren.IH) (auto simp: list_all2_iff dest: set_zip_leftD set_zip_rightD)
  qed
  with js(4) show ?case by (simp add: add)
qed

lemma create_hashed_tree_merkle:
  assumes it: "repr P (ht_graph tree) it (node_tree n)" and root: "ht_root_idx tree = idx it"
    and hs: "\<And>i m. i \<in> set (indices it) \<Longrightarrow> sits P (ht_graph tree) i (node_tree m) \<Longrightarrow>
      ht_hashes tree i = Some (merkle wr name B m)"
  shows "create_hashed_tree name P Q tree = Some (Inr
    \<lparr>ot_graph = grow Q None (hashed_tree wr name B n) (pg_new Q),
     ot_root_idx = snd (pg_add_node Q (pg_new Q) (merkle_node wr name B n))\<rparr>)"
proof -
  obtain k x cs where n: "n = NodeWithChildren k x cs" by (cases n)
  let ?g = "ht_graph tree" and ?I = "set (indices it)"
  note closed = spans_closed [OF repr_spans [OF it]]
  have at: "sits P ?g (idx it) (node_tree n)" using it by (auto simp: sits_def)
  obtain g1 i where add: "pg_add_node Q (pg_new Q) (merkle_node wr name B n) = (g1, i)" by fastforce
  obtain js where js: "length js = length cs" "set js \<subseteq> ?I"
    "list_all2 (\<lambda>j c. sits P ?g j (node_tree c)) js cs"
    "create_hashed_tree_loop name P Q tree (pg_new Q) None [(merkle_node wr name B n, idx it, None)]
     = create_hashed_tree_loop name P Q tree g1 (Some i)
         (map (\<lambda>(j, c). (merkle_node wr name B c, j, Some i)) (zip js cs) @ [])"
    unfolding n
    by (rule hashed_loop_step [OF at [unfolded n] idx_in_indices closed hs add [unfolded n],
          where parent = None and r = None and stack = "[]"]) auto
  have "create_hashed_tree_loop name P Q tree g1 (Some i)
         (map (\<lambda>(j, c). (merkle_node wr name B c, j, Some i)) (zip js cs) @ [])
    = create_hashed_tree_loop name P Q tree
        (fold (grow Q (Some i)) (map (hashed_tree wr name B) cs) g1) (Some i) []"
    using js(1)
  proof (rule hashed_loop_list)
    fix j' c g stack' assume "(j', c) \<in> set (zip js cs)"
    with js(2,3) show "create_hashed_tree_loop name P Q tree g (Some i)
        ((merkle_node wr name B c, j', Some i) # stack')
      = create_hashed_tree_loop name P Q tree (grow Q (Some i) (hashed_tree wr name B c) g) (Some i)
          stack'"
      by (intro hashed_loop_child [OF closed hs]) (auto simp: list_all2_iff dest: set_zip_leftD)
  qed
  also have "\<dots> = Some (Inr (grow Q None (hashed_tree wr name B n) (pg_new Q), Some i))"
    by (subst create_hashed_tree_loop.simps) (simp add: n add [unfolded n])
  finally show ?thesis
    using sits_weight [OF at] hs [OF idx_in_indices at] js(4) add
    by (simp add: create_hashed_tree_def root HashedNode_new_def merkle_node_def)
qed

text \<open>The whole of \<open>ObjectTree::create_from_root\<close>.\<close>

theorem create_from_root_merkle:
  assumes "petgraph P" and "petgraph Q" and "all_inner (\<lambda>x. is_ok (wr x)) n"
  shows "\<exists>tree. ObjectTree_create_from_root wr name B P Q n = Some (Inr tree)
    \<and> built Q (ot_graph tree)
    \<and> represents Q (ot_graph tree) (ot_root_idx tree) (hashed_tree wr name B n)"
proof -
  let ?g = "grow P None (node_tree n) (pg_new P)"
    and ?r = "snd (pg_add_node P (pg_new P) (root_weight (node_tree n)))"
  let ?t = "\<lparr>ht_graph = ?g, ht_root_idx = ?r, ht_hashes = Map.empty\<rparr>"
  note new = petgraph.grow_new [OF assms(1), of "node_tree n"]
  from new(2) obtain it where it: "idx it = ?r" "distinct (indices it)" "repr P ?g it (node_tree n)"
    by (auto simp: represents_def)
  obtain hs where hs: "compute_hashes wr name B P ?t = Inr (?t\<lparr>ht_hashes := hs\<rparr>)"
    "\<And>i m. i \<in> set (indices it) \<Longrightarrow> sits P ?g i (node_tree m) \<Longrightarrow> hs i = Some (merkle wr name B m)"
    using it new(1) by (auto intro: compute_hashes_merkle [OF assms(1), of ?t it n wr name B] simp: assms(3))
  have "create_hashed_tree name P Q (?t\<lparr>ht_hashes := hs\<rparr>) = Some (Inr
    \<lparr>ot_graph = grow Q None (hashed_tree wr name B n) (pg_new Q),
     ot_root_idx = snd (pg_add_node Q (pg_new Q) (merkle_node wr name B n))\<rparr>)"
    using it hs(2) by (intro create_hashed_tree_merkle) auto
  with hs(1) petgraph.grow_new [OF assms(2), of "hashed_tree wr name B n"] show ?thesis
    by (simp add: ObjectTree_create_from_root_def create_from_root_eq hash_tree_def)
qed

end
