(* ===== verification/Tar_Bundle.thy ===== *)
theory Tar_Bundle
  imports Hashing_Tree "HOL-Library.Multiset"
begin

text \<open>
  Writing an object tree to a tar archive and reading it back, \<open>lib/object-tree/src/tar.rs\<close>,
  \<open>tar/write.rs\<close> and \<open>tar/read.rs\<close>. The archive format (\<open>tar\<close> crate) is a record of parameters with
  \<open>tar_laws\<close>: entries with the paths that the writer makes, \<open>refs/root\<close> and \<open>objects/\<close> with a hash in
  hexadecimal digits, are accepted, and reading the finished archive gives them back in order. The main result, proved for every node type in the locale \<open>node_codec\<close>: the
  archive of a tree is read as the same tree, with the same hashes, its inner nodes in normal form and
  siblings in the order of their names.
\<close>

section \<open>The archive format\<close>

record ('b, 'a) tar_crate =
  tar_new :: 'b
  tar_append :: "'b \<Rightarrow> bytes \<Rightarrow> bytes \<Rightarrow> 'b option"
  tar_finish :: "'b \<Rightarrow> 'a option"
  tar_entries :: "'a \<Rightarrow> (bytes \<times> bytes) list option"

fun tar_appends :: "('b, 'a) tar_crate \<Rightarrow> 'b \<Rightarrow> (bytes \<times> bytes) list \<Rightarrow> 'b option" where
  "tar_appends T b [] = Some b"
| "tar_appends T b ((p, d) # es) =
     (case tar_append T b p d of None \<Rightarrow> None | Some b' \<Rightarrow> tar_appends T b' es)"

text \<open>The crate normalises paths and refuses some; what it does with other paths than these is left open.\<close>

definition tar_path_ok :: "bytes \<Rightarrow> bool" where
  "tar_path_ok p \<longleftrightarrow> p = ''refs/root''
     \<or> take 8 p = ''objects/'' \<and> length p = 72 \<and> list_all hex_digit (drop 8 p)"

definition tar_laws :: "('b, 'a) tar_crate \<Rightarrow> bool" where
  "tar_laws T \<longleftrightarrow> (\<forall>es. list_all (\<lambda>(p, d). tar_path_ok p) es \<longrightarrow>
     (\<exists>b a. tar_appends T (tar_new T) es = Some b \<and> tar_finish T b = Some a
            \<and> tar_entries T a = Some es))"

section \<open>Paths\<close>

text \<open>\<open>Path::join\<close> on Unix: an absolute path replaces the base.\<close>

definition path_join :: "bytes \<Rightarrow> bytes \<Rightarrow> bytes" where
  "path_join a b = (if b \<noteq> [] \<and> hd b = CHR ''/'' then b else a @ CHR ''/'' # b)"

definition object_path :: "blake3 \<Rightarrow> Hash \<Rightarrow> bytes" where
  "object_path B hash = path_join ''objects'' (Hash_to_string B hash)"

definition ref_path :: "bytes \<Rightarrow> bytes" where
  "ref_path name = path_join ''refs'' name"

section \<open>Writing\<close>

datatype TarWriterError = Graph GraphError | Io | TryFromInt

text \<open>Setting the path and appending may fail; the conversion of a length to 64 bits cannot, on
  targets whose lengths have at most 64 bits.\<close>

definition write_tar_entry ::
  "('b, 'a) tar_crate \<Rightarrow> 'b \<Rightarrow> bytes \<Rightarrow> bytes \<Rightarrow> (TarWriterError, 'b) result" where
  "write_tar_entry T tar_builder path entry = ok_or Io (tar_append T tar_builder path entry)"

definition tar_child_entry ::
  "('n \<Rightarrow> bytes) \<Rightarrow> ('g, 'n HashedNode) petgraph \<Rightarrow> 'g \<Rightarrow> nat \<Rightarrow> (GraphError, NodeEntry) result" where
  "tar_child_entry name Q graph child_idx =
     rbind (ok_or (NodeWeightNotFound child_idx ''tar writer: could not find child node for index'')
              (pg_node_weight Q graph child_idx))
       (\<lambda>child_node. Inr (node_entry_of name child_node))"

definition write_tar_node ::
  "('n \<Rightarrow> graph_write) \<Rightarrow> ('n \<Rightarrow> bytes) \<Rightarrow> blake3 \<Rightarrow> ('g, 'n HashedNode) petgraph \<Rightarrow>
   ('b, 'a) tar_crate \<Rightarrow> 'g \<Rightarrow> nat \<Rightarrow> 'b \<Rightarrow> (TarWriterError, 'b) result" where
  "write_tar_node wr name B Q T graph node_idx tar_builder =
     rbind (map_err Graph (ok_or (NodeWeightNotFound node_idx
              ''tar writer: could not find next node for index for dfspo'')
              (pg_node_weight Q graph node_idx))) (\<lambda>node.
     rbind (map_err Graph (mapM (tar_child_entry name Q graph) (pg_neighbors Q graph node_idx)))
       (\<lambda>entries.
     let tar_entry = HashedNodeWithEntries_new node entries in
     rbind (map_err Graph (write_hashed_node_with_entries wr B tar_entry)) (\<lambda>bytes.
       write_tar_entry T tar_builder (object_path B (hnwe_hash tar_entry)) bytes)))"

fun write_tar_nodes ::
  "('n \<Rightarrow> graph_write) \<Rightarrow> ('n \<Rightarrow> bytes) \<Rightarrow> blake3 \<Rightarrow> ('g, 'n HashedNode) petgraph \<Rightarrow>
   ('b, 'a) tar_crate \<Rightarrow> 'g \<Rightarrow> nat list \<Rightarrow> 'b \<Rightarrow> (TarWriterError, 'b) result" where
  "write_tar_nodes wr name B Q T graph [] tar_builder = Inr tar_builder"
| "write_tar_nodes wr name B Q T graph (node_idx # dfspo) tar_builder =
     rbind (write_tar_node wr name B Q T graph node_idx tar_builder)
       (write_tar_nodes wr name B Q T graph dfspo)"

definition TarWriter_new ::
  "('n \<Rightarrow> graph_write) \<Rightarrow> ('n \<Rightarrow> bytes) \<Rightarrow> blake3 \<Rightarrow> ('g, 'n HashedNode) petgraph \<Rightarrow>
   ('b, 'a) tar_crate \<Rightarrow> 'g ObjectTree \<Rightarrow> (TarWriterError, 'a) result" where
  "TarWriter_new wr name B Q T tree =
     (let graph = ot_graph tree; root_idx = ot_root_idx tree in
      rbind (write_tar_nodes wr name B Q T graph (pg_dfs_post_order Q graph root_idx) (tar_new T))
        (\<lambda>tar_builder.
      rbind (map_err Graph (ok_or (NodeWeightNotFound root_idx
               ''tar writer: could not find root node for index'')
               (pg_node_weight Q graph root_idx))) (\<lambda>root_node.
      rbind (write_tar_entry T tar_builder (ref_path ''root'') (Hash_to_string B (hn_hash root_node)))
        (\<lambda>tar_builder'. ok_or Io (tar_finish T tar_builder')))))"

section \<open>Reading\<close>

datatype TarReadError =
    HashParse parse_error
  | TarIoRead
  | NodeNotFound bytes
  | NodeWithEntriesParse GraphError
  | ReadTree GraphError
  | RootNodeError
  | StringParse

text \<open>The map of the archive, a later entry replacing an earlier one with its path.\<close>

definition tar_map :: "(bytes \<times> bytes) list \<Rightarrow> bytes \<rightharpoonup> bytes" where
  "tar_map es = fold (\<lambda>(p, d) m. m(p \<mapsto> d)) es Map.empty"

definition get_node ::
  "'n option graph_reader \<Rightarrow> blake3 \<Rightarrow> (bytes \<rightharpoonup> bytes) \<Rightarrow> Hash \<Rightarrow>
   (TarReadError, 'n HashedNodeWithEntries option) result" where
  "get_node rd B tar_data hash =
     rbind (ok_or (NodeNotFound (object_path B hash)) (tar_data (object_path B hash))) (\<lambda>buf.
     rbind (map_err NodeWithEntriesParse (node_with_entries_from_bytes rd B buf)) (\<lambda>node.
       Inr (map_option (\<lambda>nwe. from_node_with_entries_and_hash nwe hash) node)))"

definition get_root_ref :: "blake3 \<Rightarrow> (bytes \<rightharpoonup> bytes) \<Rightarrow> (TarReadError, Hash) result" where
  "get_root_ref B tar_data =
     rbind (ok_or (NodeNotFound (ref_path ''root'')) (tar_data (ref_path ''root''))) (\<lambda>buf.
       if utf8_ok buf then map_err HashParse (Hash_from_str B buf) else Inl StringParse)"

text \<open>The entries of a node are pushed last first, so the first one is on top.\<close>

partial_function (option) read_from_tar_loop ::
  "'n option graph_reader \<Rightarrow> blake3 \<Rightarrow> ('g, 'n HashedNode) petgraph \<Rightarrow> (bytes \<rightharpoonup> bytes) \<Rightarrow>
   'g \<Rightarrow> nat option \<Rightarrow> ('n HashedNodeWithEntries \<times> nat option) list \<Rightarrow>
   (TarReadError, 'g \<times> nat option) result option" where
  "read_from_tar_loop rd B R tar_data graph root_idx stack =
     (case stack of
        [] \<Rightarrow> Some (Inr (graph, root_idx))
      | (node_with_entries, parent_idx) # stack1 \<Rightarrow>
          (let (node, child_entries) = into_hashed_node node_with_entries;
               (graph1, node_idx) = pg_add_node R graph node
           in case (case parent_idx of
                      Some p \<Rightarrow> Inr (pg_add_edge R graph1 p node_idx, root_idx)
                    | None \<Rightarrow> (case root_idx of None \<Rightarrow> Inr (graph1, Some node_idx)
                              | Some _ \<Rightarrow> Inl (ReadTree MultipleRootNode))) of
                Inl e \<Rightarrow> Some (Inl e)
              | Inr (graph2, root2) \<Rightarrow>
                  (case mapM (\<lambda>e. get_node rd B tar_data (entry_hash e)) (rev child_entries) of
                     Inl e \<Rightarrow> Some (Inl e)
                   | Inr found \<Rightarrow>
                       read_from_tar_loop rd B R tar_data graph2 root2
                         (rev (map (\<lambda>n. (n, Some node_idx)) (List.map_filter (\<lambda>n. n) found))
                            @ stack1))))"

definition read_from_tar ::
  "'n option graph_reader \<Rightarrow> blake3 \<Rightarrow> ('g, 'n HashedNode) petgraph \<Rightarrow> ('b, 'a) tar_crate \<Rightarrow> 'a \<Rightarrow>
   (TarReadError, 'g ObjectTree) result option" where
  "read_from_tar rd B R T archive =
     (case tar_entries T archive of
        None \<Rightarrow> Some (Inl TarIoRead)
      | Some es \<Rightarrow>
          (let tar_data = tar_map es in
           case rbind (get_root_ref B tar_data) (\<lambda>root_hash.
                rbind (get_node rd B tar_data root_hash) (\<lambda>root_node. ok_or RootNodeError root_node)) of
             Inl e \<Rightarrow> Some (Inl e)
           | Inr root_node \<Rightarrow>
               map_option (\<lambda>r. rbind r (\<lambda>(graph, root_idx).
                   case root_idx of
                     Some r \<Rightarrow> Inr \<lparr>ot_graph = graph, ot_root_idx = r\<rparr>
                   | None \<Rightarrow> Inl (ReadTree MissingRootNode)))
                 (read_from_tar_loop rd B R tar_data (pg_new R) None [(root_node, None)])))"

section \<open>What an archive holds\<close>

fun subtrees :: "'n NodeWithChildren \<Rightarrow> 'n NodeWithChildren list" where
  "subtrees (NodeWithChildren k x cs) = NodeWithChildren k x cs # concat (map subtrees cs)"

definition merkle_bytes ::
  "('n \<Rightarrow> graph_write) \<Rightarrow> ('n \<Rightarrow> bytes) \<Rightarrow> blake3 \<Rightarrow> 'n NodeWithChildren \<Rightarrow> bytes" where
  "merkle_bytes wr name B n = node_bytes wr B (nwc_kind n) (nwc_inner n)
     (rev (map (merkle_entry wr name B) (nwc_children n)))"

text \<open>No two different objects of this tree have the same hash.\<close>

definition collision_free ::
  "('n \<Rightarrow> graph_write) \<Rightarrow> ('n \<Rightarrow> bytes) \<Rightarrow> blake3 \<Rightarrow> 'n NodeWithChildren \<Rightarrow> bool" where
  "collision_free wr name B n \<longleftrightarrow>
     inj_on (Hash_new B) (merkle_bytes wr name B ` set (subtrees n))"

lemma merkle_hash: "merkle wr name B n = Hash_new B (merkle_bytes wr name B n)"
  by (simp add: merkle_eq [of wr name B n] merkle_bytes_def)

lemma subtrees_self [simp]: "n \<in> set (subtrees n)"
  by (cases n) simp

lemma subtrees_child: "m \<in> set (subtrees n) \<Longrightarrow> c \<in> set (nwc_children m) \<Longrightarrow> c \<in> set (subtrees n)"
proof (induction n)
  case (NodeWithChildren k x cs)
  then show ?case
    by (cases "m = NodeWithChildren k x cs") (auto intro: bexI [of _ c], blast?)
qed

lemma all_inner_subtree: "all_inner ok n \<Longrightarrow> m \<in> set (subtrees n) \<Longrightarrow> ok (nwc_inner m)"
  by (induction n) (auto simp: list_all_iff)

lemma tar_map_lookup:
  assumes "(p, d) \<in> set es" and "\<And>d'. (p, d') \<in> set es \<Longrightarrow> d' = d"
  shows "tar_map es p = Some d"
proof -
  have "fold (\<lambda>(p, d) m. m(p \<mapsto> d)) es m p = Some d"
    if "m p = Some d \<or> (p, d) \<in> set es" "\<And>d'. (p, d') \<in> set es \<Longrightarrow> d' = d" for m
    using that
  proof (induction es arbitrary: m)
    case (Cons e es)
    obtain p' d' where e: "e = (p', d')" by fastforce
    have "fold (\<lambda>(p, d) m. m(p \<mapsto> d)) es (m(p' \<mapsto> d')) p = Some d"
    proof (rule Cons.IH)
      show "(m(p' \<mapsto> d')) p = Some d \<or> (p, d) \<in> set es"
        using Cons.prems e by (cases "p' = p") auto
    qed (use Cons.prems in auto)
    then show ?case by (simp add: e del: fun_upd_apply)
  qed simp
  from this [of Map.empty] assms show ?thesis unfolding tar_map_def by blast
qed

lemma object_path_eq:
  assumes "blake3_laws B" and "hash_ok h"
  shows "object_path B h = ''objects/'' @ Hash_to_string B h"
proof -
  have "hd s \<noteq> CHR ''/''" if "list_all hex_digit s" "s \<noteq> []" for s
    using that by (cases s) (auto simp: hex_digit_def)
  then show ?thesis
    using blake3_lawsD(3) [OF assms] by (auto simp: object_path_def path_join_def)
qed

lemma object_path_inj:
  assumes "blake3_laws B" and "hash_ok h" and "hash_ok h'" and "object_path B h = object_path B h'"
  shows "h = h'"
proof -
  have "Hash_to_string B h = Hash_to_string B h'"
    using assms(4) unfolding object_path_eq [OF assms(1,2)] object_path_eq [OF assms(1,3)] by simp
  with blake3_lawsD(2) [OF assms(1,2)] blake3_lawsD(2) [OF assms(1,3)]
  show ?thesis by (metis sum.inject(2))
qed

lemma object_path_ok:
  assumes "blake3_laws B" and "hash_ok h"
  shows "tar_path_ok (object_path B h)" "object_path B h \<noteq> ref_path ''root''"
proof -
  have "length (Hash_to_string B h) = 64" "list_all hex_digit (Hash_to_string B h)"
    using assms blake3_lawsD(3) [OF assms] unfolding blake3_laws_def Hash_to_string_def by blast+
  then show "tar_path_ok (object_path B h)" "object_path B h \<noteq> ref_path ''root''"
    unfolding object_path_eq [OF assms] by (simp_all add: tar_path_ok_def ref_path_def path_join_def)
qed

lemma ref_path_ok: "tar_path_ok (ref_path ''root'')"
  by (simp add: tar_path_ok_def ref_path_def path_join_def)

section \<open>The archive of a tree\<close>

lemma hashed_tree_parts:
  "wsubs (hashed_tree wr name B n) = map (hashed_tree wr name B) (nwc_children n)"
  by (cases n) simp

lemma hashed_tree_inj:
  assumes "hashed_tree wr name B a = hashed_tree wr name B b"
  shows "a = b"
proof -
  have "map_wtree (\<lambda>h. \<lparr>node_kind = hn_kind h, node_inner = hn_inner h\<rparr>) (hashed_tree wr name B n)
      = node_tree n" for n
    by (induction n) (simp add: merkle_node_def)
  with assms show ?thesis by (metis node_tree_inj)
qed

lemma hashed_sits_subtree:
  assumes "repr Q g it (hashed_tree wr name B n)" and "i \<in> set (indices it)"
  shows "\<exists>m \<in> set (subtrees n). sits Q g i (hashed_tree wr name B m)"
  using assms
proof (induction it arbitrary: n)
  case (ITree j its)
  obtain k x cs where n: "n = NodeWithChildren k x cs" by (cases n)
  show ?case
  proof (cases "i = j")
    case True
    with ITree.prems(1) have "sits Q g i (hashed_tree wr name B n)"
      by (auto simp: sits_def intro!: exI [of _ "ITree j its"])
    then show ?thesis by (blast intro: subtrees_self)
  next
    case False
    with ITree.prems(2) obtain it' where "it' \<in> set its" "i \<in> set (indices it')" by auto
    then obtain l where l: "l < length its" "i \<in> set (indices (its ! l))"
      by (auto simp: in_set_conv_nth [of it' its])
    with ITree.prems(1) n have "repr Q g (its ! l) (hashed_tree wr name B (cs ! l))" "cs ! l \<in> set cs"
      by (auto simp: list_all2_conv_all_nth)
    with ITree.IH [of "its ! l" "cs ! l"] l n show ?thesis by auto
  qed
qed

lemma subtree_hashed_sits:
  assumes "repr Q g it (hashed_tree wr name B n)" and "m \<in> set (subtrees n)"
  shows "\<exists>i \<in> set (indices it). sits Q g i (hashed_tree wr name B m)"
  using assms
proof (induction it arbitrary: n)
  case (ITree j its)
  obtain k x cs where n: "n = NodeWithChildren k x cs" by (cases n)
  show ?case
  proof (cases "m = n")
    case True
    with ITree.prems(1) have "sits Q g j (hashed_tree wr name B m)"
      by (auto simp: sits_def intro!: exI [of _ "ITree j its"])
    then show ?thesis by simp
  next
    case False
    with ITree.prems(2) n obtain c where "c \<in> set cs" "m \<in> set (subtrees c)" by auto
    then obtain l where l: "l < length cs" "m \<in> set (subtrees (cs ! l))"
      by (auto simp: in_set_conv_nth [of c cs])
    with ITree.prems(1) n have "repr Q g (its ! l) (hashed_tree wr name B (cs ! l))"
      "its ! l \<in> set its" by (auto simp: list_all2_conv_all_nth)
    with ITree.IH [of "its ! l" "cs ! l"] l show ?thesis by auto
  qed
qed

definition tar_object ::
  "('n \<Rightarrow> graph_write) \<Rightarrow> ('n \<Rightarrow> bytes) \<Rightarrow> blake3 \<Rightarrow> 'n NodeWithChildren \<Rightarrow> bytes \<times> bytes" where
  "tar_object wr name B m = (object_path B (merkle wr name B m), merkle_bytes wr name B m)"

lemma write_tar_node_object:
  assumes at: "sits Q g i (hashed_tree wr name B m)" and ok: "is_ok (wr (nwc_inner m))"
  shows "write_tar_node wr name B Q T g i b
    = (case tar_object wr name B m of (p, d) \<Rightarrow> ok_or Io (tar_append T b p d))"
proof -
  obtain js where js: "pg_neighbors Q g i = rev js"
      "list_all2 (\<lambda>j c. sits Q g j (hashed_tree wr name B c)) js (nwc_children m)"
    using sits_children [OF at] by (auto simp: hashed_tree_parts list.rel_map)
  have "tar_child_entry name Q g j = Inr (merkle_entry wr name B c)"
    if "sits Q g j (hashed_tree wr name B c)" for j c
    using sits_weight [OF that]
    by (simp add: tar_child_entry_def node_entry_of_def merkle_entry_def merkle_node_def)
  then have "list_all2 (\<lambda>j c. tar_child_entry name Q g j = Inr (merkle_entry wr name B c))
      (rev js) (rev (nwc_children m))"
    using js(2) unfolding list_all2_rev by (auto simp: list_all2_conv_all_nth)
  from mapM_all2 [OF this]
  have "mapM (tar_child_entry name Q g) (pg_neighbors Q g i)
      = Inr (rev (map (merkle_entry wr name B) (nwc_children m)))"
    by (simp add: js(1) rev_map)
  moreover from nwe_writable ok obtain bs where
    "write_node_with_entries wr B \<lparr>nwe_kind = nwc_kind m, nwe_inner = nwc_inner m,
       nwe_entries = rev (map (merkle_entry wr name B) (nwc_children m))\<rparr> = Inr bs"
    by (metis is_ok_simps(1) NodeWithEntries.select_convs(2) sumE)
  ultimately show ?thesis
    using sits_weight [OF at]
    by (simp add: write_tar_node_def write_tar_entry_def tar_object_def merkle_bytes_def
        node_bytes_def merkle_node_def HashedNodeWithEntries_new_def
        write_hashed_node_with_entries_def as_node_with_entries_ref_def)
qed

lemma write_tar_nodes_objects:
  assumes "list_all2 (\<lambda>i m. sits Q g i (hashed_tree wr name B m) \<and> is_ok (wr (nwc_inner m))) is ms"
  shows "write_tar_nodes wr name B Q T g is b
    = ok_or Io (tar_appends T b (map (tar_object wr name B) ms))"
  using assms
proof (induction "is" ms arbitrary: b rule: list_all2_induct)
  case (Cons i "is" m ms)
  obtain p d where pd: "tar_object wr name B m = (p, d)" by fastforce
  with write_tar_node_object [of Q g i wr name B m T b] Cons show ?case
    by (cases "tar_append T b p d") simp_all
qed simp

lemma tar_appends_append:
  "tar_appends T b (xs @ ys) = (case tar_appends T b xs of None \<Rightarrow> None | Some b' \<Rightarrow> tar_appends T b' ys)"
  by (induction xs arbitrary: b) (auto split: option.splits)

text \<open>The archive holds one object for every node and the reference to the root.\<close>

lemma TarWriter_new_entries:
  assumes "petgraph Q" and "built Q (ot_graph tree)" and B: "blake3_laws B" and T: "tar_laws T"
    and rep: "represents Q (ot_graph tree) (ot_root_idx tree) (hashed_tree wr name B n)"
    and ok: "all_inner (\<lambda>x. is_ok (wr x)) n"
  obtains a ms where "TarWriter_new wr name B Q T tree = Inr a" "set ms = set (subtrees n)"
    "tar_entries T a = Some (map (tar_object wr name B) ms
       @ [(ref_path ''root'', Hash_to_string B (merkle wr name B n))])"
proof -
  let ?g = "ot_graph tree"
  from rep obtain it where it: "idx it = ot_root_idx tree" "distinct (indices it)"
      "repr Q ?g it (hashed_tree wr name B n)" by (auto simp: represents_def)
  let ?xs = "pg_dfs_post_order Q ?g (ot_root_idx tree)"
  from petgraph.dfs_post_order [OF assms(1,2) repr_spans [OF it(3)] it(2)]
  have xs: "set ?xs = set (indices it)" by (simp add: it(1))
  have "\<forall>i \<in> set ?xs. \<exists>m. m \<in> set (subtrees n) \<and> sits Q ?g i (hashed_tree wr name B m)"
    using hashed_sits_subtree [OF it(3)] xs by blast
  then obtain f where f: "\<And>i. i \<in> set ?xs \<Longrightarrow>
      f i \<in> set (subtrees n) \<and> sits Q ?g i (hashed_tree wr name B (f i))" by metis
  let ?ms = "map f ?xs"
  have all: "list_all2 (\<lambda>i m. sits Q ?g i (hashed_tree wr name B m) \<and> is_ok (wr (nwc_inner m)))
      ?xs ?ms"
    using f all_inner_subtree [OF ok] by (auto simp: list_all2_conv_all_nth)
  have ms: "set ?ms = set (subtrees n)"
  proof
    show "set ?ms \<subseteq> set (subtrees n)" using f by auto
    show "set (subtrees n) \<subseteq> set ?ms"
    proof
      fix m assume "m \<in> set (subtrees n)"
      from subtree_hashed_sits [OF it(3) this] obtain i where i: "i \<in> set ?xs"
        "sits Q ?g i (hashed_tree wr name B m)" using xs by blast
      with f have "m = f i" by (blast intro: hashed_tree_inj sits_unique)
      with i(1) show "m \<in> set ?ms" by simp
    qed
  qed
  let ?es = "map (tar_object wr name B) ?ms
    @ [(ref_path ''root'', Hash_to_string B (merkle wr name B n))]"
  have "list_all (\<lambda>(p, d). tar_path_ok p) ?es"
    by (auto simp: list_all_iff tar_object_def merkle_hash ref_path_ok
        intro!: object_path_ok(1) [OF B] blake3_lawsD(1) [OF B])
  with T obtain b a where a: "tar_appends T (tar_new T) ?es = Some b" "tar_finish T b = Some a"
    "tar_entries T a = Some ?es" unfolding tar_laws_def by blast
  from a(1) obtain b1 where b1: "tar_appends T (tar_new T) (map (tar_object wr name B) ?ms) = Some b1"
    "tar_append T b1 (ref_path ''root'') (Hash_to_string B (merkle wr name B n)) = Some b"
    by (auto simp: tar_appends_append split: option.splits)
  have "pg_node_weight Q ?g (ot_root_idx tree) = Some (merkle_node wr name B n)"
    using sits_weight [OF represents_sits [OF rep]] by simp
  with write_tar_nodes_objects [OF all, of T "tar_new T"] b1 a(2)
  have "TarWriter_new wr name B Q T tree = Inr a"
    by (simp add: TarWriter_new_def write_tar_entry_def merkle_node_def del: map_map)
  with that ms a(3) show ?thesis by blast
qed

section \<open>Reading the archive of a tree\<close>

text \<open>What a tree must satisfy to be stored, and what is read: leaves have no children, the names of
  children fit into an entry line, and inner nodes are valid.\<close>

fun storable :: "('n \<Rightarrow> bool) \<Rightarrow> ('n \<Rightarrow> bytes) \<Rightarrow> 'n NodeWithChildren \<Rightarrow> bool" where
  "storable valid name (NodeWithChildren k x cs) \<longleftrightarrow> valid x \<and> (k = Leaf \<longrightarrow> cs = [])
     \<and> list_all (\<lambda>c. entry_name_ok (name (nwc_inner c)) \<and> storable valid name c) cs"

fun stored_tree ::
  "('n \<Rightarrow> graph_write) \<Rightarrow> ('n \<Rightarrow> bytes) \<Rightarrow> ('n \<Rightarrow> 'n) \<Rightarrow> blake3 \<Rightarrow> 'n NodeWithChildren \<Rightarrow>
   'n HashedNode wtree" where
  "stored_tree wr name norm B (NodeWithChildren k x cs) =
     WTree \<lparr>hn_kind = k, hn_hash = merkle wr name B (NodeWithChildren k x cs), hn_inner = norm x\<rparr>
       (sort_key (\<lambda>t. name (hn_inner (root_weight t))) (rev (map (stored_tree wr name norm B) cs)))"

definition stored_node ::
  "('n \<Rightarrow> graph_write) \<Rightarrow> ('n \<Rightarrow> bytes) \<Rightarrow> ('n \<Rightarrow> 'n) \<Rightarrow> blake3 \<Rightarrow> 'n NodeWithChildren \<Rightarrow>
   'n HashedNodeWithEntries" where
  "stored_node wr name norm B m =
     \<lparr>hnwe_kind = nwc_kind m, hnwe_hash = merkle wr name B m, hnwe_inner = norm (nwc_inner m),
      hnwe_entries = sort_key entry_name (rev (map (merkle_entry wr name B) (nwc_children m)))\<rparr>"

definition by_name :: "('n \<Rightarrow> bytes) \<Rightarrow> 'n NodeWithChildren list \<Rightarrow> 'n NodeWithChildren list" where
  "by_name name cs = sort_key (\<lambda>c. name (nwc_inner c)) (rev cs)"

lemma insort_key_map: "insort_key f (g x) (map g xs) = map g (insort_key (\<lambda>x. f (g x)) x xs)"
  by (induction xs) simp_all

lemma sort_key_map: "sort_key f (map g xs) = map g (sort_key (\<lambda>x. f (g x)) xs)"
  by (induction xs) (simp_all add: insort_key_map)

lemma set_by_name [simp]: "set (by_name name cs) = set cs"
  by (simp add: by_name_def)

lemma stored_entries:
  "hnwe_entries (stored_node wr name norm B m)
     = map (merkle_entry wr name B) (by_name name (nwc_children m))"
  by (simp add: stored_node_def by_name_def rev_map sort_key_map merkle_entry_def)

lemma stored_tree_children:
  assumes "\<And>x. name (norm x) = name x"
  shows "wsubs (stored_tree wr name norm B m)
    = map (stored_tree wr name norm B) (by_name name (nwc_children m))"
proof -
  have "hn_inner (root_weight (stored_tree wr name norm B c)) = norm (nwc_inner c)" for c
    by (cases c) simp
  with assms show ?thesis
    by (cases m) (simp add: by_name_def rev_map sort_key_map)
qed

lemma storable_subtree:
  "storable valid name n \<Longrightarrow> m \<in> set (subtrees n) \<Longrightarrow> storable valid name m"
  by (induction n) (auto simp: list_all_iff)

lemma storable_inner: "storable valid name n \<Longrightarrow> all_inner valid n"
  by (induction n) (auto simp: list_all_iff)

lemma all_inner_mono: "all_inner P n \<Longrightarrow> (\<And>x. P x \<Longrightarrow> Q x) \<Longrightarrow> all_inner Q n"
  by (induction n) (auto simp: list_all_iff)

lemma archive_lookup:
  assumes B: "blake3_laws B" and free: "collision_free wr name B n"
    and ms: "set ms = set (subtrees n)" and m: "m \<in> set (subtrees n)"
  shows "tar_map (map (tar_object wr name B) ms @ [(ref_path ''root'', r)])
    (object_path B (merkle wr name B m)) = Some (merkle_bytes wr name B m)"
proof (rule tar_map_lookup)
  have hash: "hash_ok (merkle wr name B x)" for x
    unfolding merkle_hash by (rule blake3_lawsD(1) [OF B])
  show "(object_path B (merkle wr name B m), merkle_bytes wr name B m)
      \<in> set (map (tar_object wr name B) ms @ [(ref_path ''root'', r)])"
    using ms m by (auto simp: tar_object_def)
  fix d assume "(object_path B (merkle wr name B m), d)
      \<in> set (map (tar_object wr name B) ms @ [(ref_path ''root'', r)])"
  then obtain m' where m': "m' \<in> set (subtrees n)" "d = merkle_bytes wr name B m'"
    "object_path B (merkle wr name B m') = object_path B (merkle wr name B m)"
    using object_path_ok(2) [OF B hash] ms by (auto simp: tar_object_def)
  then have "merkle wr name B m' = merkle wr name B m"
    using object_path_inj [OF B hash hash] by blast
  with free m m' show "d = merkle_bytes wr name B m"
    unfolding collision_free_def merkle_hash by (auto dest: inj_onD)
qed

lemma root_lookup:
  assumes "blake3_laws B"
  shows "get_root_ref B (tar_map (es @ [(ref_path ''root'', Hash_to_string B (merkle wr name B n))]))
    = Inr (merkle wr name B n)"
proof -
  have hash: "hash_ok (merkle wr name B n)"
    unfolding merkle_hash by (rule blake3_lawsD(1) [OF assms])
  have "tar_map (es @ [(p, d)]) p = Some d" for p d by (simp add: tar_map_def)
  then show ?thesis
    using blake3_lawsD(2) [OF assms hash] hex_clean(3) [OF blake3_lawsD(3) [OF assms hash]]
    by (simp add: get_root_ref_def)
qed

lemma map_filter_Some: "List.map_filter (\<lambda>n. n) (map (\<lambda>c. Some (f c)) xs) = map f xs"
  by (induction xs) (simp_all add: List.map_filter_def)

context node_codec
begin

lemma get_node_stored:
  assumes B: "blake3_laws B" and m: "storable valid name m"
    and data: "tar_data (object_path B (merkle wr name B m)) = Some (merkle_bytes wr name B m)"
  shows "get_node rd B tar_data (merkle wr name B m) = Inr (Some (stored_node wr name norm B m))"
proof -
  let ?nwe = "\<lparr>nwe_kind = nwc_kind m, nwe_inner = nwc_inner m,
    nwe_entries = rev (map (merkle_entry wr name B) (nwc_children m))\<rparr>"
  have hash: "hash_ok (merkle wr name B x)" for x
    unfolding merkle_hash by (rule blake3_lawsD(1) [OF B])
  have ok: "nwe_ok valid ?nwe"
    using m hash by (cases m) (auto simp: nwe_ok_def list_all_iff entry_ok_def merkle_entry_def)
  from nwe_write_ok [OF this, of B] obtain b where b: "write_node_with_entries wr B ?nwe = Inr b"
    by (cases "write_node_with_entries wr B ?nwe") auto
  then have "merkle_bytes wr name B m = b" by (simp add: merkle_bytes_def node_bytes_def)
  with nwe_roundtrip [OF B ok b] data show ?thesis
    by (simp add: get_node_def from_node_with_entries_and_hash_def nwe_norm_def stored_node_def)
qed

lemma get_children:
  assumes "\<And>c. c \<in> set cs \<Longrightarrow>
      get_node rd B tar_data (merkle wr name B c) = Inr (Some (stored_node wr name norm B c))"
  shows "mapM (\<lambda>e. get_node rd B tar_data (entry_hash e)) (rev (map (merkle_entry wr name B) cs))
    = Inr (map (\<lambda>c. Some (stored_node wr name norm B c)) (rev cs))"
proof -
  have "mapM (\<lambda>e. get_node rd B tar_data (entry_hash e)) (map (merkle_entry wr name B) xs)
    = Inr (map (\<lambda>c. Some (stored_node wr name norm B c)) xs)" if "set xs \<subseteq> set cs" for xs
    using that by (induction xs) (simp_all add: assms merkle_entry_def)
  from this [of "rev cs"] show ?thesis by (simp add: rev_map)
qed

lemma into_stored [simp]:
  "into_hashed_node (stored_node wr name norm B m)
    = (root_weight (stored_tree wr name norm B m), hnwe_entries (stored_node wr name norm B m))"
  by (cases m) (simp add: into_hashed_node_def stored_node_def)

lemma read_loop_list:
  assumes "\<And>c g stack'. c \<in> set cs \<Longrightarrow>
      read_from_tar_loop rd B R tar_data g r ((stored_node wr name norm B c, Some i) # stack')
      = read_from_tar_loop rd B R tar_data (grow R (Some i) (stored_tree wr name norm B c) g) r stack'"
  shows "read_from_tar_loop rd B R tar_data g r
      (map (\<lambda>c. (stored_node wr name norm B c, Some i)) cs @ stack)
    = read_from_tar_loop rd B R tar_data
        (fold (grow R (Some i)) (map (stored_tree wr name norm B) cs) g) r stack"
  using assms by (induction cs arbitrary: g) simp_all

lemma read_loop_step:
  assumes get: "\<And>c. c \<in> set (nwc_children m) \<Longrightarrow>
      get_node rd B tar_data (merkle wr name B c) = Inr (Some (stored_node wr name norm B c))"
    and add: "pg_add_node R g (root_weight (stored_tree wr name norm B m)) = (g1, i)"
    and go: "(case parent of
        Some p \<Rightarrow> Inr (pg_add_edge R g1 p i, r)
      | None \<Rightarrow> (case r of None \<Rightarrow> Inr (g1, Some i)
                | Some _ \<Rightarrow> Inl (ReadTree MultipleRootNode))) = Inr (g2, r2)"
  shows "read_from_tar_loop rd B R tar_data g r ((stored_node wr name norm B m, parent) # stack)
    = read_from_tar_loop rd B R tar_data g2 r2
        (map (\<lambda>c. (stored_node wr name norm B c, Some i)) (by_name name (nwc_children m)) @ stack)"
proof -
  have "mapM (\<lambda>e. get_node rd B tar_data (entry_hash e))
      (rev (map (merkle_entry wr name B) (by_name name (nwc_children m))))
    = Inr (map (\<lambda>c. Some (stored_node wr name norm B c)) (rev (by_name name (nwc_children m))))"
    by (rule get_children) (simp add: get)
  then show ?thesis
    by (subst read_from_tar_loop.simps)
      (simp add: stored_entries add go map_filter_Some rev_map comp_def)
qed

lemma read_loop_child:
  assumes names: "\<And>x. name (norm x) = name x"
    and get: "\<And>c. c \<in> set (subtrees n) \<Longrightarrow>
      get_node rd B tar_data (merkle wr name B c) = Inr (Some (stored_node wr name norm B c))"
    and "m \<in> set (subtrees n)"
  shows "read_from_tar_loop rd B R tar_data g r ((stored_node wr name norm B m, Some p) # stack)
    = read_from_tar_loop rd B R tar_data (grow R (Some p) (stored_tree wr name norm B m) g) r stack"
  using assms(3)
proof (induction m arbitrary: g p stack)
  case (NodeWithChildren k x cs)
  let ?m = "NodeWithChildren k x cs"
  obtain g1 i where add: "pg_add_node R g (root_weight (stored_tree wr name norm B ?m)) = (g1, i)"
    by fastforce
  have sub: "c \<in> set (subtrees n)" if "c \<in> set cs" for c
    using subtrees_child [OF NodeWithChildren.prems] that by simp
  have "read_from_tar_loop rd B R tar_data g r ((stored_node wr name norm B ?m, Some p) # stack)
    = read_from_tar_loop rd B R tar_data (pg_add_edge R g1 p i) r
        (map (\<lambda>c. (stored_node wr name norm B c, Some i)) (by_name name cs) @ stack)"
    using read_loop_step [OF _ add, where parent = "Some p" and stack = stack] get sub by simp
  also have "\<dots> = read_from_tar_loop rd B R tar_data
      (fold (grow R (Some i)) (map (stored_tree wr name norm B) (by_name name cs))
        (pg_add_edge R g1 p i)) r stack"
    by (rule read_loop_list) (use NodeWithChildren.IH sub in simp)
  finally show ?case
    using add stored_tree_children [of name norm wr B ?m, OF names]
    by (cases "stored_tree wr name norm B ?m") simp
qed

theorem read_from_tar_stored:
  assumes B: "blake3_laws B" and names: "\<And>x. name (norm x) = name x"
    and n: "storable valid name n" and free: "collision_free wr name B n"
    and ms: "set ms = set (subtrees n)"
    and es: "tar_entries T a = Some (map (tar_object wr name B) ms
      @ [(ref_path ''root'', Hash_to_string B (merkle wr name B n))])"
  shows "read_from_tar rd B R T a = Some (Inr
    \<lparr>ot_graph = grow R None (stored_tree wr name norm B n) (pg_new R),
     ot_root_idx = snd (pg_add_node R (pg_new R) (root_weight (stored_tree wr name norm B n)))\<rparr>)"
proof -
  let ?data = "tar_map (map (tar_object wr name B) ms
      @ [(ref_path ''root'', Hash_to_string B (merkle wr name B n))])"
  have get: "get_node rd B ?data (merkle wr name B m) = Inr (Some (stored_node wr name norm B m))"
    if "m \<in> set (subtrees n)" for m
    using storable_subtree [OF n that] archive_lookup [OF B free ms that]
    by (rule get_node_stored [OF B])
  obtain g1 i where add: "pg_add_node R (pg_new R) (root_weight (stored_tree wr name norm B n)) = (g1, i)"
    by fastforce
  have sub: "c \<in> set (subtrees n)" if "c \<in> set (nwc_children n)" for c
    using subtrees_child [OF subtrees_self that] .
  have "read_from_tar_loop rd B R ?data (pg_new R) None [(stored_node wr name norm B n, None)]
    = read_from_tar_loop rd B R ?data g1 (Some i)
        (map (\<lambda>c. (stored_node wr name norm B c, Some i)) (by_name name (nwc_children n)) @ [])"
    using read_loop_step [OF _ add, where parent = None and r = None and stack = "[]"] get sub by simp
  also have "\<dots> = read_from_tar_loop rd B R ?data
      (fold (grow R (Some i)) (map (stored_tree wr name norm B) (by_name name (nwc_children n))) g1)
      (Some i) []"
    by (rule read_loop_list) (rule read_loop_child [of name n, OF names get], use sub in simp_all)
  also have "\<dots> = Some (Inr (grow R None (stored_tree wr name norm B n) (pg_new R), Some i))"
    using add stored_tree_children [of name norm wr B n, OF names]
    by (subst read_from_tar_loop.simps) (cases "stored_tree wr name norm B n", simp)
  finally have loop: "read_from_tar_loop rd B R ?data (pg_new R) None [(stored_node wr name norm B n, None)]
    = Some (Inr (grow R None (stored_tree wr name norm B n) (pg_new R), Some i))" .
  have "get_root_ref B ?data = Inr (merkle wr name B n)" by (rule root_lookup [OF B])
  with get [OF subtrees_self] loop add show ?thesis
    by (simp add: read_from_tar_def es Let_def)
qed

theorem tar_roundtrip:
  assumes "petgraph P" and "petgraph Q" and "petgraph R" and B: "blake3_laws B" and T: "tar_laws T"
    and names: "\<And>x. name (norm x) = name x"
    and n: "storable valid name n" and free: "collision_free wr name B n"
  shows "\<exists>tree a tree'. ObjectTree_create_from_root wr name B P Q n = Some (Inr tree)
    \<and> TarWriter_new wr name B Q T tree = Inr a
    \<and> read_from_tar rd B R T a = Some (Inr tree')
    \<and> represents Q (ot_graph tree) (ot_root_idx tree) (hashed_tree wr name B n)
    \<and> represents R (ot_graph tree') (ot_root_idx tree') (stored_tree wr name norm B n)"
proof -
  have ok: "all_inner (\<lambda>x. is_ok (wr x)) n"
    using storable_inner [OF n] write_ok by (rule all_inner_mono)
  obtain tree where tree: "ObjectTree_create_from_root wr name B P Q n = Some (Inr tree)"
    "built Q (ot_graph tree)"
    "represents Q (ot_graph tree) (ot_root_idx tree) (hashed_tree wr name B n)"
    using create_from_root_merkle [OF assms(1,2) ok, of name B] by blast
  obtain a ms where a: "TarWriter_new wr name B Q T tree = Inr a" "set ms = set (subtrees n)"
    "tar_entries T a = Some (map (tar_object wr name B) ms
       @ [(ref_path ''root'', Hash_to_string B (merkle wr name B n))])"
    by (rule TarWriter_new_entries [OF assms(2) tree(2) B T tree(3) ok])
  from read_from_tar_stored [OF B names n free a(2,3), of R]
    petgraph.grow_new [OF assms(3), of "stored_tree wr name norm B n"] tree a(1)
  show ?thesis by auto
qed

end

section \<open>Rewriting what was read\<close>

text \<open>The tree as it is after reading, again as a node with children.\<close>

fun reread :: "('n \<Rightarrow> bytes) \<Rightarrow> ('n \<Rightarrow> 'n) \<Rightarrow> 'n NodeWithChildren \<Rightarrow> 'n NodeWithChildren" where
  "reread name norm (NodeWithChildren k x cs) =
     NodeWithChildren k (norm x) (by_name name (map (reread name norm) cs))"

fun distinct_names :: "('n \<Rightarrow> bytes) \<Rightarrow> 'n NodeWithChildren \<Rightarrow> bool" where
  "distinct_names name (NodeWithChildren k x cs) \<longleftrightarrow>
     distinct (map (\<lambda>c. name (nwc_inner c)) cs) \<and> list_all (distinct_names name) cs"

lemma reread_parts [simp]:
  "nwc_kind (reread name norm n) = nwc_kind n"
  "nwc_inner (reread name norm n) = norm (nwc_inner n)"
  by (cases n; simp)+

lemma sort_key_same_set:
  assumes "distinct (map f xs)" and "mset ys = mset xs"
  shows "sort_key f ys = sort_key f xs"
proof (rule sort_key_inj_key_eq)
  show "mset ys = mset (sort_key f xs)" using assms(2) by simp
  show "inj_on f (set ys)" using assms by (metis distinct_map set_mset_mset)
qed simp

lemma node_bytes_sorted:
  "sort_key entry_name es = sort_key entry_name es' \<Longrightarrow> wr x = wr y \<Longrightarrow>
     node_bytes wr B k x es = node_bytes wr B k y es'"
  by (cases "es = []"; cases "es' = []")
    (auto simp: node_bytes_def write_node_with_entries_def dest!: arg_cong [where f = length])

context node_codec
begin

text \<open>When the names of siblings differ, the tree that was read has, node for node, the hashes of the
  tree that was written: writing it again gives the same objects.\<close>

lemma reread_merkle:
  assumes names: "\<And>x. name (norm x) = name x"
    and "storable valid name n" and "distinct_names name n"
  shows "merkle wr name B (reread name norm n) = merkle wr name B n"
  using assms(2,3)
proof (induction n)
  case (NodeWithChildren k x cs)
  have entry: "merkle_entry wr name B (reread name norm c) = merkle_entry wr name B c"
    if "c \<in> set cs" for c
    using NodeWithChildren that by (simp add: merkle_entry_def names list_all_iff)
  let ?es = "rev (map (merkle_entry wr name B) cs)"
    and ?es' = "rev (map (merkle_entry wr name B) (by_name name (map (reread name norm) cs)))"
  have "mset ?es' = image_mset (merkle_entry wr name B) (mset (map (reread name norm) cs))"
    by (simp add: by_name_def)
  also have "\<dots> = mset (map (\<lambda>c. merkle_entry wr name B (reread name norm c)) cs)"
    by (simp add: image_mset.compositionality comp_def)
  also have "map (\<lambda>c. merkle_entry wr name B (reread name norm c)) cs = map (merkle_entry wr name B) cs"
    using entry by simp
  finally have perm: "mset ?es' = mset ?es" by simp
  have "distinct (map entry_name ?es)"
    using NodeWithChildren.prems(2) by (simp add: rev_map [symmetric] merkle_entry_def comp_def)
  from sort_key_same_set [OF this perm]
  have "node_bytes wr B k (norm x) ?es' = node_bytes wr B k x ?es"
    using NodeWithChildren.prems(1) by (intro node_bytes_sorted) (simp_all add: norm_write)
  then show ?case
    unfolding merkle_eq [of wr name B "NodeWithChildren k x cs"]
      merkle_eq [of wr name B "reread name norm (NodeWithChildren k x cs)"] by simp
qed

lemma reread_hashed:
  assumes names: "\<And>x. name (norm x) = name x"
    and "storable valid name n" and "distinct_names name n"
  shows "hashed_tree wr name B (reread name norm n) = stored_tree wr name norm B n"
  using assms(2,3)
proof (induction n)
  case (NodeWithChildren k x cs)
  let ?n = "NodeWithChildren k x cs"
  have "map (hashed_tree wr name B) (by_name name (map (reread name norm) cs))
      = map (hashed_tree wr name B) (map (reread name norm) (by_name name cs))"
    by (simp add: by_name_def rev_map sort_key_map names)
  also have "\<dots> = map (stored_tree wr name norm B) (by_name name cs)"
    using NodeWithChildren by (simp add: list_all_iff)
  finally show ?case
    using reread_merkle [OF names NodeWithChildren.prems, of B]
      stored_tree_children [of name norm wr B ?n, OF names]
    by (simp add: merkle_node_def)
qed

lemma reread_storable:
  assumes names: "\<And>x. name (norm x) = name x" and "storable valid name n"
  shows "storable valid name (reread name norm n)"
  using assms(2)
proof (induction n rule: NodeWithChildren.induct)
  case (NodeWithChildren k x cs)
  then show ?case
    by (auto simp: list_all_iff names norm_valid by_name_def)
qed

end

end
