(* ===== verification/Merkle_Integrity.thy ===== *)
theory Merkle_Integrity
  imports Tar_Bundle
begin

text \<open>
  What a root hash says about a package. Every object read from the archive of a tree passes
  \<open>verify_hash\<close>, and two trees with the same root hash are the same tree once stored, unless two of
  their objects collide under the hash function. Both are proved for every node type, in the locale
  \<open>node_codec\<close>.
\<close>

lemma subtrees_below: "c \<in> set (nwc_children n) \<Longrightarrow> set (subtrees c) \<subseteq> set (subtrees n)"
  by (cases n) auto

context node_codec
begin

lemma stored_nwe:
  assumes B: "blake3_laws B" and m: "storable valid name m"
  shows "nwe_ok valid \<lparr>nwe_kind = nwc_kind m, nwe_inner = nwc_inner m,
      nwe_entries = rev (map (merkle_entry wr name B) (nwc_children m))\<rparr>"
proof -
  have "hash_ok (merkle wr name B x)" for x
    unfolding merkle_hash by (rule blake3_lawsD(1) [OF B])
  then show ?thesis
    using m by (cases m) (auto simp: nwe_ok_def list_all_iff entry_ok_def merkle_entry_def)
qed

lemma write_stored:
  assumes B: "blake3_laws B" and m: "storable valid name m"
  shows "write_hashed_node_with_entries wr B (stored_node wr name norm B m)
    = Inr (merkle_bytes wr name B m)"
proof -
  let ?nwe = "\<lparr>nwe_kind = nwc_kind m, nwe_inner = nwc_inner m,
    nwe_entries = rev (map (merkle_entry wr name B) (nwc_children m))\<rparr>"
  note ok = stored_nwe [OF B m]
  from nwe_write_ok [OF ok, of B] obtain b where b: "write_node_with_entries wr B ?nwe = Inr b"
    by (cases "write_node_with_entries wr B ?nwe") auto
  moreover have "as_node_with_entries_ref (stored_node wr name norm B m) = nwe_norm norm ?nwe"
    by (simp add: as_node_with_entries_ref_def stored_node_def nwe_norm_def)
  ultimately show ?thesis
    using nwe_norm_write [OF ok, of B]
    by (simp add: write_hashed_node_with_entries_def merkle_bytes_def node_bytes_def)
qed

lemma verify_stored:
  assumes "blake3_laws B" and "storable valid name m"
  shows "verify_hash wr B (stored_node wr name norm B m) = Inr ()"
  using write_stored [OF assms]
  by (simp add: verify_hash_def merkle_hash stored_node_def Let_def)

lemma stored_node_eq:
  assumes "blake3_laws B" and "storable valid name n" and "storable valid name m"
    and "merkle_bytes wr name B n = merkle_bytes wr name B m"
  shows "stored_node wr name norm B n = stored_node wr name norm B m"
  using get_node_stored [OF assms(1,2), of "\<lambda>_. Some (merkle_bytes wr name B n)"]
    get_node_stored [OF assms(1,3), of "\<lambda>_. Some (merkle_bytes wr name B m)"] assms(4)
  by (simp add: merkle_hash)

text \<open>Equal stored nodes have children with equal hashes, place by place.\<close>

lemma stored_trees_eq:
  assumes names: "\<And>x. name (norm x) = name x"
    and node: "stored_node wr name norm B n = stored_node wr name norm B m"
    and below: "\<And>c d. c \<in> set (nwc_children n) \<Longrightarrow> d \<in> set (nwc_children m) \<Longrightarrow>
      merkle wr name B c = merkle wr name B d \<Longrightarrow>
      stored_tree wr name norm B c = stored_tree wr name norm B d"
  shows "stored_tree wr name norm B n = stored_tree wr name norm B m"
proof -
  let ?cs = "by_name name (nwc_children n)" and ?ds = "by_name name (nwc_children m)"
  have es: "map (merkle_entry wr name B) ?cs = map (merkle_entry wr name B) ?ds"
    using node by (metis stored_entries)
  then have len: "length ?cs = length ?ds" by (metis length_map)
  have "map (stored_tree wr name norm B) ?cs = map (stored_tree wr name norm B) ?ds"
  proof (rule nth_equalityI)
    fix i assume i: "i < length (map (stored_tree wr name norm B) ?cs)"
    then have "merkle_entry wr name B (?cs ! i) = merkle_entry wr name B (?ds ! i)"
      using es len by (metis length_map nth_map)
    then have "merkle wr name B (?cs ! i) = merkle wr name B (?ds ! i)"
      by (simp add: merkle_entry_def)
    moreover have "?cs ! i \<in> set (nwc_children n)" "?ds ! i \<in> set (nwc_children m)"
      using i len by (metis length_map nth_mem set_by_name)+
    ultimately show "map (stored_tree wr name norm B) ?cs ! i
        = map (stored_tree wr name norm B) ?ds ! i"
      using below i len by simp
  qed (simp add: len)
  then have "wsubs (stored_tree wr name norm B n) = wsubs (stored_tree wr name norm B m)"
    using stored_tree_children [of name norm wr B, OF names] by metis
  moreover have "root_weight (stored_tree wr name norm B n)
      = root_weight (stored_tree wr name norm B m)"
    using node by (cases n; cases m) (simp add: stored_node_def)
  ultimately show ?thesis by (metis wtree.exhaust_sel)
qed

lemma root_hash_determines:
  assumes B: "blake3_laws B" and names: "\<And>x. name (norm x) = name x"
    and "storable valid name n" and "storable valid name m"
    and "inj_on (Hash_new B) (merkle_bytes wr name B ` (set (subtrees n) \<union> set (subtrees m)))"
    and "merkle wr name B n = merkle wr name B m"
  shows "stored_tree wr name norm B n = stored_tree wr name norm B m"
  using assms(3-6)
proof (induction n arbitrary: m rule: NodeWithChildren.induct)
  case (NodeWithChildren k x cs)
  let ?n = "NodeWithChildren k x cs"
  have "merkle_bytes wr name B ?n = merkle_bytes wr name B m"
    using NodeWithChildren.prems(3,4) unfolding merkle_hash
    by (metis UnCI image_eqI inj_onD subtrees_self)
  then have node: "stored_node wr name norm B ?n = stored_node wr name norm B m"
    by (rule stored_node_eq [OF B NodeWithChildren.prems(1,2)])
  show ?case
  proof (rule stored_trees_eq [OF names node])
    fix c d
    assume c: "c \<in> set (nwc_children ?n)" and d: "d \<in> set (nwc_children m)"
      and eq: "merkle wr name B c = merkle wr name B d"
    have sub: "c \<in> set (subtrees ?n)" "d \<in> set (subtrees m)"
      using c d subtrees_child [OF subtrees_self] by blast+
    have "set (subtrees c) \<union> set (subtrees d) \<subseteq> set (subtrees ?n) \<union> set (subtrees m)"
      using subtrees_below c d by blast
    then have inj: "inj_on (Hash_new B) (merkle_bytes wr name B ` (set (subtrees c) \<union> set (subtrees d)))"
      using NodeWithChildren.prems(3) by (meson image_mono inj_on_subset)
    show "stored_tree wr name norm B c = stored_tree wr name norm B d"
      using NodeWithChildren.IH c inj eq storable_subtree sub NodeWithChildren.prems(1,2)
      by (metis NodeWithChildren.sel(3))
  qed
qed

end

end
