(* ===== verification/Pkg_Node.thy ===== *)
theory Pkg_Node
  imports Pkg_Nodes_D Merkle_Integrity
begin

text \<open>
  \<open>PkgNode\<close>, \<open>lib/si-pkg/src/node/mod.rs\<close>: the sum of all package node types, written with its kind
  in front and read by dispatching on it. The interpretation of \<open>node_codec\<close> for it is the round
  trip of every package node, from which \<open>Node_Entries\<close> gives the round trip of a node with the
  references to its children.
\<close>

section \<open>The node type\<close>


datatype ('j, 'u, 'd) PkgNode =
    ActionFunc ActionFuncNode
  | AttrFuncInput AttrFuncInputNode
  | AttributeValue "'j AttributeValueNode"
  | AttributeValueChild AttributeValueChildNode
  | Category CategoryNode
  | ChangeSet ChangeSetNode
  | ChangeSetChild ChangeSetChildNode
  | Component ComponentNode
  | ComponentChild ComponentChildNode
  | Edge EdgeNode
  | Func "'u FuncNode"
  | FuncArgument FuncArgumentNode
  | LeafFunction LeafFunctionNode
  | MapKeyFunc MapKeyFuncNode
  | Package "'d PackageNode"
  | Position PositionNode
  | Prop "('j, 'u) PropNode"
  | PropChild PropChildNode
  | Schema SchemaNode
  | SchemaVariant "'u SchemaVariantNode"
  | SchemaVariantChild SchemaVariantChildNode
  | SiPropFunc SiPropFuncNode
  | Socket SocketNode
  | Validation ValidationNode

fun node_kind_str :: "('j, 'u, 'd) PkgNode \<Rightarrow> bytes" where
  "node_kind_str (PkgNode.ActionFunc _) = ''action_func''"
| "node_kind_str (PkgNode.AttrFuncInput _) = ''attr_func_input''"
| "node_kind_str (PkgNode.AttributeValue _) = ''attribute_value''"
| "node_kind_str (PkgNode.AttributeValueChild _) = ''attribute_value_child''"
| "node_kind_str (PkgNode.Category _) = ''category''"
| "node_kind_str (PkgNode.ChangeSet _) = ''change_set''"
| "node_kind_str (PkgNode.ChangeSetChild _) = ''change_set_child''"
| "node_kind_str (PkgNode.Component _) = ''component''"
| "node_kind_str (PkgNode.ComponentChild _) = ''component_child''"
| "node_kind_str (PkgNode.Edge _) = ''edge''"
| "node_kind_str (PkgNode.Func _) = ''func''"
| "node_kind_str (PkgNode.FuncArgument _) = ''func_argument''"
| "node_kind_str (PkgNode.LeafFunction _) = ''leaf_function''"
| "node_kind_str (PkgNode.MapKeyFunc _) = ''map_key_func''"
| "node_kind_str (PkgNode.Package _) = ''package''"
| "node_kind_str (PkgNode.Position _) = ''position''"
| "node_kind_str (PkgNode.Prop _) = ''prop''"
| "node_kind_str (PkgNode.PropChild _) = ''prop_child''"
| "node_kind_str (PkgNode.Schema _) = ''schema''"
| "node_kind_str (PkgNode.SchemaVariant _) = ''schema_variant''"
| "node_kind_str (PkgNode.SchemaVariantChild _) = ''schema_variant_child''"
| "node_kind_str (PkgNode.SiPropFunc _) = ''si_prop_func''"
| "node_kind_str (PkgNode.Socket _) = ''socket''"
| "node_kind_str (PkgNode.Validation _) = ''validation''"

fun PkgNode_name :: "('j, 'u, 'd) PkgNode \<Rightarrow> bytes" where
  "PkgNode_name (PkgNode.ActionFunc _) = ''action_func''"
| "PkgNode_name (PkgNode.AttrFuncInput node) = AttrFuncInputNode_name node"
| "PkgNode_name (PkgNode.AttributeValue _) = ''attribute_value''"
| "PkgNode_name (PkgNode.AttributeValueChild node) = AttributeValueChildNode_kind_str node"
| "PkgNode_name (PkgNode.Category node) = CategoryNode_kind_str node"
| "PkgNode_name (PkgNode.ChangeSet node) = cs_name node"
| "PkgNode_name (PkgNode.ChangeSetChild node) = ChangeSetChildNode_kind_str node"
| "PkgNode_name (PkgNode.Component node) = cn_name node"
| "PkgNode_name (PkgNode.ComponentChild node) = ComponentChildNode_kind_str node"
| "PkgNode_name (PkgNode.Edge _) = ''edge''"
| "PkgNode_name (PkgNode.Func node) = fn_name node"
| "PkgNode_name (PkgNode.FuncArgument node) = fa_name node"
| "PkgNode_name (PkgNode.LeafFunction _) = ''leaf_function''"
| "PkgNode_name (PkgNode.MapKeyFunc _) = ''map_key_func''"
| "PkgNode_name (PkgNode.Package node) = pkg_name node"
| "PkgNode_name (PkgNode.Position _) = ''position''"
| "PkgNode_name (PkgNode.Prop node) = PropNode_name node"
| "PkgNode_name (PkgNode.PropChild node) = PropChildNode_kind_str node"
| "PkgNode_name (PkgNode.Schema node) = sn_name node"
| "PkgNode_name (PkgNode.SchemaVariant node) = sv_name node"
| "PkgNode_name (PkgNode.SchemaVariantChild node) = SchemaVariantChildNode_kind_str node"
| "PkgNode_name (PkgNode.SiPropFunc _) = ''si_prop_func''"
| "PkgNode_name (PkgNode.Socket node) = sk_name node"
| "PkgNode_name (PkgNode.Validation _) = ''validation''"

fun write_inner :: "('j, 'u, 'd) externals \<Rightarrow> ('j, 'u, 'd) PkgNode \<Rightarrow> graph_write" where
  "write_inner E (PkgNode.ActionFunc node) = write_ActionFuncNode node"
| "write_inner E (PkgNode.AttrFuncInput node) = write_AttrFuncInputNode node"
| "write_inner E (PkgNode.AttributeValue node) = write_AttributeValueNode E node"
| "write_inner E (PkgNode.AttributeValueChild node) = write_AttributeValueChildNode node"
| "write_inner E (PkgNode.Category node) = write_CategoryNode node"
| "write_inner E (PkgNode.ChangeSet node) = write_ChangeSetNode node"
| "write_inner E (PkgNode.ChangeSetChild node) = write_ChangeSetChildNode node"
| "write_inner E (PkgNode.Component node) = write_ComponentNode E node"
| "write_inner E (PkgNode.ComponentChild node) = write_ComponentChildNode node"
| "write_inner E (PkgNode.Edge node) = write_EdgeNode node"
| "write_inner E (PkgNode.Func node) = write_FuncNode E node"
| "write_inner E (PkgNode.FuncArgument node) = write_FuncArgumentNode node"
| "write_inner E (PkgNode.LeafFunction node) = write_LeafFunctionNode node"
| "write_inner E (PkgNode.MapKeyFunc node) = write_MapKeyFuncNode node"
| "write_inner E (PkgNode.Package node) = write_PackageNode E node"
| "write_inner E (PkgNode.Position node) = write_PositionNode node"
| "write_inner E (PkgNode.Prop node) = write_PropNode E node"
| "write_inner E (PkgNode.PropChild node) = write_PropChildNode node"
| "write_inner E (PkgNode.Schema node) = write_SchemaNode node"
| "write_inner E (PkgNode.SchemaVariant node) = write_SchemaVariantNode E node"
| "write_inner E (PkgNode.SchemaVariantChild node) = write_SchemaVariantChildNode node"
| "write_inner E (PkgNode.SiPropFunc node) = write_SiPropFuncNode node"
| "write_inner E (PkgNode.Socket node) = write_SocketNode node"
| "write_inner E (PkgNode.Validation node) = write_ValidationNode E node"

definition write_PkgNode :: "('j, 'u, 'd) externals \<Rightarrow> ('j, 'u, 'd) PkgNode \<Rightarrow> graph_write" where
  "write_PkgNode E n = wseq [write_key_value_line ''node_kind'' (node_kind_str n), write_inner E n]"

text \<open>\<open>T::read_bytes(reader)?.map(Self::C)\<close>\<close>

definition read_as :: "('a \<Rightarrow> 'n) \<Rightarrow> 'a option graph_reader \<Rightarrow> 'n option graph_reader" where
  "read_as C p = pbind p (\<lambda>m. preturn (map_option C m))"

definition read_inner ::
  "('j, 'u, 'd) externals \<Rightarrow> bytes \<Rightarrow> ('j, 'u, 'd) PkgNode option graph_reader" where
  "read_inner E kind_str =
     (if kind_str = ''action_func'' then read_as PkgNode.ActionFunc read_ActionFuncNode
      else if kind_str = ''attr_func_input'' then read_as PkgNode.AttrFuncInput read_AttrFuncInputNode
      else if kind_str = ''attribute_value'' then read_as PkgNode.AttributeValue (read_AttributeValueNode E)
      else if kind_str = ''attribute_value_child'' then read_as PkgNode.AttributeValueChild read_AttributeValueChildNode
      else if kind_str = ''category'' then read_as PkgNode.Category read_CategoryNode
      else if kind_str = ''change_set'' then read_as PkgNode.ChangeSet read_ChangeSetNode
      else if kind_str = ''change_set_child'' then read_as PkgNode.ChangeSetChild read_ChangeSetChildNode
      else if kind_str = ''component'' then read_as PkgNode.Component (read_ComponentNode E)
      else if kind_str = ''component_child'' then read_as PkgNode.ComponentChild read_ComponentChildNode
      else if kind_str = ''edge'' then read_as PkgNode.Edge read_EdgeNode
      else if kind_str = ''func'' then read_as PkgNode.Func (read_FuncNode E)
      else if kind_str = ''func_argument'' then read_as PkgNode.FuncArgument read_FuncArgumentNode
      else if kind_str = ''leaf_function'' then read_as PkgNode.LeafFunction read_LeafFunctionNode
      else if kind_str = ''map_key_func'' then read_as PkgNode.MapKeyFunc read_MapKeyFuncNode
      else if kind_str = ''package'' then read_as PkgNode.Package (read_PackageNode E)
      else if kind_str = ''position'' then read_as PkgNode.Position read_PositionNode
      else if kind_str = ''prop'' then read_as PkgNode.Prop (read_PropNode E)
      else if kind_str = ''prop_child'' then read_as PkgNode.PropChild read_PropChildNode
      else if kind_str = ''schema'' then read_as PkgNode.Schema read_SchemaNode
      else if kind_str = ''schema_variant'' then read_as PkgNode.SchemaVariant (read_SchemaVariantNode E)
      else if kind_str = ''schema_variant_child'' then read_as PkgNode.SchemaVariantChild read_SchemaVariantChildNode
      else if kind_str = ''socket'' then read_as PkgNode.Socket read_SocketNode
      else if kind_str = ''si_prop_func'' then read_as PkgNode.SiPropFunc read_SiPropFuncNode
      else if kind_str = ''validation'' then read_as PkgNode.Validation (read_ValidationNode E)
      else preturn None)"

definition read_PkgNode :: "('j, 'u, 'd) externals \<Rightarrow> ('j, 'u, 'd) PkgNode option graph_reader" where
  "read_PkgNode E = pbind (read_key_value_line ''node_kind'') (\<lambda>kind. read_inner E kind)"

section \<open>Normal form and validity\<close>

fun norm_PkgNode :: "('j, 'u, 'd) PkgNode \<Rightarrow> ('j, 'u, 'd) PkgNode" where
  "norm_PkgNode (PkgNode.ActionFunc node) = PkgNode.ActionFunc (norm_ActionFuncNode node)"
| "norm_PkgNode (PkgNode.AttrFuncInput node) = PkgNode.AttrFuncInput (norm_AttrFuncInputNode node)"
| "norm_PkgNode (PkgNode.AttributeValue node) = PkgNode.AttributeValue (norm_AttributeValueNode node)"
| "norm_PkgNode (PkgNode.AttributeValueChild node) = PkgNode.AttributeValueChild node"
| "norm_PkgNode (PkgNode.Category node) = PkgNode.Category node"
| "norm_PkgNode (PkgNode.ChangeSet node) = PkgNode.ChangeSet (norm_ChangeSetNode node)"
| "norm_PkgNode (PkgNode.ChangeSetChild node) = PkgNode.ChangeSetChild node"
| "norm_PkgNode (PkgNode.Component node) = PkgNode.Component (norm_ComponentNode node)"
| "norm_PkgNode (PkgNode.ComponentChild node) = PkgNode.ComponentChild node"
| "norm_PkgNode (PkgNode.Edge node) = PkgNode.Edge (norm_EdgeNode node)"
| "norm_PkgNode (PkgNode.Func node) = PkgNode.Func (norm_FuncNode node)"
| "norm_PkgNode (PkgNode.FuncArgument node) = PkgNode.FuncArgument (norm_FuncArgumentNode node)"
| "norm_PkgNode (PkgNode.LeafFunction node) = PkgNode.LeafFunction (norm_LeafFunctionNode node)"
| "norm_PkgNode (PkgNode.MapKeyFunc node) = PkgNode.MapKeyFunc node"
| "norm_PkgNode (PkgNode.Package node) = PkgNode.Package node"
| "norm_PkgNode (PkgNode.Position node) = PkgNode.Position (norm_PositionNode node)"
| "norm_PkgNode (PkgNode.Prop node) = PkgNode.Prop (norm_PropNode node)"
| "norm_PkgNode (PkgNode.PropChild node) = PkgNode.PropChild node"
| "norm_PkgNode (PkgNode.Schema node) = PkgNode.Schema (norm_SchemaNode node)"
| "norm_PkgNode (PkgNode.SchemaVariant node) = PkgNode.SchemaVariant (norm_SchemaVariantNode node)"
| "norm_PkgNode (PkgNode.SchemaVariantChild node) = PkgNode.SchemaVariantChild node"
| "norm_PkgNode (PkgNode.SiPropFunc node) = PkgNode.SiPropFunc (norm_SiPropFuncNode node)"
| "norm_PkgNode (PkgNode.Socket node) = PkgNode.Socket (norm_SocketNode node)"
| "norm_PkgNode (PkgNode.Validation node) = PkgNode.Validation (norm_ValidationNode node)"

fun valid_PkgNode :: "('j, 'u, 'd) externals \<Rightarrow> ('j, 'u, 'd) PkgNode \<Rightarrow> bool" where
  "valid_PkgNode E (PkgNode.ActionFunc node) = valid_ActionFuncNode node"
| "valid_PkgNode E (PkgNode.AttrFuncInput node) = valid_AttrFuncInputNode node"
| "valid_PkgNode E (PkgNode.AttributeValue node) = valid_AttributeValueNode E node"
| "valid_PkgNode E (PkgNode.AttributeValueChild node) = True"
| "valid_PkgNode E (PkgNode.Category node) = True"
| "valid_PkgNode E (PkgNode.ChangeSet node) = valid_ChangeSetNode node"
| "valid_PkgNode E (PkgNode.ChangeSetChild node) = True"
| "valid_PkgNode E (PkgNode.Component node) = valid_ComponentNode E node"
| "valid_PkgNode E (PkgNode.ComponentChild node) = True"
| "valid_PkgNode E (PkgNode.Edge node) = valid_EdgeNode node"
| "valid_PkgNode E (PkgNode.Func node) = valid_FuncNode E node"
| "valid_PkgNode E (PkgNode.FuncArgument node) = valid_FuncArgumentNode node"
| "valid_PkgNode E (PkgNode.LeafFunction node) = valid_LeafFunctionNode node"
| "valid_PkgNode E (PkgNode.MapKeyFunc node) = valid_MapKeyFuncNode node"
| "valid_PkgNode E (PkgNode.Package node) = valid_PackageNode E node"
| "valid_PkgNode E (PkgNode.Position node) = valid_PositionNode node"
| "valid_PkgNode E (PkgNode.Prop node) = valid_PropNode E node"
| "valid_PkgNode E (PkgNode.PropChild node) = True"
| "valid_PkgNode E (PkgNode.Schema node) = valid_SchemaNode node"
| "valid_PkgNode E (PkgNode.SchemaVariant node) = valid_SchemaVariantNode E node"
| "valid_PkgNode E (PkgNode.SchemaVariantChild node) = True"
| "valid_PkgNode E (PkgNode.SiPropFunc node) = valid_SiPropFuncNode node"
| "valid_PkgNode E (PkgNode.Socket node) = valid_SocketNode node"
| "valid_PkgNode E (PkgNode.Validation node) = valid_ValidationNode E node"

section \<open>Round trip\<close>

lemmas inner_write_ok =
  action_func.write_ok attr_func_input.write_ok attribute_value.write_ok
  attribute_value_child.write_ok category.write_ok change_set.write_ok change_set_child.write_ok
  component.write_ok component_child.write_ok edge.write_ok func.write_ok func_argument.write_ok
  leaf_function.write_ok map_key_func.write_ok package.write_ok position.write_ok
  prop_node.write_ok prop_child.write_ok schema.write_ok schema_variant.write_ok
  schema_variant_child.write_ok si_prop_func.write_ok socket.write_ok validation.write_ok

lemmas inner_norm_valid =
  action_func.norm_valid attr_func_input.norm_valid attribute_value.norm_valid
  change_set.norm_valid component.norm_valid edge.norm_valid func.norm_valid
  func_argument.norm_valid leaf_function.norm_valid position.norm_valid prop_node.norm_valid
  schema.norm_valid schema_variant.norm_valid si_prop_func.norm_valid socket.norm_valid
  validation.norm_valid

lemmas inner_norm_write =
  action_func.norm_write attr_func_input.norm_write attribute_value.norm_write
  change_set.norm_write component.norm_write edge.norm_write func.norm_write
  func_argument.norm_write leaf_function.norm_write position.norm_write prop_node.norm_write
  schema.norm_write schema_variant.norm_write si_prop_func.norm_write socket.norm_write
  validation.norm_write

lemmas inner_read_back =
  action_func.read_back attr_func_input.read_back attribute_value.read_back
  attribute_value_child.read_back category.read_back change_set.read_back
  change_set_child.read_back component.read_back component_child.read_back edge.read_back
  func.read_back func_argument.read_back leaf_function.read_back map_key_func.read_back
  package.read_back position.read_back prop_node.read_back prop_child.read_back schema.read_back
  schema_variant.read_back schema_variant_child.read_back si_prop_func.read_back socket.read_back
  validation.read_back

lemma inner_laws:
  "valid_PkgNode E n \<Longrightarrow> is_ok (write_inner E n)"
  "valid_PkgNode E n \<Longrightarrow> valid_PkgNode E (norm_PkgNode n)"
  "valid_PkgNode E n \<Longrightarrow> write_inner E (norm_PkgNode n) = write_inner E n"
  "node_kind_str (norm_PkgNode n) = node_kind_str n"
  "rust_string (node_kind_str n)"
  by (cases n; simp add: inner_write_ok inner_norm_valid inner_norm_write rust_string_def)+

lemma read_as_Some: "p r = Inr (Some x, r') \<Longrightarrow> read_as C p r = Inr (Some (C x), r')"
  by (simp add: read_as_def)

lemma read_inner_write:
  "valid_PkgNode E n \<Longrightarrow> write_inner E n = Inr b \<Longrightarrow> rest_ok rest \<Longrightarrow>
     read_inner E (node_kind_str n) (b @ rest) = Inr (Some (norm_PkgNode n), rest)"
  by (cases n; simp add: read_inner_def; intro read_as_Some inner_read_back; simp)

lemma write_PkgNode_eq:
  "write_PkgNode E n =
     rbind (write_inner E n) (\<lambda>b. Inr (kv_line ''node_kind'' (node_kind_str n) @ b))"
  by (cases "write_inner E n") (simp_all add: write_PkgNode_def writer_simps)

interpretation pkg_node: node_codec
  "write_PkgNode E" "read_PkgNode E" norm_PkgNode "valid_PkgNode E" for E
proof unfold_locales
  fix n b rest
  show "read_PkgNode E (b @ rest) = Inr (Some (norm_PkgNode n), rest)"
    if "valid_PkgNode E n" "write_PkgNode E n = Inr b" "rest_ok rest"
    using that
    by (auto simp: write_PkgNode_eq rbind_Inr_iff read_PkgNode_def reader_simps inner_laws
        read_inner_write)
  show "is_ok (write_PkgNode E n)" if "valid_PkgNode E n"
    using inner_laws(1) [OF that] by (cases "write_inner E n") (simp_all add: write_PkgNode_eq)
qed (simp_all add: inner_laws write_PkgNode_eq)

end
