(* ===== verification/Pkg_Spec.thy ===== *)
theory Pkg_Spec
  imports Pkg_Node
begin

text \<open>
  The specification of a package, \<open>lib/si-pkg/src/spec.rs\<close> and \<open>lib/si-pkg/src/spec/*.rs\<close>: what users of the
  crate write down and what it gives back. Each structure has a builder; the derived ones hold an
  optional value per field, and \<open>build\<close> takes the declared default of a field that was not set or
  fails at the first field, in the order of the declaration, that has none. The builders of props, of
  function inputs and of validations are written out in the source.
\<close>

datatype SpecError =
    LeafInputLocationConversionError bytes
  | SerdeJson
  | UninitializedField bytes
  | ValidationError bytes

text \<open>\<open>Option::unwrap_or\<close>, and the value a builder field has after its \<open>each\<close> setter was called for the
  elements of a list.\<close>

definition unwrap_or :: "'a \<Rightarrow> 'a option \<Rightarrow> 'a" where
  "unwrap_or d m = (case m of None \<Rightarrow> d | Some x \<Rightarrow> x)"

definition pushed :: "'a list \<Rightarrow> 'a list option" where
  "pushed xs = (if xs = [] then None else Some xs)"

lemma unwrap_or_simps [simp]: "unwrap_or d None = d" "unwrap_or d (Some x) = x"
  by (simp_all add: unwrap_or_def)

lemma unwrap_or_pushed [simp]: "unwrap_or [] (pushed xs) = xs"
  by (simp add: pushed_def)

lemma unwrap_or_map_Some [simp]: "unwrap_or None (map_option Some m) = m"
  by (cases m) simp_all

section \<open>Functions\<close>

record FuncArgumentSpec =
  fas_name :: bytes
  fas_kind :: FuncArgumentKind
  fas_element_kind :: "FuncArgumentKind option"
  fas_unique_id :: "bytes option"
  fas_deleted :: bool

record FuncArgumentSpecBuilder =
  fasb_name :: "bytes option"
  fasb_kind :: "FuncArgumentKind option"
  fasb_element_kind :: "FuncArgumentKind option option"
  fasb_unique_id :: "bytes option option"
  fasb_deleted :: "bool option"

definition FuncArgumentSpecBuilder_default :: "FuncArgumentSpecBuilder" where
  "FuncArgumentSpecBuilder_default = \<lparr>fasb_name = None, fasb_kind = None,
       fasb_element_kind = None, fasb_unique_id = None, fasb_deleted = None\<rparr>"

definition FuncArgumentSpec_build :: "FuncArgumentSpecBuilder \<Rightarrow> (SpecError, FuncArgumentSpec) result" where
  "FuncArgumentSpec_build b =
     rbind (ok_or (UninitializedField ''name'') (fasb_name b)) (\<lambda>name.
     rbind (ok_or (UninitializedField ''kind'') (fasb_kind b)) (\<lambda>kind.
     Inr \<lparr>fas_name = name, fas_kind = kind,
       fas_element_kind = unwrap_or None (fasb_element_kind b),
       fas_unique_id = unwrap_or None (fasb_unique_id b),
       fas_deleted = unwrap_or False (fasb_deleted b)\<rparr>))"

record 'u FuncSpecData =
  fsd_name :: bytes
  fsd_display_name :: "bytes option"
  fsd_description :: "bytes option"
  fsd_handler :: bytes
  fsd_code_base64 :: bytes
  fsd_backend_kind :: FuncSpecBackendKind
  fsd_response_type :: FuncSpecBackendResponseType
  fsd_hidden :: bool
  fsd_link :: "'u option"

record 'u FuncSpecDataBuilder =
  fsdb_name :: "bytes option"
  fsdb_display_name :: "bytes option option"
  fsdb_description :: "bytes option option"
  fsdb_handler :: "bytes option"
  fsdb_code_base64 :: "bytes option"
  fsdb_backend_kind :: "FuncSpecBackendKind option"
  fsdb_response_type :: "FuncSpecBackendResponseType option"
  fsdb_hidden :: "bool option"
  fsdb_link :: "'u option option"

definition FuncSpecDataBuilder_default :: "'u FuncSpecDataBuilder" where
  "FuncSpecDataBuilder_default = \<lparr>fsdb_name = None, fsdb_display_name = None,
       fsdb_description = None, fsdb_handler = None, fsdb_code_base64 = None,
       fsdb_backend_kind = None, fsdb_response_type = None, fsdb_hidden = None,
       fsdb_link = None\<rparr>"

definition FuncSpecData_build :: "'u FuncSpecDataBuilder \<Rightarrow> (SpecError, 'u FuncSpecData) result" where
  "FuncSpecData_build b =
     rbind (ok_or (UninitializedField ''name'') (fsdb_name b)) (\<lambda>name.
     rbind (ok_or (UninitializedField ''handler'') (fsdb_handler b)) (\<lambda>handler.
     rbind (ok_or (UninitializedField ''code_base64'') (fsdb_code_base64 b)) (\<lambda>code_base64.
     rbind (ok_or (UninitializedField ''backend_kind'') (fsdb_backend_kind b)) (\<lambda>backend_kind.
     rbind (ok_or (UninitializedField ''response_type'') (fsdb_response_type b)) (\<lambda>response_type.
     Inr \<lparr>fsd_name = name, fsd_display_name = unwrap_or None (fsdb_display_name b),
       fsd_description = unwrap_or None (fsdb_description b), fsd_handler = handler,
       fsd_code_base64 = code_base64, fsd_backend_kind = backend_kind,
       fsd_response_type = response_type, fsd_hidden = unwrap_or False (fsdb_hidden b),
       fsd_link = unwrap_or None (fsdb_link b)\<rparr>)))))"

record 'u FuncSpec =
  fs_name :: bytes
  fs_unique_id :: bytes
  fs_data :: "'u FuncSpecData option"
  fs_deleted :: bool
  fs_is_from_builtin :: "bool option"
  fs_arguments :: "FuncArgumentSpec list"

record 'u FuncSpecBuilder =
  fsb_name :: "bytes option"
  fsb_unique_id :: "bytes option"
  fsb_data :: "'u FuncSpecData option option"
  fsb_deleted :: "bool option"
  fsb_is_from_builtin :: "bool option option"
  fsb_arguments :: "FuncArgumentSpec list option"

definition FuncSpecBuilder_default :: "'u FuncSpecBuilder" where
  "FuncSpecBuilder_default = \<lparr>fsb_name = None, fsb_unique_id = None, fsb_data = None,
       fsb_deleted = None, fsb_is_from_builtin = None, fsb_arguments = None\<rparr>"

definition FuncSpec_build :: "'u FuncSpecBuilder \<Rightarrow> (SpecError, 'u FuncSpec) result" where
  "FuncSpec_build b =
     rbind (ok_or (UninitializedField ''name'') (fsb_name b)) (\<lambda>name.
     rbind (ok_or (UninitializedField ''unique_id'') (fsb_unique_id b)) (\<lambda>unique_id.
     Inr \<lparr>fs_name = name, fs_unique_id = unique_id, fs_data = unwrap_or None (fsb_data b),
       fs_deleted = unwrap_or False (fsb_deleted b),
       fs_is_from_builtin = unwrap_or None (fsb_is_from_builtin b),
       fs_arguments = unwrap_or [] (fsb_arguments b)\<rparr>))"

section \<open>Inputs of functions\<close>

datatype AttrFuncInputSpec =
    InputSocket bytes bytes "bytes option" bool
  | OutputSocket bytes bytes "bytes option" bool
  | Prop bytes bytes "bytes option" bool

record AttrFuncInputSpecBuilder =
  afib_kind :: "AttrFuncInputSpecKind option"
  afib_name :: "bytes option"
  afib_prop_path :: "bytes option"
  afib_socket_name :: "bytes option"
  afib_unique_id :: "bytes option"
  afib_deleted :: bool

definition AttrFuncInputSpecBuilder_default :: AttrFuncInputSpecBuilder where
  "AttrFuncInputSpecBuilder_default = \<lparr>afib_kind = None, afib_name = None, afib_prop_path = None,
     afib_socket_name = None, afib_unique_id = None, afib_deleted = False\<rparr>"

definition AttrFuncInputSpec_build ::
  "AttrFuncInputSpecBuilder \<Rightarrow> (SpecError, AttrFuncInputSpec) result" where
  "AttrFuncInputSpec_build b =
     (let need_name = ok_or (UninitializedField ''name'') (afib_name b);
          need_path = ok_or (UninitializedField ''prop_path'') (afib_prop_path b);
          need_socket = ok_or (UninitializedField ''socket_name'') (afib_socket_name b)
      in case afib_kind b of
           Some AttrFuncInputSpecKind.Prop \<Rightarrow>
             rbind need_name (\<lambda>name. rbind need_path (\<lambda>prop_path.
               Inr (AttrFuncInputSpec.Prop name prop_path (afib_unique_id b) (afib_deleted b))))
         | Some AttrFuncInputSpecKind.InputSocket \<Rightarrow>
             rbind need_name (\<lambda>name. rbind need_socket (\<lambda>socket_name.
               Inr (AttrFuncInputSpec.InputSocket name socket_name (afib_unique_id b) (afib_deleted b))))
         | Some AttrFuncInputSpecKind.OutputSocket \<Rightarrow>
             rbind need_name (\<lambda>name. rbind need_socket (\<lambda>socket_name.
               Inr (AttrFuncInputSpec.OutputSocket name socket_name (afib_unique_id b) (afib_deleted b))))
         | None \<Rightarrow> Inl (UninitializedField ''kind''))"

datatype LeafInputLocation = Code | DeletedAt | Domain | Resource

record MapKeyFuncSpec =
  mkfs_key :: bytes
  mkfs_func_unique_id :: bytes
  mkfs_inputs :: "AttrFuncInputSpec list"

record MapKeyFuncSpecBuilder =
  mkfsb_key :: "bytes option"
  mkfsb_func_unique_id :: "bytes option"
  mkfsb_inputs :: "AttrFuncInputSpec list option"

definition MapKeyFuncSpecBuilder_default :: "MapKeyFuncSpecBuilder" where
  "MapKeyFuncSpecBuilder_default = \<lparr>mkfsb_key = None, mkfsb_func_unique_id = None,
       mkfsb_inputs = None\<rparr>"

definition MapKeyFuncSpec_build :: "MapKeyFuncSpecBuilder \<Rightarrow> (SpecError, MapKeyFuncSpec) result" where
  "MapKeyFuncSpec_build b =
     rbind (ok_or (UninitializedField ''key'') (mkfsb_key b)) (\<lambda>key.
     rbind (ok_or (UninitializedField ''func_unique_id'') (mkfsb_func_unique_id b)) (\<lambda>func_unique_id.
     Inr \<lparr>mkfs_key = key, mkfs_func_unique_id = func_unique_id,
       mkfs_inputs = unwrap_or [] (mkfsb_inputs b)\<rparr>))"

record ActionFuncSpec =
  afs_func_unique_id :: bytes
  afs_name :: "bytes option"
  afs_kind :: ActionFuncSpecKind
  afs_unique_id :: "bytes option"
  afs_deleted :: bool

record ActionFuncSpecBuilder =
  afsb_func_unique_id :: "bytes option"
  afsb_name :: "bytes option option"
  afsb_kind :: "ActionFuncSpecKind option"
  afsb_unique_id :: "bytes option option"
  afsb_deleted :: "bool option"

definition ActionFuncSpecBuilder_default :: "ActionFuncSpecBuilder" where
  "ActionFuncSpecBuilder_default = \<lparr>afsb_func_unique_id = None, afsb_name = None,
       afsb_kind = None, afsb_unique_id = None, afsb_deleted = None\<rparr>"

definition ActionFuncSpec_build :: "ActionFuncSpecBuilder \<Rightarrow> (SpecError, ActionFuncSpec) result" where
  "ActionFuncSpec_build b =
     rbind (ok_or (UninitializedField ''func_unique_id'') (afsb_func_unique_id b)) (\<lambda>func_unique_id.
     rbind (ok_or (UninitializedField ''kind'') (afsb_kind b)) (\<lambda>kind.
     Inr \<lparr>afs_func_unique_id = func_unique_id, afs_name = unwrap_or None (afsb_name b),
       afs_kind = kind, afs_unique_id = unwrap_or None (afsb_unique_id b),
       afs_deleted = unwrap_or False (afsb_deleted b)\<rparr>))"

record LeafFunctionSpec =
  lfs_func_unique_id :: bytes
  lfs_leaf_kind :: LeafKind
  lfs_unique_id :: "bytes option"
  lfs_deleted :: bool
  lfs_inputs :: "LeafInputLocation list"

record LeafFunctionSpecBuilder =
  lfsb_func_unique_id :: "bytes option"
  lfsb_leaf_kind :: "LeafKind option"
  lfsb_unique_id :: "bytes option option"
  lfsb_deleted :: "bool option"
  lfsb_inputs :: "LeafInputLocation list option"

definition LeafFunctionSpecBuilder_default :: "LeafFunctionSpecBuilder" where
  "LeafFunctionSpecBuilder_default = \<lparr>lfsb_func_unique_id = None, lfsb_leaf_kind = None,
       lfsb_unique_id = None, lfsb_deleted = None, lfsb_inputs = None\<rparr>"

definition LeafFunctionSpec_build :: "LeafFunctionSpecBuilder \<Rightarrow> (SpecError, LeafFunctionSpec) result" where
  "LeafFunctionSpec_build b =
     rbind (ok_or (UninitializedField ''func_unique_id'') (lfsb_func_unique_id b)) (\<lambda>func_unique_id.
     rbind (ok_or (UninitializedField ''leaf_kind'') (lfsb_leaf_kind b)) (\<lambda>leaf_kind.
     Inr \<lparr>lfs_func_unique_id = func_unique_id, lfs_leaf_kind = leaf_kind,
       lfs_unique_id = unwrap_or None (lfsb_unique_id b),
       lfs_deleted = unwrap_or False (lfsb_deleted b),
       lfs_inputs = unwrap_or [] (lfsb_inputs b)\<rparr>))"

record SiPropFuncSpec =
  spfs_kind :: SiPropFuncSpecKind
  spfs_func_unique_id :: bytes
  spfs_unique_id :: "bytes option"
  spfs_deleted :: bool
  spfs_inputs :: "AttrFuncInputSpec list"

record SiPropFuncSpecBuilder =
  spfsb_kind :: "SiPropFuncSpecKind option"
  spfsb_func_unique_id :: "bytes option"
  spfsb_unique_id :: "bytes option option"
  spfsb_deleted :: "bool option"
  spfsb_inputs :: "AttrFuncInputSpec list option"

definition SiPropFuncSpecBuilder_default :: "SiPropFuncSpecBuilder" where
  "SiPropFuncSpecBuilder_default = \<lparr>spfsb_kind = None, spfsb_func_unique_id = None,
       spfsb_unique_id = None, spfsb_deleted = None, spfsb_inputs = None\<rparr>"

definition SiPropFuncSpec_build :: "SiPropFuncSpecBuilder \<Rightarrow> (SpecError, SiPropFuncSpec) result" where
  "SiPropFuncSpec_build b =
     rbind (ok_or (UninitializedField ''kind'') (spfsb_kind b)) (\<lambda>kind.
     rbind (ok_or (UninitializedField ''func_unique_id'') (spfsb_func_unique_id b)) (\<lambda>func_unique_id.
     Inr \<lparr>spfs_kind = kind, spfs_func_unique_id = func_unique_id,
       spfs_unique_id = unwrap_or None (spfsb_unique_id b),
       spfs_deleted = unwrap_or False (spfsb_deleted b),
       spfs_inputs = unwrap_or [] (spfsb_inputs b)\<rparr>))"

record SocketSpecData =
  sosd_func_unique_id :: "bytes option"
  sosd_kind :: SocketSpecKind
  sosd_name :: bytes
  sosd_arity :: SocketSpecArity
  sosd_ui_hidden :: bool

record SocketSpec =
  sos_name :: bytes
  sos_data :: "SocketSpecData option"
  sos_inputs :: "AttrFuncInputSpec list"
  sos_unique_id :: "bytes option"

record SocketSpecBuilder =
  sosb_name :: "bytes option"
  sosb_data :: "SocketSpecData option option"
  sosb_inputs :: "AttrFuncInputSpec list option"
  sosb_unique_id :: "bytes option option"

definition SocketSpecBuilder_default :: "SocketSpecBuilder" where
  "SocketSpecBuilder_default = \<lparr>sosb_name = None, sosb_data = None, sosb_inputs = None,
       sosb_unique_id = None\<rparr>"

definition SocketSpec_build :: "SocketSpecBuilder \<Rightarrow> (SpecError, SocketSpec) result" where
  "SocketSpec_build b =
     rbind (ok_or (UninitializedField ''name'') (sosb_name b)) (\<lambda>name.
     Inr \<lparr>sos_name = name, sos_data = unwrap_or None (sosb_data b),
       sos_inputs = unwrap_or [] (sosb_inputs b),
       sos_unique_id = unwrap_or None (sosb_unique_id b)\<rparr>)"

section \<open>Validations\<close>

datatype ValidationSpec =
    CustomValidation bytes "bytes option" bool
  | IntegerIsBetweenTwoIntegers int int "bytes option" bool
  | IntegerIsNotEmpty "bytes option" bool
  | StringEquals bytes "bytes option" bool
  | StringHasPrefix bytes "bytes option" bool
  | StringInStringArray "bytes list" bool "bytes option" bool
  | StringIsHexColor "bytes option" bool
  | StringIsNotEmpty "bytes option" bool
  | StringIsValidIpAddr "bytes option" bool

record ValidationSpecBuilder =
  vab_kind :: "ValidationSpecKind option"
  vab_upper_bound :: "int option"
  vab_lower_bound :: "int option"
  vab_expected_string :: "bytes option"
  vab_expected_string_array :: "bytes list option"
  vab_display_expected :: "bool option"
  vab_func_unique_id :: "bytes option"
  vab_unique_id :: "bytes option"
  vab_deleted :: bool

definition ValidationSpecBuilder_default :: ValidationSpecBuilder where
  "ValidationSpecBuilder_default = \<lparr>vab_kind = None, vab_upper_bound = None, vab_lower_bound = None,
     vab_expected_string = None, vab_expected_string_array = None, vab_display_expected = None,
     vab_func_unique_id = None, vab_unique_id = None, vab_deleted = False\<rparr>"

definition ValidationSpec_build :: "ValidationSpecBuilder \<Rightarrow> (SpecError, ValidationSpec) result" where
  "ValidationSpec_build b =
     (let u = vab_unique_id b; d = vab_deleted b
      in case vab_kind b of
           None \<Rightarrow> Inl (UninitializedField ''kind'')
         | Some kind \<Rightarrow> (case kind of
             ValidationSpecKind.IntegerIsBetweenTwoIntegers \<Rightarrow>
               rbind (ok_or (UninitializedField ''lower_bound'') (vab_lower_bound b)) (\<lambda>lower.
               rbind (ok_or (UninitializedField ''lower_bound'') (vab_upper_bound b)) (\<lambda>upper.
                 Inr (ValidationSpec.IntegerIsBetweenTwoIntegers lower upper u d)))
           | ValidationSpecKind.IntegerIsNotEmpty \<Rightarrow> Inr (ValidationSpec.IntegerIsNotEmpty u d)
           | ValidationSpecKind.StringEquals \<Rightarrow>
               rbind (ok_or (UninitializedField ''expected_string'') (vab_expected_string b)) (\<lambda>expected.
                 Inr (ValidationSpec.StringEquals expected u d))
           | ValidationSpecKind.StringHasPrefix \<Rightarrow>
               rbind (ok_or (UninitializedField ''expected_string'') (vab_expected_string b)) (\<lambda>expected.
                 Inr (ValidationSpec.StringHasPrefix expected u d))
           | ValidationSpecKind.StringInStringArray \<Rightarrow>
               rbind (ok_or (UninitializedField ''display_expected'') (vab_display_expected b)) (\<lambda>display.
               rbind (ok_or (UninitializedField ''expected_string'') (vab_expected_string_array b))
                 (\<lambda>expected. Inr (ValidationSpec.StringInStringArray expected display u d)))
           | ValidationSpecKind.StringIsValidIpAddr \<Rightarrow> Inr (ValidationSpec.StringIsValidIpAddr u d)
           | ValidationSpecKind.StringIsHexColor \<Rightarrow> Inr (ValidationSpec.StringIsHexColor u d)
           | ValidationSpecKind.StringIsNotEmpty \<Rightarrow> Inr (ValidationSpec.StringIsNotEmpty u d)
           | ValidationSpecKind.CustomValidation \<Rightarrow>
               rbind (ok_or (UninitializedField ''func_unique_id'') (vab_func_unique_id b)) (\<lambda>f.
                 Inr (ValidationSpec.CustomValidation f u d))))"

section \<open>Props\<close>

record ('j, 'u) PropSpecData =
  psd_name :: bytes
  psd_default_value :: "'j option"
  psd_validations :: "ValidationSpec list option"
  psd_func_unique_id :: "bytes option"
  psd_inputs :: "AttrFuncInputSpec list option"
  psd_widget_kind :: "PropSpecWidgetKind option"
  psd_widget_options :: "'j option"
  psd_hidden :: "bool option"
  psd_doc_link :: "'u option"

datatype ('j, 'u) PropSpec =
    Array bytes "('j, 'u) PropSpecData option" "bytes option" "('j, 'u) PropSpec"
  | Boolean bytes "('j, 'u) PropSpecData option" "bytes option"
  | Map bytes "('j, 'u) PropSpecData option" "bytes option" "('j, 'u) PropSpec"
      "MapKeyFuncSpec list option"
  | Number bytes "('j, 'u) PropSpecData option" "bytes option"
  | Object bytes "('j, 'u) PropSpecData option" "bytes option" "('j, 'u) PropSpec list"
  | String bytes "('j, 'u) PropSpecData option" "bytes option"

fun PropSpecWidgetKind_from :: "('j, 'u) PropSpec \<Rightarrow> PropSpecWidgetKind" where
  "PropSpecWidgetKind_from (PropSpec.Array _ _ _ _) = PropSpecWidgetKind.Array"
| "PropSpecWidgetKind_from (PropSpec.Boolean _ _ _) = PropSpecWidgetKind.Checkbox"
| "PropSpecWidgetKind_from (PropSpec.String _ _ _) = PropSpecWidgetKind.Text"
| "PropSpecWidgetKind_from (PropSpec.Number _ _ _) = PropSpecWidgetKind.Text"
| "PropSpecWidgetKind_from (PropSpec.Object _ _ _ _) = PropSpecWidgetKind.Header"
| "PropSpecWidgetKind_from (PropSpec.Map _ _ _ _ _) = PropSpecWidgetKind.Map"

datatype PropSpecKind = Array | Boolean | Map | Number | Object | String

record ('j, 'u) PropSpecBuilder =
  psb_default_value :: "'j option"
  psb_doc_link :: "'u option"
  psb_entries :: "('j, 'u) PropSpec list"
  psb_func_unique_id :: "bytes option"
  psb_hidden :: bool
  psb_inputs :: "AttrFuncInputSpec list"
  psb_kind :: "PropSpecKind option"
  psb_map_key_funcs :: "MapKeyFuncSpec list"
  psb_name :: "bytes option"
  psb_type_prop :: "('j, 'u) PropSpec option"
  psb_validations :: "ValidationSpec list"
  psb_widget_kind :: "PropSpecWidgetKind option"
  psb_widget_options :: "'j option"
  psb_unique_id :: "bytes option"
  psb_has_data :: bool

definition PropSpecBuilder_default :: "('j, 'u) PropSpecBuilder" where
  "PropSpecBuilder_default = \<lparr>psb_default_value = None, psb_doc_link = None, psb_entries = [],
     psb_func_unique_id = None, psb_hidden = False, psb_inputs = [], psb_kind = None,
     psb_map_key_funcs = [], psb_name = None, psb_type_prop = None, psb_validations = [],
     psb_widget_kind = None, psb_widget_options = None, psb_unique_id = None, psb_has_data = True\<rparr>"

text \<open>The setters that also mark the prop as having data.\<close>

definition PropSpecBuilder_default_value :: "'j \<Rightarrow> ('j, 'u) PropSpecBuilder \<Rightarrow> ('j, 'u) PropSpecBuilder" where
  "PropSpecBuilder_default_value v b = b\<lparr>psb_default_value := Some v, psb_has_data := True\<rparr>"

definition PropSpecBuilder_func_unique_id ::
  "bytes \<Rightarrow> ('j, 'u) PropSpecBuilder \<Rightarrow> ('j, 'u) PropSpecBuilder" where
  "PropSpecBuilder_func_unique_id v b = b\<lparr>psb_has_data := True, psb_func_unique_id := Some v\<rparr>"

definition PropSpecBuilder_input ::
  "AttrFuncInputSpec \<Rightarrow> ('j, 'u) PropSpecBuilder \<Rightarrow> ('j, 'u) PropSpecBuilder" where
  "PropSpecBuilder_input v b = b\<lparr>psb_has_data := True, psb_inputs := psb_inputs b @ [v]\<rparr>"

definition PropSpecBuilder_map_key_func ::
  "MapKeyFuncSpec \<Rightarrow> ('j, 'u) PropSpecBuilder \<Rightarrow> ('j, 'u) PropSpecBuilder" where
  "PropSpecBuilder_map_key_func v b =
     b\<lparr>psb_has_data := True, psb_map_key_funcs := psb_map_key_funcs b @ [v]\<rparr>"

definition PropSpec_build :: "('j, 'u) PropSpecBuilder \<Rightarrow> (SpecError, ('j, 'u) PropSpec) result" where
  "PropSpec_build b =
     rbind (ok_or (UninitializedField ''name'') (psb_name b)) (\<lambda>name.
     (let u = psb_unique_id b;
          data = (if psb_has_data b then
            Some \<lparr>psd_name = name, psd_default_value = psb_default_value b,
              psd_validations = Some (psb_validations b), psd_func_unique_id = psb_func_unique_id b,
              psd_inputs = Some (psb_inputs b), psd_widget_kind = psb_widget_kind b,
              psd_widget_options = psb_widget_options b, psd_hidden = Some (psb_hidden b),
              psd_doc_link = psb_doc_link b\<rparr>
            else None);
          need_type = ok_or (UninitializedField ''type_prop'') (psb_type_prop b)
      in case psb_kind b of
           None \<Rightarrow> Inl (UninitializedField ''kind'')
         | Some kind \<Rightarrow> (case kind of
             PropSpecKind.String \<Rightarrow> Inr (PropSpec.String name data u)
           | PropSpecKind.Number \<Rightarrow> Inr (PropSpec.Number name data u)
           | PropSpecKind.Boolean \<Rightarrow> Inr (PropSpec.Boolean name data u)
           | PropSpecKind.Map \<Rightarrow> rbind need_type (\<lambda>type_prop.
               Inr (PropSpec.Map name data u type_prop (Some (psb_map_key_funcs b))))
           | PropSpecKind.Array \<Rightarrow> rbind need_type (\<lambda>type_prop.
               Inr (PropSpec.Array name data u type_prop))
           | PropSpecKind.Object \<Rightarrow> Inr (PropSpec.Object name data u (psb_entries b)))))"

section \<open>Schema variants\<close>

record 'u SchemaVariantSpecData =
  vsd_name :: bytes
  vsd_link :: "'u option"
  vsd_color :: "bytes option"
  vsd_component_type :: SchemaVariantSpecComponentType
  vsd_func_unique_id :: bytes

record 'u SchemaVariantSpecDataBuilder =
  vsdb_name :: "bytes option"
  vsdb_link :: "'u option option"
  vsdb_color :: "bytes option option"
  vsdb_component_type :: "SchemaVariantSpecComponentType option"
  vsdb_func_unique_id :: "bytes option"

definition SchemaVariantSpecDataBuilder_default :: "'u SchemaVariantSpecDataBuilder" where
  "SchemaVariantSpecDataBuilder_default = \<lparr>vsdb_name = None, vsdb_link = None,
       vsdb_color = None, vsdb_component_type = None, vsdb_func_unique_id = None\<rparr>"

definition SchemaVariantSpecData_build :: "'u SchemaVariantSpecDataBuilder \<Rightarrow> (SpecError, 'u SchemaVariantSpecData) result" where
  "SchemaVariantSpecData_build b =
     rbind (ok_or (UninitializedField ''name'') (vsdb_name b)) (\<lambda>name.
     rbind (ok_or (UninitializedField ''func_unique_id'') (vsdb_func_unique_id b)) (\<lambda>func_unique_id.
     Inr \<lparr>vsd_name = name, vsd_link = unwrap_or None (vsdb_link b),
       vsd_color = unwrap_or None (vsdb_color b),
       vsd_component_type = unwrap_or SchemaVariantSpecComponentType.Component (vsdb_component_type b),
       vsd_func_unique_id = func_unique_id\<rparr>))"

datatype SchemaVariantSpecPropRoot = Domain | ResourceValue | SecretDefinition | Secrets

text \<open>The object props below the root of a variant that has none of its own.\<close>

definition default_root :: "bytes \<Rightarrow> ('j, 'u) PropSpec list \<Rightarrow> ('j, 'u) PropSpec" where
  "default_root name entries = PropSpec.Object name
     (Some \<lparr>psd_name = name, psd_default_value = None, psd_validations = None, psd_func_unique_id = None,
        psd_inputs = None, psd_widget_kind = Some PropSpecWidgetKind.Header, psd_widget_options = None,
        psd_hidden = Some False, psd_doc_link = None\<rparr>) None entries"

definition default_domain :: "('j, 'u) PropSpec" where
  "default_domain = default_root ''domain'' []"

definition default_secrets :: "('j, 'u) PropSpec" where
  "default_secrets = default_root ''secrets'' []"

definition default_secret_definition :: "('j, 'u) PropSpec option" where
  "default_secret_definition = Some (default_root ''secret_definition'' [])"

definition default_resource_value :: "('j, 'u) PropSpec" where
  "default_resource_value = default_root ''value'' []"

record ('j, 'u) SchemaVariantSpec =
  vs_name :: bytes
  vs_data :: "'u SchemaVariantSpecData option"
  vs_unique_id :: "bytes option"
  vs_deleted :: bool
  vs_action_funcs :: "ActionFuncSpec list"
  vs_leaf_functions :: "LeafFunctionSpec list"
  vs_sockets :: "SocketSpec list"
  vs_si_prop_funcs :: "SiPropFuncSpec list"
  vs_domain :: "('j, 'u) PropSpec"
  vs_secrets :: "('j, 'u) PropSpec"
  vs_secret_definition :: "('j, 'u) PropSpec option"
  vs_resource_value :: "('j, 'u) PropSpec"

record ('j, 'u) SchemaVariantSpecBuilder =
  vsb_name :: "bytes option"
  vsb_data :: "'u SchemaVariantSpecData option option"
  vsb_unique_id :: "bytes option option"
  vsb_deleted :: "bool option"
  vsb_action_funcs :: "ActionFuncSpec list option"
  vsb_leaf_functions :: "LeafFunctionSpec list option"
  vsb_sockets :: "SocketSpec list option"
  vsb_si_prop_funcs :: "SiPropFuncSpec list option"
  vsb_domain :: "('j, 'u) PropSpec option"
  vsb_secrets :: "('j, 'u) PropSpec option"
  vsb_secret_definition :: "('j, 'u) PropSpec option option"
  vsb_resource_value :: "('j, 'u) PropSpec option"

definition SchemaVariantSpecBuilder_default :: "('j, 'u) SchemaVariantSpecBuilder" where
  "SchemaVariantSpecBuilder_default = \<lparr>vsb_name = None, vsb_data = None,
       vsb_unique_id = None, vsb_deleted = None, vsb_action_funcs = None,
       vsb_leaf_functions = None, vsb_sockets = None, vsb_si_prop_funcs = None,
       vsb_domain = None, vsb_secrets = None, vsb_secret_definition = None,
       vsb_resource_value = None\<rparr>"

definition SchemaVariantSpec_build :: "('j, 'u) SchemaVariantSpecBuilder \<Rightarrow> (SpecError, ('j, 'u) SchemaVariantSpec) result" where
  "SchemaVariantSpec_build b =
     rbind (ok_or (UninitializedField ''name'') (vsb_name b)) (\<lambda>name.
     Inr \<lparr>vs_name = name, vs_data = unwrap_or None (vsb_data b),
       vs_unique_id = unwrap_or None (vsb_unique_id b),
       vs_deleted = unwrap_or False (vsb_deleted b),
       vs_action_funcs = unwrap_or [] (vsb_action_funcs b),
       vs_leaf_functions = unwrap_or [] (vsb_leaf_functions b),
       vs_sockets = unwrap_or [] (vsb_sockets b),
       vs_si_prop_funcs = unwrap_or [] (vsb_si_prop_funcs b),
       vs_domain = unwrap_or default_domain (vsb_domain b),
       vs_secrets = unwrap_or default_secrets (vsb_secrets b),
       vs_secret_definition = unwrap_or None (vsb_secret_definition b),
       vs_resource_value = unwrap_or default_resource_value (vsb_resource_value b)\<rparr>)"

text \<open>\<open>SchemaVariantSpecBuilder::prop\<close> appends to the entries of a root, which has to be an object.\<close>

definition push_entry :: "('j, 'u) PropSpec \<Rightarrow> ('j, 'u) PropSpec \<Rightarrow> ('j, 'u) PropSpec option" where
  "push_entry item root =
     (case root of PropSpec.Object name data u entries \<Rightarrow> Some (PropSpec.Object name data u (entries @ [item]))
      | _ \<Rightarrow> None)"

definition SchemaVariantSpecBuilder_prop ::
  "SchemaVariantSpecPropRoot \<Rightarrow> ('j, 'u) PropSpec \<Rightarrow> ('j, 'u) SchemaVariantSpecBuilder \<Rightarrow>
   ('j, 'u) SchemaVariantSpecBuilder option" where
  "SchemaVariantSpecBuilder_prop root item b =
     (case root of
        SchemaVariantSpecPropRoot.Domain \<Rightarrow>
          map_option (\<lambda>p. b\<lparr>vsb_domain := Some p\<rparr>) (push_entry item (unwrap_or default_domain (vsb_domain b)))
      | SchemaVariantSpecPropRoot.ResourceValue \<Rightarrow>
          map_option (\<lambda>p. b\<lparr>vsb_resource_value := Some p\<rparr>)
            (push_entry item (unwrap_or default_resource_value (vsb_resource_value b)))
      | SchemaVariantSpecPropRoot.SecretDefinition \<Rightarrow>
          (case unwrap_or default_secret_definition (vsb_secret_definition b) of
             None \<Rightarrow> None
           | Some p \<Rightarrow> map_option (\<lambda>p'. b\<lparr>vsb_secret_definition := Some (Some p')\<rparr>) (push_entry item p))
      | SchemaVariantSpecPropRoot.Secrets \<Rightarrow>
          map_option (\<lambda>p. b\<lparr>vsb_secrets := Some p\<rparr>) (push_entry item (unwrap_or default_secrets (vsb_secrets b))))"

section \<open>Schemas, components, change sets and packages\<close>

record SchemaSpecData =
  ssd_name :: bytes
  ssd_category :: bytes
  ssd_category_name :: "bytes option"
  ssd_ui_hidden :: bool
  ssd_default_schema_variant :: "bytes option"

record SchemaSpecDataBuilder =
  ssdb_name :: "bytes option"
  ssdb_category :: "bytes option"
  ssdb_category_name :: "bytes option option"
  ssdb_ui_hidden :: "bool option"
  ssdb_default_schema_variant :: "bytes option option"

definition SchemaSpecDataBuilder_default :: "SchemaSpecDataBuilder" where
  "SchemaSpecDataBuilder_default = \<lparr>ssdb_name = None, ssdb_category = None,
       ssdb_category_name = None, ssdb_ui_hidden = None,
       ssdb_default_schema_variant = None\<rparr>"

definition SchemaSpecData_build :: "SchemaSpecDataBuilder \<Rightarrow> (SpecError, SchemaSpecData) result" where
  "SchemaSpecData_build b =
     rbind (ok_or (UninitializedField ''name'') (ssdb_name b)) (\<lambda>name.
     rbind (ok_or (UninitializedField ''category'') (ssdb_category b)) (\<lambda>category.
     Inr \<lparr>ssd_name = name, ssd_category = category,
       ssd_category_name = unwrap_or None (ssdb_category_name b),
       ssd_ui_hidden = unwrap_or False (ssdb_ui_hidden b),
       ssd_default_schema_variant = unwrap_or None (ssdb_default_schema_variant b)\<rparr>))"

record ('j, 'u) SchemaSpec =
  ss_name :: bytes
  ss_data :: "SchemaSpecData option"
  ss_unique_id :: "bytes option"
  ss_deleted :: bool
  ss_variants :: "('j, 'u) SchemaVariantSpec list"

record ('j, 'u) SchemaSpecBuilder =
  ssb_name :: "bytes option"
  ssb_data :: "SchemaSpecData option option"
  ssb_unique_id :: "bytes option option"
  ssb_deleted :: "bool option"
  ssb_variants :: "('j, 'u) SchemaVariantSpec list option"

definition SchemaSpecBuilder_default :: "('j, 'u) SchemaSpecBuilder" where
  "SchemaSpecBuilder_default = \<lparr>ssb_name = None, ssb_data = None, ssb_unique_id = None,
       ssb_deleted = None, ssb_variants = None\<rparr>"

definition SchemaSpec_build :: "('j, 'u) SchemaSpecBuilder \<Rightarrow> (SpecError, ('j, 'u) SchemaSpec) result" where
  "SchemaSpec_build b =
     rbind (ok_or (UninitializedField ''name'') (ssb_name b)) (\<lambda>name.
     Inr \<lparr>ss_name = name, ss_data = unwrap_or None (ssb_data b),
       ss_unique_id = unwrap_or None (ssb_unique_id b),
       ss_deleted = unwrap_or False (ssb_deleted b),
       ss_variants = unwrap_or [] (ssb_variants b)\<rparr>)"

record PositionSpec =
  pss_x :: bytes
  pss_y :: bytes
  pss_width :: "bytes option"
  pss_height :: "bytes option"

record PositionSpecBuilder =
  pssb_x :: "bytes option"
  pssb_y :: "bytes option"
  pssb_width :: "bytes option option"
  pssb_height :: "bytes option option"

definition PositionSpecBuilder_default :: "PositionSpecBuilder" where
  "PositionSpecBuilder_default = \<lparr>pssb_x = None, pssb_y = None, pssb_width = None,
       pssb_height = None\<rparr>"

definition PositionSpec_build :: "PositionSpecBuilder \<Rightarrow> (SpecError, PositionSpec) result" where
  "PositionSpec_build b =
     rbind (ok_or (UninitializedField ''x'') (pssb_x b)) (\<lambda>x.
     rbind (ok_or (UninitializedField ''y'') (pssb_y b)) (\<lambda>y.
     rbind (ok_or (UninitializedField ''width'') (pssb_width b)) (\<lambda>width.
     rbind (ok_or (UninitializedField ''height'') (pssb_height b)) (\<lambda>height.
     Inr \<lparr>pss_x = x, pss_y = y, pss_width = width, pss_height = height\<rparr>))))"

record 'j AttributeValueSpec =
  avs_parent_path :: "AttributeValuePath option"
  avs_path :: AttributeValuePath
  avs_func_unique_id :: bytes
  avs_func_binding_args :: "'j"
  avs_handler :: "bytes option"
  avs_backend_kind :: FuncSpecBackendKind
  avs_response_type :: FuncSpecBackendResponseType
  avs_code_base64 :: "bytes option"
  avs_unprocessed_value :: "'j option"
  avs_value :: "'j option"
  avs_output_stream :: "'j option"
  avs_is_proxy :: bool
  avs_sealed_proxy :: bool
  avs_component_specific :: bool
  avs_inputs :: "AttrFuncInputSpec list"
  avs_implicit_value :: "'j option"

record 'j AttributeValueSpecBuilder =
  avsb_parent_path :: "AttributeValuePath option option"
  avsb_path :: "AttributeValuePath option"
  avsb_func_unique_id :: "bytes option"
  avsb_func_binding_args :: "'j option"
  avsb_handler :: "bytes option option"
  avsb_backend_kind :: "FuncSpecBackendKind option"
  avsb_response_type :: "FuncSpecBackendResponseType option"
  avsb_code_base64 :: "bytes option option"
  avsb_unprocessed_value :: "'j option option"
  avsb_value :: "'j option option"
  avsb_output_stream :: "'j option option"
  avsb_is_proxy :: "bool option"
  avsb_sealed_proxy :: "bool option"
  avsb_component_specific :: "bool option"
  avsb_inputs :: "AttrFuncInputSpec list option"
  avsb_implicit_value :: "'j option option"

definition AttributeValueSpecBuilder_default :: "'j AttributeValueSpecBuilder" where
  "AttributeValueSpecBuilder_default = \<lparr>avsb_parent_path = None, avsb_path = None,
       avsb_func_unique_id = None, avsb_func_binding_args = None, avsb_handler = None,
       avsb_backend_kind = None, avsb_response_type = None, avsb_code_base64 = None,
       avsb_unprocessed_value = None, avsb_value = None, avsb_output_stream = None,
       avsb_is_proxy = None, avsb_sealed_proxy = None, avsb_component_specific = None,
       avsb_inputs = None, avsb_implicit_value = None\<rparr>"

definition AttributeValueSpec_build :: "'j AttributeValueSpecBuilder \<Rightarrow> (SpecError, 'j AttributeValueSpec) result" where
  "AttributeValueSpec_build b =
     rbind (ok_or (UninitializedField ''path'') (avsb_path b)) (\<lambda>path.
     rbind (ok_or (UninitializedField ''func_unique_id'') (avsb_func_unique_id b)) (\<lambda>func_unique_id.
     rbind (ok_or (UninitializedField ''func_binding_args'') (avsb_func_binding_args b)) (\<lambda>func_binding_args.
     rbind (ok_or (UninitializedField ''backend_kind'') (avsb_backend_kind b)) (\<lambda>backend_kind.
     rbind (ok_or (UninitializedField ''response_type'') (avsb_response_type b)) (\<lambda>response_type.
     Inr \<lparr>avs_parent_path = unwrap_or None (avsb_parent_path b), avs_path = path,
       avs_func_unique_id = func_unique_id, avs_func_binding_args = func_binding_args,
       avs_handler = unwrap_or None (avsb_handler b), avs_backend_kind = backend_kind,
       avs_response_type = response_type, avs_code_base64 = unwrap_or None (avsb_code_base64 b),
       avs_unprocessed_value = unwrap_or None (avsb_unprocessed_value b),
       avs_value = unwrap_or None (avsb_value b),
       avs_output_stream = unwrap_or None (avsb_output_stream b),
       avs_is_proxy = unwrap_or False (avsb_is_proxy b),
       avs_sealed_proxy = unwrap_or False (avsb_sealed_proxy b),
       avs_component_specific = unwrap_or False (avsb_component_specific b),
       avs_inputs = unwrap_or [] (avsb_inputs b),
       avs_implicit_value = unwrap_or None (avsb_implicit_value b)\<rparr>)))))"

record 'j ComponentSpec =
  cps_name :: bytes
  cps_position :: PositionSpec
  cps_variant :: ComponentSpecVariant
  cps_needs_destroy :: bool
  cps_deletion_user_pk :: "bytes option"
  cps_unique_id :: bytes
  cps_deleted :: bool
  cps_attributes :: "'j AttributeValueSpec list"
  cps_input_sockets :: "'j AttributeValueSpec list"
  cps_output_sockets :: "'j AttributeValueSpec list"

record 'j ComponentSpecBuilder =
  cpsb_name :: "bytes option"
  cpsb_position :: "PositionSpec option"
  cpsb_variant :: "ComponentSpecVariant option"
  cpsb_needs_destroy :: "bool option"
  cpsb_deletion_user_pk :: "bytes option option"
  cpsb_unique_id :: "bytes option"
  cpsb_deleted :: "bool option"
  cpsb_attributes :: "'j AttributeValueSpec list option"
  cpsb_input_sockets :: "'j AttributeValueSpec list option"
  cpsb_output_sockets :: "'j AttributeValueSpec list option"

definition ComponentSpecBuilder_default :: "'j ComponentSpecBuilder" where
  "ComponentSpecBuilder_default = \<lparr>cpsb_name = None, cpsb_position = None,
       cpsb_variant = None, cpsb_needs_destroy = None, cpsb_deletion_user_pk = None,
       cpsb_unique_id = None, cpsb_deleted = None, cpsb_attributes = None,
       cpsb_input_sockets = None, cpsb_output_sockets = None\<rparr>"

definition ComponentSpec_build :: "'j ComponentSpecBuilder \<Rightarrow> (SpecError, 'j ComponentSpec) result" where
  "ComponentSpec_build b =
     rbind (ok_or (UninitializedField ''name'') (cpsb_name b)) (\<lambda>name.
     rbind (ok_or (UninitializedField ''position'') (cpsb_position b)) (\<lambda>position.
     rbind (ok_or (UninitializedField ''variant'') (cpsb_variant b)) (\<lambda>variant.
     Inr \<lparr>cps_name = name, cps_position = position, cps_variant = variant,
       cps_needs_destroy = unwrap_or False (cpsb_needs_destroy b),
       cps_deletion_user_pk = unwrap_or None (cpsb_deletion_user_pk b),
       cps_unique_id = unwrap_or [] (cpsb_unique_id b),
       cps_deleted = unwrap_or False (cpsb_deleted b),
       cps_attributes = unwrap_or [] (cpsb_attributes b),
       cps_input_sockets = unwrap_or [] (cpsb_input_sockets b),
       cps_output_sockets = unwrap_or [] (cpsb_output_sockets b)\<rparr>)))"

record EdgeSpec =
  es_edge_kind :: EdgeSpecKind
  es_from_component_unique_id :: bytes
  es_from_socket_name :: bytes
  es_to_component_unique_id :: bytes
  es_to_socket_name :: bytes
  es_creation_user_pk :: "bytes option"
  es_deletion_user_pk :: "bytes option"
  es_deleted_implicitly :: bool
  es_unique_id :: bytes
  es_deleted :: bool

record EdgeSpecBuilder =
  esb_edge_kind :: "EdgeSpecKind option"
  esb_from_component_unique_id :: "bytes option"
  esb_from_socket_name :: "bytes option"
  esb_to_component_unique_id :: "bytes option"
  esb_to_socket_name :: "bytes option"
  esb_creation_user_pk :: "bytes option option"
  esb_deletion_user_pk :: "bytes option option"
  esb_deleted_implicitly :: "bool option"
  esb_unique_id :: "bytes option"
  esb_deleted :: "bool option"

definition EdgeSpecBuilder_default :: "EdgeSpecBuilder" where
  "EdgeSpecBuilder_default = \<lparr>esb_edge_kind = None, esb_from_component_unique_id = None,
       esb_from_socket_name = None, esb_to_component_unique_id = None, esb_to_socket_name = None,
       esb_creation_user_pk = None, esb_deletion_user_pk = None, esb_deleted_implicitly = None,
       esb_unique_id = None, esb_deleted = None\<rparr>"

definition EdgeSpec_build :: "EdgeSpecBuilder \<Rightarrow> (SpecError, EdgeSpec) result" where
  "EdgeSpec_build b =
     rbind (ok_or (UninitializedField ''edge_kind'') (esb_edge_kind b)) (\<lambda>edge_kind.
     rbind (ok_or (UninitializedField ''from_component_unique_id'') (esb_from_component_unique_id b)) (\<lambda>from_component_unique_id.
     rbind (ok_or (UninitializedField ''from_socket_name'') (esb_from_socket_name b)) (\<lambda>from_socket_name.
     rbind (ok_or (UninitializedField ''to_component_unique_id'') (esb_to_component_unique_id b)) (\<lambda>to_component_unique_id.
     rbind (ok_or (UninitializedField ''to_socket_name'') (esb_to_socket_name b)) (\<lambda>to_socket_name.
     rbind (ok_or (UninitializedField ''creation_user_pk'') (esb_creation_user_pk b)) (\<lambda>creation_user_pk.
     rbind (ok_or (UninitializedField ''deletion_user_pk'') (esb_deletion_user_pk b)) (\<lambda>deletion_user_pk.
     rbind (ok_or (UninitializedField ''deleted_implicitly'') (esb_deleted_implicitly b)) (\<lambda>deleted_implicitly.
     Inr \<lparr>es_edge_kind = edge_kind,
       es_from_component_unique_id = from_component_unique_id,
       es_from_socket_name = from_socket_name,
       es_to_component_unique_id = to_component_unique_id, es_to_socket_name = to_socket_name,
       es_creation_user_pk = creation_user_pk, es_deletion_user_pk = deletion_user_pk,
       es_deleted_implicitly = deleted_implicitly, es_unique_id = unwrap_or [] (esb_unique_id b),
       es_deleted = unwrap_or False (esb_deleted b)\<rparr>))))))))"

record ('j, 'u) ChangeSetSpec =
  css_name :: bytes
  css_based_on_change_set :: "bytes option"
  css_status :: ChangeSetSpecStatus
  css_components :: "'j ComponentSpec list"
  css_schemas :: "('j, 'u) SchemaSpec list"
  css_funcs :: "'u FuncSpec list"
  css_edges :: "EdgeSpec list"

record ('j, 'u) ChangeSetSpecBuilder =
  cssb_name :: "bytes option"
  cssb_based_on_change_set :: "bytes option option"
  cssb_status :: "ChangeSetSpecStatus option"
  cssb_components :: "'j ComponentSpec list option"
  cssb_schemas :: "('j, 'u) SchemaSpec list option"
  cssb_funcs :: "'u FuncSpec list option"
  cssb_edges :: "EdgeSpec list option"

definition ChangeSetSpecBuilder_default :: "('j, 'u) ChangeSetSpecBuilder" where
  "ChangeSetSpecBuilder_default = \<lparr>cssb_name = None, cssb_based_on_change_set = None,
       cssb_status = None, cssb_components = None, cssb_schemas = None, cssb_funcs = None,
       cssb_edges = None\<rparr>"

definition ChangeSetSpec_build :: "('j, 'u) ChangeSetSpecBuilder \<Rightarrow> (SpecError, ('j, 'u) ChangeSetSpec) result" where
  "ChangeSetSpec_build b =
     rbind (ok_or (UninitializedField ''name'') (cssb_name b)) (\<lambda>name.
     Inr \<lparr>css_name = name,
       css_based_on_change_set = unwrap_or None (cssb_based_on_change_set b),
       css_status = unwrap_or ChangeSetSpecStatus.Open (cssb_status b),
       css_components = unwrap_or [] (cssb_components b),
       css_schemas = unwrap_or [] (cssb_schemas b), css_funcs = unwrap_or [] (cssb_funcs b),
       css_edges = unwrap_or [] (cssb_edges b)\<rparr>)"

record ('j, 'u, 'd) PkgSpec =
  pks_kind :: SiPkgKind
  pks_name :: bytes
  pks_version :: bytes
  pks_description :: bytes
  pks_created_at :: "'d"
  pks_created_by :: bytes
  pks_default_change_set :: "bytes option"
  pks_workspace_pk :: "bytes option"
  pks_workspace_name :: "bytes option"
  pks_schemas :: "('j, 'u) SchemaSpec list"
  pks_funcs :: "'u FuncSpec list"
  pks_change_sets :: "('j, 'u) ChangeSetSpec list"

record ('j, 'u, 'd) PkgSpecBuilder =
  pksb_kind :: "SiPkgKind option"
  pksb_name :: "bytes option"
  pksb_version :: "bytes option"
  pksb_description :: "bytes option"
  pksb_created_at :: "'d option"
  pksb_created_by :: "bytes option"
  pksb_default_change_set :: "bytes option option"
  pksb_workspace_pk :: "bytes option option"
  pksb_workspace_name :: "bytes option option"
  pksb_schemas :: "('j, 'u) SchemaSpec list option"
  pksb_funcs :: "'u FuncSpec list option"
  pksb_change_sets :: "('j, 'u) ChangeSetSpec list option"

definition PkgSpecBuilder_default :: "('j, 'u, 'd) PkgSpecBuilder" where
  "PkgSpecBuilder_default = \<lparr>pksb_kind = None, pksb_name = None, pksb_version = None,
       pksb_description = None, pksb_created_at = None, pksb_created_by = None,
       pksb_default_change_set = None, pksb_workspace_pk = None, pksb_workspace_name = None,
       pksb_schemas = None, pksb_funcs = None, pksb_change_sets = None\<rparr>"

definition PkgSpec_build :: "'d \<Rightarrow> ('j, 'u, 'd) PkgSpecBuilder \<Rightarrow> (SpecError, ('j, 'u, 'd) PkgSpec) result" where
  "PkgSpec_build now b =
     rbind (ok_or (UninitializedField ''name'') (pksb_name b)) (\<lambda>name.
     rbind (ok_or (UninitializedField ''version'') (pksb_version b)) (\<lambda>version.
     rbind (ok_or (UninitializedField ''created_by'') (pksb_created_by b)) (\<lambda>created_by.
     Inr \<lparr>pks_kind = unwrap_or SiPkgKind.Module (pksb_kind b), pks_name = name,
       pks_version = version, pks_description = unwrap_or [] (pksb_description b),
       pks_created_at = unwrap_or now (pksb_created_at b), pks_created_by = created_by,
       pks_default_change_set = unwrap_or None (pksb_default_change_set b),
       pks_workspace_pk = unwrap_or None (pksb_workspace_pk b),
       pks_workspace_name = unwrap_or None (pksb_workspace_name b),
       pks_schemas = unwrap_or [] (pksb_schemas b), pks_funcs = unwrap_or [] (pksb_funcs b),
       pks_change_sets = unwrap_or [] (pksb_change_sets b)\<rparr>)))"

lemmas spec_builds =
  FuncArgumentSpec_build_def FuncArgumentSpecBuilder_default_def
  FuncSpecData_build_def FuncSpecDataBuilder_default_def
  FuncSpec_build_def FuncSpecBuilder_default_def
  MapKeyFuncSpec_build_def MapKeyFuncSpecBuilder_default_def
  ActionFuncSpec_build_def ActionFuncSpecBuilder_default_def
  LeafFunctionSpec_build_def LeafFunctionSpecBuilder_default_def
  SiPropFuncSpec_build_def SiPropFuncSpecBuilder_default_def
  SocketSpec_build_def SocketSpecBuilder_default_def
  SchemaVariantSpecData_build_def SchemaVariantSpecDataBuilder_default_def
  SchemaVariantSpec_build_def SchemaVariantSpecBuilder_default_def
  SchemaSpecData_build_def SchemaSpecDataBuilder_default_def
  SchemaSpec_build_def SchemaSpecBuilder_default_def
  PositionSpec_build_def PositionSpecBuilder_default_def
  AttributeValueSpec_build_def AttributeValueSpecBuilder_default_def
  ComponentSpec_build_def ComponentSpecBuilder_default_def
  EdgeSpec_build_def EdgeSpecBuilder_default_def
  ChangeSetSpec_build_def ChangeSetSpecBuilder_default_def
  PkgSpec_build_def PkgSpecBuilder_default_def

end
