(* ===== verification/Pkg_As_Node.thy ===== *)
theory Pkg_As_Node
  imports Pkg_Spec
begin

text \<open>
  The tree of nodes of a specification: the implementations of \<open>as_node_with_children\<close> in
  \<open>lib/si-pkg/src/node/*.rs\<close>, one definition per specification type. Lists of a specification become
  the children of a node that only names their role (a category or a child node).
\<close>

type_synonym ('j, 'u, 'd) pkg_tree = "('j, 'u, 'd) PkgNode NodeWithChildren"

section \<open>Leaves\<close>

definition as_node_FuncArgumentSpec :: "FuncArgumentSpec \<Rightarrow> ('j, 'u, 'd) pkg_tree" where
  "as_node_FuncArgumentSpec s = NodeWithChildren Leaf (PkgNode.FuncArgument
     \<lparr>fa_name = fas_name s, fa_kind = fas_kind s, fa_element_kind = fas_element_kind s,
      fa_unique_id = fas_unique_id s, fa_deleted = fas_deleted s\<rparr>) []"

definition as_node_ActionFuncSpec :: "ActionFuncSpec \<Rightarrow> ('j, 'u, 'd) pkg_tree" where
  "as_node_ActionFuncSpec s = NodeWithChildren Leaf (PkgNode.ActionFunc
     \<lparr>af_name = afs_name s, af_func_unique_id = afs_func_unique_id s, af_kind = afs_kind s,
      af_unique_id = afs_unique_id s, af_deleted = afs_deleted s\<rparr>) []"

fun as_node_AttrFuncInputSpec :: "AttrFuncInputSpec \<Rightarrow> ('j, 'u, 'd) pkg_tree" where
  "as_node_AttrFuncInputSpec (AttrFuncInputSpec.Prop name prop_path unique_id deleted) =
     NodeWithChildren Leaf (PkgNode.AttrFuncInput
       (AttrFuncInputNode.Prop name prop_path unique_id deleted)) []"
| "as_node_AttrFuncInputSpec (AttrFuncInputSpec.InputSocket name socket_name unique_id deleted) =
     NodeWithChildren Leaf (PkgNode.AttrFuncInput
       (AttrFuncInputNode.InputSocket name socket_name unique_id deleted)) []"
| "as_node_AttrFuncInputSpec (AttrFuncInputSpec.OutputSocket name socket_name unique_id deleted) =
     NodeWithChildren Leaf (PkgNode.AttrFuncInput
       (AttrFuncInputNode.OutputSocket name socket_name unique_id deleted)) []"

definition as_node_LeafFunctionSpec :: "LeafFunctionSpec \<Rightarrow> ('j, 'u, 'd) pkg_tree" where
  "as_node_LeafFunctionSpec s = NodeWithChildren Leaf (PkgNode.LeafFunction
     \<lparr>lf_func_unique_id = lfs_func_unique_id s, lf_leaf_kind = lfs_leaf_kind s,
      lf_input_code = (LeafInputLocation.Code \<in> set (lfs_inputs s)),
      lf_input_deleted_at = (LeafInputLocation.DeletedAt \<in> set (lfs_inputs s)),
      lf_input_domain = (LeafInputLocation.Domain \<in> set (lfs_inputs s)),
      lf_input_resource = (LeafInputLocation.Resource \<in> set (lfs_inputs s)),
      lf_unique_id = lfs_unique_id s, lf_deleted = lfs_deleted s\<rparr>) []"

definition as_node_PositionSpec :: "PositionSpec \<Rightarrow> ('j, 'u, 'd) pkg_tree" where
  "as_node_PositionSpec s = NodeWithChildren Leaf (PkgNode.Position
     \<lparr>pos_x = pss_x s, pos_y = pss_y s, pos_width = pss_width s, pos_height = pss_height s\<rparr>) []"

definition as_node_EdgeSpec :: "EdgeSpec \<Rightarrow> ('j, 'u, 'd) pkg_tree" where
  "as_node_EdgeSpec s = NodeWithChildren Leaf (PkgNode.Edge
     \<lparr>en_edge_kind = es_edge_kind s, en_from_component_unique_id = es_from_component_unique_id s,
      en_from_socket_name = es_from_socket_name s, en_to_component_unique_id = es_to_component_unique_id s,
      en_to_socket_name = es_to_socket_name s, en_creation_user_pk = es_creation_user_pk s,
      en_deletion_user_pk = es_deletion_user_pk s, en_deleted_implicitly = es_deleted_implicitly s,
      en_unique_id = es_unique_id s, en_deleted = es_deleted s\<rparr>) []"

fun ValidationSpec_node :: "ValidationSpec \<Rightarrow> ValidationNode" where
  "ValidationSpec_node (ValidationSpec.IntegerIsBetweenTwoIntegers lower_bound upper_bound u d) =
     ValidationNode_default\<lparr>vn_kind := ValidationSpecKind.IntegerIsBetweenTwoIntegers,
       vn_upper_bound := Some upper_bound, vn_lower_bound := Some lower_bound,
       vn_unique_id := u, vn_deleted := d\<rparr>"
| "ValidationSpec_node (ValidationSpec.IntegerIsNotEmpty u d) =
     ValidationNode_default\<lparr>vn_kind := ValidationSpecKind.IntegerIsNotEmpty, vn_unique_id := u, vn_deleted := d\<rparr>"
| "ValidationSpec_node (ValidationSpec.StringEquals expected u d) =
     ValidationNode_default\<lparr>vn_kind := ValidationSpecKind.StringEquals,
       vn_expected_string := Some expected, vn_unique_id := u, vn_deleted := d\<rparr>"
| "ValidationSpec_node (ValidationSpec.StringHasPrefix expected u d) =
     ValidationNode_default\<lparr>vn_kind := ValidationSpecKind.StringHasPrefix,
       vn_expected_string := Some expected, vn_unique_id := u, vn_deleted := d\<rparr>"
| "ValidationSpec_node (ValidationSpec.StringInStringArray expected display_expected u d) =
     ValidationNode_default\<lparr>vn_kind := ValidationSpecKind.StringInStringArray,
       vn_expected_string_array := Some expected, vn_display_expected := Some display_expected,
       vn_unique_id := u, vn_deleted := d\<rparr>"
| "ValidationSpec_node (ValidationSpec.StringIsValidIpAddr u d) =
     ValidationNode_default\<lparr>vn_kind := ValidationSpecKind.StringIsValidIpAddr, vn_unique_id := u, vn_deleted := d\<rparr>"
| "ValidationSpec_node (ValidationSpec.StringIsHexColor u d) =
     ValidationNode_default\<lparr>vn_kind := ValidationSpecKind.StringIsHexColor, vn_unique_id := u, vn_deleted := d\<rparr>"
| "ValidationSpec_node (ValidationSpec.StringIsNotEmpty u d) =
     ValidationNode_default\<lparr>vn_kind := ValidationSpecKind.StringIsNotEmpty, vn_unique_id := u, vn_deleted := d\<rparr>"
| "ValidationSpec_node (ValidationSpec.CustomValidation func_unique_id u d) =
     ValidationNode_default\<lparr>vn_kind := ValidationSpecKind.CustomValidation,
       vn_func_unique_id := Some func_unique_id, vn_unique_id := u, vn_deleted := d\<rparr>"

definition as_node_ValidationSpec :: "ValidationSpec \<Rightarrow> ('j, 'u, 'd) pkg_tree" where
  "as_node_ValidationSpec s = NodeWithChildren Leaf (PkgNode.Validation (ValidationSpec_node s)) []"

section \<open>Functions, sockets and values\<close>

definition as_node_FuncSpec :: "'u FuncSpec \<Rightarrow> ('j, 'u, 'd) pkg_tree" where
  "as_node_FuncSpec s = NodeWithChildren Tree (PkgNode.Func
     \<lparr>fn_name = fs_name s,
      fn_data = map_option (\<lambda>data. \<lparr>fd_name = fs_name s, fd_display_name = fsd_display_name data,
        fd_description = fsd_description data, fd_handler = fsd_handler data,
        fd_code_base64 = fsd_code_base64 data, fd_backend_kind = fsd_backend_kind data,
        fd_response_type = fsd_response_type data, fd_hidden = fsd_hidden data,
        fd_link = fsd_link data\<rparr>) (fs_data s),
      fn_unique_id = fs_unique_id s, fn_deleted = fs_deleted s,
      fn_is_from_builtin = fs_is_from_builtin s\<rparr>)
     (map as_node_FuncArgumentSpec (fs_arguments s))"

definition as_node_MapKeyFuncSpec :: "MapKeyFuncSpec \<Rightarrow> ('j, 'u, 'd) pkg_tree" where
  "as_node_MapKeyFuncSpec s = NodeWithChildren Tree (PkgNode.MapKeyFunc
     \<lparr>mk_key = mkfs_key s, mk_func_unique_id = mkfs_func_unique_id s\<rparr>)
     (map as_node_AttrFuncInputSpec (mkfs_inputs s))"

definition as_node_SiPropFuncSpec :: "SiPropFuncSpec \<Rightarrow> ('j, 'u, 'd) pkg_tree" where
  "as_node_SiPropFuncSpec s = NodeWithChildren Tree (PkgNode.SiPropFunc
     \<lparr>sp_kind = spfs_kind s, sp_func_unique_id = spfs_func_unique_id s, sp_unique_id = spfs_unique_id s,
      sp_deleted = spfs_deleted s\<rparr>)
     (map as_node_AttrFuncInputSpec (spfs_inputs s))"

definition as_node_SocketSpec :: "SocketSpec \<Rightarrow> ('j, 'u, 'd) pkg_tree" where
  "as_node_SocketSpec s = NodeWithChildren Tree (PkgNode.Socket
     \<lparr>sk_name = sos_name s,
      sk_data = map_option (\<lambda>data. \<lparr>skd_name = sos_name s, skd_kind = sosd_kind data,
        skd_arity = sosd_arity data, skd_func_unique_id = sosd_func_unique_id data,
        skd_ui_hidden = sosd_ui_hidden data\<rparr>) (sos_data s),
      sk_unique_id = sos_unique_id s\<rparr>)
     (map as_node_AttrFuncInputSpec (sos_inputs s))"

datatype AttributeValueChild = AttrFuncInputs "AttrFuncInputSpec list"

fun as_node_AttributeValueChild :: "AttributeValueChild \<Rightarrow> ('j, 'u, 'd) pkg_tree" where
  "as_node_AttributeValueChild (AttributeValueChild.AttrFuncInputs inputs) =
     NodeWithChildren Tree (PkgNode.AttributeValueChild AttributeValueChildNode.AttrFuncInputs)
       (map as_node_AttrFuncInputSpec inputs)"

definition as_node_AttributeValueSpec :: "'j AttributeValueSpec \<Rightarrow> ('j, 'u, 'd) pkg_tree" where
  "as_node_AttributeValueSpec s = NodeWithChildren Tree (PkgNode.AttributeValue
     \<lparr>av_backend_kind = avs_backend_kind s, av_code_base64 = avs_code_base64 s,
      av_func_binding_args = avs_func_binding_args s, av_func_unique_id = avs_func_unique_id s,
      av_handler = avs_handler s, av_output_stream = avs_output_stream s,
      av_parent_path = avs_parent_path s, av_path = avs_path s, av_response_type = avs_response_type s,
      av_is_proxy = avs_is_proxy s, av_sealed_proxy = avs_sealed_proxy s,
      av_component_specific = avs_component_specific s, av_unprocessed_value = avs_unprocessed_value s,
      av_value = avs_value s, av_implicit_value = avs_implicit_value s\<rparr>)
     [as_node_AttributeValueChild (AttributeValueChild.AttrFuncInputs (avs_inputs s))]"

datatype 'j ComponentChild =
    Attributes "'j AttributeValueSpec list"
  | InputSockets "'j AttributeValueSpec list"
  | OutputSockets "'j AttributeValueSpec list"
  | Position PositionSpec

fun as_node_ComponentChild :: "'j ComponentChild \<Rightarrow> ('j, 'u, 'd) pkg_tree" where
  "as_node_ComponentChild (ComponentChild.Attributes entries) =
     NodeWithChildren Tree (PkgNode.ComponentChild ComponentChildNode.Attributes)
       (map as_node_AttributeValueSpec entries)"
| "as_node_ComponentChild (ComponentChild.InputSockets entries) =
     NodeWithChildren Tree (PkgNode.ComponentChild ComponentChildNode.InputSockets)
       (map as_node_AttributeValueSpec entries)"
| "as_node_ComponentChild (ComponentChild.OutputSockets entries) =
     NodeWithChildren Tree (PkgNode.ComponentChild ComponentChildNode.OutputSockets)
       (map as_node_AttributeValueSpec entries)"
| "as_node_ComponentChild (ComponentChild.Position position) =
     NodeWithChildren Tree (PkgNode.ComponentChild ComponentChildNode.Position)
       [as_node_PositionSpec position]"

definition as_node_ComponentSpec :: "'j ComponentSpec \<Rightarrow> ('j, 'u, 'd) pkg_tree" where
  "as_node_ComponentSpec s = NodeWithChildren Tree (PkgNode.Component
     \<lparr>cn_name = cps_name s, cn_variant = cps_variant s, cn_needs_destroy = cps_needs_destroy s,
      cn_deletion_user_pk = cps_deletion_user_pk s, cn_unique_id = cps_unique_id s,
      cn_deleted = cps_deleted s\<rparr>)
     [as_node_ComponentChild (ComponentChild.Attributes (cps_attributes s)),
      as_node_ComponentChild (ComponentChild.InputSockets (cps_input_sockets s)),
      as_node_ComponentChild (ComponentChild.OutputSockets (cps_output_sockets s)),
      as_node_ComponentChild (ComponentChild.Position (cps_position s))]"

section \<open>Props\<close>

definition PropSpecData_node ::
  "PropSpecWidgetKind \<Rightarrow> ('j, 'u) PropSpecData \<Rightarrow> ('j, 'u) PropNodeData" where
  "PropSpecData_node default_kind data =
     \<lparr>pd_name = psd_name data, pd_func_unique_id = psd_func_unique_id data,
      pd_default_value = psd_default_value data,
      pd_widget_kind = unwrap_or default_kind (psd_widget_kind data),
      pd_widget_options = psd_widget_options data, pd_doc_link = psd_doc_link data,
      pd_hidden = unwrap_or False (psd_hidden data)\<rparr>"

definition prop_validations :: "('j, 'u) PropSpecData option \<Rightarrow> ('j, 'u, 'd) pkg_tree" where
  "prop_validations data = NodeWithChildren Tree (PkgNode.PropChild PropChildNode.Validations)
     (map as_node_ValidationSpec (unwrap_or [] (Option.bind data psd_validations)))"

definition prop_inputs :: "('j, 'u) PropSpecData option \<Rightarrow> ('j, 'u, 'd) pkg_tree" where
  "prop_inputs data = NodeWithChildren Tree (PkgNode.PropChild PropChildNode.AttrFuncInputs)
     (map as_node_AttrFuncInputSpec (unwrap_or [] (Option.bind data psd_inputs)))"

definition prop_map_key_funcs :: "MapKeyFuncSpec list option \<Rightarrow> ('j, 'u, 'd) pkg_tree" where
  "prop_map_key_funcs funcs = NodeWithChildren Tree (PkgNode.PropChild PropChildNode.MapKeyFuncs)
     (map as_node_MapKeyFuncSpec (unwrap_or [] funcs))"

fun as_node_PropSpec :: "('j, 'u) PropSpec \<Rightarrow> ('j, 'u, 'd) pkg_tree" where
  "as_node_PropSpec (PropSpec.String name data u) =
     NodeWithChildren Tree (PkgNode.Prop (PropNode.String name
         (map_option (PropSpecData_node (PropSpecWidgetKind_from (PropSpec.String name data u))) data) u))
       [prop_validations data, prop_inputs data]"
| "as_node_PropSpec (PropSpec.Number name data u) =
     NodeWithChildren Tree (PkgNode.Prop (PropNode.Integer name
         (map_option (PropSpecData_node (PropSpecWidgetKind_from (PropSpec.Number name data u))) data) u))
       [prop_validations data, prop_inputs data]"
| "as_node_PropSpec (PropSpec.Boolean name data u) =
     NodeWithChildren Tree (PkgNode.Prop (PropNode.Boolean name
         (map_option (PropSpecData_node (PropSpecWidgetKind_from (PropSpec.Boolean name data u))) data) u))
       [prop_validations data, prop_inputs data]"
| "as_node_PropSpec (PropSpec.Map name data u type_prop map_key_funcs) =
     NodeWithChildren Tree (PkgNode.Prop (PropNode.Map name
         (map_option (PropSpecData_node
            (PropSpecWidgetKind_from (PropSpec.Map name data u type_prop map_key_funcs))) data) u))
       [prop_map_key_funcs map_key_funcs,
        NodeWithChildren Tree (PkgNode.PropChild PropChildNode.Props) [as_node_PropSpec type_prop],
        prop_validations data, prop_inputs data]"
| "as_node_PropSpec (PropSpec.Array name data u type_prop) =
     NodeWithChildren Tree (PkgNode.Prop (PropNode.Array name
         (map_option (PropSpecData_node (PropSpecWidgetKind_from (PropSpec.Array name data u type_prop))) data) u))
       [NodeWithChildren Tree (PkgNode.PropChild PropChildNode.Props) [as_node_PropSpec type_prop],
        prop_validations data, prop_inputs data]"
| "as_node_PropSpec (PropSpec.Object name data u entries) =
     NodeWithChildren Tree (PkgNode.Prop (PropNode.Object name
         (map_option (PropSpecData_node (PropSpecWidgetKind_from (PropSpec.Object name data u entries))) data) u))
       [NodeWithChildren Tree (PkgNode.PropChild PropChildNode.Props) (map as_node_PropSpec entries),
        prop_validations data, prop_inputs data]"

section \<open>Schemas, change sets and packages\<close>

datatype ('j, 'u) SchemaVariantChild =
    ActionFuncs "ActionFuncSpec list"
  | Domain "('j, 'u) PropSpec"
  | LeafFunctions "LeafFunctionSpec list"
  | ResourceValue "('j, 'u) PropSpec"
  | SecretDefinition "('j, 'u) PropSpec"
  | Secrets "('j, 'u) PropSpec"
  | SiPropFuncs "SiPropFuncSpec list"
  | Sockets "SocketSpec list"

fun as_node_SchemaVariantChild :: "('j, 'u) SchemaVariantChild \<Rightarrow> ('j, 'u, 'd) pkg_tree" where
  "as_node_SchemaVariantChild (SchemaVariantChild.ActionFuncs action_funcs) =
     NodeWithChildren Tree (PkgNode.SchemaVariantChild SchemaVariantChildNode.ActionFuncs)
       (map as_node_ActionFuncSpec action_funcs)"
| "as_node_SchemaVariantChild (SchemaVariantChild.Domain domain) =
     NodeWithChildren Tree (PkgNode.SchemaVariantChild SchemaVariantChildNode.Domain)
       [as_node_PropSpec domain]"
| "as_node_SchemaVariantChild (SchemaVariantChild.Secrets secrets) =
     NodeWithChildren Tree (PkgNode.SchemaVariantChild SchemaVariantChildNode.Secrets)
       [as_node_PropSpec secrets]"
| "as_node_SchemaVariantChild (SchemaVariantChild.SecretDefinition secret_definition) =
     NodeWithChildren Tree (PkgNode.SchemaVariantChild SchemaVariantChildNode.SecretDefinition)
       [as_node_PropSpec secret_definition]"
| "as_node_SchemaVariantChild (SchemaVariantChild.ResourceValue resource_value) =
     NodeWithChildren Tree (PkgNode.SchemaVariantChild SchemaVariantChildNode.ResourceValue)
       [as_node_PropSpec resource_value]"
| "as_node_SchemaVariantChild (SchemaVariantChild.LeafFunctions entries) =
     NodeWithChildren Tree (PkgNode.SchemaVariantChild SchemaVariantChildNode.LeafFunctions)
       (map as_node_LeafFunctionSpec entries)"
| "as_node_SchemaVariantChild (SchemaVariantChild.Sockets sockets) =
     NodeWithChildren Tree (PkgNode.SchemaVariantChild SchemaVariantChildNode.Sockets)
       (map as_node_SocketSpec sockets)"
| "as_node_SchemaVariantChild (SchemaVariantChild.SiPropFuncs si_prop_funcs) =
     NodeWithChildren Tree (PkgNode.SchemaVariantChild SchemaVariantChildNode.SiPropFuncs)
       (map as_node_SiPropFuncSpec si_prop_funcs)"

definition as_node_SchemaVariantSpec :: "('j, 'u) SchemaVariantSpec \<Rightarrow> ('j, 'u, 'd) pkg_tree" where
  "as_node_SchemaVariantSpec s = NodeWithChildren Tree (PkgNode.SchemaVariant
     \<lparr>sv_name = vs_name s,
      sv_data = map_option (\<lambda>data. \<lparr>svd_name = vs_name s, svd_link = vsd_link data,
        svd_color = vsd_color data, svd_component_type = vsd_component_type data,
        svd_func_unique_id = vsd_func_unique_id data\<rparr>) (vs_data s),
      sv_unique_id = vs_unique_id s, sv_deleted = vs_deleted s\<rparr>)
     ([as_node_SchemaVariantChild (SchemaVariantChild.ActionFuncs (vs_action_funcs s)),
       as_node_SchemaVariantChild (SchemaVariantChild.Domain (vs_domain s)),
       as_node_SchemaVariantChild (SchemaVariantChild.ResourceValue (vs_resource_value s)),
       as_node_SchemaVariantChild (SchemaVariantChild.LeafFunctions (vs_leaf_functions s)),
       as_node_SchemaVariantChild (SchemaVariantChild.Sockets (vs_sockets s)),
       as_node_SchemaVariantChild (SchemaVariantChild.SiPropFuncs (vs_si_prop_funcs s)),
       as_node_SchemaVariantChild (SchemaVariantChild.Secrets (vs_secrets s))]
      @ (case vs_secret_definition s of
           Some secret_definition \<Rightarrow>
             [as_node_SchemaVariantChild (SchemaVariantChild.SecretDefinition secret_definition)]
         | None \<Rightarrow> []))"

definition as_node_SchemaSpec :: "('j, 'u) SchemaSpec \<Rightarrow> ('j, 'u, 'd) pkg_tree" where
  "as_node_SchemaSpec s = NodeWithChildren Tree (PkgNode.Schema
     \<lparr>sn_name = ss_name s,
      sn_data = map_option (\<lambda>data. \<lparr>sd_name = ssd_name data, sd_category = ssd_category data,
        sd_category_name = ssd_category_name data, sd_ui_hidden = ssd_ui_hidden data,
        sd_default_schema_variant = ssd_default_schema_variant data\<rparr>) (ss_data s),
      sn_unique_id = ss_unique_id s, sn_deleted = ss_deleted s\<rparr>)
     (map as_node_SchemaVariantSpec (ss_variants s))"

datatype ('j, 'u) ChangeSetChild =
    Components "'j ComponentSpec list"
  | Edges "EdgeSpec list"
  | Funcs "'u FuncSpec list"
  | Schemas "('j, 'u) SchemaSpec list"

fun as_node_ChangeSetChild :: "('j, 'u) ChangeSetChild \<Rightarrow> ('j, 'u, 'd) pkg_tree" where
  "as_node_ChangeSetChild (ChangeSetChild.Components entries) =
     NodeWithChildren Tree (PkgNode.ChangeSetChild ChangeSetChildNode.Components)
       (map as_node_ComponentSpec entries)"
| "as_node_ChangeSetChild (ChangeSetChild.Edges entries) =
     NodeWithChildren Tree (PkgNode.ChangeSetChild ChangeSetChildNode.Edges) (map as_node_EdgeSpec entries)"
| "as_node_ChangeSetChild (ChangeSetChild.Funcs entries) =
     NodeWithChildren Tree (PkgNode.ChangeSetChild ChangeSetChildNode.Funcs) (map as_node_FuncSpec entries)"
| "as_node_ChangeSetChild (ChangeSetChild.Schemas entries) =
     NodeWithChildren Tree (PkgNode.ChangeSetChild ChangeSetChildNode.Schemas)
       (map as_node_SchemaSpec entries)"

definition as_node_ChangeSetSpec :: "('j, 'u) ChangeSetSpec \<Rightarrow> ('j, 'u, 'd) pkg_tree" where
  "as_node_ChangeSetSpec s = NodeWithChildren Tree (PkgNode.ChangeSet
     \<lparr>cs_name = css_name s, cs_based_on_change_set = css_based_on_change_set s, cs_status = css_status s\<rparr>)
     [as_node_ChangeSetChild (ChangeSetChild.Components (css_components s)),
      as_node_ChangeSetChild (ChangeSetChild.Edges (css_edges s)),
      as_node_ChangeSetChild (ChangeSetChild.Funcs (css_funcs s)),
      as_node_ChangeSetChild (ChangeSetChild.Schemas (css_schemas s))]"

datatype ('j, 'u) PackageCategory =
    ChangeSets "('j, 'u) ChangeSetSpec list"
  | Funcs "'u FuncSpec list"
  | Schemas "('j, 'u) SchemaSpec list"

fun as_node_PackageCategory :: "('j, 'u) PackageCategory \<Rightarrow> ('j, 'u, 'd) pkg_tree" where
  "as_node_PackageCategory (PackageCategory.ChangeSets entries) =
     NodeWithChildren Tree (PkgNode.Category CategoryNode.ChangeSets) (map as_node_ChangeSetSpec entries)"
| "as_node_PackageCategory (PackageCategory.Funcs entries) =
     NodeWithChildren Tree (PkgNode.Category CategoryNode.Funcs) (map as_node_FuncSpec entries)"
| "as_node_PackageCategory (PackageCategory.Schemas entries) =
     NodeWithChildren Tree (PkgNode.Category CategoryNode.Schemas) (map as_node_SchemaSpec entries)"

definition as_node_PkgSpec :: "('j, 'u, 'd) PkgSpec \<Rightarrow> ('j, 'u, 'd) pkg_tree" where
  "as_node_PkgSpec s = NodeWithChildren Tree (PkgNode.Package
     \<lparr>pkg_kind = pks_kind s, pkg_name = pks_name s, pkg_version = pks_version s,
      pkg_description = pks_description s, pkg_created_at = pks_created_at s,
      pkg_created_by = pks_created_by s, pkg_default_change_set = pks_default_change_set s,
      pkg_workspace_pk = pks_workspace_pk s, pkg_workspace_name = pks_workspace_name s\<rparr>)
     (case pks_kind s of
        SiPkgKind.Module \<Rightarrow>
          [as_node_PackageCategory (PackageCategory.Schemas (pks_schemas s)),
           as_node_PackageCategory (PackageCategory.Funcs (pks_funcs s))]
      | SiPkgKind.WorkspaceBackup \<Rightarrow>
          [as_node_PackageCategory (PackageCategory.ChangeSets (pks_change_sets s))])"

end
