(* ===== verification/Pkg_Graph_Read.thy ===== *)
theory Pkg_Graph_Read
  imports Pkg_As_Node
begin

text \<open>
  The typed view of a package graph, \<open>lib/si-pkg/src/pkg/*.rs\<close>: for each kind of node a reader
  (\<open>from_graph\<close>), the accessors of its children and the conversion to the specification
  (\<open>TryFrom\<close>). A structure of the source holds the fields of its node, the hash of the node and its
  place in the graph; the graph itself, which the source keeps by reference, is an argument here.
  Indexing a graph by a node that it does not have is a panic.
\<close>

datatype SiPkgError =
    ComponentMissingPosition bytes
  | Graph GraphError
  | Io
  | Memory TarWriterError
  | NodeWithHashNotFound Hash
  | NodeWithNameNotFound bytes
  | PropRootMultipleFound SchemaVariantSpecPropRoot Hash
  | PropRootNotFound SchemaVariantSpecPropRoot Hash
  | PropTreeInvalid bytes
  | SchemaVariantChildNotFound bytes
  | SerdeJson
  | Spec SpecError
  | TarRead TarReadError
  | UnexpectedPkgNodeType bytes bytes
  | ValidationMissingField bytes
  | VisitProp
  | Panicked

type_synonym 'a pkg_result = "(SiPkgError, 'a) result"
type_synonym ('g, 'j, 'u, 'd) pkg_graph = "('g, ('j, 'u, 'd) PkgNode HashedNode) petgraph"

record 'n SiPkgItem =
  item_node :: 'n
  item_hash :: Hash
  item_source :: nat

section \<open>Access to the graph\<close>

definition node_at :: "('g, 'j, 'u, 'd) pkg_graph \<Rightarrow> 'g \<Rightarrow> nat \<Rightarrow> ('j, 'u, 'd) PkgNode HashedNode pkg_result"
  where
  "node_at R graph node_idx = ok_or Panicked (pg_node_weight R graph node_idx)"

text \<open>What every \<open>from_graph\<close> does first: the node has to be of the expected kind.\<close>

definition read_item ::
  "bytes \<Rightarrow> (('j, 'u, 'd) PkgNode \<Rightarrow> 'n option) \<Rightarrow> ('g, 'j, 'u, 'd) pkg_graph \<Rightarrow> 'g \<Rightarrow> nat \<Rightarrow>
   'n SiPkgItem pkg_result" where
  "read_item kind_str select R graph node_idx =
     rbind (node_at R graph node_idx) (\<lambda>hashed_node.
       case select (hn_inner hashed_node) of
         Some node \<Rightarrow> Inr \<lparr>item_node = node, item_hash = hn_hash hashed_node, item_source = node_idx\<rparr>
       | None \<Rightarrow> Inl (UnexpectedPkgNodeType kind_str (node_kind_str (hn_inner hashed_node))))"

text \<open>\<open>find\<close> over the neighbors of a node.\<close>

fun find_node ::
  "('g, 'j, 'u, 'd) pkg_graph \<Rightarrow> 'g \<Rightarrow> (('j, 'u, 'd) PkgNode \<Rightarrow> bool) \<Rightarrow> nat list \<Rightarrow> nat option pkg_result"
  where
  "find_node R graph matches [] = Inr None"
| "find_node R graph matches (node_idx # idxs) =
     rbind (node_at R graph node_idx) (\<lambda>hashed_node.
       if matches (hn_inner hashed_node) then Inr (Some node_idx)
       else find_node R graph matches idxs)"

text \<open>The children below the child node that names their role: the body of the four
  \<open>impl_.._children_from_graph\<close> macros.\<close>

definition children_from_graph ::
  "('g, 'j, 'u, 'd) pkg_graph \<Rightarrow> 'g \<Rightarrow> nat \<Rightarrow> (('j, 'u, 'd) PkgNode \<Rightarrow> bool) \<Rightarrow> (nat \<Rightarrow> 'a pkg_result) \<Rightarrow>
   'a list pkg_result" where
  "children_from_graph R graph node_idx matches from_graph =
     rbind (find_node R graph matches (pg_neighbors R graph node_idx)) (\<lambda>child_idxs.
       case child_idxs of
         Some child_idx \<Rightarrow> mapM from_graph (pg_neighbors R graph child_idx)
       | None \<Rightarrow> Inr [])"

section \<open>Inputs of functions\<close>

datatype SiPkgAttrFuncInput =
    InputSocket bytes bytes "bytes option" bool Hash nat
  | OutputSocket bytes bytes "bytes option" bool Hash nat
  | Prop bytes bytes "bytes option" bool Hash nat

definition SiPkgAttrFuncInput_from_graph ::
  "('g, 'j, 'u, 'd) pkg_graph \<Rightarrow> 'g \<Rightarrow> nat \<Rightarrow> SiPkgAttrFuncInput pkg_result" where
  "SiPkgAttrFuncInput_from_graph R graph node_idx =
     rbind (read_item ''attr_func_input'' (\<lambda>n. case n of PkgNode.AttrFuncInput x \<Rightarrow> Some x | _ \<Rightarrow> None)
       R graph node_idx) (\<lambda>item. Inr (case item_node item of
         AttrFuncInputNode.Prop name prop_path u d \<Rightarrow>
           SiPkgAttrFuncInput.Prop name prop_path u d (item_hash item) node_idx
       | AttrFuncInputNode.InputSocket name socket_name u d \<Rightarrow>
           SiPkgAttrFuncInput.InputSocket name socket_name u d (item_hash item) node_idx
       | AttrFuncInputNode.OutputSocket name socket_name u d \<Rightarrow>
           SiPkgAttrFuncInput.OutputSocket name socket_name u d (item_hash item) node_idx))"

definition AttrFuncInputSpec_try_from :: "SiPkgAttrFuncInput \<Rightarrow> AttrFuncInputSpec pkg_result" where
  "AttrFuncInputSpec_try_from v =
     (let (unique_id, deleted) = (case v of
            SiPkgAttrFuncInput.InputSocket _ _ u d _ _ \<Rightarrow> (u, d)
          | SiPkgAttrFuncInput.OutputSocket _ _ u d _ _ \<Rightarrow> (u, d)
          | SiPkgAttrFuncInput.Prop _ _ u d _ _ \<Rightarrow> (u, d));
          b = AttrFuncInputSpecBuilder_default\<lparr>afib_unique_id := unique_id, afib_deleted := deleted\<rparr>
      in map_err Spec (AttrFuncInputSpec_build (case v of
           SiPkgAttrFuncInput.Prop name prop_path _ _ _ _ \<Rightarrow>
             b\<lparr>afib_kind := Some AttrFuncInputSpecKind.Prop, afib_name := Some name,
               afib_prop_path := Some prop_path\<rparr>
         | SiPkgAttrFuncInput.InputSocket name socket_name _ _ _ _ \<Rightarrow>
             b\<lparr>afib_kind := Some AttrFuncInputSpecKind.InputSocket, afib_name := Some name,
               afib_socket_name := Some socket_name\<rparr>
         | SiPkgAttrFuncInput.OutputSocket name socket_name _ _ _ _ \<Rightarrow>
             b\<lparr>afib_kind := Some AttrFuncInputSpecKind.OutputSocket, afib_name := Some name,
               afib_socket_name := Some socket_name\<rparr>)))"

text \<open>The accessor \<open>inputs\<close> of map key functions, of functions of fixed props and of sockets.\<close>

definition inputs_of :: "('g, 'j, 'u, 'd) pkg_graph \<Rightarrow> 'g \<Rightarrow> nat \<Rightarrow> SiPkgAttrFuncInput list pkg_result" where
  "inputs_of R graph node_idx =
     mapM (SiPkgAttrFuncInput_from_graph R graph) (pg_neighbors R graph node_idx)"

section \<open>Functions\<close>

definition SiPkgFuncArgument_from_graph ::
  "('g, 'j, 'u, 'd) pkg_graph \<Rightarrow> 'g \<Rightarrow> nat \<Rightarrow> FuncArgumentNode SiPkgItem pkg_result" where
  "SiPkgFuncArgument_from_graph =
     read_item ''func_argument'' (\<lambda>n. case n of PkgNode.FuncArgument x \<Rightarrow> Some x | _ \<Rightarrow> None)"

definition FuncArgumentSpec_try_from :: "FuncArgumentNode SiPkgItem \<Rightarrow> FuncArgumentSpec pkg_result" where
  "FuncArgumentSpec_try_from v = map_err Spec (FuncArgumentSpec_build (FuncArgumentSpecBuilder_default
     \<lparr>fasb_name := Some (fa_name (item_node v)), fasb_kind := Some (fa_kind (item_node v)),
      fasb_element_kind := Some (fa_element_kind (item_node v))\<rparr>))"

definition SiPkgFunc_from_graph ::
  "('g, 'j, 'u, 'd) pkg_graph \<Rightarrow> 'g \<Rightarrow> nat \<Rightarrow> 'u FuncNode SiPkgItem pkg_result" where
  "SiPkgFunc_from_graph = read_item ''func'' (\<lambda>n. case n of PkgNode.Func x \<Rightarrow> Some x | _ \<Rightarrow> None)"

definition SiPkgFunc_arguments ::
  "('g, 'j, 'u, 'd) pkg_graph \<Rightarrow> 'g \<Rightarrow> 'u FuncNode SiPkgItem \<Rightarrow> FuncArgumentNode SiPkgItem list pkg_result"
  where
  "SiPkgFunc_arguments R graph v =
     mapM (SiPkgFuncArgument_from_graph R graph) (pg_neighbors R graph (item_source v))"

definition FuncSpec_try_from ::
  "('g, 'j, 'u, 'd) pkg_graph \<Rightarrow> 'g \<Rightarrow> 'u FuncNode SiPkgItem \<Rightarrow> 'u FuncSpec pkg_result" where
  "FuncSpec_try_from R graph v =
     (let node = item_node v in
      rbind (case fn_data node of
          None \<Rightarrow> Inr None
        | Some data \<Rightarrow> rbind (map_err Spec (FuncSpecData_build (FuncSpecDataBuilder_default
            \<lparr>fsdb_name := Some (fd_name data), fsdb_handler := Some (fd_handler data),
             fsdb_code_base64 := Some (fd_code_base64 data),
             fsdb_backend_kind := Some (fd_backend_kind data),
             fsdb_response_type := Some (fd_response_type data), fsdb_hidden := Some (fd_hidden data),
             fsdb_display_name := map_option Some (fd_display_name data),
             fsdb_description := map_option Some (fd_description data),
             fsdb_link := map_option Some (fd_link data)\<rparr>))) (\<lambda>d. Inr (Some d))) (\<lambda>data.
      rbind (SiPkgFunc_arguments R graph v) (\<lambda>arguments.
      rbind (mapM FuncArgumentSpec_try_from arguments) (\<lambda>argument_specs.
      map_err Spec (FuncSpec_build (FuncSpecBuilder_default
        \<lparr>fsb_name := Some (fn_name node), fsb_unique_id := Some (fn_unique_id node),
         fsb_deleted := Some (fn_deleted node), fsb_data := map_option Some data,
         fsb_arguments := pushed argument_specs\<rparr>))))))"

definition SiPkgMapKeyFunc_from_graph ::
  "('g, 'j, 'u, 'd) pkg_graph \<Rightarrow> 'g \<Rightarrow> nat \<Rightarrow> MapKeyFuncNode SiPkgItem pkg_result" where
  "SiPkgMapKeyFunc_from_graph =
     read_item ''map_key_func'' (\<lambda>n. case n of PkgNode.MapKeyFunc x \<Rightarrow> Some x | _ \<Rightarrow> None)"

definition MapKeyFuncSpec_try_from ::
  "('g, 'j, 'u, 'd) pkg_graph \<Rightarrow> 'g \<Rightarrow> MapKeyFuncNode SiPkgItem \<Rightarrow> MapKeyFuncSpec pkg_result" where
  "MapKeyFuncSpec_try_from R graph v =
     rbind (inputs_of R graph (item_source v)) (\<lambda>inputs.
     rbind (mapM AttrFuncInputSpec_try_from inputs) (\<lambda>input_specs.
     map_err Spec (MapKeyFuncSpec_build (MapKeyFuncSpecBuilder_default
       \<lparr>mkfsb_inputs := pushed input_specs, mkfsb_key := Some (mk_key (item_node v)),
        mkfsb_func_unique_id := Some (mk_func_unique_id (item_node v))\<rparr>))))"

definition SiPkgActionFunc_from_graph ::
  "('g, 'j, 'u, 'd) pkg_graph \<Rightarrow> 'g \<Rightarrow> nat \<Rightarrow> ActionFuncNode SiPkgItem pkg_result" where
  "SiPkgActionFunc_from_graph =
     read_item ''action_func'' (\<lambda>n. case n of PkgNode.ActionFunc x \<Rightarrow> Some x | _ \<Rightarrow> None)"

definition ActionFuncSpec_try_from :: "ActionFuncNode SiPkgItem \<Rightarrow> ActionFuncSpec pkg_result" where
  "ActionFuncSpec_try_from v = map_err Spec (ActionFuncSpec_build (ActionFuncSpecBuilder_default
     \<lparr>afsb_kind := Some (af_kind (item_node v)), afsb_deleted := Some (af_deleted (item_node v)),
      afsb_func_unique_id := Some (af_func_unique_id (item_node v)),
      afsb_unique_id := Some (af_unique_id (item_node v))\<rparr>))"

record SiPkgLeafFunction =
  splf_func_unique_id :: bytes
  splf_leaf_kind :: LeafKind
  splf_unique_id :: "bytes option"
  splf_deleted :: bool
  splf_inputs :: "LeafInputLocation list"
  splf_hash :: Hash
  splf_source :: nat

definition SiPkgLeafFunction_from_graph ::
  "('g, 'j, 'u, 'd) pkg_graph \<Rightarrow> 'g \<Rightarrow> nat \<Rightarrow> SiPkgLeafFunction pkg_result" where
  "SiPkgLeafFunction_from_graph R graph node_idx =
     rbind (read_item ''leaf_function'' (\<lambda>n. case n of PkgNode.LeafFunction x \<Rightarrow> Some x | _ \<Rightarrow> None)
       R graph node_idx) (\<lambda>item. let node = item_node item in
     Inr \<lparr>splf_func_unique_id = lf_func_unique_id node, splf_leaf_kind = lf_leaf_kind node,
       splf_unique_id = lf_unique_id node, splf_deleted = lf_deleted node,
       splf_inputs = (if lf_input_domain node then [LeafInputLocation.Domain] else [])
         @ (if lf_input_resource node then [LeafInputLocation.Resource] else [])
         @ (if lf_input_code node then [LeafInputLocation.Code] else [])
         @ (if lf_input_deleted_at node then [LeafInputLocation.DeletedAt] else []),
       splf_hash = item_hash item, splf_source = node_idx\<rparr>)"

definition LeafFunctionSpec_try_from :: "SiPkgLeafFunction \<Rightarrow> LeafFunctionSpec pkg_result" where
  "LeafFunctionSpec_try_from v = map_err Spec (LeafFunctionSpec_build (LeafFunctionSpecBuilder_default
     \<lparr>lfsb_leaf_kind := Some (splf_leaf_kind v), lfsb_func_unique_id := Some (splf_func_unique_id v),
      lfsb_unique_id := Some (splf_unique_id v), lfsb_deleted := Some (splf_deleted v),
      lfsb_inputs := Some (splf_inputs v)\<rparr>))"

definition SiPkgSiPropFunc_from_graph ::
  "('g, 'j, 'u, 'd) pkg_graph \<Rightarrow> 'g \<Rightarrow> nat \<Rightarrow> SiPropFuncNode SiPkgItem pkg_result" where
  "SiPkgSiPropFunc_from_graph =
     read_item ''si_prop_func'' (\<lambda>n. case n of PkgNode.SiPropFunc x \<Rightarrow> Some x | _ \<Rightarrow> None)"

definition SiPropFuncSpec_try_from ::
  "('g, 'j, 'u, 'd) pkg_graph \<Rightarrow> 'g \<Rightarrow> SiPropFuncNode SiPkgItem \<Rightarrow> SiPropFuncSpec pkg_result" where
  "SiPropFuncSpec_try_from R graph v =
     rbind (inputs_of R graph (item_source v)) (\<lambda>inputs.
     rbind (mapM AttrFuncInputSpec_try_from inputs) (\<lambda>input_specs.
     map_err Spec (SiPropFuncSpec_build (SiPropFuncSpecBuilder_default
       \<lparr>spfsb_inputs := pushed input_specs, spfsb_kind := Some (sp_kind (item_node v)),
        spfsb_unique_id := Some (sp_unique_id (item_node v)),
        spfsb_deleted := Some (sp_deleted (item_node v)),
        spfsb_func_unique_id := Some (sp_func_unique_id (item_node v))\<rparr>))))"

section \<open>Sockets\<close>

definition SiPkgSocket_from_graph ::
  "('g, 'j, 'u, 'd) pkg_graph \<Rightarrow> 'g \<Rightarrow> nat \<Rightarrow> SocketNode SiPkgItem pkg_result" where
  "SiPkgSocket_from_graph = read_item ''socket'' (\<lambda>n. case n of PkgNode.Socket x \<Rightarrow> Some x | _ \<Rightarrow> None)"

text \<open>The builder of the data is filled but never built, and the data never reaches the builder of the
  socket.\<close>

definition SocketSpec_try_from ::
  "('g, 'j, 'u, 'd) pkg_graph \<Rightarrow> 'g \<Rightarrow> SocketNode SiPkgItem \<Rightarrow> SocketSpec pkg_result" where
  "SocketSpec_try_from R graph v =
     rbind (inputs_of R graph (item_source v)) (\<lambda>inputs.
     rbind (mapM AttrFuncInputSpec_try_from inputs) (\<lambda>input_specs.
     map_err Spec (SocketSpec_build (SocketSpecBuilder_default
       \<lparr>sosb_name := Some (sk_name (item_node v)), sosb_unique_id := Some (sk_unique_id (item_node v)),
        sosb_inputs := pushed input_specs\<rparr>))))"

section \<open>Validations\<close>

datatype SiPkgValidation =
    CustomValidation bytes "bytes option" bool Hash nat
  | IntegerIsBetweenTwoIntegers int int "bytes option" bool Hash nat
  | IntegerIsNotEmpty "bytes option" bool Hash nat
  | StringEquals bytes "bytes option" bool Hash nat
  | StringHasPrefix bytes "bytes option" bool Hash nat
  | StringInStringArray "bytes list" bool "bytes option" bool Hash nat
  | StringIsHexColor "bytes option" bool Hash nat
  | StringIsNotEmpty "bytes option" bool Hash nat
  | StringIsValidIpAddr "bytes option" bool Hash nat

definition SiPkgValidation_from_graph ::
  "('g, 'j, 'u, 'd) pkg_graph \<Rightarrow> 'g \<Rightarrow> nat \<Rightarrow> SiPkgValidation pkg_result" where
  "SiPkgValidation_from_graph R graph node_idx =
     rbind (read_item ''validation'' (\<lambda>n. case n of PkgNode.Validation x \<Rightarrow> Some x | _ \<Rightarrow> None)
       R graph node_idx) (\<lambda>item.
     let node = item_node item; u = vn_unique_id node; d = vn_deleted node; h = item_hash item in
     case vn_kind node of
       ValidationSpecKind.IntegerIsBetweenTwoIntegers \<Rightarrow>
         rbind (ok_or (ValidationMissingField ''upper_bound'') (vn_upper_bound node)) (\<lambda>upper_bound.
         rbind (ok_or (ValidationMissingField ''upper_bound'') (vn_lower_bound node)) (\<lambda>lower_bound.
           Inr (SiPkgValidation.IntegerIsBetweenTwoIntegers lower_bound upper_bound u d h node_idx)))
     | ValidationSpecKind.IntegerIsNotEmpty \<Rightarrow> Inr (SiPkgValidation.IntegerIsNotEmpty u d h node_idx)
     | ValidationSpecKind.StringEquals \<Rightarrow>
         rbind (ok_or (ValidationMissingField ''expected_string'') (vn_expected_string node)) (\<lambda>expected.
           Inr (SiPkgValidation.StringEquals expected u d h node_idx))
     | ValidationSpecKind.StringHasPrefix \<Rightarrow>
         rbind (ok_or (ValidationMissingField ''expected_string'') (vn_expected_string node)) (\<lambda>expected.
           Inr (SiPkgValidation.StringHasPrefix expected u d h node_idx))
     | ValidationSpecKind.StringInStringArray \<Rightarrow>
         rbind (ok_or (ValidationMissingField ''expected_string_array'') (vn_expected_string_array node))
           (\<lambda>expected.
         rbind (ok_or (ValidationMissingField ''display_expected'') (vn_display_expected node)) (\<lambda>display.
           Inr (SiPkgValidation.StringInStringArray expected display u d h node_idx)))
     | ValidationSpecKind.StringIsValidIpAddr \<Rightarrow> Inr (SiPkgValidation.StringIsValidIpAddr u d h node_idx)
     | ValidationSpecKind.StringIsHexColor \<Rightarrow> Inr (SiPkgValidation.StringIsHexColor u d h node_idx)
     | ValidationSpecKind.StringIsNotEmpty \<Rightarrow> Inr (SiPkgValidation.StringIsNotEmpty u d h node_idx)
     | ValidationSpecKind.CustomValidation \<Rightarrow>
         rbind (ok_or (ValidationMissingField ''func_unique_id'') (vn_func_unique_id node)) (\<lambda>f.
           Inr (SiPkgValidation.CustomValidation f u d h node_idx)))"

definition ValidationSpec_try_from :: "SiPkgValidation \<Rightarrow> ValidationSpec pkg_result" where
  "ValidationSpec_try_from v =
     (let (u, d) = (case v of
            SiPkgValidation.CustomValidation _ u d _ _ \<Rightarrow> (u, d)
          | SiPkgValidation.IntegerIsBetweenTwoIntegers _ _ u d _ _ \<Rightarrow> (u, d)
          | SiPkgValidation.IntegerIsNotEmpty u d _ _ \<Rightarrow> (u, d)
          | SiPkgValidation.StringEquals _ u d _ _ \<Rightarrow> (u, d)
          | SiPkgValidation.StringHasPrefix _ u d _ _ \<Rightarrow> (u, d)
          | SiPkgValidation.StringInStringArray _ _ u d _ _ \<Rightarrow> (u, d)
          | SiPkgValidation.StringIsHexColor u d _ _ \<Rightarrow> (u, d)
          | SiPkgValidation.StringIsNotEmpty u d _ _ \<Rightarrow> (u, d)
          | SiPkgValidation.StringIsValidIpAddr u d _ _ \<Rightarrow> (u, d));
          b = ValidationSpecBuilder_default\<lparr>vab_unique_id := u, vab_deleted := d\<rparr>
      in map_err Spec (ValidationSpec_build (case v of
           SiPkgValidation.IntegerIsBetweenTwoIntegers lower_bound upper_bound _ _ _ _ \<Rightarrow>
             b\<lparr>vab_kind := Some ValidationSpecKind.IntegerIsBetweenTwoIntegers,
               vab_lower_bound := Some lower_bound, vab_upper_bound := Some upper_bound\<rparr>
         | SiPkgValidation.IntegerIsNotEmpty _ _ _ _ \<Rightarrow>
             b\<lparr>vab_kind := Some ValidationSpecKind.IntegerIsNotEmpty\<rparr>
         | SiPkgValidation.StringEquals expected _ _ _ _ \<Rightarrow>
             b\<lparr>vab_kind := Some ValidationSpecKind.StringEquals, vab_expected_string := Some expected\<rparr>
         | SiPkgValidation.StringHasPrefix expected _ _ _ _ \<Rightarrow>
             b\<lparr>vab_kind := Some ValidationSpecKind.StringHasPrefix, vab_expected_string := Some expected\<rparr>
         | SiPkgValidation.CustomValidation func_unique_id _ _ _ _ \<Rightarrow>
             b\<lparr>vab_kind := Some ValidationSpecKind.CustomValidation,
               vab_func_unique_id := Some func_unique_id\<rparr>
         | SiPkgValidation.StringInStringArray expected display_expected _ _ _ _ \<Rightarrow>
             b\<lparr>vab_kind := Some ValidationSpecKind.StringInStringArray,
               vab_expected_string_array := Some expected, vab_display_expected := Some display_expected\<rparr>
         | SiPkgValidation.StringIsValidIpAddr _ _ _ _ \<Rightarrow>
             b\<lparr>vab_kind := Some ValidationSpecKind.StringIsValidIpAddr\<rparr>
         | SiPkgValidation.StringIsHexColor _ _ _ _ \<Rightarrow>
             b\<lparr>vab_kind := Some ValidationSpecKind.StringIsHexColor\<rparr>
         | SiPkgValidation.StringIsNotEmpty _ _ _ _ \<Rightarrow>
             b\<lparr>vab_kind := Some ValidationSpecKind.StringIsNotEmpty\<rparr>)))"

section \<open>Components\<close>

definition SiPkgPosition_from_graph ::
  "('g, 'j, 'u, 'd) pkg_graph \<Rightarrow> 'g \<Rightarrow> nat \<Rightarrow> PositionNode SiPkgItem pkg_result" where
  "SiPkgPosition_from_graph = read_item ''position'' (\<lambda>n. case n of PkgNode.Position x \<Rightarrow> Some x | _ \<Rightarrow> None)"

definition PositionSpec_try_from :: "PositionNode SiPkgItem \<Rightarrow> PositionSpec pkg_result" where
  "PositionSpec_try_from v = map_err Spec (PositionSpec_build (PositionSpecBuilder_default
     \<lparr>pssb_x := Some (pos_x (item_node v)), pssb_y := Some (pos_y (item_node v)),
      pssb_height := Some (pos_height (item_node v)), pssb_width := Some (pos_width (item_node v))\<rparr>))"

definition SiPkgAttributeValue_from_graph ::
  "('g, 'j, 'u, 'd) pkg_graph \<Rightarrow> 'g \<Rightarrow> nat \<Rightarrow> 'j AttributeValueNode SiPkgItem pkg_result" where
  "SiPkgAttributeValue_from_graph =
     read_item ''attribute_value'' (\<lambda>n. case n of PkgNode.AttributeValue x \<Rightarrow> Some x | _ \<Rightarrow> None)"

definition SiPkgAttributeValue_inputs ::
  "('g, 'j, 'u, 'd) pkg_graph \<Rightarrow> 'g \<Rightarrow> 'j AttributeValueNode SiPkgItem \<Rightarrow> SiPkgAttrFuncInput list pkg_result"
  where
  "SiPkgAttributeValue_inputs R graph v = children_from_graph R graph (item_source v)
     (\<lambda>n. n = PkgNode.AttributeValueChild AttributeValueChildNode.AttrFuncInputs)
     (SiPkgAttrFuncInput_from_graph R graph)"

definition AttributeValueSpec_try_from ::
  "('g, 'j, 'u, 'd) pkg_graph \<Rightarrow> 'g \<Rightarrow> 'j AttributeValueNode SiPkgItem \<Rightarrow> 'j AttributeValueSpec pkg_result"
  where
  "AttributeValueSpec_try_from R graph v =
     (let node = item_node v in
      rbind (SiPkgAttributeValue_inputs R graph v) (\<lambda>inputs.
      rbind (mapM AttrFuncInputSpec_try_from inputs) (\<lambda>input_specs.
      map_err Spec (AttributeValueSpec_build (AttributeValueSpecBuilder_default
        \<lparr>avsb_parent_path := map_option Some (av_parent_path node),
         avsb_handler := map_option Some (av_handler node),
         avsb_code_base64 := map_option Some (av_code_base64 node),
         avsb_unprocessed_value := map_option Some (av_unprocessed_value node),
         avsb_value := map_option Some (av_value node),
         avsb_output_stream := map_option Some (av_output_stream node),
         avsb_path := Some (av_path node), avsb_func_unique_id := Some (av_func_unique_id node),
         avsb_func_binding_args := Some (av_func_binding_args node),
         avsb_backend_kind := Some (av_backend_kind node),
         avsb_response_type := Some (av_response_type node),
         avsb_sealed_proxy := Some (av_sealed_proxy node),
         avsb_component_specific := Some (av_component_specific node),
         avsb_inputs := pushed input_specs\<rparr>)))))"

definition SiPkgComponent_from_graph ::
  "('g, 'j, 'u, 'd) pkg_graph \<Rightarrow> 'g \<Rightarrow> nat \<Rightarrow> ComponentNode SiPkgItem pkg_result" where
  "SiPkgComponent_from_graph =
     read_item ''component'' (\<lambda>n. case n of PkgNode.Component x \<Rightarrow> Some x | _ \<Rightarrow> None)"

definition SiPkgComponent_values ::
  "ComponentChildNode \<Rightarrow> ('g, 'j, 'u, 'd) pkg_graph \<Rightarrow> 'g \<Rightarrow> ComponentNode SiPkgItem \<Rightarrow>
   'j AttributeValueNode SiPkgItem list pkg_result" where
  "SiPkgComponent_values child_node R graph v = children_from_graph R graph (item_source v)
     (\<lambda>n. n = PkgNode.ComponentChild child_node) (SiPkgAttributeValue_from_graph R graph)"

definition SiPkgComponent_position ::
  "('g, 'j, 'u, 'd) pkg_graph \<Rightarrow> 'g \<Rightarrow> ComponentNode SiPkgItem \<Rightarrow> PositionNode SiPkgItem list pkg_result" where
  "SiPkgComponent_position R graph v = children_from_graph R graph (item_source v)
     (\<lambda>n. n = PkgNode.ComponentChild ComponentChildNode.Position) (SiPkgPosition_from_graph R graph)"

definition ComponentSpec_try_from ::
  "('g, 'j, 'u, 'd) pkg_graph \<Rightarrow> 'g \<Rightarrow> ComponentNode SiPkgItem \<Rightarrow> 'j ComponentSpec pkg_result" where
  "ComponentSpec_try_from R graph v =
     (let node = item_node v in
      rbind (SiPkgComponent_values ComponentChildNode.Attributes R graph v) (\<lambda>attributes.
      rbind (mapM (AttributeValueSpec_try_from R graph) attributes) (\<lambda>attribute_specs.
      rbind (SiPkgComponent_values ComponentChildNode.InputSockets R graph v) (\<lambda>input_sockets.
      rbind (mapM (AttributeValueSpec_try_from R graph) input_sockets) (\<lambda>input_specs.
      rbind (SiPkgComponent_values ComponentChildNode.OutputSockets R graph v) (\<lambda>output_sockets.
      rbind (mapM (AttributeValueSpec_try_from R graph) output_sockets) (\<lambda>output_specs.
      rbind (SiPkgComponent_position R graph v) (\<lambda>positions.
      rbind (if positions = [] then Inl (ComponentMissingPosition (cn_name node))
             else Inr (last positions)) (\<lambda>position.
      rbind (PositionSpec_try_from position) (\<lambda>position_spec.
      map_err Spec (ComponentSpec_build (ComponentSpecBuilder_default
        \<lparr>cpsb_name := Some (cn_name node), cpsb_variant := Some (cn_variant node),
         cpsb_needs_destroy := Some (cn_needs_destroy node), cpsb_deleted := Some (cn_deleted node),
         cpsb_deletion_user_pk := map_option Some (cn_deletion_user_pk node),
         cpsb_attributes := pushed (attribute_specs @ input_specs @ output_specs),
         cpsb_position := Some position_spec\<rparr>))))))))))))"

section \<open>Edges\<close>

definition SiPkgEdge_from_graph ::
  "('g, 'j, 'u, 'd) pkg_graph \<Rightarrow> 'g \<Rightarrow> nat \<Rightarrow> EdgeNode SiPkgItem pkg_result" where
  "SiPkgEdge_from_graph = read_item ''edge'' (\<lambda>n. case n of PkgNode.Edge x \<Rightarrow> Some x | _ \<Rightarrow> None)"

definition EdgeSpec_try_from :: "EdgeNode SiPkgItem \<Rightarrow> EdgeSpec pkg_result" where
  "EdgeSpec_try_from v = map_err Spec (EdgeSpec_build (EdgeSpecBuilder_default
     \<lparr>esb_from_component_unique_id := Some (en_from_component_unique_id (item_node v)),
      esb_from_socket_name := Some (en_from_socket_name (item_node v)),
      esb_to_component_unique_id := Some (en_to_component_unique_id (item_node v)),
      esb_to_socket_name := Some (en_to_socket_name (item_node v))\<rparr>))"

section \<open>Props\<close>

datatype ('j, 'u) SiPkgProp =
    Array bytes "('j, 'u) PropNodeData option" "bytes option" Hash nat
  | Boolean bytes "('j, 'u) PropNodeData option" "bytes option" Hash nat
  | Map bytes "('j, 'u) PropNodeData option" "bytes option" Hash nat
  | Number bytes "('j, 'u) PropNodeData option" "bytes option" Hash nat
  | Object bytes "('j, 'u) PropNodeData option" "bytes option" Hash nat
  | String bytes "('j, 'u) PropNodeData option" "bytes option" Hash nat

definition SiPkgProp_from_graph ::
  "('g, 'j, 'u, 'd) pkg_graph \<Rightarrow> 'g \<Rightarrow> nat \<Rightarrow> ('j, 'u) SiPkgProp pkg_result" where
  "SiPkgProp_from_graph R graph node_idx =
     rbind (read_item ''prop'' (\<lambda>n. case n of PkgNode.Prop x \<Rightarrow> Some x | _ \<Rightarrow> None) R graph node_idx)
       (\<lambda>item. Inr (case item_node item of
         PropNode.String name data u \<Rightarrow> SiPkgProp.String name data u (item_hash item) node_idx
       | PropNode.Integer name data u \<Rightarrow> SiPkgProp.Number name data u (item_hash item) node_idx
       | PropNode.Boolean name data u \<Rightarrow> SiPkgProp.Boolean name data u (item_hash item) node_idx
       | PropNode.Map name data u \<Rightarrow> SiPkgProp.Map name data u (item_hash item) node_idx
       | PropNode.Array name data u \<Rightarrow> SiPkgProp.Array name data u (item_hash item) node_idx
       | PropNode.Object name data u \<Rightarrow> SiPkgProp.Object name data u (item_hash item) node_idx))"

fun SiPkgProp_name :: "('j, 'u) SiPkgProp \<Rightarrow> bytes" where
  "SiPkgProp_name (SiPkgProp.String name _ _ _ _) = name"
| "SiPkgProp_name (SiPkgProp.Number name _ _ _ _) = name"
| "SiPkgProp_name (SiPkgProp.Boolean name _ _ _ _) = name"
| "SiPkgProp_name (SiPkgProp.Map name _ _ _ _) = name"
| "SiPkgProp_name (SiPkgProp.Array name _ _ _ _) = name"
| "SiPkgProp_name (SiPkgProp.Object name _ _ _ _) = name"

fun SiPkgProp_data :: "('j, 'u) SiPkgProp \<Rightarrow> ('j, 'u) PropNodeData option" where
  "SiPkgProp_data (SiPkgProp.String _ data _ _ _) = data"
| "SiPkgProp_data (SiPkgProp.Number _ data _ _ _) = data"
| "SiPkgProp_data (SiPkgProp.Boolean _ data _ _ _) = data"
| "SiPkgProp_data (SiPkgProp.Map _ data _ _ _) = data"
| "SiPkgProp_data (SiPkgProp.Array _ data _ _ _) = data"
| "SiPkgProp_data (SiPkgProp.Object _ data _ _ _) = data"

fun SiPkgProp_source :: "('j, 'u) SiPkgProp \<Rightarrow> nat" where
  "SiPkgProp_source (SiPkgProp.String _ _ _ _ source) = source"
| "SiPkgProp_source (SiPkgProp.Number _ _ _ _ source) = source"
| "SiPkgProp_source (SiPkgProp.Boolean _ _ _ _ source) = source"
| "SiPkgProp_source (SiPkgProp.Map _ _ _ _ source) = source"
| "SiPkgProp_source (SiPkgProp.Array _ _ _ _ source) = source"
| "SiPkgProp_source (SiPkgProp.Object _ _ _ _ source) = source"

definition SiPkgProp_validations ::
  "('g, 'j, 'u, 'd) pkg_graph \<Rightarrow> 'g \<Rightarrow> ('j, 'u) SiPkgProp \<Rightarrow> SiPkgValidation list pkg_result" where
  "SiPkgProp_validations R graph v = children_from_graph R graph (SiPkgProp_source v)
     (\<lambda>n. n = PkgNode.PropChild PropChildNode.Validations) (SiPkgValidation_from_graph R graph)"

definition SiPkgProp_inputs ::
  "('g, 'j, 'u, 'd) pkg_graph \<Rightarrow> 'g \<Rightarrow> ('j, 'u) SiPkgProp \<Rightarrow> SiPkgAttrFuncInput list pkg_result" where
  "SiPkgProp_inputs R graph v = children_from_graph R graph (SiPkgProp_source v)
     (\<lambda>n. n = PkgNode.PropChild PropChildNode.AttrFuncInputs) (SiPkgAttrFuncInput_from_graph R graph)"

definition SiPkgProp_map_key_funcs ::
  "('g, 'j, 'u, 'd) pkg_graph \<Rightarrow> 'g \<Rightarrow> ('j, 'u) SiPkgProp \<Rightarrow> MapKeyFuncNode SiPkgItem list pkg_result" where
  "SiPkgProp_map_key_funcs R graph v = children_from_graph R graph (SiPkgProp_source v)
     (\<lambda>n. n = PkgNode.PropChild PropChildNode.MapKeyFuncs) (SiPkgMapKeyFunc_from_graph R graph)"

end
