(* ===== verification/Pkg_To_Spec.thy ===== *)
theory Pkg_To_Spec
  imports Pkg_Graph_Read
begin

text \<open>
  Packages as users see them, \<open>lib/si-pkg/src/pkg.rs\<close>, \<open>pkg/schema.rs\<close>, \<open>pkg/variant.rs\<close> and
  \<open>pkg/change_set.rs\<close>: loading a package from a specification or an archive, and giving back a
  specification (\<open>to_spec\<close>). The props of a schema variant are visited with an explicit stack and
  rebuilt from a flat list of builders by their paths. The loop of the visit ends because the graph is
  finite and has no cycles, which its code does not check; a run that does not end is \<open>None\<close>.
\<close>

section \<open>Results of loops that may not end\<close>

definition tbind ::
  "('e, 'a) result option \<Rightarrow> ('a \<Rightarrow> ('e, 'b) result option) \<Rightarrow> ('e, 'b) result option" where
  "tbind m f = (case m of None \<Rightarrow> None | Some (Inl e) \<Rightarrow> Some (Inl e) | Some (Inr x) \<Rightarrow> f x)"

fun tmapM :: "('a \<Rightarrow> ('e, 'b) result option) \<Rightarrow> 'a list \<Rightarrow> ('e, 'b list) result option" where
  "tmapM f [] = Some (Inr [])"
| "tmapM f (x # xs) = tbind (f x) (\<lambda>y. tbind (tmapM f xs) (\<lambda>ys. Some (Inr (y # ys))))"

lemma tbind_simps [simp]:
  "tbind (Some (Inr x)) f = f x" "tbind (Some (Inl e)) f = Some (Inl e)" "tbind None f = None"
  by (simp_all add: tbind_def)

lemma tmapM_Inr: "(\<And>x. x \<in> set xs \<Longrightarrow> f x = Some (Inr (g x))) \<Longrightarrow> tmapM f xs = Some (Inr (map g xs))"
  by (induction xs) simp_all

section \<open>Schema variants\<close>

definition SiPkgSchemaVariant_from_graph ::
  "('g, 'j, 'u, 'd) pkg_graph \<Rightarrow> 'g \<Rightarrow> nat \<Rightarrow> 'u SchemaVariantNode SiPkgItem pkg_result" where
  "SiPkgSchemaVariant_from_graph R graph node_idx =
     rbind (read_item ''schema_variant'' (\<lambda>n. case n of PkgNode.SchemaVariant x \<Rightarrow> Some x | _ \<Rightarrow> None)
       R graph node_idx) (\<lambda>item. let node = item_node item in
     Inr (item\<lparr>item_node := node\<lparr>sv_data := map_option (\<lambda>data. data\<lparr>svd_name := sv_name node\<rparr>) (sv_data node)\<rparr>\<rparr>))"

definition variant_children ::
  "SchemaVariantChildNode \<Rightarrow> (nat \<Rightarrow> 'a pkg_result) \<Rightarrow> ('g, 'j, 'u, 'd) pkg_graph \<Rightarrow> 'g \<Rightarrow>
   'u SchemaVariantNode SiPkgItem \<Rightarrow> 'a list pkg_result" where
  "variant_children child_node from_graph R graph v = children_from_graph R graph (item_source v)
     (\<lambda>n. n = PkgNode.SchemaVariantChild child_node) from_graph"

subsection \<open>Visiting the props of a variant\<close>

definition prop_stack_from_source ::
  "('g, 'j, 'u, 'd) pkg_graph \<Rightarrow> 'g \<Rightarrow> nat \<Rightarrow> 'i option \<Rightarrow> (('j, 'u) SiPkgProp \<times> 'i option) list pkg_result" where
  "prop_stack_from_source R graph node_idx parent_info =
     rbind (children_from_graph R graph node_idx (\<lambda>n. n = PkgNode.PropChild PropChildNode.Props)
       (SiPkgProp_from_graph R graph)) (\<lambda>props. Inr (map (\<lambda>prop. (prop, parent_info)) props))"

fun prop_root_child :: "SchemaVariantSpecPropRoot \<Rightarrow> SchemaVariantChildNode" where
  "prop_root_child SchemaVariantSpecPropRoot.Domain = SchemaVariantChildNode.Domain"
| "prop_root_child SchemaVariantSpecPropRoot.ResourceValue = SchemaVariantChildNode.ResourceValue"
| "prop_root_child SchemaVariantSpecPropRoot.Secrets = SchemaVariantChildNode.Secrets"
| "prop_root_child SchemaVariantSpecPropRoot.SecretDefinition = SchemaVariantChildNode.SecretDefinition"

definition get_prop_root_idx ::
  "('g, 'j, 'u, 'd) pkg_graph \<Rightarrow> 'g \<Rightarrow> 'u SchemaVariantNode SiPkgItem \<Rightarrow> SchemaVariantSpecPropRoot \<Rightarrow>
   nat option pkg_result" where
  "get_prop_root_idx R graph v prop_root =
     rbind (find_node R graph (\<lambda>n. n = PkgNode.SchemaVariantChild (prop_root_child prop_root))
       (pg_neighbors R graph (item_source v))) (\<lambda>maybe_node_index.
     if maybe_node_index \<noteq> None \<or> prop_root = SchemaVariantSpecPropRoot.Secrets then Inr maybe_node_index
     else Inl (SchemaVariantChildNotFound (SchemaVariantChildNode_kind_str (prop_root_child prop_root))))"

text \<open>The head of the list is the end of the vector, where the source pushes and pops.\<close>

partial_function (option) visit_props ::
  "('g, 'j, 'u, 'd) pkg_graph \<Rightarrow> 'g \<Rightarrow>
   (('j, 'u) SiPkgProp \<Rightarrow> 'i option \<Rightarrow> 's \<Rightarrow> ('i option \<times> 's) pkg_result) \<Rightarrow>
   (('j, 'u) SiPkgProp \<times> 'i option) list \<Rightarrow> 's \<Rightarrow> 's pkg_result option" where
  "visit_props R graph process_prop stack s =
     (case stack of
        [] \<Rightarrow> Some (Inr s)
      | (prop, parent_info) # stack1 \<Rightarrow>
          (case process_prop prop parent_info s of
             Inl e \<Rightarrow> Some (Inl e)
           | Inr (new_parent_info, s1) \<Rightarrow>
               (case prop_stack_from_source R graph (SiPkgProp_source prop) new_parent_info of
                  Inl e \<Rightarrow> Some (Inl e)
                | Inr entries \<Rightarrow> visit_props R graph process_prop (rev entries @ stack1) s1)))"

definition visit_prop_tree ::
  "('g, 'j, 'u, 'd) pkg_graph \<Rightarrow> 'g \<Rightarrow> 'u SchemaVariantNode SiPkgItem \<Rightarrow> SchemaVariantSpecPropRoot \<Rightarrow>
   (('j, 'u) SiPkgProp \<Rightarrow> 'i option \<Rightarrow> 's \<Rightarrow> ('i option \<times> 's) pkg_result) \<Rightarrow> 'i option \<Rightarrow> 's \<Rightarrow>
   's pkg_result option" where
  "visit_prop_tree R graph v prop_root process_prop parent_info context =
     (case get_prop_root_idx R graph v prop_root of
        Inl e \<Rightarrow> Some (Inl e)
      | Inr None \<Rightarrow> Some (Inr context)
      | Inr (Some prop_root_idx) \<Rightarrow>
          (case pg_neighbors R graph prop_root_idx of
             [] \<Rightarrow> Some (Inl (PropRootNotFound prop_root (item_hash v)))
           | [prop_root_node_idx] \<Rightarrow>
               (case prop_stack_from_source R graph prop_root_node_idx parent_info of
                  Inl e \<Rightarrow> Some (Inl e)
                | Inr stack \<Rightarrow> visit_props R graph process_prop (rev stack) context)
           | _ \<Rightarrow> Some (Inl (PropRootMultipleFound prop_root (item_hash v)))))"

subsection \<open>Rebuilding the props of a variant\<close>

record ('j, 'u) PropSpecVisitContext =
  prop_stack :: "(bytes \<times> ('j, 'u) PropSpecBuilder) list"
  prop_parents :: "bytes \<rightharpoonup> bytes"

definition PROP_PATH_SEPARATOR :: char where
  "PROP_PATH_SEPARATOR = CHR 0x0B"

definition prop_path :: "bytes option \<Rightarrow> bytes \<Rightarrow> bytes" where
  "prop_path parent_path name =
     (case parent_path of Some p \<Rightarrow> p @ [PROP_PATH_SEPARATOR] @ name | None \<Rightarrow> name)"

text \<open>The default value that is looked at, and the kind with what depends on it. \<open>to_value\<close> is
  \<open>serde_json::to_value\<close>.\<close>

fun prop_default_value :: "('j, 'u) SiPkgProp \<Rightarrow> 'j option" where
  "prop_default_value (SiPkgProp.Array _ data _ _ _) = Option.bind data pd_default_value"
| "prop_default_value (SiPkgProp.Boolean _ data _ _ _) = Option.bind data pd_default_value"
| "prop_default_value (SiPkgProp.Number _ data _ _ _) = Option.bind data pd_default_value"
| "prop_default_value _ = None"

definition set_default_value ::
  "'j option \<Rightarrow> ('j, 'u) PropSpecBuilder \<Rightarrow> ('j, 'u) PropSpecBuilder" where
  "set_default_value m b = (case m of Some dv \<Rightarrow> PropSpecBuilder_default_value dv b | None \<Rightarrow> b)"

definition builder_kind ::
  "('j \<Rightarrow> 'j option) \<Rightarrow> ('g, 'j, 'u, 'd) pkg_graph \<Rightarrow> 'g \<Rightarrow> ('j, 'u) SiPkgProp \<Rightarrow>
   ('j, 'u) PropSpecBuilder \<Rightarrow> ('j, 'u) PropSpecBuilder pkg_result" where
  "builder_kind to_value R graph spec b =
     (let default_value = prop_default_value spec in
      case spec of
        SiPkgProp.String _ _ _ _ _ \<Rightarrow>
          Inr (set_default_value default_value (b\<lparr>psb_kind := Some PropSpecKind.String\<rparr>))
      | SiPkgProp.Boolean _ _ _ _ _ \<Rightarrow>
          (case default_value of
             None \<Rightarrow> Inr (b\<lparr>psb_kind := Some PropSpecKind.Boolean\<rparr>)
           | Some dv \<Rightarrow> rbind (ok_or SiPkgError.SerdeJson (to_value dv)) (\<lambda>dv'.
               Inr (PropSpecBuilder_default_value dv' (b\<lparr>psb_kind := Some PropSpecKind.Boolean\<rparr>))))
      | SiPkgProp.Number _ _ _ _ _ \<Rightarrow>
          Inr (set_default_value default_value (b\<lparr>psb_kind := Some PropSpecKind.Number\<rparr>))
      | SiPkgProp.Object _ _ _ _ _ \<Rightarrow> Inr (b\<lparr>psb_kind := Some PropSpecKind.Object\<rparr>)
      | SiPkgProp.Array _ _ _ _ _ \<Rightarrow> Inr (b\<lparr>psb_kind := Some PropSpecKind.Array\<rparr>)
      | SiPkgProp.Map _ _ _ _ _ \<Rightarrow>
          rbind (SiPkgProp_map_key_funcs R graph spec) (\<lambda>map_key_funcs.
          rbind (mapM (MapKeyFuncSpec_try_from R graph) map_key_funcs) (\<lambda>specs.
            Inr (fold PropSpecBuilder_map_key_func specs (b\<lparr>psb_kind := Some PropSpecKind.Map\<rparr>)))))"

definition builder_data ::
  "('g, 'j, 'u, 'd) pkg_graph \<Rightarrow> 'g \<Rightarrow> ('j, 'u) SiPkgProp \<Rightarrow> ('j, 'u) PropSpecBuilder \<Rightarrow>
   ('j, 'u) PropSpecBuilder pkg_result" where
  "builder_data R graph spec b =
     (let b0 = b\<lparr>psb_name := Some (SiPkgProp_name spec)\<rparr> in
      case SiPkgProp_data spec of
        None \<Rightarrow> Inr b0
      | Some data \<Rightarrow>
          (let b1 = b0\<lparr>psb_has_data := True, psb_hidden := pd_hidden data,
                psb_widget_kind := Some (pd_widget_kind data)\<rparr>;
               b2 = (case pd_widget_options data of Some w \<Rightarrow> b1\<lparr>psb_widget_options := Some w\<rparr> | None \<Rightarrow> b1)
           in case pd_func_unique_id data of
                None \<Rightarrow> Inr b2
              | Some func_unique_id \<Rightarrow>
                  rbind (SiPkgProp_inputs R graph spec) (\<lambda>inputs.
                  rbind (mapM AttrFuncInputSpec_try_from inputs) (\<lambda>specs.
                    Inr (fold PropSpecBuilder_input specs
                      (PropSpecBuilder_func_unique_id func_unique_id b2))))))"

definition create_prop_stack ::
  "('j \<Rightarrow> 'j option) \<Rightarrow> ('g, 'j, 'u, 'd) pkg_graph \<Rightarrow> 'g \<Rightarrow> ('j, 'u) SiPkgProp \<Rightarrow> bytes option \<Rightarrow>
   ('j, 'u) PropSpecVisitContext \<Rightarrow> (bytes option \<times> ('j, 'u) PropSpecVisitContext) pkg_result" where
  "create_prop_stack to_value R graph spec parent_path ctx =
     (let path = prop_path parent_path (SiPkgProp_name spec) in
      rbind (builder_kind to_value R graph spec (PropSpecBuilder_default\<lparr>psb_has_data := False\<rparr>)) (\<lambda>b.
      rbind (builder_data R graph spec b) (\<lambda>builder.
      (let ctx1 = ctx\<lparr>prop_stack := (path, builder) # prop_stack ctx\<rparr> in
       case parent_path of
         None \<Rightarrow> Inr (Some path, ctx1)
       | Some parent_path' \<Rightarrow>
           (case prop_parents ctx path of
              Some _ \<Rightarrow> Inl (PropTreeInvalid ''Prop has more than one parent'')
            | None \<Rightarrow> Inr (Some path, ctx1\<lparr>prop_parents := (prop_parents ctx)(path \<mapsto> parent_path')\<rparr>))))))"

definition attach_children ::
  "('j, 'u) PropSpecBuilder \<Rightarrow> ('j, 'u) PropSpec list \<Rightarrow> ('j, 'u) PropSpecBuilder pkg_result" where
  "attach_children prop children =
     (case psb_kind prop of
        None \<Rightarrow> Inl (PropTreeInvalid ''Prop missing a kind'')
      | Some kind \<Rightarrow>
          if kind = PropSpecKind.Array \<or> kind = PropSpecKind.Map then
            if length children > 1 then
              Inl (PropTreeInvalid ''Array or map has more than one direct child'')
            else (case children of
                [] \<Rightarrow> Inl (PropTreeInvalid ''Array or map prop missing type prop'')
              | type_prop # _ \<Rightarrow> Inr (prop\<lparr>psb_type_prop := Some type_prop\<rparr>))
          else if kind = PropSpecKind.Object then Inr (prop\<lparr>psb_entries := children\<rparr>)
          else Inl (PropTreeInvalid ''Leaf prop (String, Number, Boolean) cannot have children''))"

fun build_props ::
  "SchemaVariantSpecPropRoot \<Rightarrow> (bytes \<rightharpoonup> bytes) \<Rightarrow> (bytes \<times> ('j, 'u) PropSpecBuilder) list \<Rightarrow>
   (bytes \<rightharpoonup> ('j, 'u) PropSpec list) \<Rightarrow> ('j, 'u) SchemaVariantSpecBuilder \<Rightarrow>
   ('j, 'u) SchemaVariantSpecBuilder pkg_result" where
  "build_props prop_root parents [] prop_children builder = Inr builder"
| "build_props prop_root parents ((path, prop) # stack) prop_children builder =
     rbind (case prop_children path of None \<Rightarrow> Inr prop | Some children \<Rightarrow> attach_children prop children)
       (\<lambda>prop'.
     rbind (map_err Spec (PropSpec_build prop')) (\<lambda>spec.
       case parents path of
         Some parent_path \<Rightarrow>
           build_props prop_root parents stack
             (prop_children(parent_path \<mapsto>
               (case prop_children parent_path of Some specs \<Rightarrow> specs @ [spec] | None \<Rightarrow> [spec]))) builder
       | None \<Rightarrow>
           rbind (ok_or Panicked (SchemaVariantSpecBuilder_prop prop_root spec builder))
             (build_props prop_root parents stack prop_children)))"

definition build_prop_specs ::
  "('j \<Rightarrow> 'j option) \<Rightarrow> ('g, 'j, 'u, 'd) pkg_graph \<Rightarrow> 'g \<Rightarrow> 'u SchemaVariantNode SiPkgItem \<Rightarrow>
   SchemaVariantSpecPropRoot \<Rightarrow> ('j, 'u) SchemaVariantSpecBuilder \<Rightarrow>
   ('j, 'u) SchemaVariantSpecBuilder pkg_result option" where
  "build_prop_specs to_value R graph v prop_root builder =
     tbind (visit_prop_tree R graph v prop_root (create_prop_stack to_value R graph) None
       \<lparr>prop_stack = [], prop_parents = Map.empty\<rparr>) (\<lambda>ctx.
     Some (build_props prop_root (prop_parents ctx) (prop_stack ctx) Map.empty builder))"

subsection \<open>The specification of a variant\<close>

definition SchemaVariant_builder ::
  "('g, 'j, 'u, 'd) pkg_graph \<Rightarrow> 'g \<Rightarrow> 'u SchemaVariantNode SiPkgItem \<Rightarrow>
   ('j, 'u) SchemaVariantSpecBuilder pkg_result" where
  "SchemaVariant_builder R graph v =
     (let node = item_node v in
      rbind (case sv_data node of
          None \<Rightarrow> Inr None
        | Some data \<Rightarrow> rbind (map_err Spec (SchemaVariantSpecData_build (SchemaVariantSpecDataBuilder_default
            \<lparr>vsdb_name := Some (sv_name node), vsdb_component_type := Some (svd_component_type data),
             vsdb_link := map_option Some (svd_link data), vsdb_color := map_option Some (svd_color data),
             vsdb_func_unique_id := Some (svd_func_unique_id data)\<rparr>))) (\<lambda>d. Inr (Some d))) (\<lambda>data.
      rbind (variant_children SchemaVariantChildNode.ActionFuncs (SiPkgActionFunc_from_graph R graph)
        R graph v) (\<lambda>action_funcs.
      rbind (mapM ActionFuncSpec_try_from action_funcs) (\<lambda>action_func_specs.
      rbind (variant_children SchemaVariantChildNode.Sockets (SiPkgSocket_from_graph R graph)
        R graph v) (\<lambda>sockets.
      rbind (mapM (SocketSpec_try_from R graph) sockets) (\<lambda>socket_specs.
      rbind (variant_children SchemaVariantChildNode.SiPropFuncs (SiPkgSiPropFunc_from_graph R graph)
        R graph v) (\<lambda>si_prop_funcs.
      rbind (mapM (SiPropFuncSpec_try_from R graph) si_prop_funcs) (\<lambda>si_prop_func_specs.
      Inr (SchemaVariantSpecBuilder_default
        \<lparr>vsb_name := Some (sv_name node), vsb_deleted := Some (sv_deleted node),
         vsb_unique_id := map_option Some (sv_unique_id node), vsb_data := map_option Some data,
         vsb_action_funcs := pushed action_func_specs, vsb_sockets := pushed socket_specs,
         vsb_si_prop_funcs := pushed si_prop_func_specs\<rparr>)))))))))"

definition SchemaVariant_to_spec ::
  "('j \<Rightarrow> 'j option) \<Rightarrow> ('g, 'j, 'u, 'd) pkg_graph \<Rightarrow> 'g \<Rightarrow> 'u SchemaVariantNode SiPkgItem \<Rightarrow>
   ('j, 'u) SchemaVariantSpec pkg_result option" where
  "SchemaVariant_to_spec to_value R graph v =
     tbind (Some (SchemaVariant_builder R graph v)) (\<lambda>b.
     tbind (build_prop_specs to_value R graph v SchemaVariantSpecPropRoot.Domain b) (\<lambda>b1.
     tbind (build_prop_specs to_value R graph v SchemaVariantSpecPropRoot.ResourceValue b1) (\<lambda>b2.
     Some (map_err Spec (SchemaVariantSpec_build b2)))))"

section \<open>Schemas and change sets\<close>

definition SiPkgSchema_from_graph ::
  "('g, 'j, 'u, 'd) pkg_graph \<Rightarrow> 'g \<Rightarrow> nat \<Rightarrow> SchemaNode SiPkgItem pkg_result" where
  "SiPkgSchema_from_graph = read_item ''schema'' (\<lambda>n. case n of PkgNode.Schema x \<Rightarrow> Some x | _ \<Rightarrow> None)"

definition SiPkgSchema_variants ::
  "('g, 'j, 'u, 'd) pkg_graph \<Rightarrow> 'g \<Rightarrow> SchemaNode SiPkgItem \<Rightarrow>
   'u SchemaVariantNode SiPkgItem list pkg_result" where
  "SiPkgSchema_variants R graph v =
     mapM (SiPkgSchemaVariant_from_graph R graph) (pg_neighbors R graph (item_source v))"

definition SiPkgSchema_to_spec ::
  "('j \<Rightarrow> 'j option) \<Rightarrow> ('g, 'j, 'u, 'd) pkg_graph \<Rightarrow> 'g \<Rightarrow> SchemaNode SiPkgItem \<Rightarrow>
   ('j, 'u) SchemaSpec pkg_result option" where
  "SiPkgSchema_to_spec to_value R graph v =
     (let node = item_node v in
      tbind (Some (case sn_data node of
          None \<Rightarrow> Inr None
        | Some data \<Rightarrow> rbind (map_err Spec (SchemaSpecData_build (SchemaSpecDataBuilder_default
            \<lparr>ssdb_name := Some (sn_name node), ssdb_category_name := map_option Some (sd_category_name data),
             ssdb_default_schema_variant := map_option Some (sd_default_schema_variant data),
             ssdb_ui_hidden := Some (sd_ui_hidden data),
             ssdb_category := Some (sd_category data)\<rparr>))) (\<lambda>d. Inr (Some d)))) (\<lambda>data.
      tbind (Some (SiPkgSchema_variants R graph v)) (\<lambda>variants.
      tbind (tmapM (SchemaVariant_to_spec to_value R graph) variants) (\<lambda>variant_specs.
      Some (map_err Spec (SchemaSpec_build (SchemaSpecBuilder_default
        \<lparr>ssb_name := Some (sn_name node), ssb_unique_id := map_option Some (sn_unique_id node),
         ssb_data := map_option Some data, ssb_variants := pushed variant_specs\<rparr>)))))))"

definition SiPkgChangeSet_from_graph ::
  "('g, 'j, 'u, 'd) pkg_graph \<Rightarrow> 'g \<Rightarrow> nat \<Rightarrow> ChangeSetNode SiPkgItem pkg_result" where
  "SiPkgChangeSet_from_graph =
     read_item ''change_set'' (\<lambda>n. case n of PkgNode.ChangeSet x \<Rightarrow> Some x | _ \<Rightarrow> None)"

definition change_set_children ::
  "ChangeSetChildNode \<Rightarrow> (nat \<Rightarrow> 'a pkg_result) \<Rightarrow> ('g, 'j, 'u, 'd) pkg_graph \<Rightarrow> 'g \<Rightarrow>
   ChangeSetNode SiPkgItem \<Rightarrow> 'a list pkg_result" where
  "change_set_children child_node from_graph R graph v = children_from_graph R graph (item_source v)
     (\<lambda>n. n = PkgNode.ChangeSetChild child_node) from_graph"

definition SiPkgChangeSet_to_spec ::
  "('j \<Rightarrow> 'j option) \<Rightarrow> ('g, 'j, 'u, 'd) pkg_graph \<Rightarrow> 'g \<Rightarrow> ChangeSetNode SiPkgItem \<Rightarrow>
   ('j, 'u) ChangeSetSpec pkg_result option" where
  "SiPkgChangeSet_to_spec to_value R graph v =
     tbind (Some (change_set_children ChangeSetChildNode.Funcs (SiPkgFunc_from_graph R graph) R graph v))
       (\<lambda>funcs.
     tbind (Some (mapM (FuncSpec_try_from R graph) funcs)) (\<lambda>func_specs.
     tbind (Some (change_set_children ChangeSetChildNode.Schemas (SiPkgSchema_from_graph R graph) R graph v))
       (\<lambda>schemas.
     tbind (tmapM (SiPkgSchema_to_spec to_value R graph) schemas) (\<lambda>schema_specs.
     Some (map_err Spec (ChangeSetSpec_build (ChangeSetSpecBuilder_default
       \<lparr>cssb_name := Some (cs_name (item_node v)), cssb_status := Some (cs_status (item_node v)),
        cssb_based_on_change_set := map_option Some (cs_based_on_change_set (item_node v)),
        cssb_funcs := pushed func_specs, cssb_schemas := pushed schema_specs\<rparr>)))))))"

section \<open>Packages\<close>

definition category_node_idxs ::
  "CategoryNode \<Rightarrow> ('g, 'j, 'u, 'd) pkg_graph \<Rightarrow> 'g \<Rightarrow> nat \<Rightarrow> nat list pkg_result" where
  "category_node_idxs category_node R graph root_idx =
     rbind (find_node R graph (\<lambda>n. n = PkgNode.Category category_node) (pg_neighbors R graph root_idx))
       (\<lambda>node_idx. Inr (case node_idx of Some i \<Rightarrow> pg_neighbors R graph i | None \<Rightarrow> []))"

definition SiPkg_metadata ::
  "('g, 'j, 'u, 'd) pkg_graph \<Rightarrow> 'g ObjectTree \<Rightarrow> 'd PackageNode SiPkgItem pkg_result" where
  "SiPkg_metadata R tree =
     read_item ''package'' (\<lambda>n. case n of PkgNode.Package x \<Rightarrow> Some x | _ \<Rightarrow> None)
       R (ot_graph tree) (ot_root_idx tree)"

definition SiPkg_hash :: "('g, 'j, 'u, 'd) pkg_graph \<Rightarrow> 'g ObjectTree \<Rightarrow> Hash pkg_result" where
  "SiPkg_hash R tree = rbind (SiPkg_metadata R tree) (\<lambda>metadata. Inr (item_hash metadata))"

definition SiPkg_funcs ::
  "('g, 'j, 'u, 'd) pkg_graph \<Rightarrow> 'g ObjectTree \<Rightarrow> 'u FuncNode SiPkgItem list pkg_result" where
  "SiPkg_funcs R tree =
     rbind (category_node_idxs CategoryNode.Funcs R (ot_graph tree) (ot_root_idx tree))
       (mapM (SiPkgFunc_from_graph R (ot_graph tree)))"

definition SiPkg_schemas ::
  "('g, 'j, 'u, 'd) pkg_graph \<Rightarrow> 'g ObjectTree \<Rightarrow> SchemaNode SiPkgItem list pkg_result" where
  "SiPkg_schemas R tree =
     rbind (category_node_idxs CategoryNode.Schemas R (ot_graph tree) (ot_root_idx tree))
       (mapM (SiPkgSchema_from_graph R (ot_graph tree)))"

definition SiPkg_change_sets ::
  "('g, 'j, 'u, 'd) pkg_graph \<Rightarrow> 'g ObjectTree \<Rightarrow> ChangeSetNode SiPkgItem list pkg_result" where
  "SiPkg_change_sets R tree =
     rbind (category_node_idxs CategoryNode.ChangeSets R (ot_graph tree) (ot_root_idx tree))
       (mapM (SiPkgChangeSet_from_graph R (ot_graph tree)))"

definition SiPkg_funcs_by_unique_id ::
  "('g, 'j, 'u, 'd) pkg_graph \<Rightarrow> 'g ObjectTree \<Rightarrow> (bytes \<rightharpoonup> 'u FuncNode SiPkgItem) pkg_result" where
  "SiPkg_funcs_by_unique_id R tree =
     rbind (SiPkg_funcs R tree) (\<lambda>funcs.
       Inr (fold (\<lambda>func m. m(fn_unique_id (item_node func) \<mapsto> func)) funcs Map.empty))"

fun idx_for ::
  "('g, 'j, 'u, 'd) pkg_graph \<Rightarrow> 'g \<Rightarrow> (('j, 'u, 'd) PkgNode HashedNode \<Rightarrow> bool) \<Rightarrow> SiPkgError \<Rightarrow> nat list \<Rightarrow>
   nat pkg_result" where
  "idx_for R graph found missing [] = Inl missing"
| "idx_for R graph found missing (node_idx # idxs) =
     rbind (node_at R graph node_idx) (\<lambda>hashed_node.
       if found hashed_node then Inr node_idx else idx_for R graph found missing idxs)"

definition SiPkg_schema_by_name ::
  "('g, 'j, 'u, 'd) pkg_graph \<Rightarrow> 'g ObjectTree \<Rightarrow> bytes \<Rightarrow> SchemaNode SiPkgItem pkg_result" where
  "SiPkg_schema_by_name R tree name =
     rbind (category_node_idxs CategoryNode.Schemas R (ot_graph tree) (ot_root_idx tree)) (\<lambda>idxs.
     rbind (idx_for R (ot_graph tree) (\<lambda>n. PkgNode_name (hn_inner n) = name) (NodeWithNameNotFound name) idxs)
       (SiPkgSchema_from_graph R (ot_graph tree)))"

definition SiPkg_schema_by_hash ::
  "('g, 'j, 'u, 'd) pkg_graph \<Rightarrow> 'g ObjectTree \<Rightarrow> Hash \<Rightarrow> SchemaNode SiPkgItem pkg_result" where
  "SiPkg_schema_by_hash R tree hash =
     rbind (category_node_idxs CategoryNode.Schemas R (ot_graph tree) (ot_root_idx tree)) (\<lambda>idxs.
     rbind (idx_for R (ot_graph tree) (\<lambda>n. hn_hash n = hash) (NodeWithHashNotFound hash) idxs)
       (SiPkgSchema_from_graph R (ot_graph tree)))"

definition SiPkg_load_from_spec ::
  "('j, 'u, 'd) externals \<Rightarrow> blake3 \<Rightarrow> ('p, ('j, 'u, 'd) PkgNode Node) petgraph \<Rightarrow> ('g, 'j, 'u, 'd) pkg_graph \<Rightarrow>
   ('j, 'u, 'd) PkgSpec \<Rightarrow> 'g ObjectTree pkg_result option" where
  "SiPkg_load_from_spec E B P R spec =
     map_option (map_err SiPkgError.Graph)
       (ObjectTree_create_from_root (write_PkgNode E) PkgNode_name B P R (as_node_PkgSpec spec))"

definition SiPkg_load_from_bytes ::
  "('j, 'u, 'd) externals \<Rightarrow> blake3 \<Rightarrow> ('g, 'j, 'u, 'd) pkg_graph \<Rightarrow> ('b, 'a) tar_crate \<Rightarrow> 'a \<Rightarrow>
   'g ObjectTree pkg_result option" where
  "SiPkg_load_from_bytes E B R T bytes =
     map_option (map_err TarRead) (read_from_tar (read_PkgNode E) B R T bytes)"

definition SiPkg_write_to_bytes ::
  "('j, 'u, 'd) externals \<Rightarrow> blake3 \<Rightarrow> ('g, 'j, 'u, 'd) pkg_graph \<Rightarrow> ('b, 'a) tar_crate \<Rightarrow> 'g ObjectTree \<Rightarrow>
   'a pkg_result" where
  "SiPkg_write_to_bytes E B R T tree =
     map_err Memory (TarWriter_new (write_PkgNode E) PkgNode_name B R T tree)"

text \<open>\<open>now\<close> is the time a builder would take for a package without a creation time.\<close>

definition SiPkg_to_spec ::
  "'d \<Rightarrow> ('j \<Rightarrow> 'j option) \<Rightarrow> ('g, 'j, 'u, 'd) pkg_graph \<Rightarrow> 'g ObjectTree \<Rightarrow>
   ('j, 'u, 'd) PkgSpec pkg_result option" where
  "SiPkg_to_spec now to_value R tree =
     tbind (Some (SiPkg_metadata R tree)) (\<lambda>metadata.
     let node = item_node metadata in
     tbind (Some (SiPkg_funcs R tree)) (\<lambda>funcs.
     tbind (Some (mapM (FuncSpec_try_from R (ot_graph tree)) funcs)) (\<lambda>func_specs.
     tbind (Some (SiPkg_schemas R tree)) (\<lambda>schemas.
     tbind (tmapM (SiPkgSchema_to_spec to_value R (ot_graph tree)) schemas) (\<lambda>schema_specs.
     tbind (case pkg_kind node of
         SiPkgKind.WorkspaceBackup \<Rightarrow>
           tbind (Some (SiPkg_change_sets R tree)) (\<lambda>change_sets.
           tbind (tmapM (SiPkgChangeSet_to_spec to_value R (ot_graph tree)) change_sets) (\<lambda>specs.
             Some (Inr (map_option Some (pkg_default_change_set node), specs))))
       | SiPkgKind.Module \<Rightarrow> Some (Inr (None, []))) (\<lambda>(default_change_set, change_set_specs).
     Some (map_err Spec (PkgSpec_build now (PkgSpecBuilder_default
       \<lparr>pksb_kind := Some (pkg_kind node), pksb_name := Some (pkg_name node),
        pksb_description := Some (pkg_description node), pksb_version := Some (pkg_version node),
        pksb_created_at := Some (pkg_created_at node), pksb_created_by := Some (pkg_created_by node),
        pksb_workspace_pk := map_option Some (pkg_workspace_pk node),
        pksb_workspace_name := map_option Some (pkg_workspace_name node),
        pksb_funcs := pushed func_specs, pksb_schemas := pushed schema_specs,
        pksb_default_change_set := default_change_set,
        pksb_change_sets := pushed change_set_specs\<rparr>)))))))))"

end
