(* ===== verification/Prop_Path.thy ===== *)
theory Prop_Path
  imports Pkg_To_Spec "HOL-Library.Sublist"
begin

text \<open>
  Paths of props, \<open>PropPath\<close> of \<open>lib/dal/src/prop.rs\<close>: the names from the root to a prop joined by a vertical
  tab, which is the separator the packages of \<open>si-pkg\<close> use as well. The lemmas relate the text of a path
  to the list of its parts.
\<close>

section \<open>Joining and splitting text\<close>

fun join_parts :: "bytes \<Rightarrow> bytes list \<Rightarrow> bytes" where
  "join_parts sep [] = []"
| "join_parts sep [s] = s"
| "join_parts sep (s # t # ss) = s @ sep @ join_parts sep (t # ss)"

fun split_parts :: "char \<Rightarrow> bytes \<Rightarrow> bytes list" where
  "split_parts c [] = [[]]"
| "split_parts c (x # s) =
     (if x = c then [] # split_parts c s
      else (case split_parts c s of [] \<Rightarrow> [[x]] | p # ps \<Rightarrow> (x # p) # ps))"

lemma split_parts_not_Nil [simp]: "split_parts c s \<noteq> []"
  by (induction s) (auto split: list.splits)

lemma split_parts_plain [simp]: "c \<notin> set s \<Longrightarrow> split_parts c s = [s]"
  by (induction s) auto

lemma split_parts_append [simp]:
  "c \<notin> set s \<Longrightarrow> split_parts c (s @ c # t) = s # split_parts c t"
  by (induction s) auto

lemma split_join_parts:
  "ss \<noteq> [] \<Longrightarrow> list_all (\<lambda>s. c \<notin> set s) ss \<Longrightarrow> split_parts c (join_parts [c] ss) = ss"
  by (induction "[c]" ss rule: join_parts.induct) auto

lemma join_split_parts: "join_parts [c] (split_parts c s) = s"
proof (induction s)
  case (Cons x s)
  then show ?case
    by (cases "split_parts c s"; cases "tl (split_parts c s)") auto
qed simp

lemma split_parts_clean: "list_all (\<lambda>p. c \<notin> set p) (split_parts c s)"
  by (induction s) (auto split: list.splits)

section \<open>Paths\<close>

type_synonym PropPath = bytes

definition PropPath_new :: "bytes list \<Rightarrow> PropPath" where
  "PropPath_new parts = join_parts [PROP_PATH_SEPARATOR] parts"

definition as_parts :: "PropPath \<Rightarrow> bytes list" where
  "as_parts path = split_parts PROP_PATH_SEPARATOR path"

definition PropPath_join :: "PropPath \<Rightarrow> PropPath \<Rightarrow> PropPath" where
  "PropPath_join this path = PropPath_new [this, path]"

definition with_replaced_sep :: "bytes \<Rightarrow> PropPath \<Rightarrow> bytes" where
  "with_replaced_sep sep path = concat (map (\<lambda>c. if c = PROP_PATH_SEPARATOR then sep else [c]) path)"

definition is_descendant_of :: "PropPath \<Rightarrow> PropPath \<Rightarrow> bool" where
  "is_descendant_of this maybe_parent =
     (let this_parts = as_parts this; maybe_parent_parts = as_parts maybe_parent
      in list_all (\<lambda>(idx, parent_part). idx < length this_parts \<and> this_parts ! idx = parent_part)
           (enumerate 0 maybe_parent_parts))"

abbreviation part_ok :: "bytes \<Rightarrow> bool" where
  "part_ok part \<equiv> PROP_PATH_SEPARATOR \<notin> set part"

lemma as_parts_new [simp]:
  "parts \<noteq> [] \<Longrightarrow> list_all part_ok parts \<Longrightarrow> as_parts (PropPath_new parts) = parts"
  by (simp add: as_parts_def PropPath_new_def split_join_parts)

lemma PropPath_new_parts [simp]: "PropPath_new (as_parts path) = path"
  by (simp add: as_parts_def PropPath_new_def join_split_parts)

lemma enumerate_prefix:
  "list_all (\<lambda>(i, y). i < length xs \<and> xs ! i = y) (enumerate 0 ys) \<longleftrightarrow> prefix ys xs"
proof
  assume a: "list_all (\<lambda>(i, y). i < length xs \<and> xs ! i = y) (enumerate 0 ys)"
  then have nth: "i < length xs \<and> xs ! i = ys ! i" if "i < length ys" for i
    using that by (auto simp: list_all_length nth_enumerate_eq)
  then have "length ys \<le> length xs" by (metis le_less_linear less_irrefl)
  then have "ys = take (length ys) xs" using nth by (intro nth_equalityI) auto
  then show "prefix ys xs" by (metis take_is_prefix)
qed (auto simp: prefix_def list_all_length nth_enumerate_eq nth_append)

lemma is_descendant_prefix: "is_descendant_of p q \<longleftrightarrow> prefix (as_parts q) (as_parts p)"
  by (simp add: is_descendant_of_def enumerate_prefix)

lemma as_parts_join: "as_parts (PropPath_join p q) = as_parts p @ as_parts q"
proof -
  have "split_parts c (s @ c # t) = split_parts c s @ split_parts c t" for c s t
    by (induction s) (auto split: list.splits simp: Cons_eq_append_conv)
  then show ?thesis by (simp add: as_parts_def PropPath_join_def PropPath_new_def)
qed

end
