(* ===== verification/Variant_Definition.thy ===== *)
theory Variant_Definition
  imports Prop_Path "HOL-Library.AList"
begin

text \<open>
  Definitions of schema variants, \<open>lib/dal/src/schema/variant/definition.rs\<close>: what the function of an asset
  returns, and how it becomes a specification of \<open>si-pkg\<close>. Parsing and printing of URLs belong to the
  \<open>url\<close> crate: \<open>parse\<close> and \<open>show\<close> are parameters. JSON values are of a type parameter. The errors are those
  these conversions can give; the other variants of the enumeration wrap errors of the database. The
  metadata a definition is stored with is the row without its identifiers. \<open>PropCache\<close> keeps the identifiers
  of created props by parent and name.
\<close>

section \<open>Enumerations of the data access layer\<close>

datatype ComponentType = AggregationFrame | Component | ConfigurationFrame

datatype ComponentKind = Credential | Standard

datatype PropKind = Array | Boolean | Integer | Map | Object | String

datatype SocketArity = Many | One

datatype WidgetKind =
  Array | Checkbox | Color | ComboBox | Header | Map | Secret | Select | Text | TextArea

fun ComponentType_from :: "SchemaVariantSpecComponentType \<Rightarrow> ComponentType" where
  "ComponentType_from SchemaVariantSpecComponentType.Component = ComponentType.Component"
| "ComponentType_from SchemaVariantSpecComponentType.ConfigurationFrame = ComponentType.ConfigurationFrame"
| "ComponentType_from SchemaVariantSpecComponentType.AggregationFrame = ComponentType.AggregationFrame"

fun SchemaVariantSpecComponentType_from :: "ComponentType \<Rightarrow> SchemaVariantSpecComponentType" where
  "SchemaVariantSpecComponentType_from ComponentType.Component = SchemaVariantSpecComponentType.Component"
| "SchemaVariantSpecComponentType_from ComponentType.ConfigurationFrame =
     SchemaVariantSpecComponentType.ConfigurationFrame"
| "SchemaVariantSpecComponentType_from ComponentType.AggregationFrame =
     SchemaVariantSpecComponentType.AggregationFrame"

fun PropSpecKind_from :: "PropKind \<Rightarrow> PropSpecKind" where
  "PropSpecKind_from PropKind.Array = PropSpecKind.Array"
| "PropSpecKind_from PropKind.Boolean = PropSpecKind.Boolean"
| "PropSpecKind_from PropKind.String = PropSpecKind.String"
| "PropSpecKind_from PropKind.Integer = PropSpecKind.Number"
| "PropSpecKind_from PropKind.Object = PropSpecKind.Object"
| "PropSpecKind_from PropKind.Map = PropSpecKind.Map"

fun SocketSpecArity_from :: "SocketArity \<Rightarrow> SocketSpecArity" where
  "SocketSpecArity_from SocketArity.One = SocketSpecArity.One"
| "SocketSpecArity_from SocketArity.Many = SocketSpecArity.Many"

fun PropSpecWidgetKind_of :: "WidgetKind \<Rightarrow> PropSpecWidgetKind" where
  "PropSpecWidgetKind_of WidgetKind.Array = PropSpecWidgetKind.Array"
| "PropSpecWidgetKind_of WidgetKind.Checkbox = PropSpecWidgetKind.Checkbox"
| "PropSpecWidgetKind_of WidgetKind.Header = PropSpecWidgetKind.Header"
| "PropSpecWidgetKind_of WidgetKind.Map = PropSpecWidgetKind.Map"
| "PropSpecWidgetKind_of WidgetKind.Select = PropSpecWidgetKind.Select"
| "PropSpecWidgetKind_of WidgetKind.Color = PropSpecWidgetKind.Color"
| "PropSpecWidgetKind_of WidgetKind.Secret = PropSpecWidgetKind.Secret"
| "PropSpecWidgetKind_of WidgetKind.Text = PropSpecWidgetKind.Text"
| "PropSpecWidgetKind_of WidgetKind.TextArea = PropSpecWidgetKind.TextArea"
| "PropSpecWidgetKind_of WidgetKind.ComboBox = PropSpecWidgetKind.ComboBox"

section \<open>Definitions\<close>

datatype SchemaVariantDefinitionError =
    MoreThanOneVariant
  | NoVariants
  | Spec SpecError
  | Url
  | Unreachable

type_synonym 'a definition_result = "(SchemaVariantDefinitionError, 'a) result"

datatype ValueFrom =
    InputSocket bytes
  | OutputSocket bytes
  | Prop "bytes list"

record SiPropValueFrom =
  spvf_kind :: SiPropFuncSpecKind
  spvf_value_from :: ValueFrom

record SocketDefinition =
  sd_name :: bytes
  sd_arity :: "SocketArity option"
  sd_ui_hidden :: "bool option"
  sd_value_from :: "ValueFrom option"

record MapKeyFunc =
  mkf_key :: bytes
  mkf_value_from :: "ValueFrom option"

record 'j PropWidgetDefinition =
  pwd_kind :: WidgetKind
  pwd_options :: "'j option"

datatype 'j PropDefinition = PropDefinition
  (pd_name: bytes) (pd_kind: PropKind) (pd_doc_link_ref: "bytes option") (pd_doc_link: "bytes option")
  (pd_children: "'j PropDefinition list") (pd_entry: "'j PropDefinition option")
  (pd_widget: "'j PropWidgetDefinition option") (pd_value_from: "ValueFrom option")
  (pd_hidden: "bool option") (pd_validations: "ValidationSpec list option")
  (pd_default_value: "'j option") (pd_map_key_funcs: "MapKeyFunc list option")

record SchemaVariantDefinitionMetadataJson =
  svm_name :: bytes
  svm_menu_name :: "bytes option"
  svm_category :: bytes
  svm_color :: bytes
  svm_component_kind :: ComponentKind
  svm_component_type :: ComponentType
  svm_link :: "bytes option"
  svm_description :: "bytes option"

record 'j SchemaVariantDefinitionJson =
  svd_props :: "'j PropDefinition list"
  svd_secret_props :: "'j PropDefinition list"
  svd_secret_definition :: "'j PropDefinition list option"
  svd_resource_props :: "'j PropDefinition list"
  svd_si_prop_value_froms :: "SiPropValueFrom list"
  svd_input_sockets :: "SocketDefinition list"
  svd_output_sockets :: "SocketDefinition list"
  svd_doc_links :: "(bytes \<times> bytes) list option"

section \<open>Conversion to specifications\<close>

fun ValueFrom_to_spec :: "ValueFrom \<Rightarrow> AttrFuncInputSpec" where
  "ValueFrom_to_spec (ValueFrom.InputSocket socket_name) =
     AttrFuncInputSpec.InputSocket ''identity'' socket_name None False"
| "ValueFrom_to_spec (ValueFrom.Prop path) =
     AttrFuncInputSpec.Prop ''identity'' (PropPath_new path) None False"
| "ValueFrom_to_spec (ValueFrom.OutputSocket socket_name) =
     AttrFuncInputSpec.OutputSocket ''identity'' socket_name None False"

definition SiPropValueFrom_to_spec :: "bytes \<Rightarrow> SiPropValueFrom \<Rightarrow> SiPropFuncSpec" where
  "SiPropValueFrom_to_spec identity_func_unique_id v =
     \<lparr>spfs_kind = spvf_kind v, spfs_func_unique_id = identity_func_unique_id, spfs_unique_id = None,
      spfs_deleted = False, spfs_inputs = [ValueFrom_to_spec (spvf_value_from v)]\<rparr>"

definition MapKeyFunc_to_spec :: "bytes \<Rightarrow> MapKeyFunc \<Rightarrow> MapKeyFuncSpec definition_result" where
  "MapKeyFunc_to_spec identity_func_unique_id f =
     map_err Spec (MapKeyFuncSpec_build
       (MapKeyFuncSpecBuilder_default\<lparr>mkfsb_func_unique_id := Some identity_func_unique_id,
          mkfsb_key := Some (mkf_key f),
          mkfsb_inputs := map_option (\<lambda>v. [ValueFrom_to_spec v]) (mkf_value_from f)\<rparr>))"

record SocketSpecDataBuilder =
  sosdb_func_unique_id :: "bytes option option"
  sosdb_kind :: "SocketSpecKind option"
  sosdb_name :: "bytes option"
  sosdb_arity :: "SocketSpecArity option"
  sosdb_ui_hidden :: "bool option"

definition SocketSpecDataBuilder_default :: SocketSpecDataBuilder where
  "SocketSpecDataBuilder_default = \<lparr>sosdb_func_unique_id = None, sosdb_kind = None, sosdb_name = None,
     sosdb_arity = None, sosdb_ui_hidden = None\<rparr>"

definition SocketSpecData_build :: "SocketSpecDataBuilder \<Rightarrow> (SpecError, SocketSpecData) result" where
  "SocketSpecData_build b =
     rbind (ok_or (UninitializedField ''kind'') (sosdb_kind b)) (\<lambda>kind.
     rbind (ok_or (UninitializedField ''name'') (sosdb_name b)) (\<lambda>name.
     Inr \<lparr>sosd_func_unique_id = unwrap_or None (sosdb_func_unique_id b), sosd_kind = kind, sosd_name = name,
       sosd_arity = unwrap_or SocketSpecArity.Many (sosdb_arity b),
       sosd_ui_hidden = unwrap_or False (sosdb_ui_hidden b)\<rparr>))"

definition SocketDefinition_to_spec ::
  "bool \<Rightarrow> bytes \<Rightarrow> SocketDefinition \<Rightarrow> SocketSpec definition_result" where
  "SocketDefinition_to_spec is_input identity_func_unique_id s =
     (let data_builder = SocketSpecDataBuilder_default
            \<lparr>sosdb_name := Some (sd_name s),
             sosdb_kind := Some (if is_input then SocketSpecKind.Input else SocketSpecKind.Output),
             sosdb_arity := Some (case sd_arity s of Some arity \<Rightarrow> SocketSpecArity_from arity
                                  | None \<Rightarrow> SocketSpecArity.Many),
             sosdb_ui_hidden := Some (case sd_ui_hidden s of Some hidden \<Rightarrow> hidden | None \<Rightarrow> False),
             sosdb_func_unique_id := map_option (\<lambda>_. Some identity_func_unique_id) (sd_value_from s)\<rparr>
      in rbind (map_err Spec (SocketSpecData_build data_builder)) (\<lambda>data.
           map_err Spec (SocketSpec_build
             (SocketSpecBuilder_default\<lparr>sosb_name := Some (sd_name s),
                sosb_inputs := map_option (\<lambda>v. [ValueFrom_to_spec v]) (sd_value_from s),
                sosb_data := Some (Some data)\<rparr>))))"

text \<open>\<open>PropDefinition::to_spec\<close>, setter by setter: \<open>try_doc_link\<close> fails before the entries are looked at.\<close>

definition prop_setters ::
  "(bytes \<Rightarrow> 'u option) \<Rightarrow> 'j PropDefinition \<Rightarrow> ('j, 'u) PropSpecBuilder definition_result" where
  "prop_setters parse p =
     (let b = PropSpecBuilder_default\<lparr>psb_name := Some (pd_name p),
                psb_kind := Some (PropSpecKind_from (pd_kind p)), psb_has_data := True\<rparr>
      in rbind (case pd_doc_link p of
                  None \<Rightarrow> Inr b
                | Some doc_url \<Rightarrow> rbind (ok_or Url (parse doc_url)) (\<lambda>u. Inr (b\<lparr>psb_doc_link := Some u\<rparr>)))
           (\<lambda>b. let b = (case pd_default_value p of None \<Rightarrow> b | Some v \<Rightarrow> PropSpecBuilder_default_value v b)
                in Inr (case pd_validations p of
                          None \<Rightarrow> b
                        | Some vs \<Rightarrow> fold (\<lambda>v b. b\<lparr>psb_has_data := True,
                            psb_validations := psb_validations b @ [v]\<rparr>) vs b)))"

definition prop_finish ::
  "bytes \<Rightarrow> 'j PropDefinition \<Rightarrow> ('j, 'u) PropSpecBuilder \<Rightarrow> ('j, 'u) PropSpec definition_result" where
  "prop_finish identity_func_unique_id p b =
     (let b = (case pd_widget p of
                 None \<Rightarrow> b
               | Some widget \<Rightarrow>
                   let b = b\<lparr>psb_widget_kind := Some (PropSpecWidgetKind_of (pwd_kind widget))\<rparr>
                   in (case pwd_options widget of None \<Rightarrow> b | Some ops \<Rightarrow> b\<lparr>psb_widget_options := Some ops\<rparr>));
          b = (case pd_value_from p of
                 None \<Rightarrow> b
               | Some value_from \<Rightarrow>
                   PropSpecBuilder_input (ValueFrom_to_spec value_from)
                     (PropSpecBuilder_func_unique_id identity_func_unique_id b));
          b = (case pd_hidden p of None \<Rightarrow> b | Some hidden \<Rightarrow> b\<lparr>psb_hidden := hidden\<rparr>)
      in rbind (case pd_map_key_funcs p of
                  None \<Rightarrow> Inr b
                | Some fs \<Rightarrow> rbind (mapM (MapKeyFunc_to_spec identity_func_unique_id) fs)
                    (\<lambda>specs. Inr (fold PropSpecBuilder_map_key_func specs b)))
           (\<lambda>b. map_err Spec (PropSpec_build b)))"

fun PropDefinition_to_spec ::
  "(bytes \<Rightarrow> 'u option) \<Rightarrow> bytes \<Rightarrow> 'j PropDefinition \<Rightarrow> ('j, 'u) PropSpec definition_result"
and PropDefinitions_to_spec ::
  "(bytes \<Rightarrow> 'u option) \<Rightarrow> bytes \<Rightarrow> 'j PropDefinition list \<Rightarrow> ('j, 'u) PropSpec list definition_result" where
  "PropDefinition_to_spec parse func (PropDefinition n k r l children entry w v h vs d ms) =
     (let p = PropDefinition n k r l children entry w v h vs d ms
      in rbind (prop_setters parse p) (\<lambda>b.
         rbind (case k of
                  PropKind.Array \<Rightarrow>
                    (case entry of None \<Rightarrow> Inr b
                     | Some e \<Rightarrow> rbind (PropDefinition_to_spec parse func e)
                         (\<lambda>s. Inr (b\<lparr>psb_type_prop := Some s\<rparr>)))
                | PropKind.Map \<Rightarrow>
                    (case entry of None \<Rightarrow> Inr b
                     | Some e \<Rightarrow> rbind (PropDefinition_to_spec parse func e)
                         (\<lambda>s. Inr (b\<lparr>psb_type_prop := Some s\<rparr>)))
                | PropKind.Object \<Rightarrow>
                    rbind (PropDefinitions_to_spec parse func children)
                      (\<lambda>ss. Inr (b\<lparr>psb_entries := psb_entries b @ ss\<rparr>))
                | _ \<Rightarrow> Inr b)
           (prop_finish func p)))"
| "PropDefinitions_to_spec parse func [] = Inr []"
| "PropDefinitions_to_spec parse func (p # ps) =
     rbind (PropDefinition_to_spec parse func p) (\<lambda>s.
     rbind (PropDefinitions_to_spec parse func ps) (\<lambda>ss. Inr (s # ss)))"

fun add_props ::
  "SchemaVariantSpecPropRoot \<Rightarrow> ('j, 'u) PropSpec definition_result list \<Rightarrow>
   ('j, 'u) SchemaVariantSpecBuilder \<Rightarrow> ('j, 'u) SchemaVariantSpecBuilder definition_result" where
  "add_props root [] b = Inr b"
| "add_props root (r # rs) b =
     rbind r (\<lambda>spec. rbind (ok_or Unreachable (SchemaVariantSpecBuilder_prop root spec b)) (add_props root rs))"

definition variant_data ::
  "(bytes \<Rightarrow> 'u option) \<Rightarrow> SchemaVariantDefinitionMetadataJson \<Rightarrow> bytes \<Rightarrow>
   'u SchemaVariantSpecData definition_result" where
  "variant_data parse metadata asset_func_spec_unique_id =
     (let b = SchemaVariantSpecDataBuilder_default\<lparr>vsdb_name := Some ''v0'',
                vsdb_color := Some (Some (svm_color metadata)),
                vsdb_component_type := Some (SchemaVariantSpecComponentType_from (svm_component_type metadata))\<rparr>
      in rbind (case svm_link metadata of
                  None \<Rightarrow> Inr b
                | Some link \<Rightarrow> rbind (ok_or Url (parse link)) (\<lambda>u. Inr (b\<lparr>vsdb_link := Some (Some u)\<rparr>)))
           (\<lambda>b. map_err Spec (SchemaVariantSpecData_build
                  (b\<lparr>vsdb_func_unique_id := Some asset_func_spec_unique_id\<rparr>))))"

definition SchemaVariantDefinitionJson_to_spec ::
  "(bytes \<Rightarrow> 'u option) \<Rightarrow> SchemaVariantDefinitionMetadataJson \<Rightarrow> bytes \<Rightarrow> bytes \<Rightarrow>
   'j SchemaVariantDefinitionJson \<Rightarrow> ('j, 'u) SchemaVariantSpec definition_result" where
  "SchemaVariantDefinitionJson_to_spec parse metadata identity_func_unique_id asset_func_spec_unique_id d =
     (let conv = map (PropDefinition_to_spec parse identity_func_unique_id)
      in rbind (variant_data parse metadata asset_func_spec_unique_id) (\<lambda>data.
         rbind (Inr (SchemaVariantSpecBuilder_default\<lparr>vsb_name := Some ''v0'', vsb_data := Some (Some data),
                  vsb_si_prop_funcs := pushed
                    (map (SiPropValueFrom_to_spec identity_func_unique_id) (svd_si_prop_value_froms d))\<rparr>)) (\<lambda>b.
         rbind (add_props SchemaVariantSpecPropRoot.Domain (conv (svd_props d)) b) (\<lambda>b.
         rbind (add_props SchemaVariantSpecPropRoot.Secrets (conv (svd_secret_props d)) b) (\<lambda>b.
         rbind (case svd_secret_definition d of
                  None \<Rightarrow> Inr b
                | Some props \<Rightarrow> add_props SchemaVariantSpecPropRoot.SecretDefinition (conv props) b) (\<lambda>b.
         rbind (add_props SchemaVariantSpecPropRoot.ResourceValue (conv (svd_resource_props d)) b) (\<lambda>b.
         rbind (mapM (SocketDefinition_to_spec True identity_func_unique_id) (svd_input_sockets d)) (\<lambda>inputs.
         rbind (mapM (SocketDefinition_to_spec False identity_func_unique_id) (svd_output_sockets d)) (\<lambda>outputs.
         map_err Spec (SchemaVariantSpec_build
           (b\<lparr>vsb_sockets := pushed (inputs @ outputs)\<rparr>)))))))))))"

definition metadata_to_spec ::
  "('j, 'u) SchemaVariantSpec \<Rightarrow> SchemaVariantDefinitionMetadataJson \<Rightarrow> ('j, 'u) SchemaSpec definition_result" where
  "metadata_to_spec variant m =
     rbind (map_err Spec (SchemaSpecData_build
              (SchemaSpecDataBuilder_default\<lparr>ssdb_name := Some (svm_name m), ssdb_category := Some (svm_category m),
                 ssdb_category_name := map_option Some (svm_menu_name m)\<rparr>))) (\<lambda>data.
     map_err Spec (SchemaSpec_build
       (SchemaSpecBuilder_default\<lparr>ssb_name := Some (svm_name m), ssb_data := Some (Some data),
          ssb_variants := pushed [variant]\<rparr>)))"

definition metadata_from_spec ::
  "('u \<Rightarrow> bytes) \<Rightarrow> ('j, 'u) SchemaSpec \<Rightarrow> SchemaVariantDefinitionMetadataJson definition_result" where
  "metadata_from_spec show_url schema_spec =
     (if 1 < length (ss_variants schema_spec) then Inl MoreThanOneVariant else
      case ss_variants schema_spec of
        [] \<Rightarrow> Inl NoVariants
      | variant_spec # _ \<Rightarrow>
          (let schema_data = unwrap_or \<lparr>ssd_name = ss_name schema_spec, ssd_category = [],
                 ssd_category_name = None, ssd_ui_hidden = False,
                 ssd_default_schema_variant = vs_unique_id variant_spec\<rparr> (ss_data schema_spec);
               variant_spec_data = unwrap_or \<lparr>vsd_name = ''v0'', vsd_link = None, vsd_color = None,
                 vsd_component_type = SchemaVariantSpecComponentType.Component, vsd_func_unique_id = ''0''\<rparr>
                 (vs_data variant_spec)
           in Inr \<lparr>svm_name = ss_name schema_spec, svm_menu_name = ssd_category_name schema_data,
                svm_category = ssd_category schema_data,
                svm_color = unwrap_or ''000000'' (vsd_color variant_spec_data),
                svm_component_kind = ComponentKind.Standard,
                svm_component_type = ComponentType_from (vsd_component_type variant_spec_data),
                svm_link = map_option show_url (vsd_link variant_spec_data), svm_description = None\<rparr>))"

section \<open>The cache of props\<close>

datatype 'p SchemaVariantError = PropNotFoundInCache bytes 'p

type_synonym 'p PropCache = "((bytes \<times> 'p) \<times> 'p) list"

definition PropCache_get :: "bytes \<Rightarrow> 'p \<Rightarrow> 'p PropCache \<Rightarrow> ('p SchemaVariantError, 'p) result" where
  "PropCache_get prop_name parent_prop_id cache =
     ok_or (PropNotFoundInCache prop_name parent_prop_id) (map_of cache (prop_name, parent_prop_id))"

definition PropCache_insert :: "bytes \<times> 'p \<Rightarrow> 'p \<Rightarrow> 'p PropCache \<Rightarrow> 'p PropCache" where
  "PropCache_insert key v cache = AList.update key v cache"

section \<open>What definitions convert to\<close>

definition data_of_prop :: "(bytes \<Rightarrow> 'u option) \<Rightarrow> bytes \<Rightarrow> 'j PropDefinition \<Rightarrow> ('j, 'u) PropSpecData" where
  "data_of_prop parse func p =
     \<lparr>psd_name = pd_name p, psd_default_value = pd_default_value p,
      psd_validations = Some (unwrap_or [] (pd_validations p)),
      psd_func_unique_id = map_option (\<lambda>_. func) (pd_value_from p),
      psd_inputs = Some (case pd_value_from p of None \<Rightarrow> [] | Some v \<Rightarrow> [ValueFrom_to_spec v]),
      psd_widget_kind = map_option (\<lambda>w. PropSpecWidgetKind_of (pwd_kind w)) (pd_widget p),
      psd_widget_options = Option.bind (pd_widget p) pwd_options,
      psd_hidden = Some (unwrap_or False (pd_hidden p)),
      psd_doc_link = Option.bind (pd_doc_link p) parse\<rparr>"

definition map_key_specs :: "bytes \<Rightarrow> 'j PropDefinition \<Rightarrow> MapKeyFuncSpec list" where
  "map_key_specs func p =
     map (\<lambda>f. \<lparr>mkfs_key = mkf_key f, mkfs_func_unique_id = func,
                mkfs_inputs = (case mkf_value_from f of None \<Rightarrow> [] | Some v \<Rightarrow> [ValueFrom_to_spec v])\<rparr>)
       (unwrap_or [] (pd_map_key_funcs p))"

abbreviation link_ok :: "(bytes \<Rightarrow> 'u option) \<Rightarrow> bytes option \<Rightarrow> bool" where
  "link_ok parse link \<equiv> case link of None \<Rightarrow> True | Some l \<Rightarrow> parse l \<noteq> None"

text \<open>A definition can be converted when the documentation links of the props that are looked at are URLs and
  every array and map among them has an entry.\<close>

fun convertible :: "(bytes \<Rightarrow> 'u option) \<Rightarrow> 'j PropDefinition \<Rightarrow> bool" where
  "convertible parse (PropDefinition n k r l children entry w v h vs d ms) \<longleftrightarrow>
     link_ok parse l \<and>
     (case k of
        PropKind.Array \<Rightarrow> (case entry of None \<Rightarrow> False | Some e \<Rightarrow> convertible parse e)
      | PropKind.Map \<Rightarrow> (case entry of None \<Rightarrow> False | Some e \<Rightarrow> convertible parse e)
      | PropKind.Object \<Rightarrow> list_all (convertible parse) children
      | _ \<Rightarrow> True)"

text \<open>Its specification. A missing entry, which \<^const>\<open>convertible\<close> excludes, stands for itself as a
  string prop.\<close>

fun spec_of :: "(bytes \<Rightarrow> 'u option) \<Rightarrow> bytes \<Rightarrow> 'j PropDefinition \<Rightarrow> ('j, 'u) PropSpec" where
  "spec_of parse func (PropDefinition n k r l children entry w v h vs d ms) =
     (let p = PropDefinition n k r l children entry w v h vs d ms;
          data = Some (data_of_prop parse func p);
          type_prop = (case entry of None \<Rightarrow> PropSpec.String n None None | Some e \<Rightarrow> spec_of parse func e)
      in case k of
           PropKind.Array \<Rightarrow> PropSpec.Array n data None type_prop
         | PropKind.Map \<Rightarrow> PropSpec.Map n data None type_prop (Some (map_key_specs func p))
         | PropKind.Object \<Rightarrow> PropSpec.Object n data None (map (spec_of parse func) children)
         | PropKind.Boolean \<Rightarrow> PropSpec.Boolean n data None
         | PropKind.Integer \<Rightarrow> PropSpec.Number n data None
         | PropKind.String \<Rightarrow> PropSpec.String n data None)"

lemma MapKeyFuncs_to_spec:
  "mapM (MapKeyFunc_to_spec func) (unwrap_or [] (pd_map_key_funcs p)) = Inr (map_key_specs func p)"
  unfolding map_key_specs_def
  by (rule mapM_Inr) (auto simp: MapKeyFunc_to_spec_def spec_builds split: option.splits)

text \<open>The builder after the setters before and after the entries.\<close>

definition first_setters :: "(bytes \<Rightarrow> 'u option) \<Rightarrow> 'j PropDefinition \<Rightarrow> ('j, 'u) PropSpecBuilder" where
  "first_setters parse p = PropSpecBuilder_default\<lparr>psb_name := Some (pd_name p),
     psb_kind := Some (PropSpecKind_from (pd_kind p)), psb_has_data := True,
     psb_doc_link := Option.bind (pd_doc_link p) parse, psb_default_value := pd_default_value p,
     psb_validations := unwrap_or [] (pd_validations p)\<rparr>"

lemma fold_validations:
  "fold (\<lambda>v b. b\<lparr>psb_has_data := True, psb_validations := psb_validations b @ [v]\<rparr>) vs b =
   b\<lparr>psb_has_data := psb_has_data b \<or> vs \<noteq> [], psb_validations := psb_validations b @ vs\<rparr>"
  by (induction vs arbitrary: b) auto

lemma prop_setters_ok:
  "prop_setters parse p = (if link_ok parse (pd_doc_link p) then Inr (first_setters parse p) else Inl Url)"
  by (auto simp: prop_setters_def first_setters_def PropSpecBuilder_default_def PropSpecBuilder_default_value_def
        fold_validations ok_or_def Let_def split: option.splits)

lemma fold_map_key_func_spec:
  "fold PropSpecBuilder_map_key_func xs b =
   b\<lparr>psb_has_data := psb_has_data b \<or> xs \<noteq> [], psb_map_key_funcs := psb_map_key_funcs b @ xs\<rparr>"
  by (induction xs arbitrary: b) (auto simp: PropSpecBuilder_map_key_func_def)

definition finished :: "(bytes \<Rightarrow> 'u option) \<Rightarrow> bytes \<Rightarrow> 'j PropDefinition \<Rightarrow> ('j, 'u) PropSpec option \<Rightarrow>
    ('j, 'u) PropSpec list \<Rightarrow> ('j, 'u) PropSpec definition_result" where
  "finished parse func p t es =
    (let name = pd_name p; data = Some (data_of_prop parse func p);
         need_type = ok_or (Spec (UninitializedField ''type_prop'')) t
     in case pd_kind p of
          PropKind.Array \<Rightarrow> rbind need_type (\<lambda>t. Inr (PropSpec.Array name data None t))
        | PropKind.Map \<Rightarrow> rbind need_type (\<lambda>t. Inr (PropSpec.Map name data None t (Some (map_key_specs func p))))
        | PropKind.Object \<Rightarrow> Inr (PropSpec.Object name data None es)
        | PropKind.Boolean \<Rightarrow> Inr (PropSpec.Boolean name data None)
        | PropKind.Integer \<Rightarrow> Inr (PropSpec.Number name data None)
        | PropKind.String \<Rightarrow> Inr (PropSpec.String name data None))"

lemma prop_finish_eq:
  fixes parse :: "bytes \<Rightarrow> 'u option" and p :: "'j PropDefinition"
  shows "prop_finish func p (first_setters parse p\<lparr>psb_type_prop := t, psb_entries := es\<rparr>) =
    finished parse func p t es"
proof -
  define b :: "('j, 'u) PropSpecBuilder" where
    "b = first_setters parse p\<lparr>psb_type_prop := t, psb_entries := es,
       psb_widget_kind := map_option (\<lambda>w. PropSpecWidgetKind_of (pwd_kind w)) (pd_widget p),
       psb_widget_options := Option.bind (pd_widget p) pwd_options,
       psb_func_unique_id := map_option (\<lambda>_. func) (pd_value_from p),
       psb_inputs := (case pd_value_from p of None \<Rightarrow> [] | Some v \<Rightarrow> [ValueFrom_to_spec v]),
       psb_hidden := unwrap_or False (pd_hidden p), psb_map_key_funcs := map_key_specs func p\<rparr>"
  have fs: "mapM (MapKeyFunc_to_spec func) fs = Inr (map_key_specs func p)" if "pd_map_key_funcs p = Some fs" for fs
    using MapKeyFuncs_to_spec [of func p] that by simp
  have "prop_finish func p (first_setters parse p\<lparr>psb_type_prop := t, psb_entries := es\<rparr>) =
      map_err Spec (PropSpec_build b)"
    by (auto simp: prop_finish_def b_def Let_def first_setters_def PropSpecBuilder_default_def
          PropSpecBuilder_input_def PropSpecBuilder_func_unique_id_def fold_map_key_func_spec fs
          map_key_specs_def split: option.splits)
  then show ?thesis
    by (cases "pd_kind p"; cases t)
       (simp_all add: b_def PropSpec_build_def first_setters_def PropSpecBuilder_default_def data_of_prop_def
          finished_def ok_or_def Let_def)
qed

text \<open>The result of a conversion: the specification when there is one, else one of two errors.\<close>

definition converts :: "bool \<Rightarrow> 'a \<Rightarrow> 'a definition_result \<Rightarrow> bool" where
  "converts possible spec r \<longleftrightarrow>
     (if possible then r = Inr spec else r = Inl Url \<or> r = Inl (Spec (UninitializedField ''type_prop'')))"

lemma converts_True [simp]: "converts True spec r \<longleftrightarrow> r = Inr spec"
  by (simp add: converts_def)

lemma converts_rbind:
  "converts possible spec r \<Longrightarrow> (possible \<Longrightarrow> converts possible' spec' (f spec)) \<Longrightarrow>
   converts (possible \<and> possible') spec' (rbind r f)"
  by (auto simp: converts_def split: if_splits)

lemma prop_finish_cases:
  "prop_finish func p (first_setters parse p) = finished parse func p None []"
  "prop_finish func p (first_setters parse p\<lparr>psb_type_prop := t\<rparr>) = finished parse func p t []"
  "prop_finish func p (first_setters parse p\<lparr>psb_entries := psb_entries (first_setters parse p) @ es\<rparr>) =
     finished parse func p None es"
  unfolding prop_finish_eq [symmetric]
  by (simp_all add: first_setters_def PropSpecBuilder_default_def)

lemma PropDefinition_to_spec_converts:
  fixes p :: "'j PropDefinition" and ps :: "'j PropDefinition list" and parse :: "bytes \<Rightarrow> 'u option"
  shows "converts (convertible parse p) (spec_of parse func p) (PropDefinition_to_spec parse func p)"
    and "converts (list_all (convertible parse) ps) (map (spec_of parse func) ps)
           (PropDefinitions_to_spec parse func ps)"
proof (induction parse func p and parse func ps rule: PropDefinition_to_spec_PropDefinitions_to_spec.induct)
  case (1 parse func n k r l children entry w v h vs d ms)
  let ?p = "PropDefinition n k r l children entry w v h vs d ms"
  have e: "converts (convertible parse e) (spec_of parse func e) (PropDefinition_to_spec parse func e)"
    if "k = PropKind.Array \<or> k = PropKind.Map" "entry = Some e" for e
    using that 1(1,2) [OF refl] by blast
  have c: "converts (list_all (convertible parse) children) (map (spec_of parse func) children)
      (PropDefinitions_to_spec parse func children)" if "k = PropKind.Object"
    using that 1(3) by auto
  show ?case
  proof (cases k)
    case Array
    then show ?thesis using e by (cases entry)
      (fastforce simp: prop_setters_ok prop_finish_cases finished_def converts_def ok_or_def Let_def
         split: option.splits)+
  next
    case Map
    then show ?thesis using e by (cases entry)
      (fastforce simp: prop_setters_ok prop_finish_cases finished_def converts_def ok_or_def Let_def
         split: option.splits)+
  next
    case Object
    then show ?thesis using c
      by (auto simp: prop_setters_ok prop_finish_cases finished_def converts_def Let_def split: option.splits if_splits)
  qed (auto simp: prop_setters_ok prop_finish_cases finished_def converts_def Let_def split: option.splits)
next
  case (3 parse func p ps)
  then show ?case by (auto simp: converts_def split: if_splits)
qed simp

text \<open>A root of the builder once the given entries were added to it.\<close>

definition rooted :: "bytes \<Rightarrow> ('j, 'u) PropSpec list \<Rightarrow> ('j, 'u) PropSpec option" where
  "rooted name es = (if es = [] then None else Some (default_root name es))"

definition root_field :: "SchemaVariantSpecPropRoot \<Rightarrow> ('j, 'u) PropSpec list \<Rightarrow>
    ('j, 'u) SchemaVariantSpecBuilder \<Rightarrow> bool" where
  "root_field root es b \<longleftrightarrow>
     (case root of
        SchemaVariantSpecPropRoot.Domain \<Rightarrow> vsb_domain b = rooted ''domain'' es
      | SchemaVariantSpecPropRoot.ResourceValue \<Rightarrow> vsb_resource_value b = rooted ''value'' es
      | SchemaVariantSpecPropRoot.SecretDefinition \<Rightarrow>
          vsb_secret_definition b = map_option Some (rooted ''secret_definition'' es)
      | SchemaVariantSpecPropRoot.Secrets \<Rightarrow> vsb_secrets b = rooted ''secrets'' es)"

definition set_root :: "SchemaVariantSpecPropRoot \<Rightarrow> ('j, 'u) PropSpec list \<Rightarrow>
    ('j, 'u) SchemaVariantSpecBuilder \<Rightarrow> ('j, 'u) SchemaVariantSpecBuilder" where
  "set_root root es b =
     (case root of
        SchemaVariantSpecPropRoot.Domain \<Rightarrow> b\<lparr>vsb_domain := rooted ''domain'' es\<rparr>
      | SchemaVariantSpecPropRoot.ResourceValue \<Rightarrow> b\<lparr>vsb_resource_value := rooted ''value'' es\<rparr>
      | SchemaVariantSpecPropRoot.SecretDefinition \<Rightarrow>
          b\<lparr>vsb_secret_definition := map_option Some (rooted ''secret_definition'' es)\<rparr>
      | SchemaVariantSpecPropRoot.Secrets \<Rightarrow> b\<lparr>vsb_secrets := rooted ''secrets'' es\<rparr>)"

lemma SchemaVariantSpecBuilder_prop_rooted:
  "root_field root es b \<Longrightarrow> SchemaVariantSpecBuilder_prop root s b = Some (set_root root (es @ [s]) b)"
  by (auto simp: root_field_def set_root_def SchemaVariantSpecBuilder_prop_def rooted_def push_entry_def
        default_domain_def default_secrets_def default_secret_definition_def default_resource_value_def
        default_root_def split: SchemaVariantSpecPropRoot.splits if_splits)

lemma root_field_set: "root_field root es (set_root root es b)"
  by (cases root) (simp_all add: root_field_def set_root_def)

lemma set_root_set: "set_root root es' (set_root root es b) = set_root root es' b"
  by (cases root) (simp_all add: set_root_def)

lemma set_root_same: "root_field root es b \<Longrightarrow> set_root root es b = b"
  by (cases root) (simp_all add: root_field_def set_root_def)

lemma add_props_converts:
  "root_field root es b \<Longrightarrow>
   converts (list_all (convertible parse) ps) (set_root root (es @ map (spec_of parse func) ps) b)
     (add_props root (map (PropDefinition_to_spec parse func) ps) b)"
proof (induction ps arbitrary: es b)
  case Nil
  then show ?case by (simp add: set_root_same)
next
  case (Cons p ps)
  show ?case
    using PropDefinition_to_spec_converts(1) [of parse p func]
      Cons.IH [OF root_field_set [of root "es @ [spec_of parse func p]" b]] Cons.prems
    by (auto simp: converts_def SchemaVariantSpecBuilder_prop_rooted ok_or_def set_root_set split: if_splits)
qed

definition socket_spec :: "bool \<Rightarrow> bytes \<Rightarrow> SocketDefinition \<Rightarrow> SocketSpec" where
  "socket_spec is_input func s =
     \<lparr>sos_name = sd_name s,
      sos_data = Some \<lparr>sosd_func_unique_id = map_option (\<lambda>_. func) (sd_value_from s),
        sosd_kind = (if is_input then SocketSpecKind.Input else SocketSpecKind.Output), sosd_name = sd_name s,
        sosd_arity = (case sd_arity s of Some a \<Rightarrow> SocketSpecArity_from a | None \<Rightarrow> SocketSpecArity.Many),
        sosd_ui_hidden = unwrap_or False (sd_ui_hidden s)\<rparr>,
      sos_inputs = (case sd_value_from s of None \<Rightarrow> [] | Some v \<Rightarrow> [ValueFrom_to_spec v]),
      sos_unique_id = None\<rparr>"

lemma SocketDefinition_to_spec_eq: "SocketDefinition_to_spec is_input func s = Inr (socket_spec is_input func s)"
  by (auto simp: SocketDefinition_to_spec_def socket_spec_def SocketSpecData_build_def
        SocketSpecDataBuilder_default_def spec_builds ok_or_def unwrap_or_def Let_def split: option.splits)

definition data_of :: "(bytes \<Rightarrow> 'u option) \<Rightarrow> SchemaVariantDefinitionMetadataJson \<Rightarrow> bytes \<Rightarrow>
    'u SchemaVariantSpecData" where
  "data_of parse metadata asset_func =
     \<lparr>vsd_name = ''v0'', vsd_link = Option.bind (svm_link metadata) parse, vsd_color = Some (svm_color metadata),
      vsd_component_type = SchemaVariantSpecComponentType_from (svm_component_type metadata),
      vsd_func_unique_id = asset_func\<rparr>"

lemma variant_data_converts:
  "converts (link_ok parse (svm_link m)) (data_of parse m f) (variant_data parse m f)"
  by (auto simp: variant_data_def data_of_def spec_builds ok_or_def converts_def split: option.splits)

definition variant_of :: "(bytes \<Rightarrow> 'u option) \<Rightarrow> SchemaVariantDefinitionMetadataJson \<Rightarrow> bytes \<Rightarrow> bytes \<Rightarrow>
    'j SchemaVariantDefinitionJson \<Rightarrow> ('j, 'u) SchemaVariantSpec" where
  "variant_of parse metadata func asset_func d =
     (let specs = map (spec_of parse func)
      in \<lparr>vs_name = ''v0'', vs_data = Some (data_of parse metadata asset_func), vs_unique_id = None,
          vs_deleted = False, vs_action_funcs = [], vs_leaf_functions = [],
          vs_sockets = map (socket_spec True func) (svd_input_sockets d) @
            map (socket_spec False func) (svd_output_sockets d),
          vs_si_prop_funcs = map (SiPropValueFrom_to_spec func) (svd_si_prop_value_froms d),
          vs_domain = default_root ''domain'' (specs (svd_props d)),
          vs_secrets = default_root ''secrets'' (specs (svd_secret_props d)),
          vs_secret_definition = rooted ''secret_definition'' (specs (unwrap_or [] (svd_secret_definition d))),
          vs_resource_value = default_root ''value'' (specs (svd_resource_props d))\<rparr>)"

definition definition_ok :: "(bytes \<Rightarrow> 'u option) \<Rightarrow> SchemaVariantDefinitionMetadataJson \<Rightarrow>
    'j SchemaVariantDefinitionJson \<Rightarrow> bool" where
  "definition_ok parse metadata d \<longleftrightarrow>
     link_ok parse (svm_link metadata) \<and> list_all (convertible parse) (svd_props d) \<and>
     list_all (convertible parse) (svd_secret_props d) \<and>
     list_all (convertible parse) (unwrap_or [] (svd_secret_definition d)) \<and>
     list_all (convertible parse) (svd_resource_props d)"

lemma rooted_default:
  "unwrap_or default_domain (rooted ''domain'' es) = default_root ''domain'' es"
  "unwrap_or default_secrets (rooted ''secrets'' es) = default_root ''secrets'' es"
  "unwrap_or default_resource_value (rooted ''value'' es) = default_root ''value'' es"
  by (simp_all add: rooted_def default_domain_def default_secrets_def default_resource_value_def)

lemma add_props_new:
  "root_field root [] b \<Longrightarrow>
   converts (list_all (convertible parse) ps) (set_root root (map (spec_of parse func) ps) b)
     (add_props root (map (PropDefinition_to_spec parse func) ps) b)"
  using add_props_converts [of root "[]"] by simp

lemma SchemaVariantDefinitionJson_to_spec_converts:
  fixes d :: "'j SchemaVariantDefinitionJson" and parse :: "bytes \<Rightarrow> 'u option"
  shows "converts (definition_ok parse metadata d) (variant_of parse metadata func asset_func d)
     (SchemaVariantDefinitionJson_to_spec parse metadata func asset_func d)"
proof -
  let ?specs = "map (spec_of parse func)"
  define b0 :: "('j, 'u) SchemaVariantSpecBuilder" where "b0 = SchemaVariantSpecBuilder_default\<lparr>vsb_name := Some ''v0'',
      vsb_data := Some (Some (data_of parse metadata asset_func)),
      vsb_si_prop_funcs := pushed (map (SiPropValueFrom_to_spec func) (svd_si_prop_value_froms d))\<rparr>"
  define b1 where "b1 = set_root SchemaVariantSpecPropRoot.Domain (?specs (svd_props d)) b0"
  define b2 where "b2 = set_root SchemaVariantSpecPropRoot.Secrets (?specs (svd_secret_props d)) b1"
  define b3 where "b3 = set_root SchemaVariantSpecPropRoot.SecretDefinition
      (?specs (unwrap_or [] (svd_secret_definition d))) b2"
  define b4 where "b4 = set_root SchemaVariantSpecPropRoot.ResourceValue (?specs (svd_resource_props d)) b3"
  note bs = b1_def b2_def b3_def b4_def b0_def SchemaVariantSpecBuilder_default_def set_root_def
  have f: "root_field SchemaVariantSpecPropRoot.Domain [] b0" "root_field SchemaVariantSpecPropRoot.Secrets [] b1"
      "root_field SchemaVariantSpecPropRoot.SecretDefinition [] b2"
      "root_field SchemaVariantSpecPropRoot.ResourceValue [] b3"
    by (simp_all add: bs root_field_def rooted_def)
  note p1 = add_props_new [OF f(1), of parse "svd_props d" func, folded b1_def]
    and p2 = add_props_new [OF f(2), of parse "svd_secret_props d" func, folded b2_def]
    and p4 = add_props_new [OF f(4), of parse "svd_resource_props d" func, folded b4_def]
  have sd: "converts (list_all (convertible parse) (unwrap_or [] (svd_secret_definition d))) b3
      (case svd_secret_definition d of
         None \<Rightarrow> Inr b2
       | Some props \<Rightarrow> add_props SchemaVariantSpecPropRoot.SecretDefinition
           (map (PropDefinition_to_spec parse func) props) b2)"
    using add_props_new [OF f(3), of parse "unwrap_or [] (svd_secret_definition d)" func] set_root_same [OF f(3)]
    by (cases "svd_secret_definition d") (simp_all add: b3_def)
  have m: "mapM (SocketDefinition_to_spec i func) ss = Inr (map (socket_spec i func) ss)" for i ss
    by (rule mapM_Inr) (simp add: SocketDefinition_to_spec_eq)
  have last: "SchemaVariantSpec_build (b4\<lparr>vsb_sockets := pushed (map (socket_spec True func)
        (svd_input_sockets d) @ map (socket_spec False func) (svd_output_sockets d))\<rparr>) =
      Inr (variant_of parse metadata func asset_func d)"
    by (simp add: SchemaVariantSpec_build_def ok_or_def bs variant_of_def rooted_default Let_def)
  show ?thesis
    unfolding definition_ok_def SchemaVariantDefinitionJson_to_spec_def Let_def
    apply (rule converts_rbind [OF variant_data_converts])
    apply (simp only: rbind_simps b0_def [symmetric])
    apply (rule converts_rbind [OF p1])
    apply (rule converts_rbind [OF p2])
    apply (rule converts_rbind [OF sd])
    apply (rule converts_rbind [where possible' = True, simplified, OF p4])
    apply (simp only: m rbind_simps last map_err_simps)
    done
qed

text \<open>The specification of a schema, and the metadata back.\<close>

lemma metadata_to_spec_eq:
  "metadata_to_spec variant m =
     Inr \<lparr>ss_name = svm_name m,
       ss_data = Some \<lparr>ssd_name = svm_name m, ssd_category = svm_category m,
         ssd_category_name = svm_menu_name m, ssd_ui_hidden = False, ssd_default_schema_variant = None\<rparr>,
       ss_unique_id = None, ss_deleted = False, ss_variants = [variant]\<rparr>"
  by (simp add: metadata_to_spec_def spec_builds ok_or_def pushed_def)

lemma ComponentType_from_back [simp]: "ComponentType_from (SchemaVariantSpecComponentType_from t) = t"
  by (cases t) simp_all

lemma metadata_roundtrip:
  "metadata_from_spec show_url
     \<lparr>ss_name = svm_name m,
       ss_data = Some \<lparr>ssd_name = svm_name m, ssd_category = svm_category m,
         ssd_category_name = svm_menu_name m, ssd_ui_hidden = False, ssd_default_schema_variant = None\<rparr>,
       ss_unique_id = None, ss_deleted = False, ss_variants = [variant_of parse m f g d]\<rparr> =
   Inr (m\<lparr>svm_component_kind := ComponentKind.Standard, svm_description := None,
          svm_link := map_option show_url (Option.bind (svm_link m) parse)\<rparr>)"
  by (simp add: metadata_from_spec_def variant_of_def data_of_def Let_def)

end
