(* ===== verification/Intrinsic_Funcs.thy ===== *)
theory Intrinsic_Funcs
  imports Pkg_Spec
begin

text \<open>
  The functions every workspace has, \<open>lib/dal/src/func/intrinsics.rs\<close>, as specifications. Encoding code in
  base 64 belongs to the \<open>base64\<close> crate and is the parameter \<open>encode64\<close>. Errors of the builders are kept as
  they are, where the code keeps only their message.
\<close>

datatype IntrinsicFunc =
  Identity | SetArray | SetBoolean | SetInteger | SetMap | SetObject | SetString | Unset | Validation

fun IntrinsicFunc_name :: "IntrinsicFunc \<Rightarrow> bytes" where
  "IntrinsicFunc_name IntrinsicFunc.Identity = ''si:identity''"
| "IntrinsicFunc_name IntrinsicFunc.SetArray = ''si:setArray''"
| "IntrinsicFunc_name IntrinsicFunc.SetBoolean = ''si:setBoolean''"
| "IntrinsicFunc_name IntrinsicFunc.SetInteger = ''si:setInteger''"
| "IntrinsicFunc_name IntrinsicFunc.SetMap = ''si:setMap''"
| "IntrinsicFunc_name IntrinsicFunc.SetObject = ''si:setObject''"
| "IntrinsicFunc_name IntrinsicFunc.SetString = ''si:setString''"
| "IntrinsicFunc_name IntrinsicFunc.Unset = ''si:unset''"
| "IntrinsicFunc_name IntrinsicFunc.Validation = ''si:validation''"

definition maybe_from_str :: "bytes \<Rightarrow> IntrinsicFunc option" where
  "maybe_from_str s =
     (if s = ''si:identity'' then Some IntrinsicFunc.Identity
      else if s = ''si:setArray'' then Some IntrinsicFunc.SetArray
      else if s = ''si:setBoolean'' then Some IntrinsicFunc.SetBoolean
      else if s = ''si:setInteger'' then Some IntrinsicFunc.SetInteger
      else if s = ''si:setMap'' then Some IntrinsicFunc.SetMap
      else if s = ''si:setObject'' then Some IntrinsicFunc.SetObject
      else if s = ''si:setString'' then Some IntrinsicFunc.SetString
      else if s = ''si:unset'' then Some IntrinsicFunc.Unset
      else if s = ''si:validation'' then Some IntrinsicFunc.Validation
      else None)"

text \<open>The fixed identifiers, and what kind of function each one is.\<close>

fun intrinsic_unique_id :: "IntrinsicFunc \<Rightarrow> bytes" where
  "intrinsic_unique_id IntrinsicFunc.Identity =
     ''c6938e12287ab65f8ba8234559178413f2e2c02c44ea08384ed6687a36ec4f50''"
| "intrinsic_unique_id IntrinsicFunc.SetArray =
     ''51049a590fb64860f159972012ac2657c629479a244d6bcc4b1b73ba4b29f87f''"
| "intrinsic_unique_id IntrinsicFunc.SetBoolean =
     ''577a7deea25cfad0d4b2dd1e1f3d96b86b8b1578605137b8c4128d644c86964b''"
| "intrinsic_unique_id IntrinsicFunc.SetInteger =
     ''7d384b237852f20b8dec2fbd2e644ffc6bde901d7dc937bd77f50a0d57e642a9''"
| "intrinsic_unique_id IntrinsicFunc.SetMap =
     ''dea5084fbf6e7fe8328ac725852b96f4b5869b14d0fe9dd63a285fa876772496''"
| "intrinsic_unique_id IntrinsicFunc.SetObject =
     ''cb9bf94739799f3a8b84bcb88495f93b27b47c31a341f8005a60ca39308909fd''"
| "intrinsic_unique_id IntrinsicFunc.SetString =
     ''bbe86d1a2b92c3e34b72a407cca424878d3466d29ca60e56a251a52a0840bfbd''"
| "intrinsic_unique_id IntrinsicFunc.Unset =
     ''8143ff98fbe8954bb3ab89ee521335d45ba9a42b7b79289eff53b503c4392c37''"
| "intrinsic_unique_id IntrinsicFunc.Validation =
     ''039ff70bc7922338978ab52a39156992b7d8e3390f0ef7e99d5b6ffd43141d8a''"

fun intrinsic_kinds :: "IntrinsicFunc \<Rightarrow> FuncSpecBackendKind \<times> FuncSpecBackendResponseType" where
  "intrinsic_kinds IntrinsicFunc.Identity =
     (FuncSpecBackendKind.Identity, FuncSpecBackendResponseType.Identity)"
| "intrinsic_kinds IntrinsicFunc.SetArray = (FuncSpecBackendKind.Array, FuncSpecBackendResponseType.Array)"
| "intrinsic_kinds IntrinsicFunc.SetBoolean = (FuncSpecBackendKind.Boolean, FuncSpecBackendResponseType.Boolean)"
| "intrinsic_kinds IntrinsicFunc.SetInteger = (FuncSpecBackendKind.Integer, FuncSpecBackendResponseType.Integer)"
| "intrinsic_kinds IntrinsicFunc.SetMap = (FuncSpecBackendKind.Map, FuncSpecBackendResponseType.Map)"
| "intrinsic_kinds IntrinsicFunc.SetObject = (FuncSpecBackendKind.Object, FuncSpecBackendResponseType.Object)"
| "intrinsic_kinds IntrinsicFunc.SetString = (FuncSpecBackendKind.String, FuncSpecBackendResponseType.String)"
| "intrinsic_kinds IntrinsicFunc.Unset = (FuncSpecBackendKind.Unset, FuncSpecBackendResponseType.Unset)"
| "intrinsic_kinds IntrinsicFunc.Validation =
     (FuncSpecBackendKind.Validation, FuncSpecBackendResponseType.Validation)"

definition intrinsic_arguments :: "IntrinsicFunc \<Rightarrow> (SpecError, FuncArgumentSpec list option) result" where
  "intrinsic_arguments f =
     (if f = IntrinsicFunc.Identity
      then rbind (FuncArgumentSpec_build (FuncArgumentSpecBuilder_default\<lparr>fasb_name := Some ''identity'',
                    fasb_kind := Some FuncArgumentKind.Any\<rparr>)) (\<lambda>a. Inr (Some [a]))
      else Inr None)"

definition IntrinsicFunc_to_spec ::
  "(bytes \<Rightarrow> bytes) \<Rightarrow> IntrinsicFunc \<Rightarrow> (SpecError, 'u FuncSpec) result" where
  "IntrinsicFunc_to_spec encode64 f =
     rbind (intrinsic_arguments f) (\<lambda>arguments.
     rbind (FuncSpecData_build (FuncSpecDataBuilder_default\<lparr>fsdb_name := Some (IntrinsicFunc_name f),
              fsdb_handler := Some [], fsdb_code_base64 := Some (encode64 []),
              fsdb_backend_kind := Some (fst (intrinsic_kinds f)),
              fsdb_response_type := Some (snd (intrinsic_kinds f))\<rparr>)) (\<lambda>data.
     FuncSpec_build (FuncSpecBuilder_default\<lparr>fsb_name := Some (IntrinsicFunc_name f),
       fsb_unique_id := Some (intrinsic_unique_id f), fsb_arguments := arguments,
       fsb_data := Some (Some data)\<rparr>)))"

definition IntrinsicFunc_iter :: "IntrinsicFunc list" where
  "IntrinsicFunc_iter = [IntrinsicFunc.Identity, IntrinsicFunc.SetArray, IntrinsicFunc.SetBoolean,
     IntrinsicFunc.SetInteger, IntrinsicFunc.SetMap, IntrinsicFunc.SetObject, IntrinsicFunc.SetString,
     IntrinsicFunc.Unset, IntrinsicFunc.Validation]"

definition IntrinsicFunc_pkg_spec ::
  "'d \<Rightarrow> 'd \<Rightarrow> (bytes \<Rightarrow> bytes) \<Rightarrow> (SpecError, ('j, 'u, 'd) PkgSpec) result" where
  "IntrinsicFunc_pkg_spec now created_at encode64 =
     rbind (mapM (IntrinsicFunc_to_spec encode64) IntrinsicFunc_iter) (\<lambda>funcs.
     PkgSpec_build now (PkgSpecBuilder_default\<lparr>pksb_name := Some ''si-intrinsic-funcs'',
       pksb_version := Some ''2023-05-24'', pksb_created_at := Some created_at,
       pksb_created_by := Some ''System Initiative'', pksb_funcs := pushed funcs\<rparr>))"

section \<open>Lemmas\<close>

interpretation intrinsic_func: strum_enum IntrinsicFunc_name IntrinsicFunc_iter
proof
  show "f \<in> set IntrinsicFunc_iter" for f by (cases f) (simp_all add: IntrinsicFunc_iter_def)
  show "distinct (map IntrinsicFunc_name IntrinsicFunc_iter)" by (simp add: IntrinsicFunc_iter_def)
  show "list_all (\<lambda>f. plain_name (IntrinsicFunc_name f)) IntrinsicFunc_iter"
    by (simp add: IntrinsicFunc_iter_def plain_name_def)
qed

lemma maybe_from_str_iff: "maybe_from_str s = Some f \<longleftrightarrow> s = IntrinsicFunc_name f"
  by (cases f) (auto simp: maybe_from_str_def)

definition intrinsic_spec :: "(bytes \<Rightarrow> bytes) \<Rightarrow> IntrinsicFunc \<Rightarrow> 'u FuncSpec" where
  "intrinsic_spec encode64 f =
     \<lparr>fs_name = IntrinsicFunc_name f, fs_unique_id = intrinsic_unique_id f,
      fs_data = Some \<lparr>fsd_name = IntrinsicFunc_name f, fsd_display_name = None, fsd_description = None,
        fsd_handler = [], fsd_code_base64 = encode64 [], fsd_backend_kind = fst (intrinsic_kinds f),
        fsd_response_type = snd (intrinsic_kinds f), fsd_hidden = False, fsd_link = None\<rparr>,
      fs_deleted = False, fs_is_from_builtin = None,
      fs_arguments = (if f = IntrinsicFunc.Identity
        then [\<lparr>fas_name = ''identity'', fas_kind = FuncArgumentKind.Any, fas_element_kind = None,
               fas_unique_id = None, fas_deleted = False\<rparr>] else [])\<rparr>"

lemma IntrinsicFunc_to_spec_eq: "IntrinsicFunc_to_spec encode64 f = Inr (intrinsic_spec encode64 f)"
  by (simp add: IntrinsicFunc_to_spec_def intrinsic_arguments_def intrinsic_spec_def spec_builds ok_or_def)

lemma intrinsic_unique_id_inj: "intrinsic_unique_id f = intrinsic_unique_id g \<longleftrightarrow> f = g"
  by (cases f; cases g) simp_all

lemma IntrinsicFunc_pkg_spec_eq:
  "IntrinsicFunc_pkg_spec now created_at encode64 =
     Inr \<lparr>pks_kind = SiPkgKind.Module, pks_name = ''si-intrinsic-funcs'', pks_version = ''2023-05-24'',
       pks_description = [], pks_created_at = created_at, pks_created_by = ''System Initiative'',
       pks_default_change_set = None, pks_workspace_pk = None, pks_workspace_name = None, pks_schemas = [],
       pks_funcs = map (intrinsic_spec encode64) IntrinsicFunc_iter, pks_change_sets = []\<rparr>"
  by (simp add: IntrinsicFunc_pkg_spec_def mapM_Inr [OF IntrinsicFunc_to_spec_eq] spec_builds ok_or_def)

end
