(* ===== verification/Pkg_Restored.thy ===== *)
theory Pkg_Restored
  imports Pkg_To_Spec
begin

text \<open>
  What is left of a specification after it became a graph and is read back. \<open>holds\<close> says that a graph
  has a tree of nodes below an index, whatever the hashes are; every lemma reads the nodes of one
  specification type from such a graph and shows exactly which specification comes back. The
  functions \<open>restored_..\<close> name it: lists come back in reverse order, and some fields do not come back.
\<close>

named_theorems restored_defs \<open>what comes back of each specification type\<close>
named_theorems reads_intros \<open>reading and converting the nodes of a specification type\<close>

section \<open>Graphs that hold a tree\<close>

fun holds :: "('g, 'n HashedNode) petgraph \<Rightarrow> 'g \<Rightarrow> nat \<Rightarrow> 'n NodeWithChildren \<Rightarrow> bool" where
  "holds R g i (NodeWithChildren k x cs) \<longleftrightarrow>
     (\<exists>h its. pg_node_weight R g i = Some h \<and> hn_inner h = x \<and> pg_neighbors R g i = rev its
       \<and> list_all2 (holds R g) its cs)"

lemma holds_hashed_tree: "represents R g i (hashed_tree wr name B n) \<Longrightarrow> holds R g i n"
proof -
  have "holds R g (idx it) n" if "repr R g it (hashed_tree wr name B n)" for it
    using that
  proof (induction n arbitrary: it)
    case (NodeWithChildren k x cs)
    obtain i its where it: "it = ITree i its" by (cases it)
    have "list_all2 (holds R g) (map idx its) cs"
      using NodeWithChildren
      by (auto simp: it list_all2_conv_all_nth)
    with NodeWithChildren.prems show ?case
      by (auto simp: it merkle_node_def)
  qed
  then show "represents R g i (hashed_tree wr name B n) \<Longrightarrow> holds R g i n"
    by (auto simp: represents_def)
qed

lemma holdsE:
  assumes "holds R g i n"
  obtains h its where "pg_node_weight R g i = Some h" "hn_inner h = nwc_inner n"
    "pg_neighbors R g i = rev its" "list_all2 (holds R g) its (nwc_children n)"
  using assms by (cases n) auto

section \<open>Reading and converting\<close>

definition reads :: "('i \<Rightarrow> ('e, 'v) result) \<Rightarrow> ('v \<Rightarrow> ('e, 'y) result) \<Rightarrow> 'i \<Rightarrow> 'y \<Rightarrow> bool" where
  "reads f h i y \<longleftrightarrow> (\<exists>v. f i = Inr v \<and> h v = Inr y)"

lemma readsI: "f i = Inr v \<Longrightarrow> h v = Inr y \<Longrightarrow> reads f h i y"
  by (auto simp: reads_def)

lemma reads_mapM:
  assumes "list_all2 (\<lambda>j y. reads f h j y) js ys"
  shows "reads (mapM f) (mapM h) js ys"
  using assms by (induction js ys rule: list_all2_induct) (auto simp: reads_def)

lemma reads_children:
  assumes "list_all2 (holds R g) its (map as ss)"
    and "\<And>j s. s \<in> set ss \<Longrightarrow> holds R g j (as s) \<Longrightarrow> reads f h j (r s)"
  shows "reads (mapM f) (mapM h) (rev its) (rev (map r ss))"
proof (rule reads_mapM)
  have "list_all2 (\<lambda>j s. reads f h j (r s)) its ss"
    using assms by (auto simp: list_all2_map2 list_all2_conv_all_nth)
  then show "list_all2 (\<lambda>j y. reads f h j y) (rev its) (rev (map r ss))"
    by (simp add: list_all2_map2 rev_map [symmetric])
qed

lemma reads_item:
  assumes "holds R g i n" and "select (nwc_inner n) = Some x"
    and "\<And>h. conv \<lparr>item_node = x, item_hash = h, item_source = i\<rparr> = Inr y"
  shows "reads (read_item k select R g) conv i y"
  using assms(1) by (rule holdsE) (simp add: reads_def read_item_def node_at_def assms)

lemma reads_item_bind:
  assumes "holds R g i n" and "select (nwc_inner n) = Some x"
    and "\<And>h. reads (post i) conv \<lparr>item_node = x, item_hash = h, item_source = i\<rparr> y"
  shows "reads (\<lambda>i. rbind (read_item k select R g i) (post i)) conv i y"
  using assms(1) by (rule holdsE) (use assms in \<open>simp add: reads_def read_item_def node_at_def\<close>)

lemma find_node_append:
  "find_node R g matches (xs @ ys) = (case find_node R g matches xs of
     Inl e \<Rightarrow> Inl e | Inr None \<Rightarrow> find_node R g matches ys | Inr (Some j) \<Rightarrow> Inr (Some j))"
  by (induction xs) (auto simp: rbind_def node_at_def ok_or_def split: option.splits sum.splits)

lemma find_node_none:
  assumes "list_all2 (holds R g) its cs" and "filter (\<lambda>c. matches (nwc_inner c)) cs = []"
  shows "find_node R g matches (rev its) = Inr None"
  using assms
proof (induction its cs rule: list_all2_induct)
  case (Cons i its c cs)
  then show ?case by (auto simp: find_node_append node_at_def elim!: holdsE split: if_splits)
qed simp

lemma find_node_holds:
  assumes "list_all2 (holds R g) its cs" and "filter (\<lambda>c. matches (nwc_inner c)) cs = [c]"
  shows "\<exists>j. find_node R g matches (rev its) = Inr (Some j) \<and> holds R g j c"
  using assms
proof (induction its cs rule: list_all2_induct)
  case (Cons i its d cs)
  show ?case
  proof (cases "matches (nwc_inner d)")
    case True
    with Cons.prems have "d = c" "filter (\<lambda>c. matches (nwc_inner c)) cs = []" by auto
    moreover obtain h where "pg_node_weight R g i = Some h" "hn_inner h = nwc_inner d"
      using Cons.hyps(1) by (rule holdsE)
    ultimately show ?thesis
      using Cons.hyps find_node_none [of R g its cs matches] True by (auto simp: find_node_append node_at_def)
  next
    case False
    with Cons.prems Cons.IH show ?thesis by (auto simp: find_node_append)
  qed
qed simp

text \<open>The children of a role that a node has exactly once, and that it does not have.\<close>

lemma reads_role:
  assumes "holds R g i n"
    and "filter (\<lambda>c. matches (nwc_inner c)) (nwc_children n) = [NodeWithChildren k x (map as ss)]"
    and "\<And>j s. s \<in> set ss \<Longrightarrow> holds R g j (as s) \<Longrightarrow> reads f h j (r s)"
  shows "reads (\<lambda>i. children_from_graph R g i matches f) (mapM h) i (rev (map r ss))"
proof -
  obtain its where its: "pg_neighbors R g i = rev its" "list_all2 (holds R g) its (nwc_children n)"
    using assms(1) by (rule holdsE)
  obtain j where j: "find_node R g matches (rev its) = Inr (Some j)"
    "holds R g j (NodeWithChildren k x (map as ss))"
    using find_node_holds [OF its(2) assms(2)] by blast
  obtain jts where jts: "pg_neighbors R g j = rev jts" "list_all2 (holds R g) jts (map as ss)"
    using j(2) by auto
  from reads_children [where f = f and h = h and r = r, OF jts(2) assms(3)] show ?thesis
    by (auto simp: reads_def children_from_graph_def its(1) j(1) jts(1))
qed

lemma no_role:
  assumes "holds R g i n" and "filter (\<lambda>c. matches (nwc_inner c)) (nwc_children n) = []"
  shows "children_from_graph R g i matches f = Inr []"
  using assms(1) by (rule holdsE) (simp add: children_from_graph_def find_node_none assms(2))

section \<open>Inputs and functions\<close>

lemma reads_AttrFuncInput [reads_intros]:
  assumes "holds R g i (as_node_AttrFuncInputSpec s)"
  shows "reads (SiPkgAttrFuncInput_from_graph R g) AttrFuncInputSpec_try_from i s"
proof -
  obtain x where x: "nwc_inner (as_node_AttrFuncInputSpec s) = PkgNode.AttrFuncInput x"
    by (cases s) auto
  have "reads (\<lambda>i. SiPkgAttrFuncInput_from_graph R g i) AttrFuncInputSpec_try_from i s"
    unfolding SiPkgAttrFuncInput_from_graph_def
    by (rule reads_item_bind [OF assms, where x = x];
      use x in \<open>cases s; auto simp: reads_def AttrFuncInputSpec_try_from_def
        AttrFuncInputSpec_build_def AttrFuncInputSpecBuilder_default_def\<close>)
  then show ?thesis by simp
qed

lemma reads_inputs:
  assumes "holds R g i (NodeWithChildren k x (map as_node_AttrFuncInputSpec ss))"
  shows "reads (inputs_of R g) (mapM AttrFuncInputSpec_try_from) i (rev ss)"
proof -
  obtain its where its: "pg_neighbors R g i = rev its"
    "list_all2 (holds R g) its (map as_node_AttrFuncInputSpec ss)"
    using assms by auto
  from reads_children [where f = "SiPkgAttrFuncInput_from_graph R g" and r = "\<lambda>s. s"
      and h = AttrFuncInputSpec_try_from, OF its(2) reads_AttrFuncInput]
  show ?thesis by (simp add: reads_def inputs_of_def its(1))
qed

definition restored_FuncArgumentSpec :: "FuncArgumentSpec \<Rightarrow> FuncArgumentSpec" where
  "restored_FuncArgumentSpec s = s\<lparr>fas_unique_id := None, fas_deleted := False\<rparr>"

lemma reads_FuncArgument [reads_intros]:
  assumes "holds R g i (as_node_FuncArgumentSpec s)"
  shows "reads (SiPkgFuncArgument_from_graph R g) FuncArgumentSpec_try_from i (restored_FuncArgumentSpec s)"
  unfolding SiPkgFuncArgument_from_graph_def
  by (rule reads_item [OF assms], simp add: as_node_FuncArgumentSpec_def, cases s)
    (simp add: FuncArgumentSpec_try_from_def FuncArgumentSpec_build_def FuncArgumentSpecBuilder_default_def
      restored_FuncArgumentSpec_def)

definition restored_FuncSpec :: "'u FuncSpec \<Rightarrow> 'u FuncSpec" where
  "restored_FuncSpec s = s
     \<lparr>fs_data := map_option (\<lambda>d. d\<lparr>fsd_name := fs_name s\<rparr>) (fs_data s), fs_is_from_builtin := None,
      fs_arguments := rev (map restored_FuncArgumentSpec (fs_arguments s))\<rparr>"

lemma reads_Func [reads_intros]:
  assumes "holds R g i (as_node_FuncSpec s)"
  shows "reads (SiPkgFunc_from_graph R g) (FuncSpec_try_from R g) i (restored_FuncSpec s)"
proof -
  obtain its where its: "pg_neighbors R g i = rev its"
    "list_all2 (holds R g) its (map as_node_FuncArgumentSpec (fs_arguments s))"
    using assms by (auto simp: as_node_FuncSpec_def)
  from reads_children [where f = "SiPkgFuncArgument_from_graph R g" and h = FuncArgumentSpec_try_from
      and r = restored_FuncArgumentSpec, OF its(2) reads_FuncArgument]
  obtain vs where "mapM (SiPkgFuncArgument_from_graph R g) (rev its) = Inr vs"
    "mapM FuncArgumentSpec_try_from vs = Inr (rev (map restored_FuncArgumentSpec (fs_arguments s)))"
    by (auto simp: reads_def)
  then show ?thesis
    unfolding SiPkgFunc_from_graph_def
    by (intro reads_item [OF assms], simp add: as_node_FuncSpec_def, cases s)
      (auto simp: FuncSpec_try_from_def SiPkgFunc_arguments_def its(1)
        FuncSpecData_build_def FuncSpecDataBuilder_default_def FuncSpec_build_def
        FuncSpecBuilder_default_def restored_FuncSpec_def split: option.splits)
qed

lemma reads_MapKeyFunc [reads_intros]:
  assumes "holds R g i (as_node_MapKeyFuncSpec s)"
  shows "reads (SiPkgMapKeyFunc_from_graph R g) (MapKeyFuncSpec_try_from R g) i
    (s\<lparr>mkfs_inputs := rev (mkfs_inputs s)\<rparr>)"
  using reads_inputs [OF assms [unfolded as_node_MapKeyFuncSpec_def]]
  unfolding SiPkgMapKeyFunc_from_graph_def
  by (intro reads_item [OF assms], simp add: as_node_MapKeyFuncSpec_def, cases s)
    (auto simp: reads_def MapKeyFuncSpec_try_from_def MapKeyFuncSpec_build_def
      MapKeyFuncSpecBuilder_default_def)

definition restored_ActionFuncSpec :: "ActionFuncSpec \<Rightarrow> ActionFuncSpec" where
  "restored_ActionFuncSpec s = s\<lparr>afs_name := None\<rparr>"

lemma reads_ActionFunc [reads_intros]:
  assumes "holds R g i (as_node_ActionFuncSpec s)"
  shows "reads (SiPkgActionFunc_from_graph R g) ActionFuncSpec_try_from i (restored_ActionFuncSpec s)"
  unfolding SiPkgActionFunc_from_graph_def
  by (rule reads_item [OF assms], simp add: as_node_ActionFuncSpec_def, cases s)
    (simp add: ActionFuncSpec_try_from_def ActionFuncSpec_build_def ActionFuncSpecBuilder_default_def
      restored_ActionFuncSpec_def)

lemma reads_SiPropFunc [reads_intros]:
  assumes "holds R g i (as_node_SiPropFuncSpec s)"
  shows "reads (SiPkgSiPropFunc_from_graph R g) (SiPropFuncSpec_try_from R g) i
    (s\<lparr>spfs_inputs := rev (spfs_inputs s)\<rparr>)"
  using reads_inputs [OF assms [unfolded as_node_SiPropFuncSpec_def]]
  unfolding SiPkgSiPropFunc_from_graph_def
  by (intro reads_item [OF assms], simp add: as_node_SiPropFuncSpec_def, cases s)
    (auto simp: reads_def SiPropFuncSpec_try_from_def SiPropFuncSpec_build_def
      SiPropFuncSpecBuilder_default_def)

definition restored_SocketSpec :: "SocketSpec \<Rightarrow> SocketSpec" where
  "restored_SocketSpec s = s\<lparr>sos_data := None, sos_inputs := rev (sos_inputs s)\<rparr>"

lemma reads_Socket [reads_intros]:
  assumes "holds R g i (as_node_SocketSpec s)"
  shows "reads (SiPkgSocket_from_graph R g) (SocketSpec_try_from R g) i (restored_SocketSpec s)"
  using reads_inputs [OF assms [unfolded as_node_SocketSpec_def]]
  unfolding SiPkgSocket_from_graph_def
  by (intro reads_item [OF assms], simp add: as_node_SocketSpec_def, cases s)
    (auto simp: reads_def SocketSpec_try_from_def SocketSpec_build_def SocketSpecBuilder_default_def
      restored_SocketSpec_def)

definition restored_LeafFunctionSpec :: "LeafFunctionSpec \<Rightarrow> LeafFunctionSpec" where
  "restored_LeafFunctionSpec s = s\<lparr>lfs_inputs := filter (\<lambda>l. l \<in> set (lfs_inputs s))
     [LeafInputLocation.Domain, LeafInputLocation.Resource, LeafInputLocation.Code,
      LeafInputLocation.DeletedAt]\<rparr>"

lemma reads_LeafFunction [reads_intros]:
  assumes "holds R g i (as_node_LeafFunctionSpec s)"
  shows "reads (SiPkgLeafFunction_from_graph R g) LeafFunctionSpec_try_from i (restored_LeafFunctionSpec s)"
proof -
  have "reads (\<lambda>i. SiPkgLeafFunction_from_graph R g i) LeafFunctionSpec_try_from i
      (restored_LeafFunctionSpec s)"
    unfolding SiPkgLeafFunction_from_graph_def
    by (rule reads_item_bind [OF assms], simp add: as_node_LeafFunctionSpec_def, cases s)
      (simp add: reads_def LeafFunctionSpec_try_from_def LeafFunctionSpec_build_def
        LeafFunctionSpecBuilder_default_def restored_LeafFunctionSpec_def Let_def)
  then show ?thesis by simp
qed

lemma reads_Validation [reads_intros]:
  assumes "holds R g i (as_node_ValidationSpec s)"
  shows "reads (SiPkgValidation_from_graph R g) ValidationSpec_try_from i s"
proof -
  have "reads (\<lambda>i. SiPkgValidation_from_graph R g i) ValidationSpec_try_from i s"
    unfolding SiPkgValidation_from_graph_def
    by (rule reads_item_bind [OF assms], simp add: as_node_ValidationSpec_def, cases s)
      (simp_all add: reads_def ValidationSpec_try_from_def ValidationSpec_build_def
        ValidationSpecBuilder_default_def ValidationNode_default_def Let_def)
  then show ?thesis by simp
qed

section \<open>Components and edges\<close>

lemma reads_Position [reads_intros]:
  assumes "holds R g i (as_node_PositionSpec s)"
  shows "reads (SiPkgPosition_from_graph R g) PositionSpec_try_from i s"
  unfolding SiPkgPosition_from_graph_def
  by (rule reads_item [OF assms], simp add: as_node_PositionSpec_def, cases s)
    (simp add: PositionSpec_try_from_def PositionSpec_build_def PositionSpecBuilder_default_def)

definition restored_AttributeValueSpec :: "'j AttributeValueSpec \<Rightarrow> 'j AttributeValueSpec" where
  "restored_AttributeValueSpec s =
     s\<lparr>avs_is_proxy := False, avs_implicit_value := None, avs_inputs := rev (avs_inputs s)\<rparr>"

lemma reads_AttributeValue [reads_intros]:
  assumes "holds R g i (as_node_AttributeValueSpec s)"
  shows "reads (SiPkgAttributeValue_from_graph R g) (AttributeValueSpec_try_from R g) i
    (restored_AttributeValueSpec s)"
proof -
  have "reads (\<lambda>i. children_from_graph R g i
        (\<lambda>n. n = PkgNode.AttributeValueChild AttributeValueChildNode.AttrFuncInputs)
        (SiPkgAttrFuncInput_from_graph R g)) (mapM AttrFuncInputSpec_try_from) i
      (rev (map (\<lambda>s. s) (avs_inputs s)))"
    by (rule reads_role [OF assms, where as = as_node_AttrFuncInputSpec and k = Tree
          and x = "PkgNode.AttributeValueChild AttributeValueChildNode.AttrFuncInputs"])
      (simp_all add: as_node_AttributeValueSpec_def reads_AttrFuncInput)
  then show ?thesis
    unfolding SiPkgAttributeValue_from_graph_def
    by (intro reads_item [OF assms], simp add: as_node_AttributeValueSpec_def, cases s)
      (auto simp: reads_def AttributeValueSpec_try_from_def SiPkgAttributeValue_inputs_def
        AttributeValueSpec_build_def AttributeValueSpecBuilder_default_def restored_AttributeValueSpec_def)
qed

definition restored_ComponentSpec :: "'j ComponentSpec \<Rightarrow> 'j ComponentSpec" where
  "restored_ComponentSpec s =
     s\<lparr>cps_unique_id := [],
       cps_attributes := rev (map restored_AttributeValueSpec (cps_attributes s))
         @ rev (map restored_AttributeValueSpec (cps_input_sockets s))
         @ rev (map restored_AttributeValueSpec (cps_output_sockets s)),
       cps_input_sockets := [], cps_output_sockets := []\<rparr>"

lemma reads_component_values:
  assumes "holds R g i (as_node_ComponentSpec s)"
  shows "reads (\<lambda>i. children_from_graph R g i (\<lambda>n. n = PkgNode.ComponentChild ComponentChildNode.Attributes)
        (SiPkgAttributeValue_from_graph R g)) (mapM (AttributeValueSpec_try_from R g)) i
      (rev (map restored_AttributeValueSpec (cps_attributes s)))"
    "reads (\<lambda>i. children_from_graph R g i (\<lambda>n. n = PkgNode.ComponentChild ComponentChildNode.InputSockets)
        (SiPkgAttributeValue_from_graph R g)) (mapM (AttributeValueSpec_try_from R g)) i
      (rev (map restored_AttributeValueSpec (cps_input_sockets s)))"
    "reads (\<lambda>i. children_from_graph R g i (\<lambda>n. n = PkgNode.ComponentChild ComponentChildNode.OutputSockets)
        (SiPkgAttributeValue_from_graph R g)) (mapM (AttributeValueSpec_try_from R g)) i
      (rev (map restored_AttributeValueSpec (cps_output_sockets s)))"
    "reads (\<lambda>i. children_from_graph R g i (\<lambda>n. n = PkgNode.ComponentChild ComponentChildNode.Position)
        (SiPkgPosition_from_graph R g)) (mapM PositionSpec_try_from) i (rev (map (\<lambda>s. s) [cps_position s]))"
  by (rule reads_role [OF assms, where as = as_node_AttributeValueSpec and k = Tree
        and x = "PkgNode.ComponentChild ComponentChildNode.Attributes"]
      reads_role [OF assms, where as = as_node_AttributeValueSpec and k = Tree
        and x = "PkgNode.ComponentChild ComponentChildNode.InputSockets"]
      reads_role [OF assms, where as = as_node_AttributeValueSpec and k = Tree
        and x = "PkgNode.ComponentChild ComponentChildNode.OutputSockets"]
      reads_role [OF assms, where as = as_node_PositionSpec and k = Tree
        and x = "PkgNode.ComponentChild ComponentChildNode.Position"];
      simp add: as_node_ComponentSpec_def reads_AttributeValue reads_Position; fail)+

lemma reads_Component [reads_intros]:
  assumes "holds R g i (as_node_ComponentSpec s)"
  shows "reads (SiPkgComponent_from_graph R g) (ComponentSpec_try_from R g) i (restored_ComponentSpec s)"
proof -
  have pos: "\<exists>v. vs = [v] \<and> PositionSpec_try_from v = Inr p"
    if "mapM PositionSpec_try_from vs = Inr [p]" for vs p
    using that by (cases vs) (auto simp: rbind_Inr_iff dest: mapM_Inr_length)
  show ?thesis
    using reads_component_values [OF assms]
    unfolding SiPkgComponent_from_graph_def
    by (intro reads_item [OF assms], simp add: as_node_ComponentSpec_def, cases s)
      (auto simp: reads_def ComponentSpec_try_from_def SiPkgComponent_values_def SiPkgComponent_position_def
        ComponentSpec_build_def ComponentSpecBuilder_default_def restored_ComponentSpec_def dest!: pos)
qed

lemma edge_conversion:
  "EdgeSpec_try_from v = Inl (Spec (UninitializedField ''edge_kind''))"
  by (simp add: EdgeSpec_try_from_def EdgeSpec_build_def EdgeSpecBuilder_default_def)

end
