(* ===== verification/Pkg_Restored_Props.thy ===== *)
theory Pkg_Restored_Props
  imports Pkg_Restored
begin

text \<open>
  What comes back of the props of a schema variant. \<open>visit_prop_tree\<close> lists the builders of all props in
  preorder and \<open>build_prop_specs\<close> folds the reversed list, putting every prop that is finished under the
  path of its parent. When siblings have different names and no name holds the path separator, paths
  identify props and the fold rebuilds the tree.
\<close>

section \<open>Props and their paths\<close>

fun prop_name :: "('j, 'u) PropSpec \<Rightarrow> bytes" where
  "prop_name (PropSpec.Array name _ _ _) = name"
| "prop_name (PropSpec.Boolean name _ _) = name"
| "prop_name (PropSpec.Map name _ _ _ _) = name"
| "prop_name (PropSpec.Number name _ _) = name"
| "prop_name (PropSpec.Object name _ _ _) = name"
| "prop_name (PropSpec.String name _ _) = name"

fun subprops :: "('j, 'u) PropSpec \<Rightarrow> ('j, 'u) PropSpec list" where
  "subprops (PropSpec.Array _ _ _ type_prop) = [type_prop]"
| "subprops (PropSpec.Map _ _ _ type_prop _) = [type_prop]"
| "subprops (PropSpec.Object _ _ _ entries) = entries"
| "subprops _ = []"

lemma subprops_smaller: "q \<in> set (subprops p) \<Longrightarrow> size q < size p"
  by (cases p) (auto simp: less_Suc_eq_le intro!: trans_le_add2 size_list_estimation' [OF _ order_refl])

function all_props :: "(('j, 'u) PropSpec \<Rightarrow> bool) \<Rightarrow> ('j, 'u) PropSpec \<Rightarrow> bool" where
  "all_props P p \<longleftrightarrow> P p \<and> (\<forall>q \<in> set (subprops p). all_props P q)"
  by pat_completeness auto
termination
  by (relation "measure (size \<circ> snd)") (auto simp: subprops_smaller)

declare all_props.simps [simp del]

lemma all_props_list: "all_props P p \<longleftrightarrow> P p \<and> list_all (all_props P) (subprops p)"
  by (subst all_props.simps) (simp add: list_all_iff)

lemma prop_induct [case_names step]:
  assumes "\<And>p. (\<And>q. q \<in> set (subprops p) \<Longrightarrow> P q) \<Longrightarrow> P p"
  shows "P p"
  by (induction p rule: measure_induct [of size]) (blast intro: assms subprops_smaller)

text \<open>Names under which paths identify props.\<close>

definition names_ok :: "('j, 'u) PropSpec list \<Rightarrow> bool" where
  "names_ok qs \<longleftrightarrow> distinct (map prop_name qs) \<and> (\<forall>q \<in> set qs. PROP_PATH_SEPARATOR \<notin> set (prop_name q))"

definition props_ok :: "('j, 'u) PropSpec \<Rightarrow> bool" where
  "props_ok = all_props (\<lambda>p. names_ok (subprops p))"

lemma props_okD:
  assumes "props_ok p"
  shows "names_ok (subprops p)" "q \<in> set (subprops p) \<Longrightarrow> props_ok q"
  using assms unfolding props_ok_def by (subst (asm) all_props.simps, blast)+

section \<open>The builder of a prop\<close>

fun prop_data :: "('j, 'u) PropSpec \<Rightarrow> ('j, 'u) PropSpecData option" where
  "prop_data (PropSpec.Array _ data _ _) = data"
| "prop_data (PropSpec.Boolean _ data _) = data"
| "prop_data (PropSpec.Map _ data _ _ _) = data"
| "prop_data (PropSpec.Number _ data _) = data"
| "prop_data (PropSpec.Object _ data _ _) = data"
| "prop_data (PropSpec.String _ data _) = data"

fun prop_kind :: "('j, 'u) PropSpec \<Rightarrow> PropSpecKind" where
  "prop_kind (PropSpec.Array _ _ _ _) = PropSpecKind.Array"
| "prop_kind (PropSpec.Boolean _ _ _) = PropSpecKind.Boolean"
| "prop_kind (PropSpec.Map _ _ _ _ _) = PropSpecKind.Map"
| "prop_kind (PropSpec.Number _ _ _) = PropSpecKind.Number"
| "prop_kind (PropSpec.Object _ _ _ _) = PropSpecKind.Object"
| "prop_kind (PropSpec.String _ _ _) = PropSpecKind.String"

fun map_key_funcs_of :: "('j, 'u) PropSpec \<Rightarrow> MapKeyFuncSpec list" where
  "map_key_funcs_of (PropSpec.Map _ _ _ _ funcs) =
     rev (map (\<lambda>s. s\<lparr>mkfs_inputs := rev (mkfs_inputs s)\<rparr>) (unwrap_or [] funcs))"
| "map_key_funcs_of _ = []"

text \<open>The default value comes back for booleans and numbers only.\<close>

fun kept_default :: "('j, 'u) PropSpec \<Rightarrow> 'j option" where
  "kept_default (PropSpec.Boolean _ data _) = Option.bind data psd_default_value"
| "kept_default (PropSpec.Number _ data _) = Option.bind data psd_default_value"
| "kept_default _ = None"

text \<open>The inputs come back only with a function.\<close>

definition kept_inputs :: "('j, 'u) PropSpecData option \<Rightarrow> AttrFuncInputSpec list" where
  "kept_inputs data = (case data of None \<Rightarrow> [] | Some d \<Rightarrow>
     (if psd_func_unique_id d = None then [] else rev (unwrap_or [] (psd_inputs d))))"

definition prop_builder :: "('j, 'u) PropSpec \<Rightarrow> ('j, 'u) PropSpecBuilder" where
  "prop_builder p = \<lparr>psb_default_value = kept_default p, psb_doc_link = None, psb_entries = [],
     psb_func_unique_id = Option.bind (prop_data p) psd_func_unique_id,
     psb_hidden = (case prop_data p of None \<Rightarrow> False | Some d \<Rightarrow> unwrap_or False (psd_hidden d)),
     psb_inputs = kept_inputs (prop_data p), psb_kind = Some (prop_kind p),
     psb_map_key_funcs = map_key_funcs_of p, psb_name = Some (prop_name p), psb_type_prop = None,
     psb_validations = [],
     psb_widget_kind = map_option (\<lambda>d. unwrap_or (PropSpecWidgetKind_from p) (psd_widget_kind d)) (prop_data p),
     psb_widget_options = Option.bind (prop_data p) psd_widget_options, psb_unique_id = None,
     psb_has_data = (prop_data p \<noteq> None \<or> map_key_funcs_of p \<noteq> [])\<rparr>"

lemma fold_input:
  "fold PropSpecBuilder_input xs b =
     b\<lparr>psb_inputs := psb_inputs b @ xs, psb_has_data := (psb_has_data b \<or> xs \<noteq> [])\<rparr>"
  by (induction xs arbitrary: b) (auto simp: PropSpecBuilder_input_def)

lemma fold_map_key_func:
  "fold PropSpecBuilder_map_key_func xs b =
     b\<lparr>psb_map_key_funcs := psb_map_key_funcs b @ xs, psb_has_data := (psb_has_data b \<or> xs \<noteq> [])\<rparr>"
  by (induction xs arbitrary: b) (auto simp: PropSpecBuilder_map_key_func_def)

section \<open>What comes back of a prop\<close>

definition restored_data :: "('j, 'u) PropSpec \<Rightarrow> ('j, 'u) PropSpecData option" where
  "restored_data p =
     (if prop_data p = None \<and> map_key_funcs_of p = [] then None
      else Some \<lparr>psd_name = prop_name p, psd_default_value = kept_default p, psd_validations = Some [],
        psd_func_unique_id = Option.bind (prop_data p) psd_func_unique_id,
        psd_inputs = Some (kept_inputs (prop_data p)),
        psd_widget_kind = map_option (\<lambda>d. unwrap_or (PropSpecWidgetKind_from p) (psd_widget_kind d)) (prop_data p),
        psd_widget_options = Option.bind (prop_data p) psd_widget_options,
        psd_hidden = Some (case prop_data p of None \<Rightarrow> False | Some d \<Rightarrow> unwrap_or False (psd_hidden d)),
        psd_doc_link = None\<rparr>)"

fun restored_PropSpec :: "('j, 'u) PropSpec \<Rightarrow> ('j, 'u) PropSpec" where
  "restored_PropSpec (PropSpec.Array name data u type_prop) =
     PropSpec.Array name (restored_data (PropSpec.Array name data u type_prop)) None
       (restored_PropSpec type_prop)"
| "restored_PropSpec (PropSpec.Map name data u type_prop funcs) =
     PropSpec.Map name (restored_data (PropSpec.Map name data u type_prop funcs)) None
       (restored_PropSpec type_prop) (Some (map_key_funcs_of (PropSpec.Map name data u type_prop funcs)))"
| "restored_PropSpec (PropSpec.Object name data u entries) =
     PropSpec.Object name (restored_data (PropSpec.Object name data u entries)) None
       (rev (map restored_PropSpec entries))"
| "restored_PropSpec (PropSpec.Boolean name data u) =
     PropSpec.Boolean name (restored_data (PropSpec.Boolean name data u)) None"
| "restored_PropSpec (PropSpec.Number name data u) =
     PropSpec.Number name (restored_data (PropSpec.Number name data u)) None"
| "restored_PropSpec (PropSpec.String name data u) =
     PropSpec.String name (restored_data (PropSpec.String name data u)) None"

lemma build_prop:
  assumes "children = (if subprops p = [] then None else Some (rev (map restored_PropSpec (subprops p))))"
  shows "rbind (case children of None \<Rightarrow> Inr (prop_builder p) | Some cs \<Rightarrow> attach_children (prop_builder p) cs)
      (\<lambda>b. map_err Spec (PropSpec_build b)) = Inr (restored_PropSpec p)"
  unfolding assms
  by (cases p) (auto simp: attach_children_def PropSpec_build_def prop_builder_def restored_data_def)

section \<open>Reading a prop\<close>

text \<open>The value that is read for a prop, up to its hash and its place.\<close>

definition node_data :: "('j, 'u) PropSpec \<Rightarrow> ('j, 'u) PropNodeData option" where
  "node_data p = map_option (PropSpecData_node (PropSpecWidgetKind_from p)) (prop_data p)"

fun prop_view :: "('j, 'u) PropSpec \<Rightarrow> Hash \<Rightarrow> nat \<Rightarrow> ('j, 'u) SiPkgProp" where
  "prop_view (PropSpec.Array name data u t) h i =
     SiPkgProp.Array name (node_data (PropSpec.Array name data u t)) u h i"
| "prop_view (PropSpec.Boolean name data u) h i =
     SiPkgProp.Boolean name (node_data (PropSpec.Boolean name data u)) u h i"
| "prop_view (PropSpec.Map name data u t f) h i =
     SiPkgProp.Map name (node_data (PropSpec.Map name data u t f)) u h i"
| "prop_view (PropSpec.Number name data u) h i =
     SiPkgProp.Number name (node_data (PropSpec.Number name data u)) u h i"
| "prop_view (PropSpec.Object name data u es) h i =
     SiPkgProp.Object name (node_data (PropSpec.Object name data u es)) u h i"
| "prop_view (PropSpec.String name data u) h i =
     SiPkgProp.String name (node_data (PropSpec.String name data u)) u h i"

lemma prop_view_parts [simp]:
  "SiPkgProp_name (prop_view p h i) = prop_name p"
  "SiPkgProp_data (prop_view p h i) = node_data p"
  "SiPkgProp_source (prop_view p h i) = i"
  by (cases p; simp)+

definition seen ::
  "('g, 'j, 'u, 'd) pkg_graph \<Rightarrow> 'g \<Rightarrow> ('j, 'u) SiPkgProp \<Rightarrow> ('j, 'u) PropSpec \<Rightarrow> bool" where
  "seen R g v p \<longleftrightarrow> (\<exists>h i. v = prop_view p h i \<and> holds R g i (as_node_PropSpec p))"

lemma seen_holds: "seen R g v p \<Longrightarrow> holds R g (SiPkgProp_source v) (as_node_PropSpec p)"
  by (auto simp: seen_def)

lemma prop_seen:
  assumes "holds R g i (as_node_PropSpec p)"
  shows "\<exists>v. SiPkgProp_from_graph R g i = Inr v \<and> seen R g v p"
proof -
  obtain h where "pg_node_weight R g i = Some h" "hn_inner h = nwc_inner (as_node_PropSpec p)"
    using assms by (rule holdsE)
  then have "SiPkgProp_from_graph R g i = Inr (prop_view p (hn_hash h) i)"
    by (cases p) (simp_all add: SiPkgProp_from_graph_def read_item_def node_at_def node_data_def)
  with assms show ?thesis by (auto simp: seen_def)
qed

lemma prop_roles:
  "filter (\<lambda>c. nwc_inner c = PkgNode.PropChild PropChildNode.AttrFuncInputs) (nwc_children (as_node_PropSpec p))
     = [prop_inputs (prop_data p)]"
  "filter (\<lambda>c. nwc_inner c = PkgNode.PropChild PropChildNode.Props) (nwc_children (as_node_PropSpec p))
     = (if prop_kind p \<in> {PropSpecKind.Array, PropSpecKind.Map, PropSpecKind.Object}
        then [NodeWithChildren Tree (PkgNode.PropChild PropChildNode.Props) (map as_node_PropSpec (subprops p))]
        else [])"
  by (cases p; simp add: prop_inputs_def prop_validations_def prop_map_key_funcs_def)+

lemma inputs_seen:
  assumes "seen R g v p"
  shows "reads (SiPkgProp_inputs R g) (mapM AttrFuncInputSpec_try_from) v
    (rev (unwrap_or [] (Option.bind (prop_data p) psd_inputs)))"
proof -
  from reads_role [OF seen_holds [OF assms], where as = as_node_AttrFuncInputSpec and r = "\<lambda>s. s" and k = Tree
      and ss = "unwrap_or [] (Option.bind (prop_data p) psd_inputs)"
      and x = "PkgNode.PropChild PropChildNode.AttrFuncInputs"
      and matches = "\<lambda>n. n = PkgNode.PropChild PropChildNode.AttrFuncInputs",
      OF prop_roles(1) [unfolded prop_inputs_def] reads_AttrFuncInput]
  show ?thesis by (simp add: reads_def SiPkgProp_inputs_def)
qed

lemma map_key_funcs_seen:
  assumes "seen R g v (PropSpec.Map name data u type_prop funcs)"
  shows "reads (SiPkgProp_map_key_funcs R g) (mapM (MapKeyFuncSpec_try_from R g)) v
    (map_key_funcs_of (PropSpec.Map name data u type_prop funcs))"
proof -
  from reads_role [OF seen_holds [OF assms], where as = as_node_MapKeyFuncSpec and r = "\<lambda>s. s\<lparr>mkfs_inputs := rev (mkfs_inputs s)\<rparr>"
      and k = Tree and ss = "unwrap_or [] funcs" and x = "PkgNode.PropChild PropChildNode.MapKeyFuncs"
      and matches = "\<lambda>n. n = PkgNode.PropChild PropChildNode.MapKeyFuncs", OF _ reads_MapKeyFunc]
  show ?thesis
    by (simp add: reads_def SiPkgProp_map_key_funcs_def prop_inputs_def prop_validations_def
        prop_map_key_funcs_def)
qed

lemma stack_seen:
  assumes "seen R g v p"
  obtains vs where "prop_stack_from_source R g (SiPkgProp_source v) info = Inr (map (\<lambda>v. (v, info)) (rev vs))"
    "list_all2 (seen R g) vs (subprops p)"
proof -
  note h = seen_holds [OF assms]
  show thesis
  proof (cases "prop_kind p \<in> {PropSpecKind.Array, PropSpecKind.Map, PropSpecKind.Object}")
    case True
    obtain its where its: "pg_neighbors R g (SiPkgProp_source v) = rev its"
      "list_all2 (holds R g) its (nwc_children (as_node_PropSpec p))"
      using h by (rule holdsE)
    obtain j where j: "find_node R g (\<lambda>n. n = PkgNode.PropChild PropChildNode.Props) (rev its) = Inr (Some j)"
      "holds R g j (NodeWithChildren Tree (PkgNode.PropChild PropChildNode.Props)
        (map as_node_PropSpec (subprops p)))"
      using find_node_holds [OF its(2), of "\<lambda>n. n = PkgNode.PropChild PropChildNode.Props"] True
      by (auto simp: prop_roles(2))
    obtain jts where jts: "pg_neighbors R g j = rev jts"
      "list_all2 (holds R g) jts (map as_node_PropSpec (subprops p))"
      using j(2) by auto
    have "\<forall>k < length jts. \<exists>v. SiPkgProp_from_graph R g (jts ! k) = Inr v \<and> seen R g v (subprops p ! k)"
      using jts(2) by (auto simp: list_all2_conv_all_nth intro: prop_seen)
    then obtain f where f: "\<And>k. k < length jts \<Longrightarrow> SiPkgProp_from_graph R g (jts ! k) = Inr (f k)
        \<and> seen R g (f k) (subprops p ! k)" by metis
    let ?vs = "map f [0..<length jts]"
    have "list_all2 (\<lambda>j v. SiPkgProp_from_graph R g j = Inr v) jts ?vs"
      using f by (simp add: list_all2_conv_all_nth)
    then have "list_all2 (\<lambda>j v. SiPkgProp_from_graph R g j = Inr v) (rev jts) (rev ?vs)" by simp
    from mapM_all2 [where g = "\<lambda>v. v", OF this]
    have "mapM (SiPkgProp_from_graph R g) (rev jts) = Inr (rev ?vs)" by simp
    moreover have "list_all2 (seen R g) ?vs (subprops p)"
      using f jts(2) by (auto simp: list_all2_conv_all_nth)
    ultimately show thesis
      by (intro that [of ?vs]) (simp_all add: prop_stack_from_source_def children_from_graph_def its(1) j(1) jts(1))
  next
    case False
    then have "subprops p = []" by (cases p) simp_all
    moreover have "children_from_graph R g (SiPkgProp_source v)
        (\<lambda>n. n = PkgNode.PropChild PropChildNode.Props) (SiPkgProp_from_graph R g) = Inr []"
      by (rule no_role [OF h]) (use False in \<open>simp add: prop_roles(2)\<close>)
    ultimately show thesis by (intro that [of "[]"]) (simp_all add: prop_stack_from_source_def)
  qed
qed

section \<open>The visit\<close>

type_synonym ('j, 'u) entry = "bytes option \<times> ('j, 'u) PropSpec"

definition entry_path :: "('j, 'u) entry \<Rightarrow> bytes" where
  "entry_path e = prop_path (fst e) (prop_name (snd e))"

text \<open>All props below a parent path, each with the path of its parent.\<close>

function preorder :: "bytes option \<Rightarrow> ('j, 'u) PropSpec \<Rightarrow> ('j, 'u) entry list" where
  "preorder pp p = (pp, p) # concat (map (preorder (Some (prop_path pp (prop_name p)))) (subprops p))"
  by pat_completeness auto
termination
  by (relation "measure (size \<circ> snd)") (auto simp: subprops_smaller)

declare preorder.simps [simp del]

abbreviation forest :: "bytes option \<Rightarrow> ('j, 'u) PropSpec list \<Rightarrow> ('j, 'u) entry list" where
  "forest pp qs \<equiv> concat (map (preorder pp) qs)"

lemma preorder_forest: "preorder pp p = (pp, p) # forest (Some (entry_path (pp, p))) (subprops p)"
  by (subst preorder.simps) (simp add: entry_path_def)

definition add_prop :: "('j, 'u) entry \<Rightarrow> ('j, 'u) PropSpecVisitContext \<Rightarrow> ('j, 'u) PropSpecVisitContext" where
  "add_prop e ctx = \<lparr>prop_stack = (entry_path e, prop_builder (snd e)) # prop_stack ctx,
     prop_parents = (case fst e of None \<Rightarrow> prop_parents ctx
       | Some q \<Rightarrow> (prop_parents ctx)(entry_path e \<mapsto> q))\<rparr>"

abbreviation visited ::
  "('j, 'u) entry list \<Rightarrow> ('j, 'u) PropSpecVisitContext \<Rightarrow> ('j, 'u) PropSpecVisitContext" where
  "visited es ctx \<equiv> fold add_prop es ctx"

lemma node_default_value:
  "Option.bind (node_data p) pd_default_value = Option.bind (prop_data p) psd_default_value"
  by (cases "prop_data p") (simp_all add: node_data_def PropSpecData_node_def)

lemma builder_kind_seen:
  assumes "seen R g v p" and "\<And>v. to_value v = Some v"
  shows "builder_kind to_value R g v (PropSpecBuilder_default\<lparr>psb_has_data := False\<rparr>)
    = Inr (PropSpecBuilder_default\<lparr>psb_kind := Some (prop_kind p), psb_default_value := kept_default p,
        psb_map_key_funcs := map_key_funcs_of p,
        psb_has_data := (kept_default p \<noteq> None \<or> map_key_funcs_of p \<noteq> [])\<rparr>)"
proof -
  obtain h i where v: "v = prop_view p h i" using assms(1) by (auto simp: seen_def)
  show ?thesis
  proof (cases p)
    case (Map name data u t f)
    from map_key_funcs_seen [OF assms(1) [unfolded Map]] show ?thesis
      by (auto simp: v Map builder_kind_def reads_def fold_map_key_func PropSpecBuilder_default_def)
  next
    case (Boolean name data u)
    then show ?thesis
      using node_default_value [of p]
      by (cases "Option.bind data psd_default_value") (simp_all add: v builder_kind_def assms(2)
          PropSpecBuilder_default_value_def PropSpecBuilder_default_def)
  next
    case (Number name data u)
    then show ?thesis
      using node_default_value [of p]
      by (cases "Option.bind data psd_default_value") (simp_all add: v builder_kind_def set_default_value_def
          PropSpecBuilder_default_value_def PropSpecBuilder_default_def)
  qed (simp_all add: v builder_kind_def set_default_value_def PropSpecBuilder_default_def)
qed

text \<open>One step of the visit: below the root, a path that was taken already is an error.\<close>

definition visit_entry ::
  "('j, 'u) entry \<Rightarrow> ('j, 'u) PropSpecVisitContext \<Rightarrow> ('j, 'u) PropSpecVisitContext pkg_result" where
  "visit_entry e ctx =
     (if fst e \<noteq> None \<and> prop_parents ctx (entry_path e) \<noteq> None
      then Inl (PropTreeInvalid ''Prop has more than one parent'') else Inr (add_prop e ctx))"

fun visit_entries ::
  "('j, 'u) entry list \<Rightarrow> ('j, 'u) PropSpecVisitContext \<Rightarrow> ('j, 'u) PropSpecVisitContext pkg_result" where
  "visit_entries [] ctx = Inr ctx"
| "visit_entries (e # es) ctx = rbind (visit_entry e ctx) (visit_entries es)"

lemma visit_entries_append:
  "visit_entries (xs @ ys) ctx = rbind (visit_entries xs ctx) (visit_entries ys)"
  by (induction xs arbitrary: ctx) (auto simp: rbind_def split: sum.splits)

lemma create_prop_stack_seen:
  assumes "seen R g v p" and "\<And>v. to_value v = Some v"
  shows "create_prop_stack to_value R g v pp ctx
    = rbind (visit_entry (pp, p) ctx) (\<lambda>ctx'. Inr (Some (entry_path (pp, p)), ctx'))"
proof -
  obtain h i where v: "v = prop_view p h i" using assms(1) by (auto simp: seen_def)
  note b = builder_kind_seen [OF assms(1,2)]
  have "kept_default p \<noteq> None \<Longrightarrow> prop_data p \<noteq> None" by (cases p) (auto simp: bind_eq_Some_conv)
  then have "builder_data R g v (PropSpecBuilder_default\<lparr>psb_kind := Some (prop_kind p),
        psb_default_value := kept_default p, psb_map_key_funcs := map_key_funcs_of p,
        psb_has_data := (kept_default p \<noteq> None \<or> map_key_funcs_of p \<noteq> [])\<rparr>) = Inr (prop_builder p)"
    using inputs_seen [OF assms(1)]
    by (auto simp: v builder_data_def node_data_def PropSpecData_node_def reads_def fold_input
        PropSpecBuilder_func_unique_id_def PropSpecBuilder_default_def prop_builder_def kept_inputs_def
        Let_def split: option.splits)
  with b show ?thesis
    by (cases pp; cases ctx)
      (auto simp: create_prop_stack_def visit_entry_def add_prop_def entry_path_def v Let_def
        split: option.splits)
qed

lemma visited_parents:
  assumes "y \<notin> entry_path ` set es"
  shows "prop_parents (visited es ctx) y = prop_parents ctx y"
  using assms by (induction es arbitrary: ctx) (auto simp: add_prop_def split: option.splits)

definition fresh_in :: "('j, 'u) PropSpecVisitContext \<Rightarrow> ('j, 'u) entry list \<Rightarrow> bool" where
  "fresh_in ctx es \<longleftrightarrow> distinct (map entry_path es) \<and> (\<forall>e \<in> set es. prop_parents ctx (entry_path e) = None)"

lemma fresh_in_append:
  "fresh_in ctx (xs @ ys) \<longleftrightarrow> fresh_in ctx xs \<and> fresh_in (visited xs ctx) ys
     \<and> entry_path ` set xs \<inter> entry_path ` set ys = {} \<and> (\<forall>e \<in> set ys. prop_parents ctx (entry_path e) = None)"
proof -
  have "prop_parents (visited xs ctx) (entry_path e) = prop_parents ctx (entry_path e)"
    if "entry_path ` set xs \<inter> entry_path ` set ys = {}" "e \<in> set ys" for e
    by (rule visited_parents) (use that in blast)
  then have "fresh_in (visited xs ctx) ys \<longleftrightarrow> fresh_in ctx ys"
    if "entry_path ` set xs \<inter> entry_path ` set ys = {}"
    unfolding fresh_in_def using that by metis
  then show ?thesis by (auto simp: fresh_in_def)
qed

lemma visit_entries_fresh:
  assumes "fresh_in ctx es"
  shows "visit_entries es ctx = Inr (visited es ctx)"
  using assms
proof (induction es arbitrary: ctx)
  case (Cons e es)
  then have "fresh_in ctx ([e] @ es)" by simp
  then have "fresh_in (add_prop e ctx) es" "prop_parents ctx (entry_path e) = None"
    unfolding fresh_in_append by (auto simp: fresh_in_def)
  with Cons.IH show ?case by (simp add: visit_entry_def)
qed simp

lemma visit_entries_taken:
  assumes "e \<in> set es" and "fst e \<noteq> None" and "prop_parents ctx (entry_path e) \<noteq> None"
  shows "visit_entries es ctx = Inl (PropTreeInvalid ''Prop has more than one parent'')"
  using assms
proof (induction es arbitrary: ctx)
  case (Cons e' es)
  have "prop_parents (add_prop e' ctx) (entry_path e) \<noteq> None"
    using Cons.prems(3) by (auto simp: add_prop_def split: option.splits)
  with Cons show ?case by (auto simp: visit_entry_def)
qed simp

abbreviation inner :: "('j, 'u) entry list \<Rightarrow> ('j, 'u) entry list" where
  "inner es \<equiv> filter (\<lambda>e. fst e \<noteq> None) es"

lemma visit_entries_twice:
  assumes "\<not> distinct (map entry_path (inner es))"
  shows "visit_entries es ctx = Inl (PropTreeInvalid ''Prop has more than one parent'')"
  using assms
proof (induction es arbitrary: ctx)
  case (Cons e es)
  show ?case
  proof (cases "fst e \<noteq> None \<and> entry_path e \<in> entry_path ` set (inner es)")
    case True
    then obtain e' where e': "e' \<in> set es" "fst e' \<noteq> None" "entry_path e' = entry_path e" by auto
    have "visit_entries es (add_prop e ctx) = Inl (PropTreeInvalid ''Prop has more than one parent'')"
      by (rule visit_entries_taken [OF e'(1,2)]) (use True in \<open>auto simp: e'(3) add_prop_def\<close>)
    then show ?thesis by (simp add: visit_entry_def)
  next
    case False
    with Cons show ?thesis by (auto simp: visit_entry_def split: if_splits)
  qed
qed simp

definition continue_with :: "('e, 's) result \<Rightarrow> ('s \<Rightarrow> ('e, 't) result option) \<Rightarrow> ('e, 't) result option" where
  "continue_with m f = tbind (Some m) f"

lemma continue_with_simps [simp]:
  "continue_with (Inl e) f = Some (Inl e)" "continue_with (Inr s) f = f s"
  by (simp_all add: continue_with_def)

lemma continue_with_rbind: "continue_with (rbind m f) k = continue_with m (\<lambda>s. continue_with (f s) k)"
  by (cases m) simp_all

lemma visit_forest:
  assumes "\<And>q v pp ctx rest. q \<in> set qs \<Longrightarrow> seen R g v q \<Longrightarrow>
      visit_props R g f ((v, pp) # rest) ctx = continue_with (visit_entries (preorder pp q) ctx) (visit_props R g f rest)"
    and "list_all2 (seen R g) vs qs"
  shows "visit_props R g f (map (\<lambda>v. (v, pp)) vs @ rest) ctx
    = continue_with (visit_entries (forest pp qs) ctx) (visit_props R g f rest)"
  using assms(2,1)
proof (induction vs qs arbitrary: ctx rule: list_all2_induct)
  case (Cons v vs q qs)
  have "visit_props R g f ((v, pp) # map (\<lambda>v. (v, pp)) vs @ rest) ctx
      = continue_with (visit_entries (preorder pp q) ctx) (visit_props R g f (map (\<lambda>v. (v, pp)) vs @ rest))"
    by (rule Cons.prems [OF _ Cons.hyps(1)]) simp
  moreover have "visit_props R g f (map (\<lambda>v. (v, pp)) vs @ rest)
      = (\<lambda>ctx. continue_with (visit_entries (forest pp qs) ctx) (visit_props R g f rest))"
    by (rule ext, rule Cons.IH, rule Cons.prems) simp_all
  ultimately show ?case by (simp add: visit_entries_append continue_with_rbind)
qed simp

lemma visit_seen:
  assumes "\<And>v. to_value v = Some v" and "seen R g v p"
  shows "visit_props R g (create_prop_stack to_value R g) ((v, pp) # rest) ctx
    = continue_with (visit_entries (preorder pp p) ctx) (visit_props R g (create_prop_stack to_value R g) rest)"
  using assms(2)
proof (induction p arbitrary: v pp ctx rest rule: prop_induct)
  case (step p)
  let ?path = "entry_path (pp, p)"
  obtain vs where vs: "prop_stack_from_source R g (SiPkgProp_source v) (Some ?path)
      = Inr (map (\<lambda>v. (v, Some ?path)) (rev vs))" "list_all2 (seen R g) vs (subprops p)"
    by (rule stack_seen [OF step.prems])
  have "visit_props R g (create_prop_stack to_value R g) ((v, pp) # rest) ctx
    = continue_with (visit_entry (pp, p) ctx)
        (visit_props R g (create_prop_stack to_value R g) (map (\<lambda>v. (v, Some ?path)) vs @ rest))"
    by (subst visit_props.simps)
      (cases "visit_entry (pp, p) ctx"; simp add: create_prop_stack_seen [OF step.prems assms(1)] vs(1) rev_map)
  moreover have "visit_props R g (create_prop_stack to_value R g) (map (\<lambda>v. (v, Some ?path)) vs @ rest)
      = (\<lambda>ctx. continue_with (visit_entries (forest (Some ?path) (subprops p)) ctx)
          (visit_props R g (create_prop_stack to_value R g) rest))"
    by (rule ext, rule visit_forest [OF step.IH vs(2)])
  ultimately show ?case by (simp add: preorder_forest continue_with_rbind)
qed

lemma visited_empty:
  "prop_stack (visited es ctx) = rev (map (\<lambda>e. (entry_path e, prop_builder (snd e))) es) @ prop_stack ctx"
  by (induction es arbitrary: ctx) (simp_all add: add_prop_def)

section \<open>The rebuild\<close>

definition parents_of :: "(bytes \<rightharpoonup> bytes) \<Rightarrow> ('j, 'u) entry list \<Rightarrow> bool" where
  "parents_of parents es \<longleftrightarrow> (\<forall>e \<in> set es. parents (entry_path e) = fst e)"

lemma visited_parents_of:
  assumes "fresh_in ctx es"
  shows "parents_of (prop_parents (visited es ctx)) es"
  using assms
proof (induction es arbitrary: ctx)
  case (Cons e es)
  have "fresh_in ctx ([e] @ es)" using Cons.prems by simp
  then have f: "fresh_in (add_prop e ctx) es" "entry_path e \<notin> entry_path ` set es"
    "prop_parents ctx (entry_path e) = None"
    unfolding fresh_in_append by (auto simp: fresh_in_def)
  have "prop_parents (visited es (add_prop e ctx)) (entry_path e) = fst e"
    using f(3) by (simp add: visited_parents [OF f(2)] add_prop_def split: option.splits)
  with Cons.IH [OF f(1)] show ?case by (simp add: parents_of_def)
qed (simp add: parents_of_def)

abbreviation stacked :: "('j, 'u) entry list \<Rightarrow> (bytes \<times> ('j, 'u) PropSpecBuilder) list" where
  "stacked es \<equiv> map (\<lambda>e. (entry_path e, prop_builder (snd e))) (rev es)"

text \<open>The state of the fold after the props below a path were finished.\<close>

definition collected ::
  "(bytes \<rightharpoonup> ('j, 'u) PropSpec list) \<Rightarrow> bytes \<Rightarrow> ('j, 'u) entry list \<Rightarrow> ('j, 'u) PropSpec list \<Rightarrow>
   (bytes \<rightharpoonup> ('j, 'u) PropSpec list) \<Rightarrow> bool" where
  "collected C path es specs C' \<longleftrightarrow>
     (\<forall>x. x \<notin> entry_path ` set es \<longrightarrow> x \<noteq> path \<longrightarrow> C' x = C x)
     \<and> C' path = (if specs = [] then C path else Some (unwrap_or [] (C path) @ specs))"

lemma build_props_node:
  assumes "C (entry_path (pp, p)) =
      (if subprops p = [] then None else Some (rev (map restored_PropSpec (subprops p))))"
  shows "build_props root parents ((entry_path (pp, p), prop_builder p) # rest) C b =
    (case parents (entry_path (pp, p)) of
       Some parent \<Rightarrow> build_props root parents rest (C(parent \<mapsto>
         (case C parent of Some specs \<Rightarrow> specs @ [restored_PropSpec p] | None \<Rightarrow> [restored_PropSpec p]))) b
     | None \<Rightarrow> rbind (ok_or Panicked (SchemaVariantSpecBuilder_prop root (restored_PropSpec p) b))
         (build_props root parents rest C))"
proof -
  have "rbind (case C (entry_path (pp, p)) of None \<Rightarrow> Inr (prop_builder p)
      | Some children \<Rightarrow> attach_children (prop_builder p) children) (\<lambda>prop'.
      rbind (map_err Spec (PropSpec_build prop')) f) = f (restored_PropSpec p)" for f
    using build_prop [OF assms] by (simp add: rbind_assoc [symmetric])
  then show ?thesis by simp
qed

declare build_props.simps [simp del]

definition rebuilt ::
  "SchemaVariantSpecPropRoot \<Rightarrow> (bytes \<rightharpoonup> bytes) \<Rightarrow> ('j, 'u) SchemaVariantSpecBuilder \<Rightarrow> bytes \<Rightarrow>
   ('j, 'u) entry list \<Rightarrow> ('j, 'u) PropSpec list \<Rightarrow> bool" where
  "rebuilt root parents b path es specs \<longleftrightarrow>
     (\<forall>C rest. (\<forall>e \<in> set es. C (entry_path e) = None) \<longrightarrow>
        (\<exists>C'. build_props root parents (stacked es @ rest) C b = build_props root parents rest C' b
          \<and> collected C path es specs C'))"

lemma rebuiltD:
  assumes "rebuilt root parents b path es specs" and "\<And>e. e \<in> set es \<Longrightarrow> C (entry_path e) = None"
  obtains C' where "build_props root parents (stacked es @ rest) C b = build_props root parents rest C' b"
    "collected C path es specs C'"
  using assms unfolding rebuilt_def by blast

lemma rebuilt_Nil: "rebuilt root parents b path [] []"
  by (auto simp: rebuilt_def collected_def)

lemma collected_none:
  assumes "collected C path ys specs C'" and "C x = None" and "x \<notin> entry_path ` set ys" and "x \<noteq> path"
  shows "C' x = None"
  using assms by (simp add: collected_def)

lemma collected_trans:
  "collected C path ys s2 C1 \<Longrightarrow> collected C1 path xs s1 C2 \<Longrightarrow> collected C path (xs @ ys) (s2 @ s1) C2"
  by (simp add: collected_def image_Un)

lemma rebuilt_append:
  assumes "rebuilt root parents b path xs s1" and "rebuilt root parents b path ys s2"
    and disj: "entry_path ` set xs \<inter> entry_path ` set ys = {}" and "path \<notin> entry_path ` set xs"
  shows "rebuilt root parents b path (xs @ ys) (s2 @ s1)"
  unfolding rebuilt_def
proof (intro allI impI)
  fix C :: "bytes \<Rightarrow> ('a, 'b) PropSpec list option" and rest
  assume C: "\<forall>e \<in> set (xs @ ys). C (entry_path e) = None"
  obtain C1 where C1: "build_props root parents (stacked ys @ stacked xs @ rest) C b
      = build_props root parents (stacked xs @ rest) C1 b" "collected C path ys s2 C1"
    by (rule rebuiltD [OF assms(2), of C "stacked xs @ rest"]) (use C in simp_all)
  have none: "C1 (entry_path e) = None" if "e \<in> set xs" for e
    by (rule collected_none [OF C1(2)]) (use that C disj assms(4) in auto)
  obtain C2 where "build_props root parents (stacked xs @ rest) C1 b = build_props root parents rest C2 b"
    "collected C1 path xs s1 C2"
    by (rule rebuiltD [OF assms(1), of C1 rest]) (use none in simp_all)
  with C1 collected_trans show "\<exists>C'. build_props root parents (stacked (xs @ ys) @ rest) C b
      = build_props root parents rest C' b \<and> collected C path (xs @ ys) (s2 @ s1) C'"
    by fastforce
qed

lemma rebuilt_forest:
  assumes "\<And>q. q \<in> set qs \<Longrightarrow> rebuilt root parents b path (preorder (Some path) q) [restored_PropSpec q]"
    and "distinct (map entry_path (forest (Some path) qs))" and "path \<notin> entry_path ` set (forest (Some path) qs)"
  shows "rebuilt root parents b path (forest (Some path) qs) (rev (map restored_PropSpec qs))"
  using assms
proof (induction qs)
  case (Cons q qs)
  have "rebuilt root parents b path (preorder (Some path) q @ forest (Some path) qs)
      (rev (map restored_PropSpec qs) @ [restored_PropSpec q])"
    by (rule rebuilt_append) (use Cons in \<open>auto simp: Int_commute\<close>)
  then show ?case by simp
qed (simp add: rebuilt_Nil)

lemma rebuilt_prop:
  assumes "distinct (map entry_path (preorder (Some path) p))" and "path \<notin> entry_path ` set (preorder (Some path) p)"
    and "parents_of parents (preorder (Some path) p)"
  shows "rebuilt root parents b path (preorder (Some path) p) [restored_PropSpec p]"
  using assms
proof (induction p arbitrary: path rule: prop_induct)
  case (step p)
  let ?path = "entry_path (Some path, p)"
  let ?F = "forest (Some ?path) (subprops p)"
  have P: "preorder (Some path) p = (Some path, p) # ?F" by (rule preorder_forest)
  have F: "distinct (map entry_path ?F)" "?path \<notin> entry_path ` set ?F" "parents_of parents ?F"
    "parents ?path = Some path" "path \<noteq> ?path"
    using step.prems by (auto simp: P parents_of_def)
  have "rebuilt root parents b ?path ?F (rev (map restored_PropSpec (subprops p)))"
  proof (rule rebuilt_forest)
    fix q assume q: "q \<in> set (subprops p)"
    show "rebuilt root parents b ?path (preorder (Some ?path) q) [restored_PropSpec q]"
    proof (rule step.IH [OF q])
      show "distinct (map entry_path (preorder (Some ?path) q))"
        using F(1) q by (auto simp: map_concat distinct_concat_iff)
      show "?path \<notin> entry_path ` set (preorder (Some ?path) q)" "parents_of parents (preorder (Some ?path) q)"
        using F(2,3) q by (auto simp: parents_of_def)
    qed
  qed (fact F)+
  note below = this
  show ?case
    unfolding rebuilt_def P
  proof (intro allI impI)
    fix C :: "bytes \<Rightarrow> ('a, 'b) PropSpec list option" and rest
    assume C: "\<forall>e \<in> set ((Some path, p) # ?F). C (entry_path e) = None"
    have C': "C (entry_path e) = None" if "e \<in> set ?F" for e
      by (rule C [rule_format]) (use that in simp)
    obtain C1 where C1: "build_props root parents (stacked ?F @ (?path, prop_builder p) # rest) C b
        = build_props root parents ((?path, prop_builder p) # rest) C1 b"
      "collected C ?path ?F (rev (map restored_PropSpec (subprops p))) C1"
      by (rule rebuiltD [where C = C and rest = "(?path, prop_builder p) # rest", OF below C'])
    have "C1 ?path = (if subprops p = [] then None else Some (rev (map restored_PropSpec (subprops p))))"
      using C1(2) C by (simp add: collected_def)
    note node = build_props_node [where C = C1 and root = root and parents = parents and rest = rest and b = b, OF this]
    have "C1 path = C path" using C1(2) F(5) step.prems(2) by (auto simp: collected_def P)
    then have "collected C path ((Some path, p) # ?F) [restored_PropSpec p] (C1(path \<mapsto>
        (case C1 path of Some specs \<Rightarrow> specs @ [restored_PropSpec p] | None \<Rightarrow> [restored_PropSpec p])))"
      using C1(2) by (simp add: collected_def unwrap_or_def split: option.splits)
    moreover have "build_props root parents (stacked ((Some path, p) # ?F) @ rest) C b
        = build_props root parents rest (C1(path \<mapsto>
        (case C1 path of Some specs \<Rightarrow> specs @ [restored_PropSpec p] | None \<Rightarrow> [restored_PropSpec p]))) b"
      using C1(1) node by (simp add: F(4))
    ultimately show "\<exists>C'. build_props root parents (stacked ((Some path, p) # ?F) @ rest) C b
        = build_props root parents rest C' b \<and> collected C path ((Some path, p) # ?F) [restored_PropSpec p] C'"
      by blast
  qed
qed

end
