(* ===== verification/Pkg_Restored_Variant.thy ===== *)
theory Pkg_Restored_Variant
  imports Pkg_Restored_Props
begin

text \<open>
  What comes back of a schema variant. With names under which paths identify props, the props below its
  domain and its resource value come back as \<open>restored_PropSpec\<close> says, in reverse order, below a root
  with the default data; of the rest, its functions and sockets come back, its leaf functions, secrets
  and secret definition do not.
\<close>

section \<open>Paths identify props\<close>

definition under :: "bytes \<Rightarrow> bytes \<Rightarrow> bool" where
  "under x y \<longleftrightarrow> (\<exists>t. y = x @ t \<and> (t = [] \<or> hd t = PROP_PATH_SEPARATOR))"

lemma under_refl: "under x x"
  by (simp add: under_def)

lemma under_append: "under (x @ [PROP_PATH_SEPARATOR] @ n) y \<Longrightarrow> under x y"
  by (auto simp: under_def)

lemma preorder_under:
  "e \<in> set (preorder pp p) \<Longrightarrow> under (entry_path (pp, p)) (entry_path e)"
proof (induction p arbitrary: pp rule: prop_induct)
  case (step p)
  from step.prems consider "e = (pp, p)"
    | q where "q \<in> set (subprops p)" "e \<in> set (preorder (Some (entry_path (pp, p))) q)"
    by (auto simp: preorder_forest [of pp p])
  then show ?case
  proof cases
    case (2 q)
    from step.IH [OF 2] show ?thesis by (simp add: entry_path_def prop_path_def under_append del: append.simps)
  qed (simp add: under_refl)
qed

lemma below_longer:
  assumes "e \<in> set (forest (Some path) qs)"
  shows "length path < length (entry_path e)"
proof -
  obtain q where "q \<in> set qs" "e \<in> set (preorder (Some path) q)" using assms by auto
  from preorder_under [OF this(2)] show ?thesis by (auto simp: under_def entry_path_def prop_path_def)
qed

lemma name_of_path:
  assumes "n1 @ t1 = n2 @ t2" and "t1 = [] \<or> hd t1 = sep" and "t2 = [] \<or> hd t2 = sep"
    and "sep \<notin> set n1" and "sep \<notin> set n2"
  shows "n1 = n2"
proof -
  have "takeWhile (\<lambda>c. c \<noteq> sep) (n @ t) = n" if "t = [] \<or> hd t = sep" "sep \<notin> set n" for n t
    using that by (cases t) (auto simp: takeWhile_append2 takeWhile_tail)
  with assms show ?thesis by metis
qed

lemma under_sibling:
  assumes "under (entry_path (pp, q1)) y" and "under (entry_path (pp, q2)) y"
    and "PROP_PATH_SEPARATOR \<notin> set (prop_name q1)" and "PROP_PATH_SEPARATOR \<notin> set (prop_name q2)"
  shows "prop_name q1 = prop_name q2"
  using assms by (cases pp) (auto simp: under_def entry_path_def prop_path_def intro: name_of_path)

lemma distinct_forest:
  assumes "names_ok qs" and "\<And>q. q \<in> set qs \<Longrightarrow> distinct (map entry_path (preorder pp q))"
  shows "distinct (map entry_path (forest pp qs))"
  using assms
proof (induction qs)
  case (Cons q qs)
  have "entry_path e \<noteq> entry_path e'" if "e \<in> set (preorder pp q)" "q' \<in> set qs" "e' \<in> set (preorder pp q')"
    for e e' q'
    using preorder_under [OF that(1)] preorder_under [OF that(3)] under_sibling [of pp q _ q'] Cons.prems(1) that(2)
    by (force simp: names_ok_def)
  with Cons show ?case by (fastforce simp: names_ok_def)
qed simp

lemma distinct_preorder: "props_ok p \<Longrightarrow> distinct (map entry_path (preorder pp p))"
proof (induction p arbitrary: pp rule: prop_induct)
  case (step p)
  have "distinct (map entry_path (forest (Some (entry_path (pp, p))) (subprops p)))"
    by (rule distinct_forest) (use step props_okD [OF step.prems] in auto)
  moreover have "entry_path (pp, p) \<noteq> entry_path e" if "e \<in> set (forest (Some (entry_path (pp, p))) (subprops p))" for e
    using below_longer [OF that] by auto
  ultimately show ?case by (auto simp: preorder_forest [of pp p])
qed

section \<open>The roots\<close>

fun push_all ::
  "SchemaVariantSpecPropRoot \<Rightarrow> ('j, 'u) PropSpec list \<Rightarrow> ('j, 'u) SchemaVariantSpecBuilder \<Rightarrow>
   ('j, 'u) SchemaVariantSpecBuilder pkg_result" where
  "push_all root [] b = Inr b"
| "push_all root (s # ss) b = rbind (ok_or Panicked (SchemaVariantSpecBuilder_prop root s b)) (push_all root ss)"

lemma build_root:
  assumes "distinct (map entry_path (preorder None p))" and "parents_of parents (preorder None p)"
    and C: "\<And>e. e \<in> set (preorder None p) \<Longrightarrow> C (entry_path e) = None"
  obtains C' where "build_props root parents (stacked (preorder None p) @ rest) C b
      = rbind (ok_or Panicked (SchemaVariantSpecBuilder_prop root (restored_PropSpec p) b))
          (build_props root parents rest C')"
    "\<And>x. x \<notin> entry_path ` set (preorder None p) \<Longrightarrow> C' x = C x"
proof -
  let ?path = "entry_path (None, p)"
  let ?F = "forest (Some ?path) (subprops p)"
  have P: "preorder None p = (None, p) # ?F" by (rule preorder_forest)
  have F: "distinct (map entry_path ?F)" "?path \<notin> entry_path ` set ?F" "parents_of parents ?F"
    "parents ?path = None" "\<And>e. e \<in> set ?F \<Longrightarrow> C (entry_path e) = None"
    using assms by (auto simp: P parents_of_def)
  have "rebuilt root parents b ?path ?F (rev (map restored_PropSpec (subprops p)))"
  proof (rule rebuilt_forest)
    fix q assume q: "q \<in> set (subprops p)"
    show "rebuilt root parents b ?path (preorder (Some ?path) q) [restored_PropSpec q]"
      by (rule rebuilt_prop) (use F q in \<open>auto simp: map_concat distinct_concat_iff parents_of_def\<close>)
  qed (fact F)+
  from rebuiltD [where C = C and rest = "(?path, prop_builder p) # rest", OF this F(5)]
  obtain C1 where C1: "build_props root parents (stacked ?F @ (?path, prop_builder p) # rest) C b
      = build_props root parents ((?path, prop_builder p) # rest) C1 b"
    "collected C ?path ?F (rev (map restored_PropSpec (subprops p))) C1" by blast
  have "C1 ?path = (if subprops p = [] then None else Some (rev (map restored_PropSpec (subprops p))))"
    using C1(2) C [of "(None, p)"] by (simp add: collected_def P)
  note node = build_props_node [where C = C1 and root = root and parents = parents and rest = rest and b = b, OF this]
  show thesis
    by (rule that [of C1]) (use C1 node F(4) in \<open>auto simp: P collected_def\<close>)
qed

lemma build_roots:
  assumes "distinct (map entry_path (forest None qs))" and "parents_of parents (forest None qs)"
    and "\<And>e. e \<in> set (forest None qs) \<Longrightarrow> C (entry_path e) = None"
  shows "build_props root parents (stacked (forest None qs)) C b = push_all root (rev (map restored_PropSpec qs)) b"
  using assms
proof (induction qs arbitrary: C b rule: rev_induct)
  case (snoc q qs)
  have q: "distinct (map entry_path (preorder None q))" "parents_of parents (preorder None q)"
    "\<And>e. e \<in> set (preorder None q) \<Longrightarrow> C (entry_path e) = None"
    using snoc.prems by (auto simp: parents_of_def)
  obtain C' where C': "build_props root parents (stacked (preorder None q) @ stacked (forest None qs)) C b
      = rbind (ok_or Panicked (SchemaVariantSpecBuilder_prop root (restored_PropSpec q) b))
          (build_props root parents (stacked (forest None qs)) C')"
    "\<And>x. x \<notin> entry_path ` set (preorder None q) \<Longrightarrow> C' x = C x"
    by (rule build_root [where C = C and root = root and b = b and rest = "stacked (forest None qs)", OF q]) (assumption, rule that)
  have "build_props root parents (stacked (forest None qs)) C' b' = push_all root (rev (map restored_PropSpec qs)) b'"
    for b'
  proof (rule snoc.IH)
    show "distinct (map entry_path (forest None qs))" "parents_of parents (forest None qs)"
      using snoc.prems by (auto simp: parents_of_def)
    fix e assume e: "e \<in> set (forest None qs)"
    then have "entry_path e \<notin> entry_path ` set (preorder None q)" using snoc.prems(1) by auto
    with C'(2) snoc.prems(3) e show "C' (entry_path e) = None" by auto
  qed
  then have "build_props root parents (stacked (forest None qs)) C' = push_all root (rev (map restored_PropSpec qs))"
    by blast
  with C'(1) show ?case by simp
qed (simp add: build_props.simps)

lemma visit_props_Nil: "visit_props R g f [] s = Some (Inr s)"
  by (simp add: visit_props.simps)

lemma build_prop_specs_visit:
  assumes "\<And>v. to_value v = Some v"
    and "get_prop_root_idx R g v root = Inr (Some j)" and "pg_neighbors R g j = [k]"
    and "holds R g k (as_node_PropSpec p)"
  shows "build_prop_specs to_value R g v root b =
    Some (rbind (visit_entries (forest None (subprops p)) \<lparr>prop_stack = [], prop_parents = Map.empty\<rparr>)
      (\<lambda>ctx. build_props root (prop_parents ctx) (prop_stack ctx) Map.empty b))"
proof -
  let ?ctx = "\<lparr>prop_stack = [], prop_parents = Map.empty\<rparr>"
  have w: "seen R g (prop_view p h k) p" for h using assms(4) by (auto simp: seen_def)
  obtain vs where vs: "prop_stack_from_source R g k (None :: bytes option) = Inr (map (\<lambda>v. (v, None)) (rev vs))"
    "list_all2 (seen R g) vs (subprops p)"
    by (rule stack_seen [OF w, where info = None]) simp
  have "visit_prop_tree R g v root (create_prop_stack to_value R g) None ?ctx
      = continue_with (visit_entries (forest None (subprops p)) ?ctx) (\<lambda>ctx. Some (Inr ctx))"
    using visit_forest [OF visit_seen [OF assms(1)] vs(2), where rest = "[]"]
    by (simp add: visit_prop_tree_def assms(2,3) vs(1) rev_map visit_props_Nil [abs_def])
  then show ?thesis
    by (cases "visit_entries (forest None (subprops p)) ?ctx") (simp_all add: build_prop_specs_def)
qed

lemma build_prop_specs_holds:
  assumes "\<And>v. to_value v = Some v" and "props_ok p"
    and "get_prop_root_idx R g v root = Inr (Some j)" and "pg_neighbors R g j = [k]"
    and "holds R g k (as_node_PropSpec p)"
  shows "build_prop_specs to_value R g v root b = Some (push_all root (rev (map restored_PropSpec (subprops p))) b)"
proof -
  let ?ctx = "\<lparr>prop_stack = [], prop_parents = Map.empty\<rparr>"
  let ?F = "forest None (subprops p)"
  have d: "distinct (map entry_path ?F)"
    by (rule distinct_forest) (use props_okD [OF assms(2)] distinct_preorder in auto)
  then have f: "fresh_in ?ctx ?F" by (simp add: fresh_in_def)
  show ?thesis
    by (simp add: build_prop_specs_visit [OF assms(1,3-5)] visit_entries_fresh [OF f] visited_empty rev_map
        build_roots [OF d visited_parents_of [OF f]])
qed

lemma push_entries:
  "vsb_domain b = Some (PropSpec.Object n d u es) \<Longrightarrow>
   push_all SchemaVariantSpecPropRoot.Domain ss b = Inr (b\<lparr>vsb_domain := Some (PropSpec.Object n d u (es @ ss))\<rparr>)"
  "vsb_resource_value b = Some (PropSpec.Object n d u es) \<Longrightarrow>
   push_all SchemaVariantSpecPropRoot.ResourceValue ss b
     = Inr (b\<lparr>vsb_resource_value := Some (PropSpec.Object n d u (es @ ss))\<rparr>)"
  by (induction ss arbitrary: b es) (simp_all add: SchemaVariantSpecBuilder_prop_def push_entry_def)

lemma push_domain:
  "vsb_domain b = None \<Longrightarrow> push_all SchemaVariantSpecPropRoot.Domain ss b
     = Inr (b\<lparr>vsb_domain := (if ss = [] then None else Some (default_root ''domain'' ss))\<rparr>)"
  by (cases ss) (simp_all add: SchemaVariantSpecBuilder_prop_def push_entry_def default_domain_def
      default_root_def push_entries)

lemma push_resource_value:
  "vsb_resource_value b = None \<Longrightarrow> push_all SchemaVariantSpecPropRoot.ResourceValue ss b
     = Inr (b\<lparr>vsb_resource_value := (if ss = [] then None else Some (default_root ''value'' ss))\<rparr>)"
  by (cases ss) (simp_all add: SchemaVariantSpecBuilder_prop_def push_entry_def default_resource_value_def
      default_root_def push_entries)

section \<open>The variant\<close>

definition variant_names_ok :: "('j, 'u) SchemaVariantSpec \<Rightarrow> bool" where
  "variant_names_ok s \<longleftrightarrow> props_ok (vs_domain s) \<and> props_ok (vs_resource_value s)"

definition restored_root :: "bytes \<Rightarrow> ('j, 'u) PropSpec \<Rightarrow> ('j, 'u) PropSpec" where
  "restored_root name p = default_root name (rev (map restored_PropSpec (subprops p)))"

definition restored_SchemaVariantSpec :: "('j, 'u) SchemaVariantSpec \<Rightarrow> ('j, 'u) SchemaVariantSpec" where
  "restored_SchemaVariantSpec s = s
     \<lparr>vs_data := map_option (\<lambda>d. d\<lparr>vsd_name := vs_name s\<rparr>) (vs_data s),
      vs_action_funcs := rev (map restored_ActionFuncSpec (vs_action_funcs s)),
      vs_leaf_functions := [],
      vs_sockets := rev (map restored_SocketSpec (vs_sockets s)),
      vs_si_prop_funcs := rev (map (\<lambda>f. f\<lparr>spfs_inputs := rev (spfs_inputs f)\<rparr>) (vs_si_prop_funcs s)),
      vs_domain := restored_root ''domain'' (vs_domain s),
      vs_secrets := default_secrets,
      vs_secret_definition := None,
      vs_resource_value := restored_root ''value'' (vs_resource_value s)\<rparr>"

lemma restored_variant_fields:
  "restored_SchemaVariantSpec s = \<lparr>vs_name = vs_name s,
     vs_data = map_option (\<lambda>d. d\<lparr>vsd_name := vs_name s\<rparr>) (vs_data s), vs_unique_id = vs_unique_id s,
     vs_deleted = vs_deleted s, vs_action_funcs = rev (map restored_ActionFuncSpec (vs_action_funcs s)),
     vs_leaf_functions = [], vs_sockets = rev (map restored_SocketSpec (vs_sockets s)),
     vs_si_prop_funcs = rev (map (\<lambda>f. f\<lparr>spfs_inputs := rev (spfs_inputs f)\<rparr>) (vs_si_prop_funcs s)),
     vs_domain = restored_root ''domain'' (vs_domain s), vs_secrets = default_secrets,
     vs_secret_definition = None, vs_resource_value = restored_root ''value'' (vs_resource_value s)\<rparr>"
  by (simp add: restored_SchemaVariantSpec_def)

lemma variant_roles:
  assumes "holds R g i (as_node_SchemaVariantSpec s)"
  shows "reads (\<lambda>i. children_from_graph R g i (\<lambda>n. n = PkgNode.SchemaVariantChild SchemaVariantChildNode.ActionFuncs)
        (SiPkgActionFunc_from_graph R g)) (mapM ActionFuncSpec_try_from) i
      (rev (map restored_ActionFuncSpec (vs_action_funcs s)))"
    "reads (\<lambda>i. children_from_graph R g i (\<lambda>n. n = PkgNode.SchemaVariantChild SchemaVariantChildNode.Sockets)
        (SiPkgSocket_from_graph R g)) (mapM (SocketSpec_try_from R g)) i
      (rev (map restored_SocketSpec (vs_sockets s)))"
    "reads (\<lambda>i. children_from_graph R g i (\<lambda>n. n = PkgNode.SchemaVariantChild SchemaVariantChildNode.SiPropFuncs)
        (SiPkgSiPropFunc_from_graph R g)) (mapM (SiPropFuncSpec_try_from R g)) i
      (rev (map (\<lambda>f. f\<lparr>spfs_inputs := rev (spfs_inputs f)\<rparr>) (vs_si_prop_funcs s)))"
  by (rule reads_role [OF assms, where as = as_node_ActionFuncSpec and k = Tree
        and x = "PkgNode.SchemaVariantChild SchemaVariantChildNode.ActionFuncs"]
      reads_role [OF assms, where as = as_node_SocketSpec and k = Tree
        and x = "PkgNode.SchemaVariantChild SchemaVariantChildNode.Sockets"]
      reads_role [OF assms, where as = as_node_SiPropFuncSpec and k = Tree
        and x = "PkgNode.SchemaVariantChild SchemaVariantChildNode.SiPropFuncs"];
      simp add: as_node_SchemaVariantSpec_def reads_ActionFunc reads_Socket reads_SiPropFunc split: option.splits;
      fail)+

lemma variant_root:
  assumes "holds R g i (as_node_SchemaVariantSpec s)" and "item_source v = i"
    and "(root, p) \<in> {(SchemaVariantSpecPropRoot.Domain, vs_domain s),
      (SchemaVariantSpecPropRoot.ResourceValue, vs_resource_value s)}"
  obtains j k where "get_prop_root_idx R g v root = Inr (Some j)" "pg_neighbors R g j = [k]"
    "holds R g k (as_node_PropSpec p)"
proof -
  obtain its where its: "pg_neighbors R g i = rev its"
    "list_all2 (holds R g) its (nwc_children (as_node_SchemaVariantSpec s))"
    using assms(1) by (rule holdsE)
  have "filter (\<lambda>c. nwc_inner c = PkgNode.SchemaVariantChild (prop_root_child root))
      (nwc_children (as_node_SchemaVariantSpec s))
    = [NodeWithChildren Tree (PkgNode.SchemaVariantChild (prop_root_child root)) [as_node_PropSpec p]]"
    using assms(3) by (auto simp: as_node_SchemaVariantSpec_def split: option.splits)
  from find_node_holds [OF its(2) this] obtain j where
    "find_node R g (\<lambda>n. n = PkgNode.SchemaVariantChild (prop_root_child root)) (rev its) = Inr (Some j)"
    "holds R g j (NodeWithChildren Tree (PkgNode.SchemaVariantChild (prop_root_child root)) [as_node_PropSpec p])"
    by blast
  with its(1) assms(2) show thesis
    by (auto simp: get_prop_root_idx_def list_all2_Cons2 intro!: that)
qed

definition treads :: "('i \<Rightarrow> ('e, 'v) result) \<Rightarrow> ('v \<Rightarrow> ('e, 'y) result option) \<Rightarrow> 'i \<Rightarrow> 'y \<Rightarrow> bool" where
  "treads f h i y \<longleftrightarrow> (\<exists>v. f i = Inr v \<and> h v = Some (Inr y))"

lemma treads_mapM:
  assumes "list_all2 (\<lambda>j y. treads f h j y) js ys"
  shows "treads (mapM f) (tmapM h) js ys"
  using assms by (induction js ys rule: list_all2_induct) (auto simp: treads_def)

lemma treads_children:
  assumes "list_all2 (holds R g) its (map as ss)"
    and "\<And>j s. s \<in> set ss \<Longrightarrow> holds R g j (as s) \<Longrightarrow> treads f h j (r s)"
  shows "treads (mapM f) (tmapM h) (rev its) (rev (map r ss))"
proof (rule treads_mapM)
  have "list_all2 (\<lambda>j s. treads f h j (r s)) its ss"
    using assms by (auto simp: list_all2_map2 list_all2_conv_all_nth)
  then show "list_all2 (\<lambda>j y. treads f h j y) (rev its) (rev (map r ss))"
    by (simp add: list_all2_map2 rev_map [symmetric])
qed

lemma variant_builder:
  assumes "holds R g i (as_node_SchemaVariantSpec s)" and "item_source v = i"
    and "item_node v = \<lparr>sv_name = vs_name s,
      sv_data = map_option (\<lambda>data. \<lparr>svd_name = vs_name s, svd_link = vsd_link data,
        svd_color = vsd_color data, svd_component_type = vsd_component_type data,
        svd_func_unique_id = vsd_func_unique_id data\<rparr>) (vs_data s),
      sv_unique_id = vs_unique_id s, sv_deleted = vs_deleted s\<rparr>"
  shows "SchemaVariant_builder R g v = Inr (SchemaVariantSpecBuilder_default
    \<lparr>vsb_name := Some (vs_name s), vsb_deleted := Some (vs_deleted s),
     vsb_unique_id := map_option Some (vs_unique_id s),
     vsb_data := map_option Some (map_option (\<lambda>d. d\<lparr>vsd_name := vs_name s\<rparr>) (vs_data s)),
     vsb_action_funcs := pushed (rev (map restored_ActionFuncSpec (vs_action_funcs s))),
     vsb_sockets := pushed (rev (map restored_SocketSpec (vs_sockets s))),
     vsb_si_prop_funcs := pushed (rev (map (\<lambda>f. f\<lparr>spfs_inputs := rev (spfs_inputs f)\<rparr>) (vs_si_prop_funcs s)))\<rparr>)"
  using variant_roles [OF assms(1)]
  by (cases "vs_data s")
    (auto simp: reads_def SchemaVariant_builder_def variant_children_def assms(2,3) Let_def
      SchemaVariantSpecData_build_def SchemaVariantSpecDataBuilder_default_def)

lemma treads_SchemaVariant:
  assumes "\<And>v. to_value v = Some v" and "variant_names_ok s" and "holds R g i (as_node_SchemaVariantSpec s)"
  shows "treads (SiPkgSchemaVariant_from_graph R g) (SchemaVariant_to_spec to_value R g) i
    (restored_SchemaVariantSpec s)"
proof -
  obtain h where h: "pg_node_weight R g i = Some h" "hn_inner h = nwc_inner (as_node_SchemaVariantSpec s)"
    using assms(3) by (rule holdsE)
  let ?v = "\<lparr>item_node = \<lparr>sv_name = vs_name s,
      sv_data = map_option (\<lambda>data. \<lparr>svd_name = vs_name s, svd_link = vsd_link data,
        svd_color = vsd_color data, svd_component_type = vsd_component_type data,
        svd_func_unique_id = vsd_func_unique_id data\<rparr>) (vs_data s),
      sv_unique_id = vs_unique_id s, sv_deleted = vs_deleted s\<rparr>, item_hash = hn_hash h, item_source = i\<rparr>"
  have v: "SiPkgSchemaVariant_from_graph R g i = Inr ?v"
    using h by (cases "vs_data s") (simp_all add: SiPkgSchemaVariant_from_graph_def read_item_def node_at_def
        as_node_SchemaVariantSpec_def)
  have root: "build_prop_specs to_value R g ?v root b
      = Some (push_all root (rev (map restored_PropSpec (subprops p))) b)"
    if rp: "(root, p) \<in> {(SchemaVariantSpecPropRoot.Domain, vs_domain s),
      (SchemaVariantSpecPropRoot.ResourceValue, vs_resource_value s)}" for root p b
  proof -
    obtain j k where "get_prop_root_idx R g ?v root = Inr (Some j)" "pg_neighbors R g j = [k]"
      "holds R g k (as_node_PropSpec p)"
      by (rule variant_root [where v = ?v, OF assms(3) _ rp]) simp
    then show ?thesis
      by (rule build_prop_specs_holds [OF assms(1), rotated]) (use assms(2) rp in \<open>auto simp: variant_names_ok_def\<close>)
  qed
  have "SchemaVariant_to_spec to_value R g ?v = Some (Inr (restored_SchemaVariantSpec s))"
    unfolding SchemaVariant_to_spec_def
    by (auto simp: variant_builder [OF assms(3)] root push_domain push_resource_value
        SchemaVariantSpecBuilder_default_def SchemaVariantSpec_build_def restored_variant_fields
        restored_root_def default_domain_def default_resource_value_def unwrap_or_def option.case_eq_if
        pushed_def option.map_sel)
  with v show ?thesis by (auto simp: treads_def)
qed

end
