(* ===== verification/Sample_Instances.thy ===== *)
theory Sample_Instances
  imports Pkg_Node
begin

text \<open>
  Concrete functions in the place of the code outside the repository, on which the hypotheses of the
  properties hold: a hash of 32 bytes with its hexadecimal text, an archive that is the list of its
  entries, and printers and parsers for JSON, URLs and dates. They model no library; they show that
  the documented behaviour the properties rely on (\<open>blake3_laws\<close>, \<open>tar_laws\<close>, \<open>json_ok\<close> and the like)
  can be had, together, on concrete packages.
\<close>

section \<open>A hash\<close>

definition hex_char :: "nat \<Rightarrow> char" where
  "hex_char n = char_of (if n < 10 then 48 + n else 87 + n)"

definition hex_value :: "char \<Rightarrow> nat" where
  "hex_value c = (if byte c < 58 then byte c - 48 else byte c - 87)"

fun from_hex_pairs :: "bytes \<Rightarrow> bytes option" where
  "from_hex_pairs [] = Some []"
| "from_hex_pairs [c] = None"
| "from_hex_pairs (c # d # s) =
     map_option (Cons (char_of (16 * hex_value c + hex_value d))) (from_hex_pairs s)"

definition to_hex_pairs :: "bytes \<Rightarrow> bytes" where
  "to_hex_pairs s = concat (map (\<lambda>c. [hex_char (byte c div 16), hex_char (byte c mod 16)]) s)"

text \<open>Two bytes of the length of the input and thirty of its end.\<close>

definition sample_digest :: "bytes \<Rightarrow> bytes" where
  "sample_digest s = [char_of (length s mod 256), char_of (length s div 256)]
     @ take 30 (rev s @ replicate 30 (CHR 0x00))"

definition sample_blake3 :: blake3 where
  "sample_blake3 = \<lparr>blake3_hash = sample_digest, blake3_to_hex = to_hex_pairs,
     blake3_from_hex = from_hex_pairs\<rparr>"

lemma byte_char_of: "n < 256 \<Longrightarrow> byte (char_of n) = n"
  by simp

lemma byte_less: "byte c < 256"
  by (metis of_char_mod_256 mod_less_divisor zero_less_numeral)

lemma hex_char_props:
  assumes "n < 16"
  shows "hex_value (hex_char n) = n" "hex_digit (hex_char n)"
  using assms by (auto simp: hex_char_def hex_value_def hex_digit_def byte_char_of)

lemma from_to_hex: "from_hex_pairs (to_hex_pairs s) = Some s"
proof (induction s)
  case (Cons c s)
  have "byte c div 16 < (16 :: nat)" using byte_less [of c] by linarith
  then show ?case
    using Cons by (simp add: to_hex_pairs_def hex_char_props)
qed (simp add: to_hex_pairs_def)

lemma to_hex_digits: "list_all hex_digit (to_hex_pairs s)" "length (to_hex_pairs s) = 2 * length s"
proof (induction s)
  case (Cons c s)
  have "byte c div 16 < (16 :: nat)" using byte_less [of c] by linarith
  then show "list_all hex_digit (to_hex_pairs (c # s))"
    "length (to_hex_pairs (c # s)) = 2 * length (c # s)"
    using Cons by (simp_all add: to_hex_pairs_def hex_char_props)
qed (simp_all add: to_hex_pairs_def)

lemma sample_blake3_laws [simp]: "blake3_laws sample_blake3"
  by (simp add: blake3_laws_def sample_blake3_def sample_digest_def hash_ok_def from_to_hex
      to_hex_digits min_def)

lemma sample_hash_length [simp]:
  "length (Hash_to_string sample_blake3 (Hash_new sample_blake3 b)) = 64"
  using sample_blake3_laws unfolding blake3_laws_def Hash_to_string_def Hash_new_def by blast

lemma sample_hash_inj:
  assumes "Hash_new sample_blake3 a = Hash_new sample_blake3 b"
    and "length a < 65536" and "length b < 65536"
  shows "length a = length b"
proof -
  have "char_of (length a mod 256) = (char_of (length b mod 256) :: char)"
    "char_of (length a div 256) = (char_of (length b div 256) :: char)"
    using assms(1) by (simp_all add: Hash_new_def sample_blake3_def sample_digest_def)
  from this [THEN arg_cong [where f = "of_char :: char \<Rightarrow> nat"]]
  have "length a mod 256 = length b mod 256" "length a div 256 mod 256 = length b div 256 mod 256"
    by simp_all
  moreover have "length a div 256 < 256" "length b div 256 < 256" using assms(2,3) by linarith+
  ultimately show ?thesis
    by (metis div_mult_mod_eq mod_less)
qed

lemma sample_collision_free:
  assumes "distinct (map (\<lambda>m. length (merkle_bytes wr name sample_blake3 m)) (subtrees n))"
    and "list_all (\<lambda>m. length (merkle_bytes wr name sample_blake3 m) < 65536) (subtrees n)"
  shows "collision_free wr name sample_blake3 n"
  unfolding collision_free_def
proof (rule inj_onI, clarify)
  fix a b
  assume m: "a \<in> set (subtrees n)" "b \<in> set (subtrees n)"
    and "Hash_new sample_blake3 (merkle_bytes wr name sample_blake3 a)
      = Hash_new sample_blake3 (merkle_bytes wr name sample_blake3 b)"
  then have "length (merkle_bytes wr name sample_blake3 a)
      = length (merkle_bytes wr name sample_blake3 b)"
    using assms(2) by (intro sample_hash_inj) (auto simp: list_all_iff)
  with assms(1) m show "merkle_bytes wr name sample_blake3 a = merkle_bytes wr name sample_blake3 b"
    by (auto simp: distinct_map inj_on_def)
qed

lemma sum_list_sort_key:
  "sum_list (map f (sort_key k (rev (map g xs)))) = sum_list (map (\<lambda>x. f (g x)) xs)"
  for f :: "'a \<Rightarrow> nat"
proof -
  have "mset (map f (sort_key k (rev (map g xs)))) = mset (map (\<lambda>x. f (g x)) xs)"
    by (simp add: image_mset.compositionality comp_def)
  then show ?thesis by (metis sum_mset_sum_list)
qed

lemma sample_bytes_length:
  assumes "wr (nwc_inner m) = Inr b"
  shows "length (merkle_bytes wr name sample_blake3 m) =
    length (kv_line ''version'' ''1'' @ kv_line ''node_kind'' (NodeKind_as_ref (nwc_kind m)) @ NL # b)
    + (if nwc_children m = [] then 0 else
        1 + sum_list (map (\<lambda>c. length (NodeKind_as_ref (nwc_kind c)) + length (name (nwc_inner c)) + 67)
          (nwc_children m)))"
proof -
  have "length (entry_text sample_blake3 (merkle_entry wr name sample_blake3 c) @ [NL])
    = length (NodeKind_as_ref (nwc_kind c)) + length (name (nwc_inner c)) + 67" for c
    by (simp add: entry_text_def merkle_entry_def merkle_hash)
  then show ?thesis
    using nwe_bytes [of wr "\<lparr>nwe_kind = nwc_kind m, nwe_inner = nwc_inner m, nwe_entries =
        rev (map (merkle_entry wr name sample_blake3) (nwc_children m))\<rparr>" b sample_blake3] assms
    by (cases "nwc_children m = []")
      (simp_all add: merkle_bytes_def node_bytes_def length_concat comp_def sum_list_sort_key
        ac_simps)
qed

lemma show_nat_small:
  "n < 10 \<Longrightarrow> length (show_nat n) = 1" "10 \<le> n \<Longrightarrow> n < 100 \<Longrightarrow> length (show_nat n) = 2"
  by (simp_all add: show_nat.simps [of n] show_nat.simps [of "n div 10"])

section \<open>An archive\<close>

definition sample_tar :: "((bytes \<times> bytes) list, (bytes \<times> bytes) list) tar_crate" where
  "sample_tar = \<lparr>tar_new = [], tar_append = (\<lambda>b p d. Some (b @ [(p, d)])), tar_finish = Some,
     tar_entries = Some\<rparr>"

lemma sample_tar_appends: "tar_appends sample_tar b es = Some (b @ es)"
  by (induction es arbitrary: b) (auto simp: sample_tar_def)

lemma sample_tar_laws [simp]: "tar_laws sample_tar"
  by (simp add: tar_laws_def sample_tar_appends) (simp add: sample_tar_def)

section \<open>Printers and parsers\<close>

definition nonempty_text :: "bytes \<Rightarrow> bytes option" where
  "nonempty_text s = (if s = [] then None else Some s)"

fun sample_path_text :: "AttributeValuePath \<Rightarrow> bytes option" where
  "sample_path_text (AttributeValuePath.InputSocket s) = Some (CHR ''i'' # s)"
| "sample_path_text (AttributeValuePath.OutputSocket s) = Some (CHR ''o'' # s)"
| "sample_path_text (AttributeValuePath.Prop s None None) = Some (CHR ''p'' # s)"
| "sample_path_text _ = None"

fun sample_path_parse :: "bytes \<Rightarrow> AttributeValuePath option" where
  "sample_path_parse [] = None"
| "sample_path_parse (c # s) =
     (if c = CHR ''i'' then Some (AttributeValuePath.InputSocket s)
      else if c = CHR ''o'' then Some (AttributeValuePath.OutputSocket s)
      else if c = CHR ''p'' then Some (AttributeValuePath.Prop s None None)
      else None)"

fun sample_variant_text :: "ComponentSpecVariant \<Rightarrow> bytes option" where
  "sample_variant_text (WorkspaceVariant s) = Some (CHR ''w'' # s)"
| "sample_variant_text _ = None"

fun sample_variant_parse :: "bytes \<Rightarrow> ComponentSpecVariant option" where
  "sample_variant_parse [] = None"
| "sample_variant_parse (c # s) = (if c = CHR ''w'' then Some (WorkspaceVariant s) else None)"

definition sample_externals :: "(bytes, bytes, bytes) externals" where
  "sample_externals = \<lparr>
     json_to_string = nonempty_text, json_from_str = nonempty_text, json_null = ''null'',
     path_to_string = sample_path_text, path_from_str = sample_path_parse,
     variant_to_string = sample_variant_text, variant_from_str = sample_variant_parse,
     strings_to_string = (\<lambda>ss. Some (CHR ''s'' # concat ss)),
     strings_from_str = (\<lambda>s. Some [tl s]),
     url_as_str = (\<lambda>u. u), url_parse = nonempty_text,
     to_rfc3339 = (\<lambda>d. d), datetime_parse = nonempty_text,
     component_type_display = (\<lambda>t. hd (component_type_texts t))\<rparr>"

end
