(* ===== verification/Pkg_Restored_Package.thy ===== *)
theory Pkg_Restored_Package
  imports Pkg_Restored_Variant Sample_Instances
begin

text \<open>
  What comes back of schemas, change sets and whole packages: a package that is loaded from a
  specification gives back, by \<open>to_spec\<close>, exactly \<open>restored_PkgSpec\<close> of it, and it ends.
\<close>

section \<open>Schemas and change sets\<close>

lemma treads_role:
  assumes "holds R g i n"
    and "filter (\<lambda>c. matches (nwc_inner c)) (nwc_children n) = [NodeWithChildren k x (map as ss)]"
    and "\<And>j s. s \<in> set ss \<Longrightarrow> holds R g j (as s) \<Longrightarrow> treads f h j (r s)"
  shows "treads (\<lambda>i. children_from_graph R g i matches f) (tmapM h) i (rev (map r ss))"
proof -
  obtain its where its: "pg_neighbors R g i = rev its" "list_all2 (holds R g) its (nwc_children n)"
    using assms(1) by (rule holdsE)
  obtain j where j: "find_node R g matches (rev its) = Inr (Some j)"
    "holds R g j (NodeWithChildren k x (map as ss))"
    using find_node_holds [OF its(2) assms(2)] by blast
  obtain jts where jts: "pg_neighbors R g j = rev jts" "list_all2 (holds R g) jts (map as ss)"
    using j(2) by auto
  from treads_children [where f = f and h = h and r = r, OF jts(2) assms(3)] show ?thesis
    by (auto simp: treads_def children_from_graph_def its(1) j(1) jts(1))
qed

definition schema_names_ok :: "('j, 'u) SchemaSpec \<Rightarrow> bool" where
  "schema_names_ok s \<longleftrightarrow> list_all variant_names_ok (ss_variants s)"

definition restored_SchemaSpec :: "('j, 'u) SchemaSpec \<Rightarrow> ('j, 'u) SchemaSpec" where
  "restored_SchemaSpec s = s
     \<lparr>ss_data := map_option (\<lambda>d. d\<lparr>ssd_name := ss_name s\<rparr>) (ss_data s), ss_deleted := False,
      ss_variants := rev (map restored_SchemaVariantSpec (ss_variants s))\<rparr>"

lemma treads_Schema:
  assumes "\<And>v. to_value v = Some v" and "schema_names_ok s" and "holds R g i (as_node_SchemaSpec s)"
  shows "treads (SiPkgSchema_from_graph R g) (SiPkgSchema_to_spec to_value R g) i (restored_SchemaSpec s)"
proof -
  obtain h its where h: "pg_node_weight R g i = Some h" "hn_inner h = nwc_inner (as_node_SchemaSpec s)"
    "pg_neighbors R g i = rev its" "list_all2 (holds R g) its (nwc_children (as_node_SchemaSpec s))"
    using assms(3) by (rule holdsE)
  have "treads (mapM (SiPkgSchemaVariant_from_graph R g)) (tmapM (SchemaVariant_to_spec to_value R g)) (rev its)
      (rev (map restored_SchemaVariantSpec (ss_variants s)))"
    by (rule treads_children [where as = as_node_SchemaVariantSpec])
      (use assms(2) h(4) in \<open>auto simp: as_node_SchemaSpec_def schema_names_ok_def list_all_iff
        intro: treads_SchemaVariant [OF assms(1)]\<close>)
  then show ?thesis
    using h(1-3)
    by (cases s; cases "ss_data s") (auto simp: treads_def SiPkgSchema_from_graph_def read_item_def node_at_def
        as_node_SchemaSpec_def SiPkgSchema_to_spec_def SiPkgSchema_variants_def SchemaSpecData_build_def
        SchemaSpecDataBuilder_default_def SchemaSpec_build_def SchemaSpecBuilder_default_def
        restored_SchemaSpec_def)
qed

definition change_set_names_ok :: "('j, 'u) ChangeSetSpec \<Rightarrow> bool" where
  "change_set_names_ok s \<longleftrightarrow> list_all schema_names_ok (css_schemas s)"

definition restored_ChangeSetSpec :: "('j, 'u) ChangeSetSpec \<Rightarrow> ('j, 'u) ChangeSetSpec" where
  "restored_ChangeSetSpec s = s
     \<lparr>css_components := [], css_edges := [],
      css_schemas := rev (map restored_SchemaSpec (css_schemas s)),
      css_funcs := rev (map restored_FuncSpec (css_funcs s))\<rparr>"

lemma change_set_roles:
  assumes "\<And>v. to_value v = Some v" and "change_set_names_ok s" and "holds R g i (as_node_ChangeSetSpec s)"
  shows "reads (\<lambda>i. children_from_graph R g i (\<lambda>n. n = PkgNode.ChangeSetChild ChangeSetChildNode.Funcs)
        (SiPkgFunc_from_graph R g)) (mapM (FuncSpec_try_from R g)) i
      (rev (map restored_FuncSpec (css_funcs s)))"
    "treads (\<lambda>i. children_from_graph R g i (\<lambda>n. n = PkgNode.ChangeSetChild ChangeSetChildNode.Schemas)
        (SiPkgSchema_from_graph R g)) (tmapM (SiPkgSchema_to_spec to_value R g)) i
      (rev (map restored_SchemaSpec (css_schemas s)))"
  by (rule reads_role [OF assms(3), where as = as_node_FuncSpec and k = Tree
        and x = "PkgNode.ChangeSetChild ChangeSetChildNode.Funcs"],
      simp add: as_node_ChangeSetSpec_def, rule reads_Func, assumption)
    (rule treads_role [OF assms(3), where as = as_node_SchemaSpec and k = Tree
        and x = "PkgNode.ChangeSetChild ChangeSetChildNode.Schemas"],
      simp add: as_node_ChangeSetSpec_def, rule treads_Schema [OF assms(1)],
      use assms(2) in \<open>simp_all add: change_set_names_ok_def list_all_iff\<close>)

lemma treads_ChangeSet:
  assumes "\<And>v. to_value v = Some v" and "change_set_names_ok s" and "holds R g i (as_node_ChangeSetSpec s)"
  shows "treads (SiPkgChangeSet_from_graph R g) (SiPkgChangeSet_to_spec to_value R g) i
    (restored_ChangeSetSpec s)"
proof -
  obtain h where "pg_node_weight R g i = Some h" "hn_inner h = nwc_inner (as_node_ChangeSetSpec s)"
    using assms(3) by (rule holdsE)
  with change_set_roles [OF assms] show ?thesis
    by (cases s) (auto simp: reads_def treads_def SiPkgChangeSet_from_graph_def read_item_def node_at_def
        as_node_ChangeSetSpec_def SiPkgChangeSet_to_spec_def change_set_children_def ChangeSetSpec_build_def
        ChangeSetSpecBuilder_default_def restored_ChangeSetSpec_def)
qed

section \<open>Packages\<close>

text \<open>What a package of each kind stores: a module its schemas and functions, a backup its change sets.\<close>

definition package_names_ok :: "('j, 'u, 'd) PkgSpec \<Rightarrow> bool" where
  "package_names_ok s \<longleftrightarrow> (case pks_kind s of
     SiPkgKind.Module \<Rightarrow> list_all schema_names_ok (pks_schemas s)
   | SiPkgKind.WorkspaceBackup \<Rightarrow> list_all change_set_names_ok (pks_change_sets s))"

definition restored_PkgSpec :: "('j, 'u, 'd) PkgSpec \<Rightarrow> ('j, 'u, 'd) PkgSpec" where
  "restored_PkgSpec s = (case pks_kind s of
     SiPkgKind.Module \<Rightarrow> s\<lparr>pks_default_change_set := None,
       pks_schemas := rev (map restored_SchemaSpec (pks_schemas s)),
       pks_funcs := rev (map restored_FuncSpec (pks_funcs s)), pks_change_sets := []\<rparr>
   | SiPkgKind.WorkspaceBackup \<Rightarrow> s\<lparr>pks_schemas := [], pks_funcs := [],
       pks_change_sets := rev (map restored_ChangeSetSpec (pks_change_sets s))\<rparr>)"

lemma category_children:
  "rbind (category_node_idxs c R g i) (mapM f) = children_from_graph R g i (\<lambda>n. n = PkgNode.Category c) f"
  by (auto simp: category_node_idxs_def children_from_graph_def rbind_def split: sum.splits option.splits)

lemma module_categories:
  assumes "\<And>v. to_value v = Some v" and "package_names_ok s" and "pks_kind s = SiPkgKind.Module"
    and "holds R g i (as_node_PkgSpec s)"
  shows "reads (\<lambda>i. children_from_graph R g i (\<lambda>n. n = PkgNode.Category CategoryNode.Funcs)
        (SiPkgFunc_from_graph R g)) (mapM (FuncSpec_try_from R g)) i
      (rev (map restored_FuncSpec (pks_funcs s)))"
    "treads (\<lambda>i. children_from_graph R g i (\<lambda>n. n = PkgNode.Category CategoryNode.Schemas)
        (SiPkgSchema_from_graph R g)) (tmapM (SiPkgSchema_to_spec to_value R g)) i
      (rev (map restored_SchemaSpec (pks_schemas s)))"
  by (rule reads_role [OF assms(4), where as = as_node_FuncSpec and k = Tree
        and x = "PkgNode.Category CategoryNode.Funcs"],
      simp add: as_node_PkgSpec_def assms(3), rule reads_Func, assumption)
    (rule treads_role [OF assms(4), where as = as_node_SchemaSpec and k = Tree
        and x = "PkgNode.Category CategoryNode.Schemas"],
      simp add: as_node_PkgSpec_def assms(3), rule treads_Schema [OF assms(1)],
      use assms(2,3) in \<open>simp_all add: package_names_ok_def list_all_iff\<close>)

lemma backup_categories:
  assumes "\<And>v. to_value v = Some v" and "package_names_ok s" and "pks_kind s = SiPkgKind.WorkspaceBackup"
    and "holds R g i (as_node_PkgSpec s)"
  shows "children_from_graph R g i (\<lambda>n. n = PkgNode.Category CategoryNode.Funcs) (SiPkgFunc_from_graph R g) = Inr []"
    "children_from_graph R g i (\<lambda>n. n = PkgNode.Category CategoryNode.Schemas) (SiPkgSchema_from_graph R g) = Inr []"
    "treads (\<lambda>i. children_from_graph R g i (\<lambda>n. n = PkgNode.Category CategoryNode.ChangeSets)
        (SiPkgChangeSet_from_graph R g)) (tmapM (SiPkgChangeSet_to_spec to_value R g)) i
      (rev (map restored_ChangeSetSpec (pks_change_sets s)))"
proof -
  show "children_from_graph R g i (\<lambda>n. n = PkgNode.Category CategoryNode.Funcs) (SiPkgFunc_from_graph R g) = Inr []"
    "children_from_graph R g i (\<lambda>n. n = PkgNode.Category CategoryNode.Schemas) (SiPkgSchema_from_graph R g) = Inr []"
    by (rule no_role [OF assms(4)]; simp add: as_node_PkgSpec_def assms(3))+
  show "treads (\<lambda>i. children_from_graph R g i (\<lambda>n. n = PkgNode.Category CategoryNode.ChangeSets)
        (SiPkgChangeSet_from_graph R g)) (tmapM (SiPkgChangeSet_to_spec to_value R g)) i
      (rev (map restored_ChangeSetSpec (pks_change_sets s)))"
    by (rule treads_role [OF assms(4), where as = as_node_ChangeSetSpec and k = Tree
          and x = "PkgNode.Category CategoryNode.ChangeSets"],
        simp add: as_node_PkgSpec_def assms(3), rule treads_ChangeSet [OF assms(1)])
      (use assms(2,3) in \<open>simp_all add: package_names_ok_def list_all_iff\<close>)
qed

lemma to_spec_holds:
  assumes "\<And>v. to_value v = Some v" and "package_names_ok s"
    and "holds R (ot_graph tree) (ot_root_idx tree) (as_node_PkgSpec s)"
  shows "SiPkg_to_spec now to_value R tree = Some (Inr (restored_PkgSpec s))"
proof -
  obtain h where h: "pg_node_weight R (ot_graph tree) (ot_root_idx tree) = Some h"
    "hn_inner h = nwc_inner (as_node_PkgSpec s)"
    using assms(3) by (rule holdsE)
  then have m: "SiPkg_metadata R tree = Inr \<lparr>item_node = \<lparr>pkg_kind = pks_kind s, pkg_name = pks_name s,
      pkg_version = pks_version s, pkg_description = pks_description s, pkg_created_at = pks_created_at s,
      pkg_created_by = pks_created_by s, pkg_default_change_set = pks_default_change_set s,
      pkg_workspace_pk = pks_workspace_pk s, pkg_workspace_name = pks_workspace_name s\<rparr>,
      item_hash = hn_hash h, item_source = ot_root_idx tree\<rparr>"
    by (simp add: SiPkg_metadata_def read_item_def node_at_def as_node_PkgSpec_def)
  show ?thesis
  proof (cases "pks_kind s")
    case Module
    from module_categories [OF assms(1,2) Module assms(3)] show ?thesis
      by (auto simp: reads_def treads_def SiPkg_to_spec_def m SiPkg_funcs_def SiPkg_schemas_def Module
          category_children PkgSpec_build_def PkgSpecBuilder_default_def restored_PkgSpec_def)
  next
    case WorkspaceBackup
    from backup_categories [OF assms(1,2) WorkspaceBackup assms(3)] show ?thesis
      by (auto simp: treads_def SiPkg_to_spec_def m SiPkg_funcs_def SiPkg_schemas_def SiPkg_change_sets_def
          WorkspaceBackup category_children PkgSpec_build_def PkgSpecBuilder_default_def restored_PkgSpec_def)
  qed
qed

lemma load_from_spec_holds:
  assumes "petgraph P" and "petgraph R"
    and "all_inner (\<lambda>x. is_ok (write_PkgNode E x)) (as_node_PkgSpec spec)"
  obtains tree where "SiPkg_load_from_spec E B P R spec = Some (Inr tree)"
    "represents R (ot_graph tree) (ot_root_idx tree) (hashed_tree (write_PkgNode E) PkgNode_name B (as_node_PkgSpec spec))"
    "holds R (ot_graph tree) (ot_root_idx tree) (as_node_PkgSpec spec)"
  using create_from_root_merkle [OF assms, of PkgNode_name B] holds_hashed_tree
  by (fastforce simp: SiPkg_load_from_spec_def)

end
