(* ===== verification/Asset_Package.thy ===== *)
theory Asset_Package
  imports Asset_Builder Variant_Definition Intrinsic_Funcs Pkg_Restored_Package
begin

text \<open>
  From an asset to a package. What the function of an asset returns leaves the sandbox as JSON and is read
  into \<open>SchemaVariantDefinitionJson\<close> by the deserialisers derived for it (\<open>lib/dal/src/schema/variant/
  definition.rs\<close>, \<open>lib/si-pkg/src/spec/validation.rs\<close>); the handler \<open>exec_variant_def\<close> of
  \<open>lib/sdf-server\<close> then writes down a package and loads it. Reading is a partial function: \<open>None\<close> is an
  error of the deserialiser. A field that is absent is \<open>None\<close> for an optional field, the default where one is
  declared and an error otherwise; unknown fields are ignored. How a number becomes an \<open>i64\<close> (\<open>as_i64\<close>),
  whether a value is \<open>null\<close> and what the options of a widget are as JSON are parameters.
\<close>

section \<open>Reading\<close>

definition read_opt :: "('a \<Rightarrow> 'b option) \<Rightarrow> 'a option \<Rightarrow> 'b option option" where
  "read_opt f m = (case m of None \<Rightarrow> Some None | Some x \<Rightarrow> map_option Some (f x))"

definition read_list :: "('a \<Rightarrow> 'b option) \<Rightarrow> 'a list \<Rightarrow> 'b list option" where
  "read_list f xs = those (map f xs)"

definition read_ValueFrom :: "TsValueFrom \<Rightarrow> ValueFrom option" where
  "read_ValueFrom v =
     (case tvf_kind v of
        None \<Rightarrow> None
      | Some inputSocket \<Rightarrow> map_option ValueFrom.InputSocket (tvf_socket_name v)
      | Some outputSocket \<Rightarrow> map_option ValueFrom.OutputSocket (tvf_socket_name v)
      | Some fromProp \<Rightarrow> map_option ValueFrom.Prop (tvf_prop_path v))"

fun read_SocketArity :: "SocketDefinitionArityType \<Rightarrow> SocketArity" where
  "read_SocketArity many = SocketArity.Many"
| "read_SocketArity one = SocketArity.One"

definition read_SocketDefinition :: "TsSocketDefinition \<Rightarrow> SocketDefinition option" where
  "read_SocketDefinition s =
     Option.bind (tsd_name s) (\<lambda>name.
     Option.bind (read_opt read_ValueFrom (tsd_valueFrom s)) (\<lambda>value_from.
     Some \<lparr>sd_name = name, sd_arity = map_option read_SocketArity (tsd_arity s), sd_ui_hidden = tsd_uiHidden s,
       sd_value_from = value_from\<rparr>))"

text \<open>A string is not read from an object or an array.\<close>

definition string_from_object :: "(bytes \<times> 'j) list \<Rightarrow> bytes option" where
  "string_from_object m = None"

definition string_from_array :: "bytes list \<Rightarrow> bytes option" where
  "string_from_array xs = None"

text \<open>\<open>deleted\<close> and \<open>unique_id\<close> are not fields of a validation of an asset. They have a default in every variant
  but \<open>IntegerIsNotEmpty\<close>, whose \<open>deleted\<close> has none.\<close>

definition absent :: "'a option" where
  "absent = None"

definition read_ValidationSpec :: "('n \<Rightarrow> int option) \<Rightarrow> ('j, 'n) TsValidation \<Rightarrow> ValidationSpec option" where
  "read_ValidationSpec as_i64 v =
     Option.bind (tva_kind v) (\<lambda>kind.
     let unique_id = absent; deleted = unwrap_or False absent in
     case kind of
       customValidation \<Rightarrow>
         Option.bind (Option.bind (tva_funcUniqueId v) string_from_object) (\<lambda>func_unique_id.
         Some (ValidationSpec.CustomValidation func_unique_id unique_id deleted))
     | integerIsBetweenTwoIntegers \<Rightarrow>
         Option.bind (Option.bind (tva_lowerBound v) as_i64) (\<lambda>lower_bound.
         Option.bind (Option.bind (tva_upperBound v) as_i64) (\<lambda>upper_bound.
         Some (ValidationSpec.IntegerIsBetweenTwoIntegers lower_bound upper_bound unique_id deleted)))
     | integerIsNotEmpty \<Rightarrow>
         Option.bind absent (\<lambda>deleted. Some (ValidationSpec.IntegerIsNotEmpty unique_id deleted))
     | stringEquals \<Rightarrow>
         Option.bind (Option.bind (tva_expected v) string_from_array) (\<lambda>expected.
         Some (ValidationSpec.StringEquals expected unique_id deleted))
     | stringHasPrefix \<Rightarrow>
         Option.bind (Option.bind (tva_expected v) string_from_array) (\<lambda>expected.
         Some (ValidationSpec.StringHasPrefix expected unique_id deleted))
     | stringInStringArray \<Rightarrow>
         Option.bind (tva_expected v) (\<lambda>expected.
         Option.bind (tva_displayExpected v) (\<lambda>display_expected.
         Some (ValidationSpec.StringInStringArray expected display_expected unique_id deleted)))
     | stringIsHexColor \<Rightarrow> Some (ValidationSpec.StringIsHexColor unique_id deleted)
     | stringIsNotEmpty \<Rightarrow> Some (ValidationSpec.StringIsNotEmpty unique_id deleted)
     | stringIsValidIpAddr \<Rightarrow> Some (ValidationSpec.StringIsValidIpAddr unique_id deleted))"

fun read_WidgetKind :: "PropWidgetDefinitionKind \<Rightarrow> WidgetKind" where
  "read_WidgetKind array = WidgetKind.Array"
| "read_WidgetKind checkbox = WidgetKind.Checkbox"
| "read_WidgetKind color = WidgetKind.Color"
| "read_WidgetKind comboBox = WidgetKind.ComboBox"
| "read_WidgetKind header = WidgetKind.Header"
| "read_WidgetKind mapWidget = WidgetKind.Map"
| "read_WidgetKind secret = WidgetKind.Secret"
| "read_WidgetKind select = WidgetKind.Select"
| "read_WidgetKind textWidget = WidgetKind.Text"
| "read_WidgetKind textArea = WidgetKind.TextArea"

definition read_PropWidgetDefinition ::
  "(Option list \<Rightarrow> 'j) \<Rightarrow> TsPropWidgetDefinition \<Rightarrow> 'j PropWidgetDefinition option" where
  "read_PropWidgetDefinition options_json w =
     map_option (\<lambda>kind. \<lparr>pwd_kind = read_WidgetKind kind, pwd_options = map_option options_json (tpw_options w)\<rparr>)
       (tpw_kind w)"

definition read_MapKeyFunc :: "TsMapKeyFunc \<Rightarrow> MapKeyFunc option" where
  "read_MapKeyFunc f =
     Option.bind (tmk_key f) (\<lambda>key.
     map_option (\<lambda>value_from. \<lparr>mkf_key = key, mkf_value_from = value_from\<rparr>)
       (read_opt read_ValueFrom (tmk_valueFrom f)))"

fun read_SiPropFuncSpecKind :: "SiPropValueFromDefinitionKind \<Rightarrow> SiPropFuncSpecKind" where
  "read_SiPropFuncSpecKind siColor = SiPropFuncSpecKind.Color"
| "read_SiPropFuncSpecKind siName = SiPropFuncSpecKind.Name"
| "read_SiPropFuncSpecKind siResourcePayload = SiPropFuncSpecKind.ResourcePayload"

definition read_SiPropValueFrom :: "SiPropValueFromDefinition \<Rightarrow> SiPropValueFrom option" where
  "read_SiPropValueFrom v =
     Option.bind (tsp_kind v) (\<lambda>kind.
     Option.bind (Option.bind (tsp_valueFrom v) read_ValueFrom) (\<lambda>value_from.
     Some \<lparr>spvf_kind = read_SiPropFuncSpecKind kind, spvf_value_from = value_from\<rparr>))"

fun read_PropKind :: "PropDefinitionKind \<Rightarrow> PropKind" where
  "read_PropKind arrayProp = PropKind.Array"
| "read_PropKind booleanProp = PropKind.Boolean"
| "read_PropKind integerProp = PropKind.Integer"
| "read_PropKind mapProp = PropKind.Map"
| "read_PropKind objectProp = PropKind.Object"
| "read_PropKind stringProp = PropKind.String"

record ('j, 'n) json_values =
  as_i64 :: "'n \<Rightarrow> int option"
  is_null :: "'j \<Rightarrow> bool"
  options_json :: "Option list \<Rightarrow> 'j"

fun read_PropDefinition :: "('j, 'n) json_values \<Rightarrow> ('j, 'n) TsPropDefinition \<Rightarrow> 'j PropDefinition option" where
  "read_PropDefinition J (TsPropDefinition p children' entry') =
     Option.bind (tp_name p) (\<lambda>name.
     Option.bind (tp_kind p) (\<lambda>kind.
     Option.bind (case children' of None \<Rightarrow> Some [] | Some cs \<Rightarrow> those (map (read_PropDefinition J) cs)) (\<lambda>cs.
     Option.bind (case entry' of None \<Rightarrow> Some None | Some e \<Rightarrow> map_option Some (read_PropDefinition J e)) (\<lambda>e.
     Option.bind (read_opt (read_PropWidgetDefinition (options_json J)) (tp_widget p)) (\<lambda>widget.
     Option.bind (read_opt read_ValueFrom (tp_valueFrom p)) (\<lambda>value_from.
     Option.bind (read_opt (read_list (read_ValidationSpec (as_i64 J))) (tp_validations p)) (\<lambda>validations.
     Option.bind (read_opt (read_list read_MapKeyFunc) (tp_mapKeyFuncs p)) (\<lambda>map_key_funcs.
     Some (PropDefinition name (read_PropKind kind) (tp_docLinkRef p) (tp_docLink p) cs e widget value_from
       (tp_hidden p) validations
       (case tp_defaultValue p of None \<Rightarrow> None | Some v \<Rightarrow> if is_null J v then None else Some v)
       map_key_funcs)))))))))"

definition read_default :: "('a \<Rightarrow> 'b option) \<Rightarrow> 'a list option \<Rightarrow> 'b list option" where
  "read_default f m = (case m of None \<Rightarrow> Some [] | Some xs \<Rightarrow> read_list f xs)"

definition read_Asset :: "('j, 'n) json_values \<Rightarrow> ('j, 'n) Asset \<Rightarrow> 'j SchemaVariantDefinitionJson option" where
  "read_Asset J a =
     Option.bind (read_default (read_PropDefinition J) (as_props a)) (\<lambda>props.
     Option.bind (read_default (\<lambda>p. read_PropDefinition J (sp_prop p)) (as_secretProps a)) (\<lambda>secret_props.
     Option.bind (read_opt (read_list (read_PropDefinition J)) (as_secretDefinition a)) (\<lambda>secret_definition.
     Option.bind (read_default (read_PropDefinition J) (as_resourceProps a)) (\<lambda>resource_props.
     Option.bind (read_default read_SiPropValueFrom (as_siPropValueFroms a)) (\<lambda>si_prop_value_froms.
     Option.bind (read_default read_SocketDefinition (as_inputSockets a)) (\<lambda>input_sockets.
     Option.bind (read_default read_SocketDefinition (as_outputSockets a)) (\<lambda>output_sockets.
     Some \<lparr>svd_props = props, svd_secret_props = secret_props, svd_secret_definition = secret_definition,
       svd_resource_props = resource_props, svd_si_prop_value_froms = si_prop_value_froms,
       svd_input_sockets = input_sockets, svd_output_sockets = output_sockets, svd_doc_links = as_docLinks a\<rparr>)))))))"

section \<open>The package of an asset\<close>

text \<open>The function of an asset as the handler has it.\<close>

record AssetFunc =
  af_id :: bytes
  af_name :: bytes
  af_hidden :: bool
  af_code_plaintext :: "bytes option"
  af_handler :: "bytes option"
  af_description :: "bytes option"
  af_display_name :: "bytes option"

definition asset_func_spec :: "(bytes \<Rightarrow> bytes) \<Rightarrow> AssetFunc \<Rightarrow> 'u FuncSpec definition_result" where
  "asset_func_spec encode64 asset_func =
     rbind (map_err Spec (FuncSpecData_build
              (FuncSpecDataBuilder_default\<lparr>fsdb_name := Some (af_name asset_func),
                 fsdb_backend_kind := Some FuncSpecBackendKind.JsSchemaVariantDefinition,
                 fsdb_response_type := Some FuncSpecBackendResponseType.SchemaVariantDefinition,
                 fsdb_hidden := Some (af_hidden asset_func),
                 fsdb_code_base64 := map_option encode64 (af_code_plaintext asset_func),
                 fsdb_handler := af_handler asset_func,
                 fsdb_description := map_option Some (af_description asset_func),
                 fsdb_display_name := map_option Some (af_display_name asset_func)\<rparr>))) (\<lambda>data.
     map_err Spec (FuncSpec_build
       (FuncSpecBuilder_default\<lparr>fsb_name := Some (af_name asset_func), fsb_unique_id := Some (af_id asset_func),
          fsb_data := Some (Some data)\<rparr>)))"

definition asset_pkg_spec ::
  "'d \<Rightarrow> (bytes \<Rightarrow> bytes) \<Rightarrow> (bytes \<Rightarrow> 'u option) \<Rightarrow> bytes \<Rightarrow> AssetFunc \<Rightarrow> SchemaVariantDefinitionMetadataJson \<Rightarrow>
   'j SchemaVariantDefinitionJson \<Rightarrow> ('j, 'u, 'd) PkgSpec definition_result" where
  "asset_pkg_spec now encode64 parse user_email asset_func metadata d =
     rbind (map_err Spec (IntrinsicFunc_to_spec encode64 IntrinsicFunc.Identity)) (\<lambda>identity_func_spec.
     rbind (asset_func_spec encode64 asset_func) (\<lambda>asset_func_built.
     rbind (SchemaVariantDefinitionJson_to_spec parse metadata (fs_unique_id identity_func_spec)
              (fs_unique_id asset_func_built) d) (\<lambda>variant_spec.
     rbind (metadata_to_spec variant_spec metadata) (\<lambda>schema_spec.
     map_err Spec (PkgSpec_build now
       (PkgSpecBuilder_default\<lparr>pksb_name := Some (svm_name metadata), pksb_created_by := Some user_email,
          pksb_funcs := pushed [identity_func_spec, asset_func_built], pksb_schemas := pushed [schema_spec],
          pksb_version := Some ''0.0.1''\<rparr>))))))"

end
