(* ===== verification/Pkg_Properties.thy ===== *)
theory Pkg_Properties
  imports Pkg_Restored_Package
begin

text \<open>
  The properties of package specifications: what a package loaded from a specification gives back,
  its hash, lookups by name, the visit of props, and the text format of its nodes. The witnesses use a
  module with one function and one schema, and the reference graph.
\<close>

section \<open>Helpers\<close>

lemma AttrFuncInput_name_norm [simp]:
  "AttrFuncInputNode_name (norm_AttrFuncInputNode n) = AttrFuncInputNode_name n"
  by (cases n) simp_all

lemma PropNode_name_norm [simp]: "PropNode_name (norm_PropNode n) = PropNode_name n"
  by (cases n) simp_all

lemma PkgNode_name_norm [simp]: "PkgNode_name (norm_PkgNode n) = PkgNode_name n"
  by (cases n) (simp_all add: norm_ChangeSetNode_def
      norm_ComponentNode_def norm_FuncNode_def norm_FuncArgumentNode_def 
      norm_SchemaNode_def norm_SchemaVariantNode_def norm_SocketNode_def)

lemma loaded_hash:
  assumes "represents R (ot_graph tree) (ot_root_idx tree) t" and "hn_inner (root_weight t) = PkgNode.Package p"
  shows "SiPkg_hash R tree = Inr (hn_hash (root_weight t))"
  using assms
  by (cases t) (auto simp: SiPkg_hash_def SiPkg_metadata_def read_item_def node_at_def represents_def elim: repr.elims)

lemma ref_graph_holds: "\<exists>g i. holds ref_graph g i n"
  using holds_hashed_tree [OF petgraph.grow_new(2) [OF ref_graph.petgraph_axioms,
        of "hashed_tree (\<lambda>_. Inr []) (\<lambda>_. []) sample_blake3 n"]]
  by blast

lemma idx_for_found:
  assumes "list_all2 (holds R g) js cs" and "\<And>h. P h \<longleftrightarrow> matches (hn_inner h)"
  shows "case find (\<lambda>c. matches (nwc_inner c)) cs of
      None \<Rightarrow> idx_for R g P missing js = Inl missing
    | Some c \<Rightarrow> \<exists>j. idx_for R g P missing js = Inr j \<and> holds R g j c"
  using assms
proof (induction js cs rule: list_all2_induct)
  case (Cons j js c cs)
  obtain h where "pg_node_weight R g j = Some h" "hn_inner h = nwc_inner c"
    using Cons.hyps(1) by (rule holdsE)
  with Cons show ?case by (auto simp: node_at_def split: option.splits)
qed simp

lemma schema_indices:
  assumes "holds R g i (as_node_PkgSpec s)" and "pks_kind s = SiPkgKind.Module"
  obtains js where "category_node_idxs CategoryNode.Schemas R g i = Inr (rev js)"
    "list_all2 (holds R g) js (map as_node_SchemaSpec (pks_schemas s))"
proof -
  obtain its where its: "pg_neighbors R g i = rev its"
    "list_all2 (holds R g) its (nwc_children (as_node_PkgSpec s))"
    using assms(1) by (rule holdsE)
  have "filter (\<lambda>c. nwc_inner c = PkgNode.Category CategoryNode.Schemas) (nwc_children (as_node_PkgSpec s))
      = [NodeWithChildren Tree (PkgNode.Category CategoryNode.Schemas) (map as_node_SchemaSpec (pks_schemas s))]"
    by (simp add: as_node_PkgSpec_def assms(2))
  from find_node_holds [OF its(2) this] obtain j where
    "find_node R g (\<lambda>n. n = PkgNode.Category CategoryNode.Schemas) (rev its) = Inr (Some j)"
    "holds R g j (NodeWithChildren Tree (PkgNode.Category CategoryNode.Schemas) (map as_node_SchemaSpec (pks_schemas s)))"
    by blast
  then show thesis by (auto simp: category_node_idxs_def its(1) intro: that)
qed

lemma schema_node_name: "PkgNode_name (nwc_inner (as_node_SchemaSpec s)) = ss_name s"
  by (simp add: as_node_SchemaSpec_def)

lemma find_map: "find P (map f xs) = map_option f (find (\<lambda>x. P (f x)) xs)"
  by (induction xs) simp_all

section \<open>The visit of props ends\<close>

definition returns_on ::
  "('g, 'j, 'u, 'd) pkg_graph \<Rightarrow> 'g \<Rightarrow> (('j, 'u) SiPkgProp \<Rightarrow> 'i option \<Rightarrow> 's \<Rightarrow> ('i option \<times> 's) pkg_result) \<Rightarrow>
   (('j, 'u) SiPkgProp \<times> 'i option) list \<Rightarrow> bool" where
  "returns_on R g f stack \<longleftrightarrow> (\<forall>s. \<exists>r. visit_props R g f stack s = Some r)"

lemma returns_on_Nil: "returns_on R g f []"
  by (simp add: returns_on_def visit_props_Nil)

lemma visit_list_ends:
  assumes "\<And>q v rest. q \<in> set qs \<Longrightarrow> seen R g v q \<Longrightarrow> returns_on R g f rest \<Longrightarrow> returns_on R g f ((v, info) # rest)"
    and "list_all2 (seen R g) vs qs" and "returns_on R g f rest"
  shows "returns_on R g f (map (\<lambda>v. (v, info)) vs @ rest)"
  using assms(2,1,3)
proof (induction vs qs rule: list_all2_induct)
  case (Cons v vs q qs)
  have "returns_on R g f (map (\<lambda>v. (v, info)) vs @ rest)"
    by (rule Cons.IH [OF Cons.prems]) simp_all
  from Cons.prems(1) [OF _ Cons.hyps(1) this] show ?case by simp
qed simp

lemma visit_ends:
  assumes "seen R g v p" and "returns_on R g f rest"
  shows "returns_on R g f ((v, info) # rest)"
  using assms
proof (induction p arbitrary: v info rest rule: prop_induct)
  case (step p)
  have "\<exists>r. visit_props R g f ((v, info) # rest) s = Some r" for s
  proof (cases "f v info s")
    case (Inr y)
    obtain info' s' where y: "y = (info', s')" by fastforce
    obtain vs where vs: "prop_stack_from_source R g (SiPkgProp_source v) info' = Inr (map (\<lambda>v. (v, info')) (rev vs))"
      "list_all2 (seen R g) vs (subprops p)"
      by (rule stack_seen [OF step.prems(1)])
    have "returns_on R g f (map (\<lambda>v. (v, info')) vs @ rest)"
      by (rule visit_list_ends [OF step.IH vs(2) step.prems(2)])
    then show ?thesis
      by (subst visit_props.simps) (simp add: returns_on_def Inr y vs(1) rev_map)
  qed (subst visit_props.simps, simp)
  then show ?case by (simp add: returns_on_def)
qed

lemma variant_root_cases:
  fixes R :: "('g, 'j, 'u, 'd) pkg_graph"
  assumes "holds R g i (as_node_SchemaVariantSpec s)" and "item_source v = i"
  obtains e where "get_prop_root_idx R g v root = Inl e"
  | "get_prop_root_idx R g v root = Inr None"
  | j k p where "get_prop_root_idx R g v root = Inr (Some j)" "pg_neighbors R g j = [k]"
    "holds R g k (as_node_PropSpec p)"
proof -
  obtain its where its: "pg_neighbors R g i = rev its"
    "list_all2 (holds R g) its (nwc_children (as_node_SchemaVariantSpec s))"
    using assms(1) by (rule holdsE)
  let ?fs = "filter (\<lambda>c. nwc_inner c = PkgNode.SchemaVariantChild (prop_root_child root))
      (nwc_children (as_node_SchemaVariantSpec s :: ('j, 'u, 'd) pkg_tree))"
  have "?fs = [] \<or> (\<exists>p. ?fs = [NodeWithChildren Tree (PkgNode.SchemaVariantChild (prop_root_child root))
      [as_node_PropSpec p]])"
    by (cases root; cases "vs_secret_definition s") (auto simp: as_node_SchemaVariantSpec_def)
  then consider "?fs = []" | p where "?fs = [NodeWithChildren Tree (PkgNode.SchemaVariantChild (prop_root_child root))
      [as_node_PropSpec p]]"
    by blast
  then show thesis
  proof cases
    case 1
    from find_node_none [OF its(2) 1] show thesis
      by (cases "root = SchemaVariantSpecPropRoot.Secrets") (simp_all add: get_prop_root_idx_def assms(2) its(1) that)
  next
    case (2 p)
    from find_node_holds [OF its(2) 2] show thesis
      by (auto simp: get_prop_root_idx_def assms(2) its(1) list_all2_Cons2 intro!: that(3))
  qed
qed

section \<open>Sample specifications\<close>

definition sample_prop_data :: "bytes \<Rightarrow> (bytes, bytes) PropSpecData" where
  "sample_prop_data name = \<lparr>psd_name = name, psd_default_value = Some ''7'', psd_validations = None,
     psd_func_unique_id = None, psd_inputs = None, psd_widget_kind = None, psd_widget_options = None,
     psd_hidden = None, psd_doc_link = None\<rparr>"

definition sample_domain :: "(bytes, bytes) PropSpec" where
  "sample_domain = PropSpec.Object ''domain'' None None
     [PropSpec.String ''region'' None None,
      PropSpec.Object ''size'' None None
        [PropSpec.Number ''cpu'' (Some (sample_prop_data ''cpu'')) None, PropSpec.Boolean ''big'' None None]]"

definition sample_variant :: "(bytes, bytes) SchemaVariantSpec" where
  "sample_variant = \<lparr>vs_name = ''v0'', vs_data = None, vs_unique_id = None, vs_deleted = False,
     vs_action_funcs = [], vs_leaf_functions = [], vs_sockets = [], vs_si_prop_funcs = [],
     vs_domain = sample_domain, vs_secrets = default_secrets, vs_secret_definition = None,
     vs_resource_value = default_resource_value\<rparr>"

definition sample_func :: "bytes \<Rightarrow> bytes FuncSpec" where
  "sample_func name = \<lparr>fs_name = name, fs_unique_id = name, fs_data = None, fs_deleted = False,
     fs_is_from_builtin = None, fs_arguments = []\<rparr>"

definition sample_spec :: "(bytes, bytes, bytes) PkgSpec" where
  "sample_spec = \<lparr>pks_kind = SiPkgKind.Module, pks_name = ''pkg'', pks_version = ''1'',
     pks_description = ''d'', pks_created_at = ''now'', pks_created_by = ''me'',
     pks_default_change_set = None, pks_workspace_pk = None, pks_workspace_name = None,
     pks_schemas = [\<lparr>ss_name = ''s'', ss_data = None, ss_unique_id = None, ss_deleted = False,
       ss_variants = [sample_variant]\<rparr>],
     pks_funcs = [sample_func ''f'', sample_func ''gg''], pks_change_sets = []\<rparr>"

lemma sample_spec_names: "package_names_ok sample_spec"
  by (simp add: package_names_ok_def sample_spec_def schema_names_ok_def variant_names_ok_def sample_variant_def
      sample_domain_def default_resource_value_def default_root_def props_ok_def all_props_list names_ok_def
      PROP_PATH_SEPARATOR_def)

lemma ascii_rust_string: "list_all (\<lambda>c. byte c < 128) s \<Longrightarrow> length s < 100 \<Longrightarrow> rust_string s"
  by (simp add: rust_string_def utf8_ok_ascii)

lemma sample_spec_valid: "all_inner (valid_PkgNode sample_externals) (as_node_PkgSpec sample_spec)"
  by (simp add: sample_spec_def sample_variant_def sample_func_def sample_domain_def default_resource_value_def
      default_secrets_def default_root_def as_node_PkgSpec_def as_node_SchemaSpec_def as_node_SchemaVariantSpec_def
      as_node_FuncSpec_def prop_validations_def prop_inputs_def sample_prop_data_def PropSpecData_node_def
      valid_PackageNode_def valid_FuncNode_def valid_SchemaNode_def valid_SchemaVariantNode_def
      valid_PropNode_def valid_PropNodeData_def ascii_rust_string datetime_ok_def json_ok_def text_ok_def
      sample_externals_def nonempty_text_def)

lemma sample_spec_writable:
  "all_inner (\<lambda>x. is_ok (write_PkgNode sample_externals x)) (as_node_PkgSpec sample_spec)"
  by (rule all_inner_mono [OF sample_spec_valid pkg_node.write_ok])

section \<open>Loading and giving back a specification\<close>

text \<open>C2: A package that is loaded from a specification gives back a specification, and the walk over
  its props ends. When every node can be written and, among the props of every schema variant, siblings
  have different names without the path separator, \<open>to_spec\<close> of the loaded package is exactly
  \<open>restored_PkgSpec\<close> of the specification: the same names, versions, functions, sockets and props, with
  every list in reverse order and without the fields that the code does not carry over.\<close>

theorem loaded_package_to_spec:
  assumes "petgraph P" and "petgraph R"
    and "all_inner (\<lambda>x. is_ok (write_PkgNode E x)) (as_node_PkgSpec spec)" and "package_names_ok spec"
    and "\<And>v. to_value v = Some v"
  shows "\<exists>tree. SiPkg_load_from_spec E B P R spec = Some (Inr tree)
    \<and> SiPkg_to_spec now to_value R tree = Some (Inr (restored_PkgSpec spec))"
proof -
  obtain tree where tree: "SiPkg_load_from_spec E B P R spec = Some (Inr tree)"
    "holds R (ot_graph tree) (ot_root_idx tree) (as_node_PkgSpec spec)"
    by (rule load_from_spec_holds [OF assms(1-3)])
  from tree to_spec_holds [OF assms(5,4) tree(2)] show ?thesis by blast
qed

theorem loaded_package_to_spec_witness:
  "\<exists>tree. SiPkg_load_from_spec sample_externals sample_blake3 ref_graph ref_graph sample_spec = Some (Inr tree)
    \<and> SiPkg_to_spec ''now'' Some ref_graph tree = Some (Inr (restored_PkgSpec sample_spec))"
  by (rule loaded_package_to_spec [OF ref_graph.petgraph_axioms ref_graph.petgraph_axioms
        sample_spec_writable sample_spec_names refl])

text \<open>C10: A package keeps its hash in its archive. Loading a specification, writing the package to bytes
  and loading it from these bytes succeeds, and \<open>SiPkg::hash\<close> of both packages is the Merkle hash of the
  specification's tree of nodes.\<close>

theorem package_hash_survives_archive:
  assumes "petgraph P" and "petgraph Q" and "petgraph R" and "blake3_laws B" and "tar_laws T"
    and "storable (valid_PkgNode E) PkgNode_name (as_node_PkgSpec spec)"
    and "collision_free (write_PkgNode E) PkgNode_name B (as_node_PkgSpec spec)"
  shows "\<exists>tree a tree'. SiPkg_load_from_spec E B P Q spec = Some (Inr tree)
    \<and> SiPkg_write_to_bytes E B Q T tree = Inr a
    \<and> SiPkg_load_from_bytes E B R T a = Some (Inr tree')
    \<and> SiPkg_hash Q tree = Inr (merkle (write_PkgNode E) PkgNode_name B (as_node_PkgSpec spec))
    \<and> SiPkg_hash R tree' = Inr (merkle (write_PkgNode E) PkgNode_name B (as_node_PkgSpec spec))"
proof -
  obtain tree a tree' where t:
    "ObjectTree_create_from_root (write_PkgNode E) PkgNode_name B P Q (as_node_PkgSpec spec) = Some (Inr tree)"
    "TarWriter_new (write_PkgNode E) PkgNode_name B Q T tree = Inr a"
    "read_from_tar (read_PkgNode E) B R T a = Some (Inr tree')"
    "represents Q (ot_graph tree) (ot_root_idx tree) (hashed_tree (write_PkgNode E) PkgNode_name B (as_node_PkgSpec spec))"
    "represents R (ot_graph tree') (ot_root_idx tree')
      (stored_tree (write_PkgNode E) PkgNode_name norm_PkgNode B (as_node_PkgSpec spec))"
    using pkg_node.tar_roundtrip [OF assms(1-5) PkgNode_name_norm assms(6,7)] by blast
  obtain p cs where n: "as_node_PkgSpec spec = NodeWithChildren Tree (PkgNode.Package p) cs"
    by (simp add: as_node_PkgSpec_def)
  from loaded_hash [OF t(4)] loaded_hash [OF t(5)] t(1-3) show ?thesis
    by (simp add: n SiPkg_load_from_spec_def SiPkg_write_to_bytes_def SiPkg_load_from_bytes_def merkle_node_def
        del: merkle.simps)
qed

definition sample_small_spec :: "(bytes, bytes, bytes) PkgSpec" where
  "sample_small_spec = sample_spec\<lparr>pks_schemas := [], pks_funcs := [sample_func ''f'']\<rparr>"

lemma sample_small_node:
  "as_node_PkgSpec sample_small_spec = NodeWithChildren Tree (PkgNode.Package \<lparr>
       pkg_kind = SiPkgKind.Module, pkg_name = ''pkg'', pkg_version = ''1'', pkg_description = ''d'',
       pkg_created_at = ''now'', pkg_created_by = ''me'', pkg_default_change_set = None,
       pkg_workspace_pk = None, pkg_workspace_name = None\<rparr>)
     [NodeWithChildren Tree (PkgNode.Category CategoryNode.Schemas) [],
      NodeWithChildren Tree (PkgNode.Category CategoryNode.Funcs)
        [NodeWithChildren Tree (PkgNode.Func \<lparr>fn_name = ''f'', fn_data = None, fn_unique_id = ''f'',
           fn_deleted = False, fn_is_from_builtin = None\<rparr>) []]]"
  by (simp add: sample_small_spec_def sample_spec_def as_node_PkgSpec_def as_node_FuncSpec_def sample_func_def)

lemma sample_small_storable:
  "storable (valid_PkgNode sample_externals) PkgNode_name (as_node_PkgSpec sample_small_spec)"
  by (simp add: sample_small_node valid_PackageNode_def valid_FuncNode_def ascii_rust_string
      datetime_ok_def sample_externals_def nonempty_text_def entry_name_ok_def)

lemma sample_small_free:
  "collision_free (write_PkgNode sample_externals) PkgNode_name sample_blake3 (as_node_PkgSpec sample_small_spec)"
  by (rule sample_collision_free)
    (simp_all add: sample_small_node sample_bytes_length write_PkgNode_eq write_PackageNode_def
      write_FuncNode_def write_CategoryNode_def write_kind_def writer_simps kv_line_def show_nat_small
      NodeKind_as_ref_def sample_externals_def common_text_def show_bool_def)

theorem package_hash_survives_archive_witness:
  "\<exists>tree a tree'. SiPkg_load_from_spec sample_externals sample_blake3 ref_graph ref_graph sample_small_spec
      = Some (Inr tree)
    \<and> SiPkg_write_to_bytes sample_externals sample_blake3 ref_graph sample_tar tree = Inr a
    \<and> SiPkg_load_from_bytes sample_externals sample_blake3 ref_graph sample_tar a = Some (Inr tree')
    \<and> SiPkg_hash ref_graph tree = SiPkg_hash ref_graph tree'"
  using package_hash_survives_archive [OF ref_graph.petgraph_axioms ref_graph.petgraph_axioms
      ref_graph.petgraph_axioms sample_blake3_laws sample_tar_laws sample_small_storable sample_small_free]
  by metis

text \<open>Lookups by name. In a module loaded from a specification, \<open>schema_by_name\<close> gives the last schema
  of the specification with that name, and the error \<open>NodeWithNameNotFound\<close> exactly when no schema has
  it.\<close>

theorem schema_by_name_lookup:
  fixes E :: "('j, 'u, 'd) externals"
  assumes "petgraph P" and "petgraph R"
    and "all_inner (\<lambda>x. is_ok (write_PkgNode E x)) (as_node_PkgSpec spec)"
    and "pks_kind spec = SiPkgKind.Module"
  shows "\<exists>tree. SiPkg_load_from_spec E B P R spec = Some (Inr tree)
    \<and> (case find (\<lambda>s. ss_name s = name) (rev (pks_schemas spec)) of
         None \<Rightarrow> SiPkg_schema_by_name R tree name = Inl (NodeWithNameNotFound name)
       | Some s \<Rightarrow> \<exists>item. SiPkg_schema_by_name R tree name = Inr item
           \<and> PkgNode.Schema (item_node item) = nwc_inner (as_node_SchemaSpec s :: ('j, 'u, 'd) pkg_tree))"
proof -
  obtain tree where tree: "SiPkg_load_from_spec E B P R spec = Some (Inr tree)"
    "holds R (ot_graph tree) (ot_root_idx tree) (as_node_PkgSpec spec)"
    by (rule load_from_spec_holds [OF assms(1-3)])
  obtain js where js: "category_node_idxs CategoryNode.Schemas R (ot_graph tree) (ot_root_idx tree) = Inr (rev js)"
    "list_all2 (holds R (ot_graph tree)) js (map as_node_SchemaSpec (pks_schemas spec))"
    by (rule schema_indices [OF tree(2) assms(4)])
  have l: "list_all2 (holds R (ot_graph tree)) (rev js) (map as_node_SchemaSpec (rev (pks_schemas spec)))"
    using js(2) by (simp add: rev_map [symmetric])
  from idx_for_found [where P = "\<lambda>n. PkgNode_name (hn_inner n) = name" and matches = "\<lambda>n. PkgNode_name n = name"
      and missing = "NodeWithNameNotFound name", OF l refl]
  have "case find (\<lambda>s. ss_name s = name) (rev (pks_schemas spec)) of
      None \<Rightarrow> idx_for R (ot_graph tree) (\<lambda>n. PkgNode_name (hn_inner n) = name) (NodeWithNameNotFound name) (rev js)
        = Inl (NodeWithNameNotFound name)
    | Some s \<Rightarrow> \<exists>j. idx_for R (ot_graph tree) (\<lambda>n. PkgNode_name (hn_inner n) = name) (NodeWithNameNotFound name)
        (rev js) = Inr j \<and> holds R (ot_graph tree) j (as_node_SchemaSpec s)"
    by (simp add: find_map schema_node_name split: option.splits)
  with tree(1) show ?thesis
    by (auto simp: SiPkg_schema_by_name_def js(1) SiPkgSchema_from_graph_def read_item_def node_at_def
        as_node_SchemaSpec_def split: option.splits)
qed

theorem schema_by_name_lookup_witness:
  "\<exists>tree item. SiPkg_load_from_spec sample_externals sample_blake3 ref_graph ref_graph sample_spec = Some (Inr tree)
    \<and> SiPkg_schema_by_name ref_graph tree ''s'' = Inr item \<and> sn_name (item_node item) = ''s''"
  using schema_by_name_lookup [OF ref_graph.petgraph_axioms ref_graph.petgraph_axioms sample_spec_writable,
      of sample_blake3 "''s''"]
  by (auto simp: sample_spec_def as_node_SchemaSpec_def)

section \<open>Props\<close>

text \<open>C29: The visit of props ends. In a graph that holds the tree of a schema variant,
  \<open>visit_prop_tree\<close> returns, for each of the four roots, whatever the callback does at every prop and
  whatever it passes on to the props below.\<close>

theorem prop_visit_ends:
  assumes "holds R g (item_source v) (as_node_SchemaVariantSpec s)"
  shows "\<exists>r. visit_prop_tree R g v root process_prop info context = Some r"
proof (rule variant_root_cases [OF assms refl, of root])
  fix j k p assume k: "get_prop_root_idx R g v root = Inr (Some j)" "pg_neighbors R g j = [k]"
    "holds R g k (as_node_PropSpec p)"
  have w: "seen R g (prop_view p h k) p" for h using k(3) by (auto simp: seen_def)
  obtain vs where vs: "prop_stack_from_source R g k info = Inr (map (\<lambda>v. (v, info)) (rev vs))"
    "list_all2 (seen R g) vs (subprops p)"
    by (rule stack_seen [OF w, where info = info]) simp
  from visit_list_ends [OF visit_ends vs(2) returns_on_Nil, where f = process_prop]
  show ?thesis by (simp add: visit_prop_tree_def k(1,2) vs(1) rev_map returns_on_def)
qed (simp_all add: visit_prop_tree_def)

theorem prop_visit_ends_witness:
  "\<exists>g i r. holds ref_graph g i (as_node_SchemaVariantSpec sample_variant :: (bytes, bytes, bytes) pkg_tree)
    \<and> visit_prop_tree ref_graph g \<lparr>item_node = \<lparr>sv_name = ''v0'', sv_data = None, sv_unique_id = None,
         sv_deleted = False\<rparr>, item_hash = [], item_source = i\<rparr> SchemaVariantSpecPropRoot.Domain
       (\<lambda>spec depth names. Inr (Some (unwrap_or 0 depth + 1 :: nat), names @ [SiPkgProp_name spec])) None []
     = Some r"
proof -
  obtain g i where "holds ref_graph g i (as_node_SchemaVariantSpec sample_variant :: (bytes, bytes, bytes) pkg_tree)"
    using ref_graph_holds by blast
  with prop_visit_ends [of ref_graph g "\<lparr>item_node = \<lparr>sv_name = ''v0'', sv_data = None, sv_unique_id = None,
         sv_deleted = False\<rparr>, item_hash = [], item_source = i\<rparr>" sample_variant]
  show ?thesis by fastforce
qed

text \<open>C28: Props that share a path are refused. When two props below the entries of the domain of a schema
  variant have the same path (siblings with the same name, or a name that holds the path separator),
  the variant is read and its conversion to a specification ends with the error \<open>PropTreeInvalid\<close>.\<close>

theorem shared_prop_path_rejected:
  assumes "\<And>v. to_value v = Some v" and "holds R g i (as_node_SchemaVariantSpec s)"
    and "\<not> distinct (map entry_path (inner (forest None (subprops (vs_domain s)))))"
  shows "\<exists>v. SiPkgSchemaVariant_from_graph R g i = Inr v
    \<and> SchemaVariant_to_spec to_value R g v = Some (Inl (PropTreeInvalid ''Prop has more than one parent''))"
proof -
  obtain h where h: "pg_node_weight R g i = Some h" "hn_inner h = nwc_inner (as_node_SchemaVariantSpec s)"
    using assms(2) by (rule holdsE)
  obtain v where v: "SiPkgSchemaVariant_from_graph R g i = Inr v" "item_source v = i"
    "item_node v = \<lparr>sv_name = vs_name s,
      sv_data = map_option (\<lambda>data. \<lparr>svd_name = vs_name s, svd_link = vsd_link data,
        svd_color = vsd_color data, svd_component_type = vsd_component_type data,
        svd_func_unique_id = vsd_func_unique_id data\<rparr>) (vs_data s),
      sv_unique_id = vs_unique_id s, sv_deleted = vs_deleted s\<rparr>"
    using h by (cases "vs_data s") (simp_all add: SiPkgSchemaVariant_from_graph_def read_item_def node_at_def
        as_node_SchemaVariantSpec_def)
  obtain j k where k: "get_prop_root_idx R g v SchemaVariantSpecPropRoot.Domain = Inr (Some j)"
    "pg_neighbors R g j = [k]" "holds R g k (as_node_PropSpec (vs_domain s))"
    by (rule variant_root [OF assms(2) v(2), of SchemaVariantSpecPropRoot.Domain "vs_domain s"]) simp
  show ?thesis
    using v(1) by (simp add: SchemaVariant_to_spec_def variant_builder [OF assms(2) v(2,3)]
        build_prop_specs_visit [OF assms(1) k] visit_entries_twice [OF assms(3)])
qed

definition twin_props :: "(bytes, bytes) PropSpec" where
  "twin_props = PropSpec.Object ''domain'' None None
     [PropSpec.Object ''size'' None None [PropSpec.String ''a'' None None, PropSpec.Number ''a'' None None]]"

theorem shared_prop_path_rejected_witness:
  "\<exists>g i v. holds ref_graph g i (as_node_SchemaVariantSpec (sample_variant\<lparr>vs_domain := twin_props\<rparr>)
      :: (bytes, bytes, bytes) pkg_tree)
    \<and> SiPkgSchemaVariant_from_graph ref_graph g i = Inr v
    \<and> SchemaVariant_to_spec Some ref_graph g v = Some (Inl (PropTreeInvalid ''Prop has more than one parent''))"
proof -
  obtain g i where gi: "holds ref_graph g i (as_node_SchemaVariantSpec (sample_variant\<lparr>vs_domain := twin_props\<rparr>)
      :: (bytes, bytes, bytes) pkg_tree)"
    using ref_graph_holds by blast
  have "\<not> distinct (map entry_path (inner (forest None (subprops (vs_domain
      (sample_variant\<lparr>vs_domain := twin_props\<rparr>))))))"
    by (simp add: twin_props_def preorder.simps entry_path_def)
  with shared_prop_path_rejected [where to_value = Some, OF refl gi] gi show ?thesis by blast
qed

section \<open>Components and edges\<close>

text \<open>C30: What comes back of a component. A component of a change set is read from the graph and converted
  to a specification with its name, variant and position; its input and output sockets come back as
  attributes, behind the attributes, and it has lost its unique id.\<close>

theorem component_conversion:
  assumes "holds R g i (as_node_ComponentSpec s)"
  shows "\<exists>v. SiPkgComponent_from_graph R g i = Inr v
    \<and> ComponentSpec_try_from R g v = Inr (s\<lparr>cps_unique_id := [],
        cps_attributes := rev (map restored_AttributeValueSpec (cps_attributes s))
          @ rev (map restored_AttributeValueSpec (cps_input_sockets s))
          @ rev (map restored_AttributeValueSpec (cps_output_sockets s)),
        cps_input_sockets := [], cps_output_sockets := []\<rparr>)"
  using reads_Component [OF assms] unfolding reads_def restored_ComponentSpec_def by blast

definition sample_socket :: "bytes AttributeValueSpec" where
  "sample_socket = \<lparr>avs_parent_path = None, avs_path = AttributeValuePath.InputSocket ''in'',
     avs_func_unique_id = ''f'', avs_func_binding_args = ''null'', avs_handler = None,
     avs_backend_kind = FuncSpecBackendKind.String, avs_response_type = FuncSpecBackendResponseType.String,
     avs_code_base64 = None, avs_unprocessed_value = None, avs_value = Some ''1'', avs_output_stream = None,
     avs_is_proxy = True, avs_sealed_proxy = False, avs_component_specific = False, avs_inputs = [],
     avs_implicit_value = None\<rparr>"

definition sample_component :: "bytes ComponentSpec" where
  "sample_component = \<lparr>cps_name = ''c'', cps_position = \<lparr>pss_x = ''0'', pss_y = ''0'', pss_width = None,
       pss_height = None\<rparr>, cps_variant = WorkspaceVariant ''v'', cps_needs_destroy = False,
     cps_deletion_user_pk = None, cps_unique_id = ''id'', cps_deleted = False, cps_attributes = [],
     cps_input_sockets = [sample_socket], cps_output_sockets = []\<rparr>"

theorem component_conversion_witness:
  "\<exists>g i v. holds ref_graph g i (as_node_ComponentSpec sample_component :: (bytes, bytes, bytes) pkg_tree)
    \<and> SiPkgComponent_from_graph ref_graph g i = Inr v
    \<and> ComponentSpec_try_from ref_graph g v = Inr (sample_component\<lparr>cps_unique_id := [],
        cps_attributes := [sample_socket\<lparr>avs_is_proxy := False\<rparr>], cps_input_sockets := []\<rparr>)"
proof -
  obtain g i where "holds ref_graph g i (as_node_ComponentSpec sample_component :: (bytes, bytes, bytes) pkg_tree)"
    using ref_graph_holds by blast
  with component_conversion [OF this] show ?thesis
    by (fastforce simp: sample_component_def sample_socket_def restored_AttributeValueSpec_def)
qed

text \<open>C31: An edge is never converted. Every edge of a change set is read from the graph, and converting it
  to a specification always ends with the error of the builder for the edge kind, which the conversion
  does not set.\<close>

theorem edge_conversion_fails:
  assumes "holds R g i (as_node_EdgeSpec s)"
  shows "\<exists>v. SiPkgEdge_from_graph R g i = Inr v
    \<and> EdgeSpec_try_from v = Inl (Spec (UninitializedField ''edge_kind''))"
proof -
  obtain h where "pg_node_weight R g i = Some h" "hn_inner h = nwc_inner (as_node_EdgeSpec s)"
    using assms by (rule holdsE)
  then show ?thesis
    by (simp add: SiPkgEdge_from_graph_def read_item_def node_at_def as_node_EdgeSpec_def edge_conversion)
qed

theorem edge_conversion_fails_witness:
  "\<exists>g i v. SiPkgEdge_from_graph (ref_graph :: (_, (bytes, bytes, bytes) PkgNode HashedNode) petgraph) g i = Inr v
    \<and> EdgeSpec_try_from v = Inl (Spec (UninitializedField ''edge_kind''))"
proof -
  obtain g i where "holds ref_graph g i (as_node_EdgeSpec \<lparr>es_edge_kind = EdgeSpecKind.Configuration,
      es_from_component_unique_id = ''a'', es_from_socket_name = ''o'', es_to_component_unique_id = ''b'',
      es_to_socket_name = ''i'', es_creation_user_pk = None, es_deletion_user_pk = None,
      es_deleted_implicitly = False, es_unique_id = ''u'', es_deleted = False\<rparr> :: (bytes, bytes, bytes) pkg_tree)"
    using ref_graph_holds by blast
  from edge_conversion_fails [OF this] show ?thesis by blast
qed

section \<open>The text of nodes\<close>

text \<open>C12: Every node is read back from its text. A valid package node of any of its kinds is written, and
  reading the bytes, followed by the end of the buffer or by a separator line, gives the node in normal
  form and leaves what follows.\<close>

theorem package_node_roundtrip:
  assumes "valid_PkgNode E n" and "rest_ok rest"
  shows "\<exists>b. write_PkgNode E n = Inr b \<and> read_PkgNode E (b @ rest) = Inr (Some (norm_PkgNode n), rest)
    \<and> write_PkgNode E (norm_PkgNode n) = Inr b"
proof -
  obtain b where "write_PkgNode E n = Inr b"
    using pkg_node.write_ok [OF assms(1)] by (cases "write_PkgNode E n") simp_all
  with pkg_node.read_back [OF assms(1) this assms(2)] pkg_node.norm_write [OF assms(1)] show ?thesis by simp
qed

theorem package_node_roundtrip_witness:
  "\<exists>b. write_PkgNode sample_externals (PkgNode.Func \<lparr>fn_name = ''f'', fn_data = None, fn_unique_id = ''u'',
      fn_deleted = True, fn_is_from_builtin = None\<rparr>) = Inr b
    \<and> read_PkgNode sample_externals (b @ [NL]) = Inr (Some (PkgNode.Func \<lparr>fn_name = ''f'', fn_data = None,
      fn_unique_id = ''u'', fn_deleted = True, fn_is_from_builtin = None\<rparr>), [NL])"
  using package_node_roundtrip [of sample_externals "PkgNode.Func \<lparr>fn_name = ''f'', fn_data = None,
      fn_unique_id = ''u'', fn_deleted = True, fn_is_from_builtin = None\<rparr>" "[NL]"]
  by (auto simp: valid_FuncNode_def ascii_rust_string norm_FuncNode_def)

text \<open>A key-value line holds any text. Whatever text a value is, with line breaks, separators or nothing
  at all, the line written for it is read back as that value, and what follows is left in the reader.\<close>

theorem key_value_line_roundtrip:
  assumes "key_ok key" and "rust_string value"
  shows "\<exists>b. write_key_value_line key value = Inr b
    \<and> read_key_value_line key (b @ rest) = Inr (value, rest)
    \<and> read_key_value_line_opt key (b @ rest) = Inr (Some value, rest)"
  using read_kv_line [OF assms] read_kv_line_opt [OF assms] by (simp add: write_key_value_line_def)

theorem key_value_line_roundtrip_witness:
  "read_key_value_line ''code'' (kv_line ''code'' (''a=b:'' @ [NL, NL] @ ''c'') @ ''rest'')
    = Inr (''a=b:'' @ [NL, NL] @ ''c'', ''rest'')"
  using key_value_line_roundtrip [of "''code''" "''a=b:'' @ [NL, NL] @ ''c''" "''rest''"]
  by (simp add: write_key_value_line_def key_ok_def ascii_rust_string)

text \<open>C32: A length that no memory can hold stops the reader. When the length of a value's line needs a
  buffer of 2 to the power of 63 bytes or more (and the length fits a machine word), reading the line
  panics, whatever follows: the length is not compared with what is left to read.\<close>

theorem huge_length_panics:
  assumes "key_ok key" and "utf8_ok v" and "NL \<notin> set v"
    and "9223372036854775808 \<le> len - length v" and "len < usize_bound"
  shows "read_key_value_line key (key @ CHR '':'' # show_nat len @ CHR ''='' # v @ NL # rest)
    = Inl (GraphError.Panicked ''capacity overflow'')"
proof -
  let ?p = "key @ CHR '':'' # show_nat len @ [CHR ''='']"
  have "utf8_ok ?p" using key_okD [OF assms(1)] by (simp add: utf8_ok_append)
  then have u: "utf8_ok (?p @ v @ [NL])" using assms(2) by (subst utf8_ok_append) (simp_all add: utf8_ok_append)
  have "read_until_nl ((?p @ v) @ NL # rest) = ((?p @ v) @ [NL], rest)"
    by (rule read_until_nl_line) (use key_okD [OF assms(1)] assms(3) in simp)
  with u have r: "read_line (key @ CHR '':'' # show_nat len @ CHR ''='' # v @ NL # rest) = Inr (?p @ v @ [NL], rest)"
    by (simp add: read_line_def)
  have "parse_key_line (?p @ v @ [NL]) = Inr (key, len, v @ [NL])"
    using parse_key_line_kv [OF assms(1,5), of "v @ [NL]"] by simp
  moreover have "value_of_line len (v @ [NL]) rest = Inl (GraphError.Panicked ''capacity overflow'')"
  proof -
    have "length v < len" by (rule ccontr) (use assms(4) in simp)
    then obtain k where k: "len = length v + Suc k" using less_imp_Suc_add by auto
    then have "alloc_zeroed (Suc k) = Inl (GraphError.Panicked ''capacity overflow'')"
      using assms(4) by (simp only: alloc_zeroed_def diff_add_inverse not_less [symmetric] if_False)
    moreover have "Suc k < usize_bound" using assms(5) unfolding k by (rule le_less_trans [rotated]) simp
    ultimately show ?thesis by (simp add: k value_of_line_def checked_sub_def checked_add_def)
  qed
  ultimately show ?thesis
    by (simp add: read_key_value_line_def r)
qed

theorem huge_length_panics_witness:
  "read_key_value_line ''name'' (''name:'' @ show_nat 9223372036854775810 @ ''=x'' @ [NL])
    = Inl (GraphError.Panicked ''capacity overflow'')"
  using huge_length_panics [of "''name''" "''x''" 9223372036854775810 "[]"]
  by (simp add: key_ok_def usize_bound_def)

text \<open>Other versions are refused. An object whose version line says anything but 1 is not read, whatever
  follows, and the error names the version.\<close>

theorem other_version_rejected:
  assumes "rust_string version" and "version \<noteq> ''1''"
  shows "node_with_entries_from_bytes rd B (kv_line ''version'' version @ rest) = Inl (InvalidNodeVersion version)"
  using read_kv_line [of "''version''" version rest] assms
  by (simp add: node_with_entries_from_bytes_def read_node_with_entries_def)

theorem other_version_rejected_witness:
  "node_with_entries_from_bytes (read_PkgNode sample_externals) sample_blake3 (kv_line ''version'' ''2'')
    = Inl (InvalidNodeVersion ''2'')"
  using other_version_rejected [of "''2''" "read_PkgNode sample_externals" sample_blake3 "[]"]
  by (simp add: ascii_rust_string)

end
