(* ===== verification/Asset_Properties.thy ===== *)
theory Asset_Properties
  imports Asset_Package Pkg_Properties
begin

text \<open>
  Properties of assets: what the builders guarantee, what of it the deserialisers accept, and what arrives in
  the package.
\<close>

section \<open>Lemmas on reading\<close>

lemma those_all2: "those xs = Some ys \<longleftrightarrow> list_all2 (\<lambda>x y. x = Some y) xs ys"
  by (induction xs arbitrary: ys) (auto simp: list_all2_Cons1 split: option.splits)

lemma read_list_all2: "read_list f xs = Some ys \<longleftrightarrow> list_all2 (\<lambda>x y. f x = Some y) xs ys"
  by (simp add: read_list_def those_all2 list_all2_map1)

lemma read_default_all2:
  "read_default f m = Some ys \<longleftrightarrow> list_all2 (\<lambda>x y. f x = Some y) (unwrap_or [] m) ys"
  by (cases m) (auto simp: read_default_def read_list_all2)

lemma read_default_element:
  assumes "read_default f m = Some ys" and "x \<in> elements m"
  shows "\<exists>y \<in> set ys. f x = Some y"
  using assms unfolding read_default_all2
  by (cases m) (auto simp: list_all2_conv_all_nth in_set_conv_nth)

lemma read_PropDefinition_value_from:
  assumes "read_PropDefinition J p = Some d" and "tp_valueFrom (prop_fields p) = Some v"
  shows "\<exists>w. read_ValueFrom v = Some w \<and> pd_value_from d = Some w"
  using assms by (cases p) (auto simp: read_opt_def bind_eq_Some_conv)

lemma prop_data_spec_of: "Pkg_Restored_Props.prop_data (spec_of parse func d) = Some (data_of_prop parse func d)"
  by (cases d; cases "pd_kind d") (auto simp: Let_def)

lemma SchemaVariantDefinitionJson_to_spec_iff:
  "SchemaVariantDefinitionJson_to_spec parse m f g d = Inr v \<longleftrightarrow>
   definition_ok parse m d \<and> v = variant_of parse m f g d"
  using SchemaVariantDefinitionJson_to_spec_converts [of parse m d f g]
  by (cases "definition_ok parse m d") (auto simp: converts_def)

text \<open>Definitions whose props can be told apart by their paths: siblings have different names, and no name
  holds the separator of paths.\<close>

fun names_fit :: "'j PropDefinition \<Rightarrow> bool" where
  "names_fit (PropDefinition n k r l cs ent w v h vs d ms) \<longleftrightarrow>
     (case k of
        PropKind.Array \<Rightarrow> (case ent of None \<Rightarrow> True | Some e \<Rightarrow> part_ok (pd_name e) \<and> names_fit e)
      | PropKind.Map \<Rightarrow> (case ent of None \<Rightarrow> True | Some e \<Rightarrow> part_ok (pd_name e) \<and> names_fit e)
      | PropKind.Object \<Rightarrow>
          distinct (map pd_name cs) \<and> list_all (\<lambda>c. part_ok (pd_name c) \<and> names_fit c) cs
      | _ \<Rightarrow> True)"

definition siblings_fit :: "'j PropDefinition list \<Rightarrow> bool" where
  "siblings_fit ps \<longleftrightarrow> distinct (map pd_name ps) \<and> list_all (\<lambda>p. part_ok (pd_name p) \<and> names_fit p) ps"

lemma prop_name_spec_of [simp]: "prop_name (spec_of parse func p) = pd_name p"
  by (cases p; cases "pd_kind p") (auto simp: Let_def)

lemma names_fit_props_ok:
  "convertible parse p \<Longrightarrow> names_fit p \<Longrightarrow> props_ok (spec_of parse func p)"
proof (induction parse p rule: convertible.induct)
  case (1 parse n k r l cs ent w v h vs d ms)
  show ?case
  proof (cases k)
    case Object
    have "props_ok (spec_of parse func c)" if "c \<in> set cs" for c
      using that 1 Object by (auto simp: list_all_iff)
    then show ?thesis using 1(4,5) Object
      unfolding props_ok_def by (subst all_props_list) (auto simp: names_ok_def list_all_iff o_def Let_def)
  next
    case Array
    then obtain e where e: "ent = Some e" using 1(4) by (cases ent) auto
    then have "props_ok (spec_of parse func e)" using 1(1) [OF Array e] 1(4,5) Array by auto
    then show ?thesis using 1(5) Array e
      unfolding props_ok_def by (subst all_props_list) (auto simp: names_ok_def Let_def)
  next
    case Map
    then obtain e where e: "ent = Some e" using 1(4) by (cases ent) auto
    then have "props_ok (spec_of parse func e)" using 1(2) [OF Map e] 1(4,5) Map by auto
    then show ?thesis using 1(5) Map e
      unfolding props_ok_def by (subst all_props_list) (auto simp: names_ok_def Let_def)
  qed (unfold props_ok_def, (subst all_props_list, simp add: names_ok_def Let_def)+)
qed

lemma siblings_fit_root:
  assumes "list_all (convertible parse) ps" and "siblings_fit ps"
  shows "props_ok (default_root name (map (spec_of parse func) ps))"
proof -
  have "list_all props_ok (map (spec_of parse func) ps)"
    using assms by (auto simp: siblings_fit_def list_all_iff intro: names_fit_props_ok)
  then show ?thesis using assms(2)
    unfolding props_ok_def
    by (subst all_props_list) (auto simp: default_root_def names_ok_def siblings_fit_def list_all_iff o_def)
qed

lemma variant_of_names_ok:
  "definition_ok parse m d \<Longrightarrow> siblings_fit (svd_props d) \<Longrightarrow> siblings_fit (svd_resource_props d) \<Longrightarrow>
   variant_names_ok (variant_of parse m f g d)"
  by (simp add: variant_names_ok_def variant_of_def Let_def definition_ok_def siblings_fit_root)

section \<open>A sample asset\<close>

definition sample_json :: "(bytes, int) json_values" where
  "sample_json = \<lparr>as_i64 = Some, is_null = (\<lambda>v. v = ''null''), options_json = (\<lambda>_. ''options'')\<rparr>"

definition sample_secret :: "(bytes, int) SecretPropDefinition" where
  "sample_secret = \<lparr>sp_prop = TsPropDefinition (no_fields\<lparr>tp_name := Some ''cred'', tp_kind := Some stringProp,
     tp_widget := Some \<lparr>tpw_kind = Some secret,
       tpw_options = Some [\<lparr>label = ''secretKind'', option_value = ''AWS''\<rparr>]\<rparr>\<rparr>) None None,
     hasInputSocket = True\<rparr>"

definition sample_region :: "(bytes, int) TsPropDefinition" where
  "sample_region = PropBuilder_setName ''region'' (PropBuilder_setKind stringProp PropBuilder)"

definition sample_asset :: "(bytes, int) Asset" where
  "sample_asset = AssetBuilder\<lparr>as_props := Some [sample_region],
     as_inputSockets := Some [\<lparr>tsd_name = Some ''AWS'', tsd_arity = Some one, tsd_uiHidden = None,
       tsd_valueFrom = None\<rparr>],
     as_secretProps := Some [sample_secret\<lparr>sp_prop := PropBuilder_setValueFrom
       \<lparr>tvf_kind = Some inputSocket, tvf_socket_name = Some ''AWS'', tvf_prop_path = None\<rparr>
       (sp_prop sample_secret)\<rparr>]\<rparr>"

definition sample_definition :: "bytes SchemaVariantDefinitionJson" where
  "sample_definition = \<lparr>
     svd_props = [PropDefinition ''region'' PropKind.String None None [] None None None None None None None],
     svd_secret_props = [PropDefinition ''cred'' PropKind.String None None [] None
       (Some \<lparr>pwd_kind = WidgetKind.Secret, pwd_options = Some ''options''\<rparr>)
       (Some (ValueFrom.InputSocket ''AWS'')) None None None None],
     svd_secret_definition = None, svd_resource_props = [], svd_si_prop_value_froms = [],
     svd_input_sockets = [\<lparr>sd_name = ''AWS'', sd_arity = Some SocketArity.One, sd_ui_hidden = None,
       sd_value_from = None\<rparr>], svd_output_sockets = [], svd_doc_links = None\<rparr>"

definition sample_metadata :: SchemaVariantDefinitionMetadataJson where
  "sample_metadata = \<lparr>svm_name = ''Instance'', svm_menu_name = Some ''Instance'', svm_category = ''AWS'',
     svm_color = ''ff9900'', svm_component_kind = ComponentKind.Standard,
     svm_component_type = ComponentType.Component, svm_link = Some ''https://a.b'', svm_description = None\<rparr>"

definition sample_asset_func :: AssetFunc where
  "sample_asset_func = \<lparr>af_id = ''id'', af_name = ''asset'', af_hidden = False, af_code_plaintext = Some ''code'',
     af_handler = Some ''main'', af_description = None, af_display_name = None\<rparr>"

lemma sample_asset_buildable: "buildable sample_asset"
proof -
  have "AssetBuilder_addSecretProp sample_secret AssetBuilder =
      Inr (sample_asset\<lparr>as_props := None\<rparr>)"
    by (simp add: AssetBuilder_addSecretProp_def sample_secret_def secret_kind_def sample_asset_def asset_methods
          SocketDefinitionBuilder_def SocketDefinitionBuilder_setName_def SocketDefinitionBuilder_setArity_def
          ValueFromBuilder_def ValueFromBuilder_setKind_def ValueFromBuilder_setSocketName_def Let_def push_to_def)
  from buildable.addProp [OF buildable.addSecretProp [OF buildable.start this], of sample_region]
  show ?thesis by (simp add: sample_asset_def asset_methods push_to_def)
qed

lemma sample_asset_read: "read_Asset sample_json sample_asset = Some sample_definition"
  by (simp add: read_Asset_def sample_asset_def sample_definition_def sample_region_def sample_secret_def
      sample_json_def AssetBuilder_def read_default_def read_list_def read_opt_def PropBuilder_def no_fields_def
      PropBuilder_setName_def PropBuilder_setKind_def PropBuilder_setValueFrom_def read_ValueFrom_def
      read_PropWidgetDefinition_def read_SocketDefinition_def)

lemma sample_definition_ok: "definition_ok (Some :: bytes \<Rightarrow> bytes option) sample_metadata sample_definition"
  by (simp add: definition_ok_def sample_definition_def sample_metadata_def)

section \<open>Secrets of an asset\<close>

lemma secret_socket_read:
  assumes "secret_connected a p" and "read_Asset J a = Some d"
    and "read_PropDefinition J (sp_prop p) = Some q"
  shows "\<exists>kind. secret_kind (sp_prop p) = Some kind \<and> pd_value_from q = Some (ValueFrom.InputSocket kind) \<and>
    (\<exists>s \<in> set (svd_input_sockets d). sd_name s = kind \<and> sd_arity s = Some SocketArity.One)"
proof -
  obtain kind socket where k: "secret_kind (sp_prop p) = Some kind"
      "tp_valueFrom (prop_fields (sp_prop p)) =
         Some \<lparr>tvf_kind = Some inputSocket, tvf_socket_name = Some kind, tvf_prop_path = None\<rparr>"
      "socket \<in> elements (as_inputSockets a)" "tsd_name socket = Some kind" "tsd_arity socket = Some one"
    using assms(1) by (auto simp: secret_connected_def)
  have "read_default read_SocketDefinition (as_inputSockets a) = Some (svd_input_sockets d)"
    using assms(2) by (auto simp: read_Asset_def bind_eq_Some_conv)
  from read_default_element [OF this k(3)] obtain s where
      s: "s \<in> set (svd_input_sockets d)" "read_SocketDefinition socket = Some s"
    by blast
  then have "sd_name s = kind" "sd_arity s = Some SocketArity.One"
    using k(4,5) by (auto simp: read_SocketDefinition_def bind_eq_Some_conv)
  with k s read_PropDefinition_value_from [OF assms(3) k(2)] show ?thesis
    by (auto simp: read_ValueFrom_def)
qed

text \<open>C5: Secrets stay connected from the builder to the package. Whatever methods of the asset builder were
  called, if the asset is built, read and converted to a schema variant, every secret prop with a socket
  has become an entry below \<open>secrets\<close> whose value comes, by the identity function, from the input socket
  named after the kind of secret, and the variant has that socket, as an input of arity one.\<close>

theorem asset_secrets_connected:
  assumes "buildable a" and "AssetBuilder_build a = Inr asset" and "read_Asset J asset = Some d"
    and "SchemaVariantDefinitionJson_to_spec parse metadata func asset_func d = Inr v"
    and "as_secretProps asset = Some ps" and "i < length ps" and "hasInputSocket (ps ! i)"
  shows "\<exists>kind es data socket sdata.
    secret_kind (sp_prop (ps ! i)) = Some kind \<and> vs_secrets v = default_root ''secrets'' es \<and>
    Pkg_Restored_Props.prop_data (es ! i) = Some data \<and> psd_func_unique_id data = Some func \<and>
    psd_inputs data = Some [AttrFuncInputSpec.InputSocket ''identity'' kind None False] \<and>
    socket \<in> set (vs_sockets v) \<and> sos_name socket = kind \<and> sos_data socket = Some sdata \<and>
    sosd_kind sdata = SocketSpecKind.Input \<and> sosd_arity sdata = SocketSpecArity.One"
proof -
  have asset: "asset = a" using assms(2) by (auto simp: AssetBuilder_build_def split: if_splits)
  have v: "v = variant_of parse metadata func asset_func d"
    using assms(4) by (simp add: SchemaVariantDefinitionJson_to_spec_iff)
  have "read_default (\<lambda>p. read_PropDefinition J (sp_prop p)) (as_secretProps a) = Some (svd_secret_props d)"
    using assms(3) by (auto simp: asset read_Asset_def bind_eq_Some_conv)
  then have q: "i < length (svd_secret_props d)"
      "read_PropDefinition J (sp_prop (ps ! i)) = Some (svd_secret_props d ! i)"
    using assms(5,6) by (auto simp: asset read_default_all2 list_all2_conv_all_nth)
  have "secret_connected a (ps ! i)"
    using buildable_secrets_ok [OF assms(1)] assms(5-7) by (auto simp: asset secrets_ok_def)
  from secret_socket_read [OF this assms(3) [unfolded asset] q(2)] obtain kind s where
    k: "secret_kind (sp_prop (ps ! i)) = Some kind"
      "pd_value_from (svd_secret_props d ! i) = Some (ValueFrom.InputSocket kind)"
      "s \<in> set (svd_input_sockets d)" "sd_name s = kind" "sd_arity s = Some SocketArity.One"
    by blast
  let ?q = "svd_secret_props d ! i"
  have "vs_secrets v = default_root ''secrets'' (map (spec_of parse func) (svd_secret_props d))"
    by (simp add: v variant_of_def Let_def)
  moreover have "Pkg_Restored_Props.prop_data (map (spec_of parse func) (svd_secret_props d) ! i) =
      Some (data_of_prop parse func ?q)"
    using q(1) by (simp add: prop_data_spec_of)
  moreover have "psd_func_unique_id (data_of_prop parse func ?q) = Some func"
      "psd_inputs (data_of_prop parse func ?q) =
         Some [AttrFuncInputSpec.InputSocket ''identity'' kind None False]"
    using k(2) by (simp_all add: data_of_prop_def)
  moreover have "socket_spec True func s \<in> set (vs_sockets v)"
    using k(3) by (simp add: v variant_of_def Let_def)
  ultimately show ?thesis using k(1,4,5) by (fastforce simp: socket_spec_def)
qed

theorem asset_secrets_connected_witness:
  "\<exists>v kind es data socket sdata.
    SchemaVariantDefinitionJson_to_spec Some sample_metadata ''identity'' ''asset'' sample_definition = Inr v \<and>
    read_Asset sample_json sample_asset = Some sample_definition \<and>
    secret_kind (sp_prop (the (as_secretProps sample_asset) ! 0)) = Some kind \<and>
    vs_secrets v = default_root ''secrets'' es \<and>
    Pkg_Restored_Props.prop_data (es ! 0) = Some data \<and> psd_func_unique_id data = Some ''identity'' \<and>
    psd_inputs data = Some [AttrFuncInputSpec.InputSocket ''identity'' kind None False] \<and>
    socket \<in> set (vs_sockets v) \<and> sos_name socket = kind \<and> sos_data socket = Some sdata \<and>
    sosd_kind sdata = SocketSpecKind.Input \<and> sosd_arity sdata = SocketSpecArity.One"
proof -
  define v :: "(bytes, bytes) SchemaVariantSpec" where
    "v = variant_of Some sample_metadata ''identity'' ''asset'' sample_definition"
  have v: "SchemaVariantDefinitionJson_to_spec Some sample_metadata ''identity'' ''asset'' sample_definition = Inr v"
    by (simp add: SchemaVariantDefinitionJson_to_spec_iff v_def sample_definition_ok)
  have b: "AssetBuilder_build sample_asset = Inr sample_asset"
    by (simp add: AssetBuilder_build_def sample_asset_def AssetBuilder_def)
  have "\<exists>p. as_secretProps sample_asset = Some [p] \<and> hasInputSocket p"
    by (simp add: sample_asset_def sample_secret_def)
  then obtain p where p: "as_secretProps sample_asset = Some [p]" "hasInputSocket p" by blast
  show ?thesis
    using asset_secrets_connected [OF sample_asset_buildable b sample_asset_read v p(1), of 0] p v sample_asset_read
    by auto
qed

section \<open>Validations of an asset\<close>

text \<open>The validations of a prop and of the props below it, before and after they are read.\<close>

fun ts_validations :: "('j, 'n) TsPropDefinition \<Rightarrow> ('j, 'n) TsValidation list" where
  "ts_validations (TsPropDefinition p cs e) = unwrap_or [] (tp_validations p)
     @ (case cs of None \<Rightarrow> [] | Some xs \<Rightarrow> concat (map ts_validations xs))
     @ (case e of None \<Rightarrow> [] | Some x \<Rightarrow> ts_validations x)"

fun all_validations :: "'j PropDefinition \<Rightarrow> ValidationSpec list" where
  "all_validations (PropDefinition n k r l cs e w v h vs d ms) = unwrap_or [] vs
     @ concat (map all_validations cs) @ (case e of None \<Rightarrow> [] | Some x \<Rightarrow> all_validations x)"

definition asset_validations :: "('j, 'n) Asset \<Rightarrow> ('j, 'n) TsValidation list" where
  "asset_validations a = concat (map ts_validations (unwrap_or [] (as_props a)
     @ map sp_prop (unwrap_or [] (as_secretProps a)) @ unwrap_or [] (as_secretDefinition a)
     @ unwrap_or [] (as_resourceProps a)))"

definition definition_validations :: "'j SchemaVariantDefinitionJson \<Rightarrow> ValidationSpec list" where
  "definition_validations d = concat (map all_validations (svd_props d @ svd_secret_props d
     @ unwrap_or [] (svd_secret_definition d) @ svd_resource_props d))"

text \<open>What a validation needs to be read.\<close>

definition readable_validation :: "('n \<Rightarrow> int option) \<Rightarrow> ('j, 'n) TsValidation \<Rightarrow> bool" where
  "readable_validation as_int v \<longleftrightarrow>
     tva_kind v \<in> {Some stringIsHexColor, Some stringIsNotEmpty, Some stringIsValidIpAddr} \<or>
     tva_kind v = Some integerIsBetweenTwoIntegers \<and>
       Option.bind (tva_lowerBound v) as_int \<noteq> None \<and> Option.bind (tva_upperBound v) as_int \<noteq> None \<or>
     tva_kind v = Some stringInStringArray \<and> tva_expected v \<noteq> None \<and> tva_displayExpected v \<noteq> None"

lemma read_ValidationSpec_iff: "read_ValidationSpec as_int v \<noteq> None \<longleftrightarrow> readable_validation as_int v"
  by (cases "tva_kind v"; cases "the (tva_kind v)")
     (auto simp: readable_validation_def read_ValidationSpec_def absent_def string_from_array_def
        string_from_object_def Let_def split: option.splits bind_splits)

lemma all2_concat:
  assumes "list_all2 (\<lambda>x y. map Some (g y) = map f (h x)) xs ys"
  shows "map Some (concat (map g ys)) = map f (concat (map h xs))"
  using assms by (induction rule: list_all2_induct) auto

lemma read_opt_list:
  assumes "read_opt (read_list f) m = Some ys"
  shows "list_all2 (\<lambda>x y. f x = Some y) (unwrap_or [] m) (unwrap_or [] ys)"
  using assms by (cases m) (auto simp: read_opt_def read_list_all2)

lemma read_prop_validations:
  "read_PropDefinition J p = Some d \<Longrightarrow>
   map Some (all_validations d) = map (read_ValidationSpec (as_i64 J)) (ts_validations p)"
proof (induction p arbitrary: d)
  case (TsPropDefinition p cs e)
  note IH = TsPropDefinition.IH
  from TsPropDefinition.prems obtain name kind ds e' w v vs ms where
    ds: "(case cs of None \<Rightarrow> Some [] | Some cs \<Rightarrow> those (map (read_PropDefinition J) cs)) = Some ds" and
    e': "(case e of None \<Rightarrow> Some None | Some e \<Rightarrow> map_option Some (read_PropDefinition J e)) = Some e'" and
    vs: "read_opt (read_list (read_ValidationSpec (as_i64 J))) (tp_validations p) = Some vs" and
    d: "all_validations d = unwrap_or [] vs @ concat (map all_validations ds)
      @ (case e' of None \<Rightarrow> [] | Some x \<Rightarrow> all_validations x)"
    by (auto simp: bind_eq_Some_conv)
  have own: "map Some (unwrap_or [] vs) = map (read_ValidationSpec (as_i64 J)) (unwrap_or [] (tp_validations p))"
    using read_opt_list [OF vs] by (simp add: list_eq_iff_nth_eq list_all2_conv_all_nth)
  have below: "map Some (concat (map all_validations ds)) = map (read_ValidationSpec (as_i64 J))
      (case cs of None \<Rightarrow> [] | Some xs \<Rightarrow> concat (map ts_validations xs))"
  proof (cases cs)
    case (Some xs)
    then have "list_all2 (\<lambda>x y. read_PropDefinition J x = Some y) xs ds"
      using ds by (simp add: those_all2 list_all2_map1)
    then have "list_all2 (\<lambda>x y. map Some (all_validations y) = map (read_ValidationSpec (as_i64 J)) (ts_validations x)) xs ds"
      by (rule list.rel_mono_strong) (use IH(1) Some in auto)
    from all2_concat [OF this] show ?thesis by (simp add: Some)
  qed (use ds in simp)
  have "map Some (case e' of None \<Rightarrow> [] | Some x \<Rightarrow> all_validations x) = map (read_ValidationSpec (as_i64 J))
      (case e of None \<Rightarrow> [] | Some x \<Rightarrow> ts_validations x)"
    using e' IH(2) by (cases e) auto
  with own below show ?case by (simp add: d)
qed

text \<open>C33: The validations of an asset. When an asset is read, all its validations are, those of props nested at
  any depth included, in their order and each for itself, and all of them are of these kinds: hex colour,
  not-empty string and IP address, a range with two integers as bounds, and membership in a list whose
  list and display flag were set. So a single validation of another kind (custom validations, not-empty
  integers, equal strings and prefixes), on any prop, makes the whole asset unreadable.\<close>

theorem asset_validations_read:
  assumes "read_Asset J a = Some d"
  shows "map Some (definition_validations d) = map (read_ValidationSpec (as_i64 J)) (asset_validations a)
    \<and> list_all (readable_validation (as_i64 J)) (asset_validations a)"
proof
  have groups: "list_all2 (\<lambda>x y. read_PropDefinition J x = Some y) (unwrap_or [] (as_props a)) (svd_props d)"
    "list_all2 (\<lambda>x y. read_PropDefinition J x = Some y) (map sp_prop (unwrap_or [] (as_secretProps a))) (svd_secret_props d)"
    "list_all2 (\<lambda>x y. read_PropDefinition J x = Some y) (unwrap_or [] (as_secretDefinition a))
      (unwrap_or [] (svd_secret_definition d))"
    "list_all2 (\<lambda>x y. read_PropDefinition J x = Some y) (unwrap_or [] (as_resourceProps a)) (svd_resource_props d)"
    using assms by (auto simp: read_Asset_def bind_eq_Some_conv read_default_all2 list_all2_map1 dest!: read_opt_list)
  then have "list_all2 (\<lambda>x y. map Some (all_validations y) = map (read_ValidationSpec (as_i64 J)) (ts_validations x))
      (unwrap_or [] (as_props a) @ map sp_prop (unwrap_or [] (as_secretProps a)) @ unwrap_or [] (as_secretDefinition a)
        @ unwrap_or [] (as_resourceProps a))
      (svd_props d @ svd_secret_props d @ unwrap_or [] (svd_secret_definition d) @ svd_resource_props d)"
    by (intro list_all2_appendI) (auto intro: list_all2_mono read_prop_validations)
  then show m: "map Some (definition_validations d) = map (read_ValidationSpec (as_i64 J)) (asset_validations a)"
    unfolding definition_validations_def asset_validations_def by (rule all2_concat)
  have "read_ValidationSpec (as_i64 J) v \<noteq> None" if "v \<in> set (asset_validations a)" for v
  proof -
    have "read_ValidationSpec (as_i64 J) v \<in> set (map Some (definition_validations d))"
      unfolding m using that by simp
    then show ?thesis by auto
  qed
  then show "list_all (readable_validation (as_i64 J)) (asset_validations a)"
    unfolding list_all_iff read_ValidationSpec_iff by blast
qed

text \<open>An object with a port whose range is checked.\<close>

definition sample_checked_asset :: "(bytes, int) Asset" where
  "sample_checked_asset = AssetBuilder\<lparr>as_props := Some [TsPropDefinition (no_fields\<lparr>tp_name := Some ''net'',
     tp_kind := Some objectProp\<rparr>) (Some [TsPropDefinition (no_fields\<lparr>tp_name := Some ''port'',
       tp_kind := Some integerProp, tp_validations := Some [ValidationBuilder\<lparr>tva_kind := Some integerIsBetweenTwoIntegers,
         tva_lowerBound := Some 0, tva_upperBound := Some 65535\<rparr>]\<rparr>) None None]) None]\<rparr>"

theorem asset_validations_read_witness:
  "\<exists>d. read_Asset sample_json sample_checked_asset = Some d
    \<and> definition_validations d = [ValidationSpec.IntegerIsBetweenTwoIntegers 0 65535 None False]"
proof -
  have "read_Asset sample_json sample_checked_asset \<noteq> None"
    by (simp add: sample_checked_asset_def read_Asset_def AssetBuilder_def read_default_def read_list_def read_opt_def
        no_fields_def sample_json_def read_ValidationSpec_def ValidationBuilder_def)
  then obtain d where d: "read_Asset sample_json sample_checked_asset = Some d" by blast
  have "map (read_ValidationSpec (as_i64 sample_json)) (asset_validations sample_checked_asset)
      = map Some [ValidationSpec.IntegerIsBetweenTwoIntegers 0 65535 None False]"
    by (simp add: sample_checked_asset_def asset_validations_def AssetBuilder_def no_fields_def sample_json_def
        read_ValidationSpec_def ValidationBuilder_def absent_def)
  with asset_validations_read [OF d] have "map Some (definition_validations d)
      = map Some [ValidationSpec.IntegerIsBetweenTwoIntegers 0 65535 None False]"
    by simp
  then have "definition_validations d = [ValidationSpec.IntegerIsBetweenTwoIntegers 0 65535 None False]"
    by (rule map_injective) simp
  with d show ?thesis by blast
qed

section \<open>Conversion of definitions\<close>

text \<open>C14: The conversion of a definition of a schema variant succeeds exactly when the link of the schema and
  the documentation links of the props that are looked at are URLs and every array and map among these
  has an entry; then the specification is the one written out in \<^const>\<open>variant_of\<close>, prop by prop and socket
  by socket. Otherwise the error is that of a URL or of the missing entry.\<close>

theorem definition_conversion:
  "if definition_ok parse metadata d
   then SchemaVariantDefinitionJson_to_spec parse metadata func asset_func d =
          Inr (variant_of parse metadata func asset_func d)
   else SchemaVariantDefinitionJson_to_spec parse metadata func asset_func d
          \<in> {Inl Url, Inl (Spec (UninitializedField ''type_prop''))}"
  using SchemaVariantDefinitionJson_to_spec_converts [of parse metadata d func asset_func]
  by (auto simp: converts_def)

section \<open>The package of an asset\<close>

lemma asset_func_spec_ok:
  "(\<exists>f. asset_func_spec encode64 af = Inr f) \<longleftrightarrow> af_code_plaintext af \<noteq> None \<and> af_handler af \<noteq> None"
  by (auto simp: asset_func_spec_def spec_builds ok_or_def split: option.splits)

lemma asset_func_spec_id: "asset_func_spec encode64 af = Inr f \<Longrightarrow> fs_unique_id f = af_id af"
  by (auto simp: asset_func_spec_def spec_builds ok_or_def split: option.splits)

abbreviation identity_id :: bytes where
  "identity_id \<equiv> intrinsic_unique_id IntrinsicFunc.Identity"

lemma asset_pkg_spec_eq:
  "asset_pkg_spec now encode64 parse user_email af metadata d =
     rbind (asset_func_spec encode64 af) (\<lambda>f.
     rbind (SchemaVariantDefinitionJson_to_spec parse metadata identity_id (fs_unique_id f) d) (\<lambda>v.
     rbind (metadata_to_spec v metadata) (\<lambda>s.
     Inr \<lparr>pks_kind = SiPkgKind.Module, pks_name = svm_name metadata, pks_version = ''0.0.1'',
       pks_description = [], pks_created_at = now, pks_created_by = user_email,
       pks_default_change_set = None, pks_workspace_pk = None, pks_workspace_name = None, pks_schemas = [s],
       pks_funcs = [intrinsic_spec encode64 IntrinsicFunc.Identity, f], pks_change_sets = []\<rparr>)))"
  by (simp add: asset_pkg_spec_def IntrinsicFunc_to_spec_eq spec_builds ok_or_def intrinsic_spec_def pushed_def)

text \<open>The handler writes down a package for an asset exactly when the function of the asset has code and an
  entry point and its definition can be converted.\<close>

theorem asset_package_spec_exists:
  "(\<exists>spec. asset_pkg_spec now encode64 parse user_email af metadata d = Inr spec) \<longleftrightarrow>
     af_code_plaintext af \<noteq> None \<and> af_handler af \<noteq> None \<and> definition_ok parse metadata d"
  using asset_func_spec_ok [of encode64 af]
  by (auto simp: asset_pkg_spec_eq metadata_to_spec_eq rbind_Inr_iff SchemaVariantDefinitionJson_to_spec_iff)

lemma asset_pkg_spec_schema:
  "asset_pkg_spec now encode64 parse user_email af metadata d = Inr spec \<Longrightarrow>
   pks_kind spec = SiPkgKind.Module \<and> definition_ok parse metadata d \<and>
   (\<exists>s g. pks_schemas spec = [s] \<and> metadata_to_spec (variant_of parse metadata identity_id g d) metadata = Inr s)"
  by (auto simp: asset_pkg_spec_eq rbind_Inr_iff metadata_to_spec_eq SchemaVariantDefinitionJson_to_spec_iff)

text \<open>C11: The metadata of an asset survive its package. When siblings among the props of a definition have
  different names without the path separator and the nodes of the package can be written, the package of the
  asset loads, its graph gives back one schema, and \<open>metadata_from_spec\<close> of that schema are the metadata the
  package was made from, with the link as the URL prints; only the kind of component and the description,
  which the specification does not have, are reset.\<close>

theorem asset_metadata_survive_package:
  assumes "petgraph P" and "petgraph R" and "\<And>v. to_value v = Some v"
    and "asset_pkg_spec now encode64 parse user_email af metadata d = Inr spec"
    and "siblings_fit (svd_props d)" and "siblings_fit (svd_resource_props d)"
    and "all_inner (\<lambda>x. is_ok (write_PkgNode E x)) (as_node_PkgSpec spec)"
  shows "\<exists>tree spec' schema. SiPkg_load_from_spec E B P R spec = Some (Inr tree) \<and>
    SiPkg_to_spec now to_value R tree = Some (Inr spec') \<and> pks_schemas spec' = [schema] \<and>
    metadata_from_spec show_url schema =
      Inr (metadata\<lparr>svm_component_kind := ComponentKind.Standard, svm_description := None,
        svm_link := map_option show_url (Option.bind (svm_link metadata) parse)\<rparr>)"
proof -
  obtain s g where s: "pks_kind spec = SiPkgKind.Module" "pks_schemas spec = [s]"
      "metadata_to_spec (variant_of parse metadata identity_id g d) metadata = Inr s"
      "definition_ok parse metadata d"
    using asset_pkg_spec_schema [OF assms(4)] by blast
  have names: "package_names_ok spec"
    using s variant_of_names_ok [OF s(4) assms(5,6), of identity_id g]
    by (auto simp: package_names_ok_def schema_names_ok_def metadata_to_spec_eq)
  obtain tree where tree: "SiPkg_load_from_spec E B P R spec = Some (Inr tree)"
    "holds R (ot_graph tree) (ot_root_idx tree) (as_node_PkgSpec spec)"
    by (rule load_from_spec_holds [OF assms(1,2,7)])
  show ?thesis
  proof (intro exI conjI)
    show "SiPkg_load_from_spec E B P R spec = Some (Inr tree)" by (rule tree(1))
    show "SiPkg_to_spec now to_value R tree = Some (Inr (restored_PkgSpec spec))"
      by (rule to_spec_holds [OF assms(3) names tree(2)])
    show "pks_schemas (restored_PkgSpec spec) = [restored_SchemaSpec s]"
      using s(1,2) by (simp add: restored_PkgSpec_def)
    show "metadata_from_spec show_url (restored_SchemaSpec s) =
        Inr (metadata\<lparr>svm_component_kind := ComponentKind.Standard, svm_description := None,
          svm_link := map_option show_url (Option.bind (svm_link metadata) parse)\<rparr>)"
      using s(3) by (auto simp: metadata_to_spec_eq restored_SchemaSpec_def metadata_from_spec_def
        restored_SchemaVariantSpec_def variant_of_def data_of_def Let_def)
  qed
qed

definition sample_asset_spec :: "(bytes, bytes, bytes) PkgSpec" where
  "sample_asset_spec =
     \<lparr>pks_kind = SiPkgKind.Module, pks_name = ''Instance'', pks_version = ''0.0.1'', pks_description = [],
      pks_created_at = ''now'', pks_created_by = ''me'', pks_default_change_set = None, pks_workspace_pk = None,
      pks_workspace_name = None,
      pks_schemas = [\<lparr>ss_name = ''Instance'', ss_data = Some \<lparr>ssd_name = ''Instance'', ssd_category = ''AWS'',
          ssd_category_name = Some ''Instance'', ssd_ui_hidden = False, ssd_default_schema_variant = None\<rparr>,
        ss_unique_id = None, ss_deleted = False,
        ss_variants = [variant_of Some sample_metadata identity_id ''id'' sample_definition]\<rparr>],
      pks_funcs = [intrinsic_spec (\<lambda>s. s) IntrinsicFunc.Identity,
        \<lparr>fs_name = ''asset'', fs_unique_id = ''id'',
         fs_data = Some \<lparr>fsd_name = ''asset'', fsd_display_name = None, fsd_description = None,
           fsd_handler = ''main'', fsd_code_base64 = ''code'',
           fsd_backend_kind = FuncSpecBackendKind.JsSchemaVariantDefinition,
           fsd_response_type = FuncSpecBackendResponseType.SchemaVariantDefinition, fsd_hidden = False,
           fsd_link = None\<rparr>, fs_deleted = False, fs_is_from_builtin = None, fs_arguments = []\<rparr>],
      pks_change_sets = []\<rparr>"

lemma sample_asset_spec_made:
  "asset_pkg_spec ''now'' (\<lambda>s. s) Some ''me'' sample_asset_func sample_metadata sample_definition =
   Inr sample_asset_spec"
proof -
  have v: "SchemaVariantDefinitionJson_to_spec Some sample_metadata identity_id ''id'' sample_definition =
      Inr (variant_of (Some :: bytes \<Rightarrow> bytes option) sample_metadata identity_id ''id'' sample_definition)"
    by (simp only: SchemaVariantDefinitionJson_to_spec_iff sample_definition_ok simp_thms)
  show ?thesis
    by (simp add: asset_pkg_spec_eq asset_func_spec_def sample_asset_func_def spec_builds ok_or_def
        v [simplified] metadata_to_spec_eq sample_asset_spec_def)
       (simp add: sample_metadata_def)
qed

lemma sample_siblings_fit:
  "siblings_fit (svd_props sample_definition)" "siblings_fit (svd_resource_props sample_definition)"
  by (simp_all add: siblings_fit_def sample_definition_def PROP_PATH_SEPARATOR_def)

lemma sample_asset_spec_valid: "all_inner (valid_PkgNode sample_externals) (as_node_PkgSpec sample_asset_spec)"
  by (simp add: sample_asset_spec_def variant_of_def sample_definition_def data_of_def sample_metadata_def
      intrinsic_spec_def socket_spec_def data_of_prop_def rooted_def
      default_root_def as_node_PkgSpec_def as_node_SchemaSpec_def as_node_SchemaVariantSpec_def Let_def
      as_node_FuncSpec_def as_node_SocketSpec_def as_node_FuncArgumentSpec_def
      prop_validations_def prop_inputs_def PropSpecData_node_def
      valid_PackageNode_def valid_FuncNode_def valid_SchemaNode_def valid_SchemaVariantNode_def
      valid_FuncData_def valid_SchemaData_def valid_SchemaVariantData_def valid_SocketNode_def
      valid_FuncArgumentNode_def url_ok_def component_type_ok_def
      valid_PropNode_def valid_PropNodeData_def ascii_rust_string datetime_ok_def json_ok_def text_ok_def
      sample_externals_def nonempty_text_def)

theorem asset_metadata_survive_package_witness:
  "asset_pkg_spec ''now'' (\<lambda>s. s) Some ''me'' sample_asset_func sample_metadata sample_definition =
     Inr sample_asset_spec \<and>
   (\<exists>tree spec' schema.
      SiPkg_load_from_spec sample_externals sample_blake3 ref_graph ref_graph sample_asset_spec = Some (Inr tree) \<and>
      SiPkg_to_spec ''now'' Some ref_graph tree = Some (Inr spec') \<and> pks_schemas spec' = [schema] \<and>
      metadata_from_spec (\<lambda>u. u) schema = Inr sample_metadata)"
proof -
  have m: "sample_metadata\<lparr>svm_component_kind := ComponentKind.Standard, svm_description := None,
      svm_link := map_option (\<lambda>u. u) (Option.bind (svm_link sample_metadata) Some)\<rparr> = sample_metadata"
    by (simp add: sample_metadata_def)
  show ?thesis
    using asset_metadata_survive_package [where to_value = Some and show_url = "\<lambda>u. u", OF
        ref_graph.petgraph_axioms ref_graph.petgraph_axioms refl sample_asset_spec_made sample_siblings_fit
        all_inner_mono [OF sample_asset_spec_valid pkg_node.write_ok]]
      sample_asset_spec_made unfolding m by blast
qed

section \<open>Paths\<close>

text \<open>One prop path is a descendant of another, by the loop over their parts, exactly when it is that path
  or that path joined with some further path.\<close>

theorem prop_path_descendants:
  "is_descendant_of p q \<longleftrightarrow> p = q \<or> (\<exists>r. p = PropPath_join q r)"
proof
  assume "is_descendant_of p q"
  then obtain zs where zs: "as_parts p = as_parts q @ zs"
    unfolding is_descendant_prefix by (auto simp: prefix_def)
  show "p = q \<or> (\<exists>r. p = PropPath_join q r)"
  proof (cases "zs = []")
    case True
    then show ?thesis using zs by (metis PropPath_new_parts append_Nil2)
  next
    case False
    have "list_all part_ok (as_parts p)" by (simp add: as_parts_def split_parts_clean)
    then have "as_parts (PropPath_new zs) = zs" using False zs by simp
    then have "as_parts (PropPath_join q (PropPath_new zs)) = as_parts p" by (simp add: as_parts_join zs)
    then show ?thesis by (metis PropPath_new_parts)
  qed
next
  show "p = q \<or> (\<exists>r. p = PropPath_join q r) \<Longrightarrow> is_descendant_of p q"
    by (auto simp: is_descendant_prefix as_parts_join)
qed

end
