(* ===== verification/Council_Metadata.thy ===== *)
theory Council_Metadata
  imports SI_Prelude "HOL-Library.Word"
begin

text \<open>
  What the council server knows about one attribute value,
  \<open>lib/council-server/src/server/graph/node_metadata.rs\<close>: the jobs (by reply channel) that want it
  processed, the job that processes it, the values it still depends on, and two clock readings from
  which the server tells that a job works with outdated inputs. An operation that reads the clock
  takes the reading as an argument, one for every \<open>Instant::now()\<close> of its body.
\<close>

section \<open>Data\<close>

text \<open>An \<open>Id\<close> wraps a ULID, a number of 128 bits; an \<open>Instant\<close> is a point of a monotonic clock.\<close>

type_synonym Id = "128 word"
type_synonym Instant = nat
type_synonym channel = bytes

text \<open>The errors of \<open>server.rs\<close>; \<open>Panicked\<close> is no variant but the outcome of an \<open>unwrap\<close> that fails.\<close>

datatype CouncilError =
    Config | Io | Nats | ShouldNotBeProcessingByJob | UnexpectedJobId | UnknownNodeId | Panicked

text \<open>The queue of waiting channels is in its order. A set of channels (\<open>HashSet<String>\<close>) is a list
  without repetition in the order in which it is iterated; the set of dependencies is never iterated.\<close>

record NodeMetadata =
  wanted_by_reply_channels :: "channel list"
  processing_reply_channel :: "channel option"
  depends_on_node_ids :: "Id set"
  processing_started_at :: "Instant option"
  last_updated_at :: Instant

definition NodeMetadata_default :: "Instant \<Rightarrow> NodeMetadata" where
  "NodeMetadata_default now = \<lparr>wanted_by_reply_channels = [], processing_reply_channel = None,
     depends_on_node_ids = {}, processing_started_at = None, last_updated_at = now\<rparr>"

section \<open>Operations\<close>

definition add_wanted_by_reply_channel :: "Instant \<Rightarrow> channel \<Rightarrow> NodeMetadata \<Rightarrow> NodeMetadata" where
  "add_wanted_by_reply_channel now reply_channel m =
     m\<lparr>wanted_by_reply_channels := wanted_by_reply_channels m @ [reply_channel],
       last_updated_at := now\<rparr>"

definition dependencies_satisfied :: "NodeMetadata \<Rightarrow> bool" where
  "dependencies_satisfied m \<longleftrightarrow> depends_on_node_ids m = {}"

definition depends_on :: "NodeMetadata \<Rightarrow> Id \<Rightarrow> bool" where
  "depends_on m node_id \<longleftrightarrow> node_id \<in> depends_on_node_ids m"

definition NodeMetadata_is_empty :: "NodeMetadata \<Rightarrow> bool" where
  "NodeMetadata_is_empty m \<longleftrightarrow>
     wanted_by_reply_channels m = [] \<and> processing_reply_channel m = None"

definition is_processing_stale :: "NodeMetadata \<Rightarrow> bool" where
  "is_processing_stale m =
     (case processing_started_at m of
        Some started_at \<Rightarrow> started_at < last_updated_at m
      | None \<Rightarrow> False)"

text \<open>\<open>HashSet::from_iter\<close> and \<open>HashSet::insert\<close>.\<close>

definition wanted_set :: "NodeMetadata \<Rightarrow> channel list" where
  "wanted_set m = remdups (wanted_by_reply_channels m)"

definition mark_as_processed ::
  "Instant \<Rightarrow> channel \<Rightarrow> NodeMetadata \<Rightarrow>
   NodeMetadata \<times> (CouncilError, bool \<times> channel list) result" where
  "mark_as_processed now reply_channel m =
     (if processing_reply_channel m \<noteq> Some reply_channel then (m, Inl ShouldNotBeProcessingByJob)
      else
        let processing = processing_reply_channel m;
            m1 = m\<lparr>processing_reply_channel := None\<rparr>
        in if is_processing_stale m1 then
             (add_wanted_by_reply_channel now reply_channel m1, Inr (False, []))
           else if dependencies_satisfied m1 then
             (m1, Inr (True, case processing of
                               Some processed_by \<Rightarrow> List.insert processed_by (wanted_set m1)
                             | None \<Rightarrow> wanted_set m1))
           else (m1, Inr (False, [])))"

definition merge_metadata :: "Instant \<Rightarrow> channel \<Rightarrow> Id list \<Rightarrow> NodeMetadata \<Rightarrow> NodeMetadata" where
  "merge_metadata now reply_channel dependencies m =
     m\<lparr>last_updated_at := now,
       wanted_by_reply_channels :=
         (if reply_channel \<in> set (wanted_by_reply_channels m) then wanted_by_reply_channels m
          else wanted_by_reply_channels m @ [reply_channel]),
       depends_on_node_ids := depends_on_node_ids m \<union> set dependencies\<rparr>"

text \<open>\<open>next_to_process\<close> reads the clock twice.\<close>

definition next_to_process :: "Instant \<Rightarrow> Instant \<Rightarrow> NodeMetadata \<Rightarrow> NodeMetadata \<times> channel option" where
  "next_to_process now now' m =
     (if depends_on_node_ids m = {} \<and> processing_reply_channel m = None then
        case wanted_by_reply_channels m of
          [] \<Rightarrow> (m\<lparr>last_updated_at := now, processing_reply_channel := None,
                   processing_started_at := None\<rparr>, None)
        | c # cs \<Rightarrow> (m\<lparr>last_updated_at := now, wanted_by_reply_channels := cs,
                        processing_reply_channel := Some c, processing_started_at := Some now'\<rparr>, Some c)
      else (m, None))"

definition NodeMetadata_remove_channel :: "Instant \<Rightarrow> channel \<Rightarrow> NodeMetadata \<Rightarrow> NodeMetadata" where
  "NodeMetadata_remove_channel now reply_channel m =
     m\<lparr>last_updated_at := now,
       wanted_by_reply_channels := filter (\<lambda>el. el \<noteq> reply_channel) (wanted_by_reply_channels m),
       processing_reply_channel :=
         (case processing_reply_channel m of
            Some el \<Rightarrow> (if el \<noteq> reply_channel then Some el else None)
          | None \<Rightarrow> None)\<rparr>"

definition remove_dependency :: "Instant \<Rightarrow> Id \<Rightarrow> NodeMetadata \<Rightarrow> NodeMetadata" where
  "remove_dependency now node_id m =
     (if node_id \<in> depends_on_node_ids m then
        m\<lparr>depends_on_node_ids := depends_on_node_ids m - {node_id}, last_updated_at := now\<rparr>
      else m)"

section \<open>Ready nodes\<close>

definition ready :: "NodeMetadata \<Rightarrow> bool" where
  "ready m \<longleftrightarrow> depends_on_node_ids m = {} \<and> processing_reply_channel m = None
     \<and> wanted_by_reply_channels m \<noteq> []"

lemma next_to_process_ready:
  "snd (next_to_process now now' m) = (if ready m then Some (hd (wanted_by_reply_channels m)) else None)"
  by (auto simp: next_to_process_def ready_def split: list.split)

lemma next_to_process_not_ready: "\<not> ready (fst (next_to_process now now' m))"
  by (auto simp: next_to_process_def ready_def split: list.split)

lemma next_to_process_fields:
  "depends_on_node_ids (fst (next_to_process now now' m)) = depends_on_node_ids m"
  "processing_reply_channel (fst (next_to_process now now' m))
     = (if ready m then Some (hd (wanted_by_reply_channels m)) else processing_reply_channel m)"
  "wanted_by_reply_channels (fst (next_to_process now now' m))
     = (if ready m then tl (wanted_by_reply_channels m) else wanted_by_reply_channels m)"
  "NodeMetadata_is_empty (fst (next_to_process now now' m)) \<longleftrightarrow> NodeMetadata_is_empty m"
  by (auto simp: next_to_process_def ready_def NodeMetadata_is_empty_def split: list.split)

section \<open>Staleness\<close>

text \<open>A job that was told to process a node works with its inputs unless the node was updated later.
  \<open>settled\<close> says that a node which is processed and not stale has no open dependency.\<close>

definition settled :: "NodeMetadata \<Rightarrow> bool" where
  "settled m \<longleftrightarrow> (processing_reply_channel m \<noteq> None \<longrightarrow>
     processing_started_at m \<noteq> None \<and> (\<not> is_processing_stale m \<longrightarrow> depends_on_node_ids m = {}))"

definition started_by :: "Instant \<Rightarrow> NodeMetadata \<Rightarrow> bool" where
  "started_by now m \<longleftrightarrow> last_updated_at m \<le> now \<and>
     (\<forall>s. processing_started_at m = Some s \<longrightarrow> s \<le> now)"

lemmas metadata_defs = add_wanted_by_reply_channel_def dependencies_satisfied_def depends_on_def
  NodeMetadata_is_empty_def is_processing_stale_def mark_as_processed_def merge_metadata_def
  next_to_process_def NodeMetadata_remove_channel_def remove_dependency_def NodeMetadata_default_def

lemma started_by_ops:
  assumes "started_by t m" and "t \<le> now" and "now \<le> now'"
  shows "started_by now (add_wanted_by_reply_channel now c m)"
    "started_by now (fst (mark_as_processed now c m))"
    "started_by now (merge_metadata now c ds m)"
    "started_by now' (fst (next_to_process now now' m))"
    "started_by now (NodeMetadata_remove_channel now c m)"
    "started_by now (remove_dependency now i m)"
  using assms
  by (auto simp: started_by_def metadata_defs Let_def split: list.split intro: order_trans)

lemma settled_ops:
  assumes "settled m"
  shows "settled (fst (mark_as_processed now c m))"
    "settled (fst (next_to_process now now' m))"
    "settled (NodeMetadata_default now)"
  using assms by (auto simp: settled_def metadata_defs Let_def split: list.split)

text \<open>The clock must have moved on since the job was told to start.\<close>

lemma settled_update_ops:
  assumes "settled m" and "started_by t m" and "t < now"
  shows "settled (merge_metadata now c ds m)" "settled (NodeMetadata_remove_channel now c m)"
    "settled (remove_dependency now i m)"
  using assms
  by (auto simp: settled_def started_by_def metadata_defs split: option.splits)

end
