(* ===== verification/Council_Graph.thy ===== *)
theory Council_Graph
  imports Council_Metadata "HOL-Library.AList"
begin

text \<open>
  The two data structures of the council server, \<open>lib/council-server/src/server/graph.rs\<close>: the queue
  of jobs that wait for their turn to create values, and for every change set the graph of values to
  be processed. A \<open>HashMap\<close> is an association list with distinct keys in the order in which it is
  iterated; \<open>HOL-Library.AList\<close> provides insertion and removal. The clock is a function: \<open>clk t\<close> is
  the reading at the \<open>t\<close>-th point of the run at which the code may read it, and every operation
  returns how far it got.
\<close>

section \<open>The queue of value creation\<close>

record ValueCreationQueue =
  processing :: "channel option"
  queue :: "channel list"

definition ValueCreationQueue_default :: ValueCreationQueue where
  "ValueCreationQueue_default = \<lparr>processing = None, queue = []\<rparr>"

definition push :: "channel \<Rightarrow> ValueCreationQueue \<Rightarrow> ValueCreationQueue" where
  "push reply_channel q = q\<lparr>queue := queue q @ [reply_channel]\<rparr>"

definition is_busy :: "ValueCreationQueue \<Rightarrow> bool" where
  "is_busy q \<longleftrightarrow> processing q \<noteq> None"

definition fetch_next :: "ValueCreationQueue \<Rightarrow> ValueCreationQueue \<times> channel option" where
  "fetch_next q =
     (if is_busy q then (q, None)
      else case queue q of
             [] \<Rightarrow> (q\<lparr>processing := None\<rparr>, None)
           | next_channel # rest \<Rightarrow>
               (q\<lparr>queue := rest, processing := Some next_channel\<rparr>, Some next_channel))"

definition finished_processing ::
  "channel \<Rightarrow> ValueCreationQueue \<Rightarrow> ValueCreationQueue \<times> (CouncilError, unit) result" where
  "finished_processing reply_channel q =
     (if processing q \<noteq> Some reply_channel then (q, Inl UnexpectedJobId)
      else (q\<lparr>processing := None\<rparr>, Inr ()))"

definition ValueCreationQueue_remove :: "channel \<Rightarrow> ValueCreationQueue \<Rightarrow> ValueCreationQueue" where
  "ValueCreationQueue_remove reply_channel q =
     q\<lparr>processing :=
         (case processing q of
            Some el \<Rightarrow> (if el \<noteq> reply_channel then Some el else None)
          | None \<Rightarrow> None),
       queue := filter (\<lambda>el. reply_channel \<noteq> el) (queue q)\<rparr>"

section \<open>The graph of a change set\<close>

type_synonym node_graph = "(Id \<times> NodeMetadata) list"
type_synonym ChangeSetGraph = "(Id \<times> node_graph) list"
type_synonym clock = "nat \<Rightarrow> Instant"

definition ChangeSetGraph_is_empty :: "ChangeSetGraph \<Rightarrow> bool" where
  "ChangeSetGraph_is_empty G \<longleftrightarrow> G = []"

subsection \<open>Handing out work\<close>

fun fetch_nodes ::
  "clock \<Rightarrow> nat \<Rightarrow> node_graph \<Rightarrow> (channel \<times> Id) list \<times> node_graph \<times> nat" where
  "fetch_nodes clk t [] = ([], [], t)"
| "fetch_nodes clk t ((nid, metadata) # graph) =
     (let (metadata', reply) = next_to_process (clk t) (clk (t + 1)) metadata;
          (result, graph', t') = fetch_nodes clk (t + 2) graph
      in (case reply of Some reply_channel \<Rightarrow> (reply_channel, nid) # result | None \<Rightarrow> result,
          (nid, metadata') # graph', t'))"

fun fetch_all_available ::
  "clock \<Rightarrow> nat \<Rightarrow> ChangeSetGraph \<Rightarrow> (channel \<times> Id) list \<times> ChangeSetGraph \<times> nat" where
  "fetch_all_available clk t [] = ([], [], t)"
| "fetch_all_available clk t ((change_set_id, graph) # G) =
     (let (result, graph', t') = fetch_nodes clk t graph;
          (results, G', t'') = fetch_all_available clk t' G
      in (result @ results, (change_set_id, graph') # G', t''))"

subsection \<open>Registering work\<close>

text \<open>\<open>entry(..).and_modify(..).or_insert_with(..)\<close>; a new node is made with one reading more.\<close>

definition merge_entry ::
  "clock \<Rightarrow> channel \<Rightarrow> Id \<Rightarrow> Id list \<Rightarrow> node_graph \<times> nat \<Rightarrow> node_graph \<times> nat" where
  "merge_entry clk reply_channel nid dependencies st = (case st of (graph, t) \<Rightarrow>
     (case map_of graph nid of
        Some node \<Rightarrow>
          (AList.update nid (merge_metadata (clk t) reply_channel dependencies node) graph, t + 1)
      | None \<Rightarrow>
          (AList.update nid
             (merge_metadata (clk (t + 1)) reply_channel dependencies (NodeMetadata_default (clk t)))
             graph, t + 2)))"

definition merge_node ::
  "clock \<Rightarrow> channel \<Rightarrow> Id \<times> Id list \<Rightarrow> node_graph \<times> nat \<Rightarrow> node_graph \<times> nat" where
  "merge_node clk reply_channel new st = (case new of (nid, dependencies) \<Rightarrow>
     fold (\<lambda>dependency. merge_entry clk reply_channel dependency []) dependencies
       (merge_entry clk reply_channel nid dependencies st))"

definition merge_dependency_graph ::
  "clock \<Rightarrow> nat \<Rightarrow> channel \<Rightarrow> (Id \<times> Id list) list \<Rightarrow> Id \<Rightarrow> ChangeSetGraph \<Rightarrow>
   ChangeSetGraph \<times> nat" where
  "merge_dependency_graph clk t reply_channel new_dependency_data change_set_id G =
     (let graph = (case map_of G change_set_id of Some graph \<Rightarrow> graph | None \<Rightarrow> []);
          (graph', t') = fold (merge_node clk reply_channel) new_dependency_data (graph, t)
      in (AList.update change_set_id graph' G, t'))"

subsection \<open>Finishing work\<close>

fun remove_dependency_from_all :: "clock \<Rightarrow> nat \<Rightarrow> Id \<Rightarrow> node_graph \<Rightarrow> node_graph \<times> nat" where
  "remove_dependency_from_all clk t node_id [] = ([], t)"
| "remove_dependency_from_all clk t node_id ((nid, metadata) # graph) =
     (let (graph', t') = remove_dependency_from_all clk (t + 1) node_id graph
      in ((nid, remove_dependency (clk t) node_id metadata) # graph', t'))"

definition mark_node_as_processed ::
  "clock \<Rightarrow> nat \<Rightarrow> channel \<Rightarrow> Id \<Rightarrow> Id \<Rightarrow> ChangeSetGraph \<Rightarrow>
   ChangeSetGraph \<times> nat \<times> (CouncilError, channel list) result" where
  "mark_node_as_processed clk t reply_channel change_set_id node_id G =
     (case map_of G change_set_id of
        None \<Rightarrow> (G, t, Inl Panicked)
      | Some graph \<Rightarrow>
          (case map_of graph node_id of
             None \<Rightarrow> (G, t, Inl UnknownNodeId)
           | Some metadata \<Rightarrow>
               (case mark_as_processed (clk t) reply_channel metadata of
                  (metadata', Inl e) \<Rightarrow>
                    (AList.update change_set_id (AList.update node_id metadata' graph) G, t + 1, Inl e)
                | (metadata', Inr (ok_to_remove_node, wanted)) \<Rightarrow>
                    let graph1 = AList.update node_id metadata' graph in
                    if ok_to_remove_node then
                      let (graph2, t2) =
                            remove_dependency_from_all clk (t + 1) node_id (AList.delete node_id graph1)
                      in (if graph2 = [] then AList.delete change_set_id G
                          else AList.update change_set_id graph2 G, t2, Inr wanted)
                    else (AList.update change_set_id graph1 G, t + 1, Inr wanted))))"

subsection \<open>A job goes away\<close>

fun remove_channel_from_all :: "clock \<Rightarrow> nat \<Rightarrow> channel \<Rightarrow> node_graph \<Rightarrow> node_graph \<times> Id list \<times> nat" where
  "remove_channel_from_all clk t reply_channel [] = ([], [], t)"
| "remove_channel_from_all clk t reply_channel ((nid, metadata) # graph) =
     (let metadata' = NodeMetadata_remove_channel (clk t) reply_channel metadata;
          (graph', to_remove, t') = remove_channel_from_all clk (t + 1) reply_channel graph
      in ((nid, metadata') # graph',
          (if NodeMetadata_is_empty metadata' then nid # to_remove else to_remove), t'))"

text \<open>\<open>graph.remove(&nid).unwrap()\<close>\<close>

fun remove_nodes :: "Id list \<Rightarrow> node_graph \<Rightarrow> (CouncilError, node_graph) result" where
  "remove_nodes [] graph = Inr graph"
| "remove_nodes (nid # to_remove) graph =
     (case map_of graph nid of
        None \<Rightarrow> Inl Panicked
      | Some _ \<Rightarrow> remove_nodes to_remove (AList.delete nid graph))"

definition remove_channel ::
  "clock \<Rightarrow> nat \<Rightarrow> Id \<Rightarrow> channel \<Rightarrow> ChangeSetGraph \<Rightarrow> (CouncilError, ChangeSetGraph \<times> nat) result" where
  "remove_channel clk t change_set_id reply_channel G =
     (case map_of G change_set_id of
        None \<Rightarrow> Inr (G, t)
      | Some graph \<Rightarrow>
          (let (graph1, to_remove, t') = remove_channel_from_all clk t reply_channel graph in
           rbind (remove_nodes to_remove graph1) (\<lambda>graph2.
             Inr (AList.update change_set_id graph2 G, t'))))"

subsection \<open>A value fails\<close>

lemma length_delete_present: "map_of g i = Some m \<Longrightarrow> length (AList.delete i g) < length g"
  by (induction g) (auto simp: le_imp_less_Suc length_delete_le)

text \<open>The loop over \<open>node_ids_to_fail\<close>; on an error the nodes removed so far stay removed.\<close>

function fail_nodes ::
  "channel \<Rightarrow> node_graph \<Rightarrow> Id list \<Rightarrow> (channel \<times> Id) list \<Rightarrow>
   node_graph \<times> (CouncilError, (channel \<times> Id) list) result" where
  "fail_nodes reply_channel graph [] notifications = (graph, Inr notifications)"
| "fail_nodes reply_channel graph (nid # node_ids_to_fail) notifications =
     (case map_of graph nid of
        None \<Rightarrow> fail_nodes reply_channel graph node_ids_to_fail notifications
      | Some metadata \<Rightarrow>
          (let graph1 = AList.delete nid graph in
           if processing_reply_channel metadata \<noteq> None
              \<and> processing_reply_channel metadata \<noteq> Some reply_channel
           then (graph1, Inl ShouldNotBeProcessingByJob)
           else fail_nodes reply_channel graph1
                  (node_ids_to_fail @ map fst (filter (\<lambda>(i, m). depends_on m nid) graph1))
                  (notifications @ map (\<lambda>c. (c, nid)) (wanted_by_reply_channels metadata))))"
  by pat_completeness auto

termination
  by (relation "measures [\<lambda>(c, g, q, ns). length g, \<lambda>(c, g, q, ns). length q]")
    (auto simp: length_delete_present)

definition remove_node_and_dependents ::
  "channel \<Rightarrow> Id \<Rightarrow> Id \<Rightarrow> ChangeSetGraph \<Rightarrow>
   ChangeSetGraph \<times> (CouncilError, (channel \<times> Id) list) result" where
  "remove_node_and_dependents reply_channel change_set_id node_id G =
     (case map_of G change_set_id of
        None \<Rightarrow> (G, Inl Panicked)
      | Some graph \<Rightarrow>
          (case fail_nodes reply_channel graph [node_id] [(reply_channel, node_id)] of
             (graph', Inl e) \<Rightarrow> (AList.update change_set_id graph' G, Inl e)
           | (graph', Inr notifications) \<Rightarrow>
               (if graph' = [] then AList.delete change_set_id G
                else AList.update change_set_id graph' G, Inr notifications)))"

end
