(* ===== verification/Council_Spec.thy ===== *)
theory Council_Spec
  imports Council_Graph
begin

text \<open>
  What the council promises, without hash maps and without a clock. A plan gives for every value of a
  change set the jobs that wait for it, the job that works on it, the values it needs first, and
  whether the work in progress is outdated. The operations are functions on plans; \<open>Council_Refinement\<close>
  shows that the code implements them. Here: a plan in which every needed value is a node, without
  cycles and with work for every node, never gets stuck.
\<close>

section \<open>Plans\<close>

record view =
  waiting :: "channel list"
  worker :: "channel option"
  needs :: "Id set"
  outdated :: bool

type_synonym plan = "Id \<rightharpoonup> view"

definition blank :: view where
  "blank = \<lparr>waiting = [], worker = None, needs = {}, outdated = False\<rparr>"

definition can_start :: "view \<Rightarrow> bool" where
  "can_start v \<longleftrightarrow> needs v = {} \<and> worker v = None \<and> waiting v \<noteq> []"

definition start :: "view \<Rightarrow> view" where
  "start v = (if can_start v
     then v\<lparr>worker := Some (hd (waiting v)), waiting := tl (waiting v), outdated := False\<rparr> else v)"

definition want :: "channel \<Rightarrow> Id set \<Rightarrow> view \<Rightarrow> view" where
  "want c ds v = v\<lparr>waiting := (if c \<in> set (waiting v) then waiting v else waiting v @ [c]),
     needs := needs v \<union> ds, outdated := worker v \<noteq> None\<rparr>"

definition leave :: "channel \<Rightarrow> view \<Rightarrow> view" where
  "leave c v = v\<lparr>waiting := filter (\<lambda>d. d \<noteq> c) (waiting v),
     worker := (if worker v = Some c then None else worker v),
     outdated := worker v \<noteq> None \<and> worker v \<noteq> Some c\<rparr>"

definition release :: "Id \<Rightarrow> view \<Rightarrow> view" where
  "release i v = (if i \<in> needs v
     then v\<lparr>needs := needs v - {i}, outdated := worker v \<noteq> None\<rparr> else v)"

definition idle :: "view \<Rightarrow> bool" where
  "idle v \<longleftrightarrow> waiting v = [] \<and> worker v = None"

section \<open>Operations on plans\<close>

definition plan_fetch :: "plan \<Rightarrow> plan" where
  "plan_fetch p = (\<lambda>i. map_option start (p i))"

definition handed_out :: "plan \<Rightarrow> (channel \<times> Id) set" where
  "handed_out p = {(hd (waiting v), i) |i v. p i = Some v \<and> can_start v}"

definition touched :: "(Id \<times> Id list) list \<Rightarrow> Id set" where
  "touched new = fst ` set new \<union> (\<Union>(i, ds) \<in> set new. set ds)"

definition new_needs :: "(Id \<times> Id list) list \<Rightarrow> Id \<Rightarrow> Id set" where
  "new_needs new i = (\<Union>(j, ds) \<in> set new. if j = i then set ds else {})"

definition plan_merge :: "channel \<Rightarrow> (Id \<times> Id list) list \<Rightarrow> plan \<Rightarrow> plan" where
  "plan_merge c new p = (\<lambda>i. if i \<in> touched new
     then Some (want c (new_needs new i) (case p i of Some v \<Rightarrow> v | None \<Rightarrow> blank)) else p i)"

definition plan_finish :: "channel \<Rightarrow> Id \<Rightarrow> plan \<Rightarrow> (CouncilError, plan \<times> channel set) result" where
  "plan_finish c i p =
     (case p i of
        None \<Rightarrow> Inl UnknownNodeId
      | Some v \<Rightarrow>
          if worker v \<noteq> Some c then Inl ShouldNotBeProcessingByJob
          else if outdated v then
            Inr (p(i \<mapsto> v\<lparr>worker := None, waiting := waiting v @ [c], outdated := False\<rparr>), {})
          else if needs v = {} then
            Inr (\<lambda>j. if j = i then None else map_option (release i) (p j), insert c (set (waiting v)))
          else Inr (p(i \<mapsto> v\<lparr>worker := None, outdated := False\<rparr>), {}))"

definition plan_bye :: "channel \<Rightarrow> plan \<Rightarrow> plan" where
  "plan_bye c p = (\<lambda>i. case p i of
       None \<Rightarrow> None
     | Some v \<Rightarrow> if idle (leave c v) then None else Some (leave c v))"

definition needed_by :: "plan \<Rightarrow> (Id \<times> Id) set" where
  "needed_by p = {(d, i). \<exists>v. p i = Some v \<and> d \<in> needs v}"

definition dependents :: "plan \<Rightarrow> Id \<Rightarrow> Id set" where
  "dependents p i = {j. i \<in> dom p \<and> (i, j) \<in> (needed_by p)\<^sup>*}"

definition plan_fail ::
  "channel \<Rightarrow> Id \<Rightarrow> plan \<Rightarrow> (CouncilError, plan \<times> (channel \<times> Id) set) result" where
  "plan_fail c i p =
     (if \<exists>j \<in> dependents p i. \<exists>v. p j = Some v \<and> worker v \<noteq> None \<and> worker v \<noteq> Some c
      then Inl ShouldNotBeProcessingByJob
      else Inr (p |` (- dependents p i),
                insert (c, i) {(w, j) |w j v. j \<in> dependents p i \<and> p j = Some v \<and> w \<in> set (waiting v)}))"

section \<open>Sound plans\<close>

definition closed :: "plan \<Rightarrow> bool" where
  "closed p \<longleftrightarrow> (\<forall>i v. p i = Some v \<longrightarrow> needs v \<subseteq> dom p)"

definition staffed :: "plan \<Rightarrow> bool" where
  "staffed p \<longleftrightarrow> (\<forall>i v. p i = Some v \<longrightarrow> \<not> idle v)"

lemma closedI [intro?]: "(\<And>i v d. p i = Some v \<Longrightarrow> d \<in> needs v \<Longrightarrow> d \<in> dom p) \<Longrightarrow> closed p"
  by (auto simp: closed_def)

lemma closedD: "closed p \<Longrightarrow> p i = Some v \<Longrightarrow> d \<in> needs v \<Longrightarrow> d \<in> dom p"
  by (auto simp: closed_def)

lemmas view_defs = start_def want_def leave_def release_def can_start_def idle_def blank_def

lemma start_keeps [simp]:
  "needs (start v) = needs v" "idle (start v) \<longleftrightarrow> idle v" "\<not> can_start (start v)"
  by (auto simp: view_defs)

lemma closed_fetch: "closed p \<Longrightarrow> closed (plan_fetch p)"
  by (auto simp: closed_def plan_fetch_def dom_def) blast

lemma staffed_fetch: "staffed p \<Longrightarrow> staffed (plan_fetch p)"
  by (auto simp: staffed_def plan_fetch_def)

lemma new_needs_touched: "new_needs new i \<subseteq> touched new"
  by (force simp: new_needs_def touched_def split: if_splits)

lemma closed_merge:
  assumes "closed p"
  shows "closed (plan_merge c new p)"
proof
  fix i v d
  assume v: "plan_merge c new p i = Some v" and d: "d \<in> needs v"
  have "needs v \<subseteq> (case p i of Some w \<Rightarrow> needs w | None \<Rightarrow> {}) \<union> new_needs new i"
    using v by (auto simp: plan_merge_def view_defs split: if_splits option.splits)
  moreover have "(case p i of Some w \<Rightarrow> needs w | None \<Rightarrow> {}) \<subseteq> dom p"
    using closedD [OF assms, of i] by (auto split: option.split)
  ultimately have "d \<in> touched new \<or> d \<in> dom p"
    using d new_needs_touched [of new i] by blast
  then show "d \<in> dom (plan_merge c new p)"
    by (auto simp: plan_merge_def dom_def)
qed

lemma staffed_merge: "staffed p \<Longrightarrow> staffed (plan_merge c new p)"
  by (auto simp: staffed_def plan_merge_def view_defs)

text \<open>What finishing does to a node: it is put back, or removed and released everywhere.\<close>

lemma plan_finish_cases:
  assumes "plan_finish c i p = Inr (p', ws)"
  obtains (put_back) v v' where "p i = Some v" "p' = p(i \<mapsto> v')" "needs v' = needs v"
    "worker v' = None" "ws = {}"
    "waiting v' = (if outdated v then waiting v @ [c] else waiting v)" "outdated v \<or> needs v \<noteq> {}"
  | (removed) v where "p i = Some v" "needs v = {}" "\<not> outdated v"
    "p' = (\<lambda>j. if j = i then None else map_option (release i) (p j))"
    "ws = insert c (set (waiting v))"
proof -
  from assms obtain v where v: "p i = Some v" "worker v = Some c"
    by (auto simp: plan_finish_def split: option.splits if_splits)
  show thesis
  proof (cases "\<not> outdated v \<and> needs v = {}")
    case True
    with assms v show thesis by (intro removed [of v]) (simp_all add: plan_finish_def)
  next
    case False
    with assms v show thesis
      by (intro put_back [of v "v\<lparr>worker := None, outdated := False,
            waiting := (if outdated v then waiting v @ [c] else waiting v)\<rparr>"])
        (auto simp: plan_finish_def split: if_splits)
  qed
qed

lemma closed_finish:
  assumes "closed p" and "plan_finish c i p = Inr (p', ws)"
  shows "closed p'"
  using assms(2)
proof (cases rule: plan_finish_cases)
  case (put_back v v')
  then show ?thesis
    using closedD [OF assms(1)] by (intro closedI) (auto split: if_splits)
next
  case (removed v)
  show ?thesis
  proof
    fix j w d
    assume "p' j = Some w" and d: "d \<in> needs w"
    then obtain u where u: "p j = Some u" "w = release i u" "j \<noteq> i"
      by (auto simp: removed split: if_splits)
    then have "d \<in> needs u" "d \<noteq> i" using d by (auto simp: release_def split: if_splits)
    then show "d \<in> dom p'"
      using closedD [OF assms(1) u(1), of d] by (auto simp: removed)
  qed
qed

lemma closed_fail:
  assumes "closed p" and "plan_fail c i p = Inr (p', ns)"
  shows "closed p'"
proof
  fix j v d
  assume j: "p' j = Some v" "d \<in> needs v"
  have p': "p' = p |` (- dependents p i)" using assms(2) by (simp add: plan_fail_def split: if_splits)
  then have v: "p j = Some v" "j \<notin> dependents p i" using j by (auto simp: restrict_map_def split: if_splits)
  then have "d \<in> dom p" using closedD [OF assms(1)] j(2) by blast
  moreover have "d \<notin> dependents p i"
    using v j(2) by (auto simp: dependents_def needed_by_def intro: rtrancl_into_rtrancl)
  ultimately show "d \<in> dom p'" by (auto simp: p')
qed

section \<open>Orderly plans\<close>

text \<open>Work in progress that is not outdated needs nothing any more.\<close>

definition tidy :: "plan \<Rightarrow> bool" where
  "tidy p \<longleftrightarrow> (\<forall>i v. p i = Some v \<longrightarrow> worker v \<noteq> None \<longrightarrow> \<not> outdated v \<longrightarrow> needs v = {})"

definition orderly :: "plan \<Rightarrow> bool" where
  "orderly p \<longleftrightarrow> staffed p \<and> tidy p"

lemma orderlyI:
  assumes "\<And>i v. p i = Some v \<Longrightarrow> \<not> idle v \<and> (worker v \<noteq> None \<longrightarrow> \<not> outdated v \<longrightarrow> needs v = {})"
  shows "orderly p"
  using assms by (auto simp: orderly_def staffed_def tidy_def)

lemma orderlyD:
  assumes "orderly p" and "p i = Some v"
  shows "\<not> idle v" "worker v \<noteq> None \<Longrightarrow> \<not> outdated v \<Longrightarrow> needs v = {}"
  using assms by (auto simp: orderly_def staffed_def tidy_def)

lemma orderly_empty [simp]: "orderly Map.empty" "closed Map.empty"
  by (auto simp: orderly_def staffed_def tidy_def closed_def)

lemma orderly_fetch:
  assumes "orderly p"
  shows "orderly (plan_fetch p)"
proof (rule orderlyI)
  fix i v
  assume "plan_fetch p i = Some v"
  then obtain u where "p i = Some u" "v = start u" by (auto simp: plan_fetch_def)
  with orderlyD [OF assms this(1)]
  show "\<not> idle v \<and> (worker v \<noteq> None \<longrightarrow> \<not> outdated v \<longrightarrow> needs v = {})"
    by (auto simp: start_def can_start_def idle_def)
qed

lemma orderly_merge:
  assumes "orderly p"
  shows "orderly (plan_merge c new p)"
proof (rule orderlyI)
  fix i v
  assume "plan_merge c new p i = Some v"
  then show "\<not> idle v \<and> (worker v \<noteq> None \<longrightarrow> \<not> outdated v \<longrightarrow> needs v = {})"
    using orderlyD [OF assms, of i v]
    by (auto simp: plan_merge_def want_def idle_def split: if_splits)
qed

lemma orderly_finish:
  assumes "orderly p" and f: "plan_finish c i p = Inr (p', ws)"
  shows "orderly p'"
proof (rule orderlyI)
  fix j w
  assume w: "p' j = Some w"
  from f obtain u where u: "p i = Some u" "worker u = Some c"
    by (auto simp: plan_finish_def split: option.splits if_splits)
  from f show "\<not> idle w \<and> (worker w \<noteq> None \<longrightarrow> \<not> outdated w \<longrightarrow> needs w = {})"
  proof (cases rule: plan_finish_cases)
    case (put_back v v')
    have "outdated v" using put_back(1,7) u orderlyD(2) [OF assms(1) u(1)] by auto
    then have "\<not> idle v' \<and> worker v' = None" using put_back(4,6) by (simp add: idle_def)
    moreover have "j = i \<longrightarrow> w = v'" "j \<noteq> i \<longrightarrow> p j = Some w" using w put_back(2) by auto
    ultimately show ?thesis using orderlyD [OF assms(1), of j w] by (cases "j = i") auto
  next
    case (removed v)
    with w obtain x where x: "p j = Some x" "w = release i x" by (auto split: if_splits)
    from orderlyD [OF assms(1) x(1)] show ?thesis by (auto simp: x(2) release_def idle_def)
  qed
qed

lemma orderly_restrict: "orderly p \<Longrightarrow> orderly (p |` A)"
  by (rule orderlyI) (auto simp: restrict_map_def split: if_splits dest: orderlyD)

lemma orderly_fail: "orderly p \<Longrightarrow> plan_fail c i p = Inr (p', ns) \<Longrightarrow> orderly p'"
  by (auto simp: plan_fail_def orderly_restrict split: if_splits)

lemma orderly_bye:
  assumes "orderly p"
  shows "orderly (plan_bye c p)"
proof (rule orderlyI)
  fix i v
  assume "plan_bye c p i = Some v"
  then obtain u where "p i = Some u" "v = leave c u" "\<not> idle v"
    by (auto simp: plan_bye_def split: option.splits if_splits)
  with orderlyD [OF assms this(1)]
  show "\<not> idle v \<and> (worker v \<noteq> None \<longrightarrow> \<not> outdated v \<longrightarrow> needs v = {})"
    by (auto simp: leave_def split: if_splits)
qed

section \<open>Work that is not recognised as outdated\<close>

text \<open>The clock of the server may give the same reading twice. Then work that became outdated may count as
  up to date: the plan that the code keeps differs from the intended one in these marks, and in nothing
  else.\<close>

definition view_le :: "view \<Rightarrow> view \<Rightarrow> bool" where
  "view_le v w \<longleftrightarrow> v = w\<lparr>outdated := outdated v\<rparr> \<and> (outdated v \<longrightarrow> outdated w)"

definition plan_le :: "plan \<Rightarrow> plan \<Rightarrow> bool" where
  "plan_le p q \<longleftrightarrow> (\<forall>i. rel_option view_le (p i) (q i))"

lemma view_le_refl [simp]: "view_le v v"
  by (simp add: view_le_def)

lemma view_le_trans: "view_le u v \<Longrightarrow> view_le v w \<Longrightarrow> view_le u w"
  by (cases u; cases v; cases w) (simp add: view_le_def)

lemma view_leD:
  assumes "view_le v w"
  shows "waiting v = waiting w" "worker v = worker w" "needs v = needs w" "outdated v \<Longrightarrow> outdated w"
    "idle v = idle w"
  using assms by (cases v; cases w; simp add: view_le_def idle_def)+

lemma view_ops_le:
  assumes "view_le v w"
  shows "want c ds v = want c ds w" "leave c v = leave c w" "view_le (release i v) (release i w)"
  using assms by (cases v; cases w; simp add: view_le_def want_def leave_def release_def)+

lemma plan_le_refl [simp]: "plan_le p p"
  by (simp add: plan_le_def option.rel_refl)

lemma plan_le_trans: "plan_le p q \<Longrightarrow> plan_le q r \<Longrightarrow> plan_le p r"
proof (unfold plan_le_def, rule)
  fix i
  assume "\<forall>i. rel_option view_le (p i) (q i)" "\<forall>i. rel_option view_le (q i) (r i)"
  then have "rel_option view_le (p i) (q i)" "rel_option view_le (q i) (r i)" by simp_all
  then show "rel_option view_le (p i) (r i)"
    by (cases "p i"; cases "q i"; cases "r i") (auto intro: view_le_trans)
qed

lemma plan_leD:
  assumes "plan_le p q" and "p i = Some v"
  obtains w where "q i = Some w" "view_le v w"
proof -
  have "rel_option view_le (Some v) (q i)" using assms unfolding plan_le_def by metis
  then show thesis using that by (cases "q i") auto
qed

lemma plan_le_dom:
  assumes "plan_le p q"
  shows "dom p = dom q"
proof -
  have "p i = None \<longleftrightarrow> q i = None" for i
    using assms unfolding plan_le_def by (cases "p i"; cases "q i") (auto dest: spec [of _ i])
  then show ?thesis by (simp add: dom_def)
qed

lemma plan_le_empty: "plan_le p q \<Longrightarrow> p = Map.empty \<longleftrightarrow> q = Map.empty"
  using plan_le_dom [of p q] by (metis dom_eq_empty_conv)

text \<open>Where nothing is outdated nothing can be overlooked.\<close>

lemma plan_le_up_to_date:
  assumes "plan_le p q" and "\<And>i w. q i = Some w \<Longrightarrow> \<not> outdated w"
  shows "p = q"
proof
  fix i
  have "rel_option view_le (p i) (q i)" using assms(1) by (simp add: plan_le_def)
  then show "p i = q i"
    using assms(2) [of i] by (cases "p i"; cases "q i") (auto simp: view_le_def)
qed

lemma closed_le:
  assumes "plan_le p q" and "closed q"
  shows "closed p"
proof
  fix i v d
  assume "p i = Some v" and d: "d \<in> needs v"
  from plan_leD [OF assms(1) this(1)] obtain w where "q i = Some w" "view_le v w" .
  with closedD [OF assms(2)] view_leD(3) d show "d \<in> dom p" by (simp add: plan_le_dom [OF assms(1)])
qed

section \<open>Progress\<close>

text \<open>In a sound plan without cycles something can be started, or is being worked on.\<close>

lemma progress:
  assumes "finite (dom p)" and "acyclic (needed_by p)" and "closed p" and "staffed p" and "dom p \<noteq> {}"
  obtains i v where "p i = Some v" and "worker v \<noteq> None \<or> can_start v"
proof -
  have "needed_by p \<subseteq> dom p \<times> dom p"
    using assms(3) by (auto simp: needed_by_def closed_def)
  then have "finite (needed_by p)" using assms(1) finite_subset by blast
  then have "wf (needed_by p)" using assms(2) by (rule finite_acyclic_wf)
  then obtain i where i: "i \<in> dom p" "\<And>d. (d, i) \<in> needed_by p \<Longrightarrow> d \<notin> dom p"
    using assms(5) by (metis wf_eq_minimal ex_in_conv)
  then obtain v where v: "p i = Some v" by auto
  have "needs v = {}" using i(2) closedD [OF assms(3) v] v by (auto simp: needed_by_def)
  then have "worker v \<noteq> None \<or> can_start v"
    using assms(4) v by (auto simp: staffed_def idle_def can_start_def)
  with v show thesis by (rule that)
qed

end
