(* ===== verification/Council_Refinement.thy ===== *)
theory Council_Refinement
  imports Council_Spec
begin

text \<open>
  The code of the council implements the operations on plans. The plan of a change set is read off its
  hash map, with the outdated work recognised by the clock readings, as \<open>is_processing_stale\<close> does. The
  clock never goes back (\<open>mono clk\<close>), but may give the same reading twice. Where it has moved on since the
  work under way was handed out (\<open>moved_on\<close>), the code does exactly what the plans say; otherwise it may
  take outdated work for up to date (\<open>plan_le\<close>).
\<close>

section \<open>Reading off a plan\<close>

definition view_of :: "NodeMetadata \<Rightarrow> view" where
  "view_of m = \<lparr>waiting = wanted_by_reply_channels m, worker = processing_reply_channel m,
     needs = depends_on_node_ids m,
     outdated = (processing_reply_channel m \<noteq> None \<and> is_processing_stale m)\<rparr>"

lemma view_of_sel:
  "waiting (view_of m) = wanted_by_reply_channels m" "worker (view_of m) = processing_reply_channel m"
  "needs (view_of m) = depends_on_node_ids m"
  by (simp_all add: view_of_def)

definition plan_of :: "node_graph \<Rightarrow> plan" where
  "plan_of g = (\<lambda>i. map_option view_of (map_of g i))"

definition plans_of :: "ChangeSetGraph \<Rightarrow> Id \<Rightarrow> plan option" where
  "plans_of G = (\<lambda>cs. map_option plan_of (map_of G cs))"

text \<open>Readings of the past, and a starting time for every node that is worked on.\<close>

definition timed :: "clock \<Rightarrow> nat \<Rightarrow> NodeMetadata \<Rightarrow> bool" where
  "timed clk t m \<longleftrightarrow> last_updated_at m \<le> clk t
     \<and> (\<forall>s. processing_started_at m = Some s \<longrightarrow> s \<le> clk t)
     \<and> (processing_reply_channel m \<noteq> None \<longrightarrow> processing_started_at m \<noteq> None)"

definition good_nodes :: "clock \<Rightarrow> nat \<Rightarrow> node_graph \<Rightarrow> bool" where
  "good_nodes clk t g \<longleftrightarrow> distinct (map fst g) \<and> list_all (\<lambda>(i, m). timed clk t m) g"

definition good_graph :: "clock \<Rightarrow> nat \<Rightarrow> ChangeSetGraph \<Rightarrow> bool" where
  "good_graph clk t G \<longleftrightarrow> distinct (map fst G) \<and> list_all (\<lambda>(cs, g). good_nodes clk t g) G"

text \<open>The clock has moved on since the work under way was handed out.\<close>

definition moved :: "clock \<Rightarrow> nat \<Rightarrow> NodeMetadata \<Rightarrow> bool" where
  "moved clk t m \<longleftrightarrow> (processing_reply_channel m \<noteq> None \<longrightarrow>
     (case processing_started_at m of Some s \<Rightarrow> s < clk t | None \<Rightarrow> True))"

definition nodes_moved :: "clock \<Rightarrow> nat \<Rightarrow> node_graph \<Rightarrow> bool" where
  "nodes_moved clk t g \<longleftrightarrow> list_all (\<lambda>(i, m). moved clk t m) g"

definition moved_on :: "clock \<Rightarrow> nat \<Rightarrow> ChangeSetGraph \<Rightarrow> bool" where
  "moved_on clk t G \<longleftrightarrow> list_all (\<lambda>(cs, g). nodes_moved clk t g) G"

lemma dom_plan_of [simp]: "dom (plan_of g) = fst ` set g"
  by (simp add: plan_of_def dom_map_option dom_map_of_conv_image_fst)

lemma plan_of_apply: "plan_of g i = map_option view_of (map_of g i)"
  by (simp add: plan_of_def)

lemma plans_of_apply: "plans_of G cs = map_option plan_of (map_of G cs)"
  by (simp add: plans_of_def)

lemma timed_mono:
  assumes "mono clk" and "timed clk t m" and "t \<le> t'"
  shows "timed clk t' m"
  using assms(2) monoD [OF assms(1,3)] by (auto simp: timed_def)

lemma timed_later: "mono clk \<Longrightarrow> t < t' \<Longrightarrow> clk t \<le> clk t'"
  by (simp add: monoD)

lemma moved_mono:
  assumes "mono clk" and "moved clk t m" and "t \<le> t'"
  shows "moved clk t' m"
  using assms(2) monoD [OF assms(1,3)] by (auto simp: moved_def split: option.splits)

lemma nodes_moved_mono: "mono clk \<Longrightarrow> nodes_moved clk t g \<Longrightarrow> t \<le> t' \<Longrightarrow> nodes_moved clk t' g"
  by (auto simp: nodes_moved_def list_all_iff intro: moved_mono)

lemma moved_on_mono: "mono clk \<Longrightarrow> moved_on clk t G \<Longrightarrow> t \<le> t' \<Longrightarrow> moved_on clk t' G"
  by (auto simp: moved_on_def list_all_iff intro: nodes_moved_mono)

lemma nodes_moved_simps [simp]: "nodes_moved clk t []"
    "nodes_moved clk t ((i, m) # g) \<longleftrightarrow> moved clk t m \<and> nodes_moved clk t g"
  by (simp_all add: nodes_moved_def)

lemma nodes_movedD: "nodes_moved clk t g \<Longrightarrow> map_of g i = Some m \<Longrightarrow> moved clk t m"
  by (auto simp: nodes_moved_def list_all_iff dest!: map_of_SomeD)

lemma moved_onD: "moved_on clk t G \<Longrightarrow> map_of G cs = Some g \<Longrightarrow> nodes_moved clk t g"
  by (auto simp: moved_on_def list_all_iff dest!: map_of_SomeD)

lemma set_update: "set (AList.update k x xs) \<subseteq> insert (k, x) (set xs)"
  by (induction xs) auto

lemma nodes_moved_update:
  assumes "mono clk" and "nodes_moved clk t g" and "moved clk t' m" and "t \<le> t'"
  shows "nodes_moved clk t' (AList.update i m g)"
  using nodes_moved_mono [OF assms(1,2,4)] assms(3) set_update [of i m g]
  by (fastforce simp: nodes_moved_def list_all_iff)

lemma moved_on_update:
  assumes "mono clk" and "moved_on clk t G" and "nodes_moved clk t' g" and "t \<le> t'"
  shows "moved_on clk t' (AList.update cs g G)"
  using moved_on_mono [OF assms(1,2,4)] assms(3) set_update [of cs g G]
  by (fastforce simp: moved_on_def list_all_iff)

lemma moved_delete:
  "nodes_moved clk t g \<Longrightarrow> nodes_moved clk t (AList.delete i g)"
  "moved_on clk t G \<Longrightarrow> moved_on clk t (AList.delete cs G)"
  by (auto simp: nodes_moved_def moved_on_def list_all_iff AList.delete_eq)

text \<open>What an operation leads to: the plan \<open>q\<close>, up to work that is not recognised as outdated.\<close>

definition leads_to :: "clock \<Rightarrow> nat \<Rightarrow> node_graph \<Rightarrow> nat \<Rightarrow> node_graph \<Rightarrow> plan \<Rightarrow> bool" where
  "leads_to clk t g t' g' q \<longleftrightarrow> good_nodes clk t' g' \<and> t \<le> t' \<and> plan_le (plan_of g') q
     \<and> (nodes_moved clk t g \<longrightarrow> plan_of g' = q \<and> nodes_moved clk t' g')"

lemma good_nodes_mono: "mono clk \<Longrightarrow> good_nodes clk t g \<Longrightarrow> t \<le> t' \<Longrightarrow> good_nodes clk t' g"
  by (auto simp: good_nodes_def list_all_iff intro: timed_mono)

lemma good_nodes_Cons [simp]:
  "good_nodes clk t ((i, m) # g) \<longleftrightarrow> timed clk t m \<and> i \<notin> fst ` set g \<and> good_nodes clk t g"
  by (auto simp: good_nodes_def)

lemma good_nodes_Nil [simp]: "good_nodes clk t []"
  by (simp add: good_nodes_def)

lemma good_nodesD: "good_nodes clk t g \<Longrightarrow> map_of g i = Some m \<Longrightarrow> timed clk t m"
  by (auto simp: good_nodes_def list_all_iff dest!: map_of_SomeD)

section \<open>One node\<close>

lemma view_next:
  assumes "mono clk" and "timed clk t m"
  shows "view_of (fst (next_to_process (clk t) (clk (t + 1)) m)) = start (view_of m)"
    "timed clk (t + 2) (fst (next_to_process (clk t) (clk (t + 1)) m))"
    "snd (next_to_process (clk t) (clk (t + 1)) m)
       = (if can_start (view_of m) then Some (hd (waiting (view_of m))) else None)"
  using assms timed_later [OF assms(1), of t "t + 1"] timed_later [OF assms(1), of "t + 1" "t + 2"]
  by (auto simp: view_of_def next_to_process_def start_def can_start_def is_processing_stale_def
      timed_def split: list.splits)

lemma view_merge:
  assumes "timed clk t m" and "mono clk"
  shows "view_le (view_of (merge_metadata (clk t) c ds m)) (want c (set ds) (view_of m))"
    "timed clk (t + 1) (merge_metadata (clk t) c ds m)"
    "moved clk t m \<Longrightarrow> view_of (merge_metadata (clk t) c ds m) = want c (set ds) (view_of m)
      \<and> moved clk (t + 1) (merge_metadata (clk t) c ds m)"
  using assms(1) timed_later [OF assms(2), of t "t + 1"]
  by (auto simp: view_of_def merge_metadata_def want_def is_processing_stale_def timed_def moved_def
      view_le_def split: option.splits)

lemma view_default:
  assumes "mono clk"
  shows "view_of (NodeMetadata_default now) = blank" "timed clk (t + 1) (NodeMetadata_default (clk t))"
    "moved clk t' (NodeMetadata_default now)"
  using timed_later [OF assms, of t "t + 1"]
  by (auto simp: view_of_def NodeMetadata_default_def blank_def is_processing_stale_def timed_def moved_def)

lemma view_leave:
  assumes "timed clk t m" and "mono clk"
  shows "view_le (view_of (NodeMetadata_remove_channel (clk t) c m)) (leave c (view_of m))"
    "timed clk (t + 1) (NodeMetadata_remove_channel (clk t) c m)"
    "moved clk t m \<Longrightarrow> view_of (NodeMetadata_remove_channel (clk t) c m) = leave c (view_of m)
      \<and> moved clk (t + 1) (NodeMetadata_remove_channel (clk t) c m)"
  using assms(1) timed_later [OF assms(2), of t "t + 1"]
  by (auto simp: view_of_def NodeMetadata_remove_channel_def leave_def is_processing_stale_def timed_def
      moved_def view_le_def split: option.splits)

lemma view_release:
  assumes "timed clk t m" and "mono clk"
  shows "view_le (view_of (remove_dependency (clk t) i m)) (release i (view_of m))"
    "timed clk (t + 1) (remove_dependency (clk t) i m)"
    "moved clk t m \<Longrightarrow> view_of (remove_dependency (clk t) i m) = release i (view_of m)
      \<and> moved clk (t + 1) (remove_dependency (clk t) i m)"
  using assms(1) timed_later [OF assms(2), of t "t + 1"]
  by (auto simp: view_of_def remove_dependency_def release_def is_processing_stale_def timed_def moved_def
      view_le_def split: option.splits)

lemma view_idle [simp]: "idle (view_of m) \<longleftrightarrow> NodeMetadata_is_empty m"
  by (simp add: idle_def view_of_def NodeMetadata_is_empty_def)

section \<open>Handing out work\<close>

lemma fetch_nodes_refines:
  assumes "mono clk" and "good_nodes clk t g" and "fetch_nodes clk t g = (rs, g', t')"
  shows "plan_of g' = plan_fetch (plan_of g)" "good_nodes clk t' g'" "t \<le> t'"
    "map fst g' = map fst g" "distinct (map snd rs)"
    "rs = map (\<lambda>(i, m). (hd (wanted_by_reply_channels m), i))
            (filter (\<lambda>(i, m). can_start (view_of m)) g)"
proof -
  have "plan_of g' = plan_fetch (plan_of g) \<and> good_nodes clk t' g' \<and> t \<le> t' \<and> map fst g' = map fst g
    \<and> rs = map (\<lambda>(i, m). (hd (wanted_by_reply_channels m), i))
            (filter (\<lambda>(i, m). can_start (view_of m)) g)"
    using assms(2,3)
  proof (induction g arbitrary: t rs g' t')
    case (Cons x g)
    obtain i m where x: "x = (i, m)" by (cases x)
    obtain rs1 g1 t1 where r: "fetch_nodes clk (t + 2) g = (rs1, g1, t1)"
      by (cases "fetch_nodes clk (t + 2) g")
    have good: "timed clk t m" "i \<notin> fst ` set g" "good_nodes clk (t + 2) g"
      using Cons.prems(1) x good_nodes_mono [OF assms(1)] by auto
    note IH = Cons.IH [OF good(3) r] and v = view_next [OF assms(1) good(1)]
    have m': "timed clk t1 (fst (next_to_process (clk t) (clk (t + 1)) m))"
      using v(2) IH timed_mono [OF assms(1)] by blast
    have "fst ` set g1 = fst ` set g" using IH by (metis list.set_map)
    then show ?case
      using Cons.prems(2) r v m' IH good(2)
      by (auto simp: x plan_of_def plan_fetch_def fun_eq_iff view_of_def split: prod.splits if_splits)
  qed (simp add: plan_of_def plan_fetch_def)
  then show "plan_of g' = plan_fetch (plan_of g)" "good_nodes clk t' g'" "t \<le> t'"
    "map fst g' = map fst g"
    and rs: "rs = map (\<lambda>(i, m). (hd (wanted_by_reply_channels m), i))
            (filter (\<lambda>(i, m). can_start (view_of m)) g)"
    by simp_all
  have "map snd rs = map fst (filter (\<lambda>(i, m). can_start (view_of m)) g)"
    unfolding rs by (simp add: split_def comp_def)
  then show "distinct (map snd rs)"
    using assms(2) by (simp add: good_nodes_def distinct_map_filter)
qed

lemma fetch_nodes_handed_out:
  assumes "mono clk" and "good_nodes clk t g" and "fetch_nodes clk t g = (rs, g', t')"
  shows "set rs = handed_out (plan_of g)"
proof -
  have "set rs = {(hd (waiting (view_of m)), i) |i m. (i, m) \<in> set g \<and> can_start (view_of m)}"
    unfolding fetch_nodes_refines(6) [OF assms] by (force simp: view_of_def)
  also have "\<dots> = handed_out (plan_of g)"
    using assms(2) by (fastforce simp: handed_out_def plan_of_def good_nodes_def map_of_eq_Some_iff)
  finally show ?thesis .
qed

lemma good_graph_Cons [simp]:
  "good_graph clk t ((cs, g) # G) \<longleftrightarrow> good_nodes clk t g \<and> cs \<notin> fst ` set G \<and> good_graph clk t G"
  by (auto simp: good_graph_def)

lemma good_graph_Nil [simp]: "good_graph clk t []"
  by (simp add: good_graph_def)

lemma good_graph_mono: "mono clk \<Longrightarrow> good_graph clk t G \<Longrightarrow> t \<le> t' \<Longrightarrow> good_graph clk t' G"
  by (auto simp: good_graph_def list_all_iff intro: good_nodes_mono)

lemma good_graphD: "good_graph clk t G \<Longrightarrow> map_of G cs = Some g \<Longrightarrow> good_nodes clk t g"
  by (auto simp: good_graph_def list_all_iff dest!: map_of_SomeD)

lemma fetch_all_refines:
  assumes "mono clk" and "good_graph clk t G" and "fetch_all_available clk t G = (rs, G', t')"
  shows "plans_of G' = (\<lambda>cs. map_option plan_fetch (plans_of G cs))" "good_graph clk t' G'" "t \<le> t'"
    "map fst G' = map fst G" "set rs = (\<Union>p \<in> ran (plans_of G). handed_out p)"
proof -
  have "plans_of G' = (\<lambda>cs. map_option plan_fetch (plans_of G cs)) \<and> good_graph clk t' G' \<and> t \<le> t'
    \<and> map fst G' = map fst G \<and> set rs = (\<Union>(cs, g) \<in> set G. handed_out (plan_of g))"
    using assms(2,3)
  proof (induction G arbitrary: t rs G' t')
    case (Cons x G)
    obtain cs g where x: "x = (cs, g)" by (cases x)
    obtain rs1 g1 t1 where r: "fetch_nodes clk t g = (rs1, g1, t1)" by (cases "fetch_nodes clk t g")
    obtain rs2 G2 t2 where R: "fetch_all_available clk t1 G = (rs2, G2, t2)"
      by (cases "fetch_all_available clk t1 G")
    have good: "good_nodes clk t g" "cs \<notin> fst ` set G" "good_graph clk t G" using Cons.prems(1) x by auto
    note f = fetch_nodes_refines [OF assms(1) good(1) r] fetch_nodes_handed_out [OF assms(1) good(1) r]
    note IH = Cons.IH [OF good_graph_mono [OF assms(1) good(3) f(3)] R]
    have "good_nodes clk t2 g1" using f(2) IH good_nodes_mono [OF assms(1)] by blast
    moreover have "fst ` set G2 = fst ` set G" using IH by (metis list.set_map)
    ultimately show ?case
      using Cons.prems(2) r R f(1,3,7) IH good(2)
      by (auto simp: x plans_of_def fun_eq_iff)
  qed (auto simp: plans_of_def)
  moreover have "(\<Union>(cs, g) \<in> set G. handed_out (plan_of g)) = (\<Union>p \<in> ran (plans_of G). handed_out p)"
    using assms(2) by (fastforce simp: ran_def plans_of_def good_graph_def map_of_eq_Some_iff)
  ultimately show "plans_of G' = (\<lambda>cs. map_option plan_fetch (plans_of G cs))" "good_graph clk t' G'"
    "t \<le> t'" "map fst G' = map fst G" "set rs = (\<Union>p \<in> ran (plans_of G). handed_out p)"
    by simp_all
qed

section \<open>Registering work\<close>

definition plan_entry :: "channel \<Rightarrow> Id \<times> Id set \<Rightarrow> plan \<Rightarrow> plan" where
  "plan_entry c e p = (case e of (i, ds) \<Rightarrow>
     p(i \<mapsto> want c ds (case p i of Some v \<Rightarrow> v | None \<Rightarrow> blank)))"

lemma plan_entry_apply:
  "plan_entry c (i, ds) p j =
     (if j = i then Some (want c ds (case p i of Some v \<Rightarrow> v | None \<Rightarrow> blank)) else p j)"
  by (simp add: plan_entry_def)

lemma want_want: "want c A (want c B v) = want c (B \<union> A) v"
  by (simp add: want_def Un_assoc)

lemma fold_plan_entry:
  "fold (plan_entry c) es p j =
     (if j \<in> fst ` set es
      then Some (want c (\<Union>(i, ds) \<in> set es. if i = j then ds else {})
             (case p j of Some v \<Rightarrow> v | None \<Rightarrow> blank))
      else p j)"
proof (induction es arbitrary: p)
  case (Cons e es)
  obtain i ds where e: "e = (i, ds)" by (cases e)
  have none: "(\<Union>(k, ds) \<in> set es. if k = j then ds else {}) = {}" if "j \<notin> fst ` set es"
    using that by (intro equals0I) (force split: if_splits)
  show ?case
    by (cases "j \<in> fst ` set es"; cases "i = j")
      (auto simp: e Cons.IH plan_entry_apply want_want none)
qed simp

text \<open>The entries a request touches, in the order of the loops.\<close>

definition entries_of :: "Id \<times> Id list \<Rightarrow> (Id \<times> Id set) list" where
  "entries_of new = (case new of (i, ds) \<Rightarrow> (i, set ds) # map (\<lambda>d. (d, {})) ds)"

lemma entries_touched: "fst ` set (concat (map entries_of new)) = touched new"
proof (induction new)
  case (Cons x new)
  obtain i ds where x: "x = (i, ds)" by (cases x)
  show ?case
    using Cons by (simp add: x touched_def entries_of_def image_Un image_image Un_ac)
qed (simp add: touched_def)

lemma entries_needs:
  "(\<Union>(i, ds) \<in> set (concat (map entries_of new)). if i = j then ds else {}) = new_needs new j"
proof (induction new)
  case (Cons x new)
  obtain i ds where x: "x = (i, ds)" by (cases x)
  have "(\<Union>(k, e) \<in> set (entries_of x). if k = j then e else {}) = (if i = j then set ds else {})"
    by (auto simp: x entries_of_def)
  then show ?case
    using Cons by (simp add: x new_needs_def UN_Un)
qed (simp add: new_needs_def)

lemma fold_entries: "fold (plan_entry c) (concat (map entries_of new)) p = plan_merge c new p"
  by (rule ext) (simp add: fold_plan_entry entries_touched entries_needs plan_merge_def
      del: set_concat)

lemma good_nodes_update:
  assumes "mono clk" and "good_nodes clk t g" and "timed clk t' m" and "t \<le> t'"
  shows "good_nodes clk t' (AList.update i m g)"
proof -
  have "set (AList.update i m g) \<subseteq> insert (i, m) (set g)"
    by (induction g) auto
  moreover have "\<forall>(j, n) \<in> set g. timed clk t' n"
    using assms(2,4) by (auto simp: good_nodes_def list_all_iff intro: timed_mono [OF assms(1)])
  ultimately show ?thesis
    using assms(2,3) by (fastforce simp: good_nodes_def list_all_iff distinct_update)
qed

lemma plan_of_update [simp]: "plan_of (AList.update i m g) = (plan_of g)(i \<mapsto> view_of m)"
  by (simp add: plan_of_def update_conv fun_eq_iff)

lemma plan_entry_le: "plan_le p q \<Longrightarrow> plan_le (plan_entry c e p) (plan_entry c e q)"
proof (cases e)
  case (Pair i ds)
  assume le: "plan_le p q"
  have "want c ds (case p i of Some v \<Rightarrow> v | None \<Rightarrow> blank) = want c ds (case q i of Some v \<Rightarrow> v | None \<Rightarrow> blank)"
    using le view_ops_le(1) by (cases "p i"; cases "q i") (auto simp: plan_le_def dest: spec [of _ i])
  then show ?thesis using le by (simp add: plan_le_def Pair plan_entry_apply)
qed

lemma leads_toI:
  assumes "good_nodes clk t' (AList.update i m g)" "t \<le> t'" "view_le (view_of m) v"
    and "nodes_moved clk t g \<Longrightarrow> view_of m = v \<and> nodes_moved clk t' (AList.update i m g)"
  shows "leads_to clk t g t' (AList.update i m g) ((plan_of g)(i \<mapsto> v))"
  using assms by (simp add: leads_to_def plan_le_def option.rel_refl)

lemma merge_entry_refines:
  assumes "mono clk" and "good_nodes clk t g" and "merge_entry clk c i ds (g, t) = (g', t')"
  shows "leads_to clk t g t' g' (plan_entry c (i, set ds) (plan_of g))"
proof (cases "map_of g i")
  case None
  let ?m = "merge_metadata (clk (t + 1)) c ds (NodeMetadata_default (clk t))"
  note d = view_default [OF assms(1)]
  note v = view_merge [OF d(2) assms(1), of t c ds]
  have m: "timed clk (t + 2) ?m" "moved clk (t + 2) ?m" "view_of ?m = want c (set ds) blank"
    using v(2) v(3) [OF d(3)] by (simp_all add: d(1))
  have "leads_to clk t g (t + 2) (AList.update i ?m g) ((plan_of g)(i \<mapsto> want c (set ds) blank))"
  proof (rule leads_toI)
    show "good_nodes clk (t + 2) (AList.update i ?m g)"
      by (rule good_nodes_update [OF assms(1,2) m(1)]) simp
    show "nodes_moved clk t g \<Longrightarrow> view_of ?m = want c (set ds) blank \<and> nodes_moved clk (t + 2) (AList.update i ?m g)"
      using nodes_moved_update [OF assms(1) _ m(2)] m(3) by simp
  qed (simp_all only: m(3) view_le_refl le_add1)
  with None assms(3) show ?thesis
    by (auto simp: merge_entry_def plan_entry_def plan_of_apply)
next
  case (Some m)
  note v = view_merge [OF good_nodesD [OF assms(2) Some] assms(1), of c ds]
  have "leads_to clk t g (t + 1) (AList.update i (merge_metadata (clk t) c ds m) g)
      ((plan_of g)(i \<mapsto> want c (set ds) (view_of m)))"
  proof (rule leads_toI)
    show "good_nodes clk (t + 1) (AList.update i (merge_metadata (clk t) c ds m) g)"
      by (rule good_nodes_update [OF assms(1,2) v(2)]) simp
    assume "nodes_moved clk t g"
    with v(3) [OF nodes_movedD [OF this Some]] nodes_moved_update [OF assms(1)]
    show "view_of (merge_metadata (clk t) c ds m) = want c (set ds) (view_of m)
        \<and> nodes_moved clk (t + 1) (AList.update i (merge_metadata (clk t) c ds m) g)"
      by simp
  qed (simp_all only: v(1) le_add1)
  with Some assms(3) show ?thesis
    by (auto simp: merge_entry_def plan_entry_def plan_of_apply)
qed

lemma leads_to_trans:
  assumes "leads_to clk t g t1 g1 q" and "leads_to clk t1 g1 t2 g2 (h (plan_of g1))"
    and "\<And>p p'. plan_le p p' \<Longrightarrow> plan_le (h p) (h p')"
  shows "leads_to clk t g t2 g2 (h q)"
  using assms plan_le_trans unfolding leads_to_def by (metis order_trans)

lemma fold_merge_refines:
  assumes mono: "\<And>e p p'. plan_le p p' \<Longrightarrow> plan_le (h e p) (h e p')"
    and step: "\<And>e g t g' t'. e \<in> set es \<Longrightarrow> good_nodes clk t g \<Longrightarrow> f e (g, t) = (g', t') \<Longrightarrow>
      leads_to clk t g t' g' (h e (plan_of g))"
    and "good_nodes clk t g" and "fold f es (g, t) = (g', t')"
  shows "leads_to clk t g t' g' (fold h es (plan_of g))"
  using assms(2-)
proof (induction es arbitrary: g t)
  case (Cons e es)
  obtain g1 t1 where e: "f e (g, t) = (g1, t1)" by (cases "f e (g, t)")
  have 1: "leads_to clk t g t1 g1 (h e (plan_of g))"
    by (rule Cons.prems(1) [OF _ Cons.prems(2) e]) simp
  have le: "plan_le p p' \<Longrightarrow> plan_le (fold h xs p) (fold h xs p')" for xs p p'
    by (induction xs arbitrary: p p') (auto intro: mono)
  have "leads_to clk t1 g1 t' g' (fold h es (plan_of g1))"
  proof (rule Cons.IH)
    show "good_nodes clk t1 g1" using 1 by (simp add: leads_to_def)
    show "fold f es (g1, t1) = (g', t')" using Cons.prems(3) e by simp
  qed (rule Cons.prems(1), simp_all)
  from leads_to_trans [where h = "fold h es", OF 1 this le] show ?case by simp
qed (simp add: leads_to_def)

lemma merge_node_refines:
  assumes "mono clk" and "good_nodes clk t g" and "merge_node clk c new (g, t) = (g', t')"
  shows "leads_to clk t g t' g' (fold (plan_entry c) (entries_of new) (plan_of g))"
proof -
  obtain i ds where new: "new = (i, ds)" by (cases new)
  obtain g1 t1 where e: "merge_entry clk c i ds (g, t) = (g1, t1)"
    by (cases "merge_entry clk c i ds (g, t)")
  note 1 = merge_entry_refines [OF assms(1,2) e]
  have 2: "leads_to clk t1 g1 t' g' (fold (\<lambda>d. plan_entry c (d, {})) ds (plan_of g1))"
  proof (rule fold_merge_refines [OF plan_entry_le])
    show "good_nodes clk t1 g1" using 1 by (simp add: leads_to_def)
    show "fold (\<lambda>d. merge_entry clk c d []) ds (g1, t1) = (g', t')"
      using assms(3) e by (simp add: merge_node_def new)
    fix e g t g' t'
    assume "good_nodes clk t g" and "merge_entry clk c e [] (g, t) = (g', t')"
    then show "leads_to clk t g t' g' (plan_entry c (e, {}) (plan_of g))"
      using merge_entry_refines [OF assms(1), of t g c e "[]"] by simp
  qed
  have "plan_le (fold (\<lambda>d. plan_entry c (d, {})) xs p) (fold (\<lambda>d. plan_entry c (d, {})) xs p')"
    if "plan_le p p'" for xs p p'
    using that by (induction xs arbitrary: p p') (auto intro: plan_entry_le)
  from leads_to_trans [where h = "fold (\<lambda>d. plan_entry c (d, {})) ds", OF 1 2 this] show ?thesis
    by (simp add: entries_of_def new fold_map comp_def)
qed

lemma fold_concat_map: "fold f (concat (map h xs)) s = fold (\<lambda>x. fold f (h x)) xs s"
  by (induction xs arbitrary: s) simp_all

lemma merge_nodes_refines:
  assumes "mono clk" and "good_nodes clk t g"
    and "fold (merge_node clk c) new (g, t) = (g', t')"
  shows "leads_to clk t g t' g' (plan_merge c new (plan_of g))"
proof -
  have le: "plan_le (fold (plan_entry c) es p) (fold (plan_entry c) es p')" if "plan_le p p'" for es p p'
    using that by (induction es arbitrary: p p') (auto intro: plan_entry_le)
  have "leads_to clk t g t' g' (fold (\<lambda>x. fold (plan_entry c) (entries_of x)) new (plan_of g))"
    by (rule fold_merge_refines [OF le merge_node_refines [OF assms(1)] assms(2,3)])
  then show ?thesis by (simp add: fold_concat_map flip: fold_entries)
qed

lemma good_graph_update:
  assumes "mono clk" and "good_graph clk t G" and "good_nodes clk t' g" and "t \<le> t'"
  shows "good_graph clk t' (AList.update cs g G)"
proof -
  have "set (AList.update cs g G) \<subseteq> insert (cs, g) (set G)"
    by (induction G) auto
  moreover have "\<forall>(j, n) \<in> set G. good_nodes clk t' n"
    using assms(2,4) by (auto simp: good_graph_def list_all_iff intro: good_nodes_mono [OF assms(1)])
  ultimately show ?thesis
    using assms(2,3) by (fastforce simp: good_graph_def list_all_iff distinct_update)
qed

lemma good_graph_delete: "good_graph clk t G \<Longrightarrow> good_graph clk t (AList.delete cs G)"
  by (auto simp: good_graph_def list_all_iff AList.delete_eq distinct_map_filter)

lemma good_nodes_delete: "good_nodes clk t g \<Longrightarrow> good_nodes clk t (AList.delete i g)"
  by (auto simp: good_nodes_def list_all_iff AList.delete_eq distinct_map_filter)

lemma plans_of_update [simp]: "plans_of (AList.update cs g G) = (plans_of G)(cs \<mapsto> plan_of g)"
  by (simp add: plans_of_def update_conv fun_eq_iff)

lemma plans_of_delete [simp]: "plans_of (AList.delete cs G) = (plans_of G)(cs := None)"
  by (simp add: plans_of_def delete_conv fun_eq_iff)

lemma plan_of_delete [simp]: "plan_of (AList.delete i g) = (plan_of g)(i := None)"
  by (simp add: plan_of_def delete_conv fun_eq_iff)

lemma plan_of_Nil [simp]: "plan_of [] = Map.empty"
  by (simp add: plan_of_def)

lemma plan_of_empty_iff: "plan_of g = Map.empty \<longleftrightarrow> g = []"
  using dom_plan_of [of g] by (cases g) (auto simp flip: dom_eq_empty_conv)

text \<open>The same for a whole graph, in which an operation changes the plan of one change set to \<open>q\<close>.\<close>

definition graph_leads_to ::
  "clock \<Rightarrow> Id \<Rightarrow> nat \<Rightarrow> ChangeSetGraph \<Rightarrow> nat \<Rightarrow> ChangeSetGraph \<Rightarrow> plan option \<Rightarrow> bool" where
  "graph_leads_to clk cs t G t' G' q \<longleftrightarrow> good_graph clk t' G' \<and> t \<le> t'
     \<and> (\<exists>q'. plans_of G' = (plans_of G)(cs := q') \<and> rel_option plan_le q' q
         \<and> (moved_on clk t G \<longrightarrow> q' = q \<and> moved_on clk t' G'))"

lemma graph_leads_to_update:
  assumes "mono clk" and "good_graph clk t G" and "leads_to clk t (case map_of G cs of Some g \<Rightarrow> g | None \<Rightarrow> []) t' g q"
  shows "graph_leads_to clk cs t G t' (AList.update cs g G) (Some q)"
proof -
  have "moved_on clk t G \<Longrightarrow> nodes_moved clk t (case map_of G cs of Some g \<Rightarrow> g | None \<Rightarrow> [])"
    using moved_onD by (auto split: option.split)
  with assms(3) good_graph_update [OF assms(1,2)] moved_on_update [OF assms(1)] show ?thesis
    by (auto simp: graph_leads_to_def leads_to_def)
qed

lemma graph_leads_toD:
  assumes "graph_leads_to clk cs t G t' G' q"
  shows "good_graph clk t' G'" "t \<le> t'"
    "moved_on clk t G \<Longrightarrow> plans_of G' = (plans_of G)(cs := q)" "moved_on clk t G \<Longrightarrow> moved_on clk t' G'"
  using assms by (auto simp: graph_leads_to_def)

lemma graph_leads_to_up_to_date:
  assumes "graph_leads_to clk cs t G t' G' q" and "\<And>p i w. q = Some p \<Longrightarrow> p i = Some w \<Longrightarrow> \<not> outdated w"
  shows "plans_of G' = (plans_of G)(cs := q)"
proof -
  obtain q' where q': "plans_of G' = (plans_of G)(cs := q')" "rel_option plan_le q' q"
    using assms(1) by (auto simp: graph_leads_to_def)
  have "q' = q" using q'(2) assms(2) plan_le_up_to_date by (cases q'; cases q) auto
  with q'(1) show ?thesis by simp
qed

lemma graph_leads_to_plan:
  assumes "graph_leads_to clk cs t G t' G' (if p = Map.empty then None else Some p)"
  obtains p' where "plans_of G' = (plans_of G)(cs := if p' = Map.empty then None else Some p')"
    "plan_le p' p" "moved_on clk t G \<longrightarrow> p' = p"
proof -
  obtain q where q: "plans_of G' = (plans_of G)(cs := q)"
    "rel_option plan_le q (if p = Map.empty then None else Some p)"
    "moved_on clk t G \<longrightarrow> q = (if p = Map.empty then None else Some p)"
    using assms by (auto simp: graph_leads_to_def)
  show thesis
  proof (cases q)
    case None
    with q that [of Map.empty] show thesis by (auto split: if_splits)
  next
    case (Some p')
    with q that [of p'] plan_le_empty [of p' p] show thesis by (auto split: if_splits)
  qed
qed

lemma merge_refines:
  assumes "mono clk" and "good_graph clk t G"
    and "merge_dependency_graph clk t c new cs G = (G', t')"
  shows "graph_leads_to clk cs t G t' G'
    (Some (plan_merge c new (case plans_of G cs of Some p \<Rightarrow> p | None \<Rightarrow> Map.empty)))"
proof -
  let ?g = "case map_of G cs of Some g \<Rightarrow> g | None \<Rightarrow> []"
  obtain g1 t1 where f: "fold (merge_node clk c) new (?g, t) = (g1, t1)"
    by (cases "fold (merge_node clk c) new (?g, t)")
  have "good_nodes clk t ?g" using assms(2) good_graphD by (auto split: option.split)
  from merge_nodes_refines [OF assms(1) this f]
  have "graph_leads_to clk cs t G t1 (AList.update cs g1 G) (Some (plan_merge c new (plan_of ?g)))"
    by (rule graph_leads_to_update [OF assms(1,2)])
  moreover have "G' = AList.update cs g1 G" "t' = t1"
    using assms(3) f by (simp_all add: merge_dependency_graph_def)
  moreover have "plan_of ?g = (case plans_of G cs of Some p \<Rightarrow> p | None \<Rightarrow> Map.empty)"
    by (simp add: plans_of_def split: option.split)
  ultimately show ?thesis by simp
qed

end
