(* ===== verification/Council_Removal.thy ===== *)
theory Council_Removal
  imports Council_Refinement
begin

text \<open>
  The operations of the council that take work away implement those on plans: a value that was
  processed (\<open>mark_node_as_processed\<close>), a job that leaves (\<open>remove_channel\<close>), a value that failed
  (\<open>remove_node_and_dependents\<close>). For the last one, the loop over its worklist removes exactly the
  node and everything that depends on it, directly or through other nodes.
\<close>

section \<open>A value was processed\<close>

text \<open>An operation that goes through all nodes: every node is changed at a reading of its own.\<close>

lemma leads_to_cons:
  assumes "mono clk" and "good_nodes clk t ((j, m) # g)" and "leads_to clk (t + 1) g t' g' q"
    and keys: "map fst g' = map fst g"
    and m': "timed clk (t + 1) m'" "view_le (view_of m') v"
      "moved clk t m \<Longrightarrow> view_of m' = v \<and> moved clk (t + 1) m'"
  shows "leads_to clk t ((j, m) # g) t' ((j, m') # g') (q(j \<mapsto> v))"
proof -
  have t: "t + 1 \<le> t'" using assms(3) by (simp add: leads_to_def)
  have "fst ` set g' = fst ` set g" using keys by (metis list.set_map)
  then have "good_nodes clk t' ((j, m') # g')"
    using assms(2,3) timed_mono [OF assms(1) m'(1) t] by (auto simp: leads_to_def)
  moreover have "plan_le (plan_of ((j, m') # g')) (q(j \<mapsto> v))"
    using assms(3) m'(2) by (auto simp: leads_to_def plan_le_def plan_of_def)
  moreover have "plan_of ((j, m') # g') = q(j \<mapsto> v) \<and> nodes_moved clk t' ((j, m') # g')"
    if "nodes_moved clk t ((j, m) # g)"
  proof -
    have "nodes_moved clk (t + 1) g" using that nodes_moved_mono [OF assms(1), of t g "t + 1"] by simp
    then show ?thesis
      using that m'(3) assms(3) moved_mono [OF assms(1) _ t]
      by (auto simp: leads_to_def plan_of_def fun_eq_iff)
  qed
  ultimately show ?thesis using t by (simp add: leads_to_def)
qed

lemma remove_dependency_from_all_refines:
  assumes "mono clk" and "good_nodes clk t g" and "remove_dependency_from_all clk t i g = (g', t')"
  shows "leads_to clk t g t' g' (\<lambda>j. map_option (release i) (plan_of g j)) \<and> map fst g' = map fst g"
  using assms(2,3)
proof (induction g arbitrary: t g' t')
  case Nil
  then show ?case by (simp add: leads_to_def plan_of_def)
next
  case (Cons x g)
  obtain j m where x: "x = (j, m)" by (cases x)
  obtain g1 t1 where r: "remove_dependency_from_all clk (t + 1) i g = (g1, t1)"
    by (cases "remove_dependency_from_all clk (t + 1) i g")
  have good: "timed clk t m" "good_nodes clk (t + 1) g"
    using Cons.prems(1) x good_nodes_mono [OF assms(1)] by auto
  note IH = Cons.IH [OF good(2) r]
  have "leads_to clk t ((j, m) # g) t1 ((j, remove_dependency (clk t) i m) # g1)
      ((\<lambda>j. map_option (release i) (plan_of g j))(j \<mapsto> release i (view_of m)))"
    using leads_to_cons [OF assms(1) Cons.prems(1) [unfolded x]] IH view_release [OF good(1) assms(1), of i]
    by blast
  moreover have "(\<lambda>j. map_option (release i) (plan_of g j))(j \<mapsto> release i (view_of m))
      = (\<lambda>j'. map_option (release i) (plan_of ((j, m) # g) j'))"
    by (auto simp: plan_of_def fun_eq_iff)
  ultimately show ?case using Cons.prems(2) r IH by (auto simp: x)
qed

lemma mark_cases:
  assumes "timed clk t m" and "mono clk"
  obtains (wrong) "worker (view_of m) \<noteq> Some c"
    "mark_as_processed (clk t) c m = (m, Inl ShouldNotBeProcessingByJob)"
  | (again) m' where "worker (view_of m) = Some c" "outdated (view_of m)"
    "mark_as_processed (clk t) c m = (m', Inr (False, []))" "timed clk (t + 1) m'" "moved clk (t + 1) m'"
    "view_of m' = (view_of m)\<lparr>worker := None, waiting := waiting (view_of m) @ [c], outdated := False\<rparr>"
  | (ready) m' wl where "worker (view_of m) = Some c" "\<not> outdated (view_of m)"
    "needs (view_of m) = {}" "mark_as_processed (clk t) c m = (m', Inr (True, wl))"
    "timed clk (t + 1) m'" "moved clk (t + 1) m'" "distinct wl" "set wl = insert c (set (waiting (view_of m)))"
  | (blocked) m' where "worker (view_of m) = Some c" "\<not> outdated (view_of m)"
    "needs (view_of m) \<noteq> {}" "mark_as_processed (clk t) c m = (m', Inr (False, []))"
    "timed clk (t + 1) m'" "moved clk (t + 1) m'" "view_of m' = (view_of m)\<lparr>worker := None, outdated := False\<rparr>"
proof (cases "processing_reply_channel m = Some c")
  case False
  then show thesis by (intro wrong) (simp_all add: view_of_def mark_as_processed_def)
next
  case True
  let ?m = "m\<lparr>processing_reply_channel := None\<rparr>"
  note later = timed_later [OF assms(2), of t "t + 1"]
  have w: "worker (view_of m) = Some c" using True by (simp add: view_of_def)
  have stale: "is_processing_stale ?m \<longleftrightarrow> outdated (view_of m)"
    using True by (simp add: view_of_def is_processing_stale_def split: option.split)
  have m: "timed clk (t + 1) ?m" "timed clk (t + 1) (add_wanted_by_reply_channel (clk t) c ?m)"
    using assms(1) later by (auto simp: timed_def add_wanted_by_reply_channel_def)
  have n: "moved clk (t + 1) ?m" "moved clk (t + 1) (add_wanted_by_reply_channel (clk t) c ?m)"
    by (simp_all add: moved_def add_wanted_by_reply_channel_def)
  show thesis
  proof (cases "outdated (view_of m)")
    case o: True
    show thesis
    proof (rule again [OF w o _ m(2) n(2)])
      show "mark_as_processed (clk t) c m = (add_wanted_by_reply_channel (clk t) c ?m, Inr (False, []))"
        using True o stale by (simp add: mark_as_processed_def)
    qed (simp add: view_of_def add_wanted_by_reply_channel_def)
  next
    case o: False
    show thesis
    proof (cases "needs (view_of m) = {}")
      case needs: True
      then have "mark_as_processed (clk t) c m = (?m, Inr (True, List.insert c (wanted_set ?m)))"
        using True o stale
        by (simp add: mark_as_processed_def dependencies_satisfied_def view_of_def Let_def)
      then show thesis
        by (rule ready [OF w o needs _ m(1) n(1)]) (simp_all add: wanted_set_def view_of_def)
    next
      case needs: False
      then have "mark_as_processed (clk t) c m = (?m, Inr (False, []))"
        using True o stale
        by (simp add: mark_as_processed_def dependencies_satisfied_def view_of_def Let_def)
      then show thesis
        by (rule blocked [OF w o needs _ m(1) n(1)]) (simp add: view_of_def)
    qed
  qed
qed

lemma update_same: "map_of g i = Some m \<Longrightarrow> AList.update i m g = g"
  by (induction g) (auto split: if_splits)

text \<open>A change of a single node.\<close>

lemma graph_leads_to_node:
  assumes "mono clk" and "good_graph clk t G" and g: "map_of G cs = Some g"
    and m': "timed clk (t + 1) m'" "moved clk (t + 1) m'"
  shows "graph_leads_to clk cs t G (t + 1) (AList.update cs (AList.update i m' g) G)
    (Some ((plan_of g)(i \<mapsto> view_of m')))"
proof (rule graph_leads_to_update [OF assms(1,2)])
  have "leads_to clk t g (t + 1) (AList.update i m' g) ((plan_of g)(i \<mapsto> view_of m'))"
    by (rule leads_toI)
      (simp_all only: good_nodes_update [OF assms(1) good_graphD [OF assms(2) g] m'(1) le_add1]
        nodes_moved_update [OF assms(1) _ m'(2) le_add1] view_le_refl le_add1 simp_thms)
  then show "leads_to clk t (case map_of G cs of Some g \<Rightarrow> g | None \<Rightarrow> []) (t + 1) (AList.update i m' g)
      ((plan_of g)(i \<mapsto> view_of m'))"
    by (simp add: g)
qed

lemma leads_to_mono:
  assumes "mono clk" and "leads_to clk t1 g1 t' g' q" and "t \<le> t1"
    and "nodes_moved clk t g \<Longrightarrow> nodes_moved clk t1 g1"
  shows "leads_to clk t g t' g' q"
  using assms by (auto simp: leads_to_def)

text \<open>A change set in which nothing is left is forgotten.\<close>

lemma graph_leads_to_drop:
  assumes "mono clk" and "good_graph clk t G" and g: "map_of G cs = Some g" and "leads_to clk t g t' g' q"
  shows "graph_leads_to clk cs t G t' (if g' = [] then AList.delete cs G else AList.update cs g' G)
    (if q = Map.empty then None else Some q)"
proof -
  have q: "q = Map.empty \<longleftrightarrow> g' = []"
    using assms(4) plan_le_empty plan_of_empty_iff [of g'] by (auto simp: leads_to_def)
  show ?thesis
  proof (cases "g' = []")
    case True
    have "t \<le> t'" using assms(4) by (simp add: leads_to_def)
    then show ?thesis
      using True q good_graph_delete [OF good_graph_mono [OF assms(1,2)]]
        moved_delete(2) [OF moved_on_mono [OF assms(1)]]
      by (auto simp: graph_leads_to_def)
  next
    case False
    then show ?thesis using graph_leads_to_update [OF assms(1,2), of cs t' g' q] assms(4) q by (simp add: g)
  qed
qed

lemma finish_refines:
  assumes "mono clk" and "good_graph clk t G"
    and mark: "mark_node_as_processed clk t c cs i G = (G', t', r)"
  shows "case plans_of G cs of
      None \<Rightarrow> r = Inl Panicked \<and> G' = G \<and> t' = t
    | Some p \<Rightarrow> (case plan_finish c i p of
        Inl e \<Rightarrow> r = Inl e \<and> G' = G \<and> t \<le> t'
      | Inr (p', ws) \<Rightarrow> (\<exists>wl. r = Inr wl \<and> distinct wl \<and> set wl = ws)
          \<and> graph_leads_to clk cs t G t' G' (if p' = Map.empty then None else Some p'))"
proof (cases "map_of G cs")
  case None
  with mark assms(2) show ?thesis by (auto simp: mark_node_as_processed_def plans_of_def)
next
  case (Some g)
  note g = good_graphD [OF assms(2) Some]
  have p: "plans_of G cs = Some (plan_of g)" by (simp add: plans_of_def Some)
  show ?thesis
  proof (cases "map_of g i")
    case None
    with mark assms(2) Some p show ?thesis
      by (auto simp: mark_node_as_processed_def plan_finish_def plan_of_apply)
  next
    case m: (Some m)
    have v: "plan_of g i = Some (view_of m)" by (simp add: plan_of_apply m)
    from good_nodesD [OF g m] assms(1) show ?thesis
    proof (cases rule: mark_cases [where c = c])
      case wrong
      with mark assms(2) Some m p v show ?thesis
        by (auto simp: mark_node_as_processed_def plan_finish_def update_same)
    next
      case (again m')
      note n = graph_leads_to_node [OF assms(1,2) Some again(4,5), of i]
      from again mark Some m p v n show ?thesis
        by (auto simp: mark_node_as_processed_def plan_finish_def)
    next
      case (ready m' wl)
      let ?g = "AList.delete i (AList.update i m' g)"
      let ?q = "\<lambda>j. if j = i then None else map_option (release i) (plan_of g j)"
      obtain g2 t2 where r2: "remove_dependency_from_all clk (t + 1) i ?g = (g2, t2)"
        by (cases "remove_dependency_from_all clk (t + 1) i ?g")
      have "good_nodes clk (t + 1) ?g"
        by (intro good_nodes_delete good_nodes_update [OF assms(1) g] ready(5)) simp
      then have "leads_to clk (t + 1) ?g t2 g2 (\<lambda>j. map_option (release i) (plan_of ?g j))"
        using remove_dependency_from_all_refines [OF assms(1) _ r2] by blast
      also have "(\<lambda>j. map_option (release i) (plan_of ?g j)) = ?q" by (auto simp: fun_eq_iff)
      finally have "leads_to clk t g t2 g2 ?q"
        by (rule leads_to_mono [OF assms(1)])
          (simp_all only: le_add1 moved_delete(1) nodes_moved_update [OF assms(1) _ ready(6) le_add1])
      note n = graph_leads_to_drop [OF assms(1,2) Some this]
      from ready mark Some m p v r2 n show ?thesis
        by (auto simp: mark_node_as_processed_def plan_finish_def)
    next
      case (blocked m')
      note n = graph_leads_to_node [OF assms(1,2) Some blocked(5,6), of i]
      from blocked mark Some m p v n show ?thesis
        by (auto simp: mark_node_as_processed_def plan_finish_def)
    qed
  qed
qed

section \<open>A job leaves\<close>

lemma remove_channel_from_all_refines:
  assumes "mono clk" and "good_nodes clk t g"
    and "remove_channel_from_all clk t c g = (g', ids, t')"
  shows "leads_to clk t g t' g' (\<lambda>j. map_option (leave c) (plan_of g j))
    \<and> map fst g' = map fst g \<and> ids = map fst (filter (\<lambda>(i, m). NodeMetadata_is_empty m) g')"
  using assms(2,3)
proof (induction g arbitrary: t g' ids t')
  case Nil
  then show ?case by (simp add: leads_to_def plan_of_def)
next
  case (Cons x g)
  obtain j m where x: "x = (j, m)" by (cases x)
  obtain g1 ids1 t1 where r: "remove_channel_from_all clk (t + 1) c g = (g1, ids1, t1)"
    by (cases "remove_channel_from_all clk (t + 1) c g")
  have good: "timed clk t m" "good_nodes clk (t + 1) g"
    using Cons.prems(1) x good_nodes_mono [OF assms(1)] by auto
  note IH = Cons.IH [OF good(2) r]
  have "leads_to clk t ((j, m) # g) t1 ((j, NodeMetadata_remove_channel (clk t) c m) # g1)
      ((\<lambda>j. map_option (leave c) (plan_of g j))(j \<mapsto> leave c (view_of m)))"
    using leads_to_cons [OF assms(1) Cons.prems(1) [unfolded x]] IH view_leave [OF good(1) assms(1), of c]
    by blast
  moreover have "(\<lambda>j. map_option (leave c) (plan_of g j))(j \<mapsto> leave c (view_of m))
      = (\<lambda>j'. map_option (leave c) (plan_of ((j, m) # g) j'))"
    by (auto simp: plan_of_def fun_eq_iff)
  ultimately show ?case using Cons.prems(2) r IH by (auto simp: x Let_def)
qed

text \<open>The nodes to remove are in the map, so no \<open>unwrap\<close> fails.\<close>

lemma remove_nodes_ok:
  assumes "distinct ids" and "set ids \<subseteq> fst ` set g"
  shows "\<exists>g'. remove_nodes ids g = Inr g' \<and> plan_of g' = plan_of g |` (- set ids)
    \<and> (good_nodes clk t g \<longrightarrow> good_nodes clk t g') \<and> (nodes_moved clk t g \<longrightarrow> nodes_moved clk t g')"
  using assms
proof (induction ids arbitrary: g)
  case (Cons i ids)
  then obtain m where m: "map_of g i = Some m"
    by (metis domIff dom_map_of_conv_image_fst insert_subset list.set(2) not_None_eq)
  have "set ids \<subseteq> fst ` set (AList.delete i g)"
  proof -
    have "fst ` set (AList.delete i g) = fst ` set g - {i}"
      by (metis delete_keys list.set_map set_removeAll)
    with Cons.prems show ?thesis by auto
  qed
  with Cons obtain g' where g': "remove_nodes ids (AList.delete i g) = Inr g'"
    "plan_of g' = plan_of (AList.delete i g) |` (- set ids)"
    "good_nodes clk t (AList.delete i g) \<longrightarrow> good_nodes clk t g'"
    "nodes_moved clk t (AList.delete i g) \<longrightarrow> nodes_moved clk t g'"
    by (metis distinct.simps(2))
  have "plan_of g' = plan_of g |` (- set (i # ids))"
    by (auto simp: g'(2) restrict_map_def fun_eq_iff)
  with m g' good_nodes_delete moved_delete(1) show ?case by auto
qed (simp add: restrict_map_def)

lemma bye_refines:
  assumes "mono clk" and "good_graph clk t G"
  obtains G' t' where "remove_channel clk t cs c G = Inr (G', t')"
    "graph_leads_to clk cs t G t' G' (map_option (plan_bye c) (plans_of G cs))"
proof (cases "map_of G cs")
  case None
  then have "plans_of G cs = None" by (simp add: plans_of_def)
  with None show thesis
    by (intro that [of G t]) (auto simp: remove_channel_def graph_leads_to_def assms(2))
next
  case (Some g)
  obtain g1 ids t1 where r: "remove_channel_from_all clk t c g = (g1, ids, t1)"
    by (cases "remove_channel_from_all clk t c g")
  from remove_channel_from_all_refines [OF assms(1) good_graphD [OF assms(2) Some] r]
  have f: "leads_to clk t g t1 g1 (\<lambda>j. map_option (leave c) (plan_of g j))"
    "ids = map fst (filter (\<lambda>(i, m). NodeMetadata_is_empty m) g1)" by blast+
  have g1: "good_nodes clk t1 g1" "distinct (map fst g1)"
    using f(1) by (auto simp: leads_to_def good_nodes_def)
  then have "distinct ids" "set ids \<subseteq> fst ` set g1" by (auto simp: f(2) distinct_map_filter)
  from remove_nodes_ok [OF this] g1 obtain g2 where g2: "remove_nodes ids g1 = Inr g2"
    "plan_of g2 = plan_of g1 |` (- set ids)" "good_nodes clk t1 g2"
    "nodes_moved clk t1 g1 \<longrightarrow> nodes_moved clk t1 g2" by blast
  have ids: "i \<in> set ids \<longleftrightarrow> (\<exists>v. plan_of g1 i = Some v \<and> idle v)" for i
    using g1(2) by (force simp: f(2) plan_of_apply map_of_eq_Some_iff simp flip: view_idle)
  have drop: "plan_of g2 i = (case plan_of g1 i of None \<Rightarrow> None | Some v \<Rightarrow> if idle v then None else Some v)" for i
    using ids [of i] by (auto simp: g2(2) restrict_map_def split: option.split)
  have bye: "plan_bye c (plan_of g) i = (case map_option (leave c) (plan_of g i) of
      None \<Rightarrow> None | Some v \<Rightarrow> if idle v then None else Some v)" for i
    by (simp add: plan_bye_def split: option.split)
  have "plan_le (plan_of g2) (plan_bye c (plan_of g))"
    unfolding plan_le_def
  proof
    fix i
    have "rel_option view_le (plan_of g1 i) (map_option (leave c) (plan_of g i))"
      using f(1) by (simp add: leads_to_def plan_le_def)
    then show "rel_option view_le (plan_of g2 i) (plan_bye c (plan_of g) i)"
      unfolding drop bye using view_leD(5)
      by (cases "plan_of g1 i"; cases "plan_of g i") auto
  qed
  moreover have "nodes_moved clk t g \<Longrightarrow> plan_of g2 = plan_bye c (plan_of g) \<and> nodes_moved clk t1 g2"
    using f(1) g2(4) by (auto simp: leads_to_def fun_eq_iff drop bye)
  ultimately have "leads_to clk t g t1 g2 (plan_bye c (plan_of g))"
    using f(1) g2(3) by (simp add: leads_to_def)
  then have "graph_leads_to clk cs t G t1 (AList.update cs g2 G) (Some (plan_bye c (plan_of g)))"
    by (intro graph_leads_to_update [OF assms(1,2)]) (simp add: Some)
  then show thesis
    using r g2(1) by (intro that [of "AList.update cs g2 G" t1]) (simp_all add: remove_channel_def Some plans_of_apply)
qed

section \<open>A value failed\<close>

definition blocked_by_other :: "channel \<Rightarrow> plan \<Rightarrow> Id \<Rightarrow> bool" where
  "blocked_by_other c p j \<longleftrightarrow> (\<exists>v. p j = Some v \<and> worker v \<noteq> None \<and> worker v \<noteq> Some c)"

definition notices :: "plan \<Rightarrow> Id set \<Rightarrow> (channel \<times> Id) set" where
  "notices p R = {(w, j) |w j v. j \<in> R \<and> p j = Some v \<and> w \<in> set (waiting v)}"

text \<open>The state of the loop: \<open>R\<close> is removed, \<open>q\<close> is the worklist.\<close>

definition failing :: "channel \<Rightarrow> plan \<Rightarrow> Id \<Rightarrow> Id set \<Rightarrow> plan \<Rightarrow> Id set \<Rightarrow> (channel \<times> Id) set \<Rightarrow> bool"
  where
  "failing c p i R p' q ns \<longleftrightarrow> p' = p |` (- R) \<and> R \<subseteq> dependents p i \<and> q \<subseteq> insert i (dependents p i)
     \<and> (\<forall>d j. d \<in> R \<longrightarrow> (d, j) \<in> needed_by p \<longrightarrow> j \<in> R \<union> q) \<and> (i \<in> dom p \<longrightarrow> i \<in> R \<union> q)
     \<and> (\<forall>j \<in> R. \<not> blocked_by_other c p j) \<and> ns = insert (c, i) (notices p R)"

lemma failingD:
  assumes "failing c p i R p' q ns"
  shows "p' = p |` (- R)" "R \<subseteq> dependents p i" "q \<subseteq> insert i (dependents p i)"
    "\<And>d j. d \<in> R \<Longrightarrow> (d, j) \<in> needed_by p \<Longrightarrow> j \<in> R \<union> q" "i \<in> dom p \<Longrightarrow> i \<in> R \<union> q"
    "\<And>j. j \<in> R \<Longrightarrow> \<not> blocked_by_other c p j" "ns = insert (c, i) (notices p R)"
  using assms unfolding failing_def by blast+

lemma failingI:
  assumes "p' = p |` (- R)" and "R \<subseteq> dependents p i" and "q \<subseteq> insert i (dependents p i)"
    and "\<And>d j. d \<in> R \<Longrightarrow> (d, j) \<in> needed_by p \<Longrightarrow> j \<in> R \<union> q" and "i \<in> dom p \<Longrightarrow> i \<in> R \<union> q"
    and "\<And>j. j \<in> R \<Longrightarrow> \<not> blocked_by_other c p j" and "ns = insert (c, i) (notices p R)"
  shows "failing c p i R p' q ns"
  using assms unfolding failing_def by blast

lemma failing_end:
  assumes "failing c p i R p' {} ns"
  shows "R = dependents p i"
proof
  show "dependents p i \<subseteq> R"
  proof
    fix j assume "j \<in> dependents p i"
    then have "i \<in> dom p" and path: "(i, j) \<in> (needed_by p)\<^sup>*" by (auto simp: dependents_def)
    from path show "j \<in> R"
      by induction (use assms \<open>i \<in> dom p\<close> in \<open>auto simp: failing_def\<close>)
  qed
qed (use assms in \<open>simp add: failing_def\<close>)

lemma failing_skip:
  assumes "failing c p i R p' (insert x q) ns" and "p' x = None"
  shows "failing c p i R p' q ns"
proof -
  have "x \<in> R \<or> x \<notin> dom p" using assms by (auto simp: failing_def restrict_map_def split: if_splits)
  moreover have dom: "j \<in> dom p" if "(d, j) \<in> needed_by p" for d j
    using that by (auto simp: needed_by_def)
  moreover note f = failingD [OF assms(1)]
  ultimately show ?thesis
  proof (intro failingI)
    fix d j assume "d \<in> R" and j: "(d, j) \<in> needed_by p"
    then have "j \<in> R \<union> insert x q" by (rule f(4))
    with dom [OF j] \<open>x \<in> R \<or> x \<notin> dom p\<close> show "j \<in> R \<union> q" by blast
  qed (use f in auto)
qed

lemma dependents_step: "d \<in> dependents p i \<Longrightarrow> (d, j) \<in> needed_by p \<Longrightarrow> j \<in> dependents p i"
  by (auto simp: dependents_def intro: rtrancl_into_rtrancl)

lemma failing_remove:
  assumes f: "failing c p i R p' (insert x q) ns" and x: "p' x = Some v"
    and ok: "worker v = None \<or> worker v = Some c"
  shows "x \<in> dependents p i"
    "failing c p i (insert x R) (p'(x := None)) (q \<union> {j. j \<in> dom (p'(x := None)) \<and> (x, j) \<in> needed_by p'})
       (ns \<union> (\<lambda>w. (w, x)) ` set (waiting v))"
proof -
  have px: "p x = Some v" "x \<notin> R" using f x by (auto simp: failing_def restrict_map_def split: if_splits)
  show D: "x \<in> dependents p i"
    using f px(1) by (auto simp: failing_def dependents_def)
  have p': "p' = p |` (- R)" using f by (simp add: failing_def)
  have new: "j \<in> insert x R \<union> (q \<union> {j. j \<in> dom (p'(x := None)) \<and> (x, j) \<in> needed_by p'})"
    if "(x, j) \<in> needed_by p" for j
    using that by (auto simp: p' needed_by_def restrict_map_def)
  have sub: "needed_by p' \<subseteq> needed_by p" by (auto simp: p' needed_by_def restrict_map_def split: if_splits)
  have "notices p (insert x R) = notices p R \<union> (\<lambda>w. (w, x)) ` set (waiting v)"
    using px(1) by (auto simp: notices_def)
  moreover have "p'(x := None) = p |` (- insert x R)"
    by (auto simp: p' restrict_map_def fun_eq_iff)
  moreover have "\<not> blocked_by_other c p x" using ok px(1) by (auto simp: blocked_by_other_def)
  moreover note F = failingD [OF f]
  ultimately show "failing c p i (insert x R) (p'(x := None))
      (q \<union> {j. j \<in> dom (p'(x := None)) \<and> (x, j) \<in> needed_by p'}) (ns \<union> (\<lambda>w. (w, x)) ` set (waiting v))"
  proof (intro failingI)
    fix d j assume "d \<in> insert x R" and j: "(d, j) \<in> needed_by p"
    then show "j \<in> insert x R \<union> (q \<union> {j. j \<in> dom (p'(x := None)) \<and> (x, j) \<in> needed_by p'})"
      using new F(4) by blast
  next
    show "q \<union> {j. j \<in> dom (p'(x := None)) \<and> (x, j) \<in> needed_by p'} \<subseteq> insert i (dependents p i)"
      using F(3) sub dependents_step [OF D] by blast
  next
    assume "i \<in> dom p"
    with F(5) show "i \<in> insert x R \<union> (q \<union> {j. j \<in> dom (p'(x := None)) \<and> (x, j) \<in> needed_by p'})"
      by blast
  qed (use F D in auto)
qed

lemma pushed_dependents:
  assumes "good_nodes clk t g"
  shows "set (map fst (filter (\<lambda>(i, m). depends_on m x) (AList.delete x g)))
    = {j. j \<in> dom ((plan_of g)(x := None)) \<and> (x, j) \<in> needed_by (plan_of g)}"
proof -
  have d: "distinct (map fst g)" using assms by (simp add: good_nodes_def)
  have "j \<in> set (map fst (filter (\<lambda>(i, m). depends_on m x) (AList.delete x g)))
      \<longleftrightarrow> j \<noteq> x \<and> (\<exists>m. map_of g j = Some m \<and> x \<in> depends_on_node_ids m)" for j
    using d by (force simp: AList.delete_eq depends_on_def map_of_eq_Some_iff)
  moreover have "j \<in> dom ((plan_of g)(x := None)) \<and> (x, j) \<in> needed_by (plan_of g)
      \<longleftrightarrow> j \<noteq> x \<and> (\<exists>m. map_of g j = Some m \<and> x \<in> depends_on_node_ids m)" for j
    by (auto simp: needed_by_def plan_of_apply view_of_sel dom_map_of_conv_image_fst [symmetric])
  ultimately show ?thesis by (simp only: set_eq_iff mem_Collect_eq simp_thms)
qed

lemma fail_nodes_refines:
  assumes "good_nodes clk t g" and "failing c p i R (plan_of g) (set q) (set ns)"
    and "fail_nodes c g q ns = (g', r)"
  shows "good_nodes clk t g' \<and> (case r of
      Inl e \<Rightarrow> e = ShouldNotBeProcessingByJob \<and> (\<exists>j \<in> dependents p i. blocked_by_other c p j)
    | Inr ns' \<Rightarrow> (\<forall>j \<in> dependents p i. \<not> blocked_by_other c p j)
        \<and> plan_of g' = p |` (- dependents p i) \<and> set ns' = insert (c, i) (notices p (dependents p i)))"
  using assms
proof (induction c g q ns arbitrary: R rule: fail_nodes.induct)
  case (1 c g ns)
  then have F: "failing c p i R (plan_of g) {} (set ns)" by simp
  have "\<forall>j \<in> R. \<not> blocked_by_other c p j" using failingD(6) [OF F] by blast
  with failing_end [OF F] failingD(1,7) [OF F] "1.prems"(1,3) show ?case by auto
next
  case (2 c g x q ns)
  show ?case
  proof (cases "map_of g x")
    case None
    then have "plan_of g x = None" by (simp add: plan_of_apply)
    with "2.prems"(2) have F: "failing c p i R (plan_of g) (set q) (set ns)"
      by (auto intro: failing_skip [of c p i R "plan_of g" x "set q" "set ns"])
    from "2.IH"(1) [OF None "2.prems"(1) F] "2.prems"(3) None show ?thesis by simp
  next
    case (Some m)
    let ?v = "view_of m" and ?g = "AList.delete x g"
    have x: "plan_of g x = Some ?v" by (simp add: plan_of_apply Some)
    have F: "failing c p i R (plan_of g) (insert x (set q)) (set ns)" using "2.prems"(2) by simp
    have px: "p x = Some ?v" "x \<in> dependents p i"
      using failingD(1,3) [OF F] x by (auto simp: restrict_map_def dependents_def split: if_splits)
    have g: "good_nodes clk t ?g" by (rule good_nodes_delete [OF "2.prems"(1)])
    show ?thesis
    proof (cases "worker ?v = None \<or> worker ?v = Some c")
      case True
      then have ok: "\<not> (processing_reply_channel m \<noteq> None \<and> processing_reply_channel m \<noteq> Some c)"
        by (auto simp: view_of_def)
      have "failing c p i (insert x R) (plan_of ?g)
          (set (q @ map fst (filter (\<lambda>(i, m). depends_on m x) ?g)))
          (set (ns @ map (\<lambda>c. (c, x)) (wanted_by_reply_channels m)))"
        using failing_remove(2) [OF F x True]
        unfolding set_append pushed_dependents [OF "2.prems"(1), of x] by (simp add: view_of_sel)
      moreover have "fail_nodes c ?g (q @ map fst (filter (\<lambda>(i, m). depends_on m x) ?g))
          (ns @ map (\<lambda>c. (c, x)) (wanted_by_reply_channels m)) = (g', r)"
        using "2.prems"(3) Some ok by (auto simp: Let_def split: if_splits)
      ultimately show ?thesis by (rule "2.IH"(2) [OF Some refl ok g])
    next
      case False
      then have "blocked_by_other c p x" using px(1) by (auto simp: blocked_by_other_def)
      with False px(2) "2.prems"(3) Some g show ?thesis
        by (auto simp: Let_def view_of_def)
    qed
  qed
qed

lemma fail_refines:
  assumes "good_graph clk t G" and f: "remove_node_and_dependents c cs i G = (G', r)"
    and "mono clk"
  shows "(case plans_of G cs of
      None \<Rightarrow> r = Inl Panicked \<and> G' = G
    | Some p \<Rightarrow> (case plan_fail c i p of
        Inl e \<Rightarrow> r = Inl e
      | Inr (p', ns) \<Rightarrow> \<exists>nl. r = Inr nl \<and> set nl = ns
          \<and> plans_of G' = (plans_of G)(cs := if p' = Map.empty then None else Some p')))
    \<and> good_graph clk t G'"
proof (cases "map_of G cs")
  case None
  with f assms(1) show ?thesis by (auto simp: remove_node_and_dependents_def plans_of_apply)
next
  case (Some g)
  note g = good_graphD [OF assms(1) Some]
  let ?p = "plan_of g"
  have p: "plans_of G cs = Some ?p" by (simp add: plans_of_apply Some)
  obtain g' r' where r': "fail_nodes c g [i] [(c, i)] = (g', r')"
    by (cases "fail_nodes c g [i] [(c, i)]")
  have "failing c ?p i {} ?p (set [i]) (set [(c, i)])"
    by (rule failingI) (auto simp: notices_def)
  note F = fail_nodes_refines [OF g this r']
  have good: "good_graph clk t (AList.update cs g' G)" "good_graph clk t (AList.delete cs G)"
    using F good_graph_update [OF assms(3,1)] good_graph_delete [OF assms(1)] by simp_all
  show ?thesis
  proof (cases r')
    case (Inl e)
    with F f Some p r' good show ?thesis
      by (auto simp: remove_node_and_dependents_def plan_fail_def blocked_by_other_def)
  next
    case (Inr nl)
    with F have "plan_fail c i ?p = Inr (plan_of g', set nl)"
      by (auto simp: plan_fail_def blocked_by_other_def notices_def)
    with Inr f Some p r' good plan_of_empty_iff [of g'] show ?thesis
      by (auto simp: remove_node_and_dependents_def)
  qed
qed

end
