(* ===== verification/Council_Server.thy ===== *)
theory Council_Server
  imports Council_Removal
begin

text \<open>
  The council server, \<open>lib/council-server/src/server.rs\<close> and the messages of \<open>lib.rs\<close>: the handlers of
  the six requests and the loop of \<open>Server::run\<close>, which hands out the work that can be started, waits
  for an event and handles it. The message bus is a parameter that says which messages can be
  published; a message that cannot, and every error of a handler, end in a panic, because the loop
  unwraps the results. What the bus delivers, the timer and the shutdown signals are a list of events.
\<close>

section \<open>Messages\<close>

datatype Request =
    Bye (bye_change_set: Id)
  | CreateValues
  | ProcessedValue Id Id
  | ValueCreationDone
  | ValueDependencyGraph Id "(Id \<times> Id list) list"
  | ValueProcessingFailed Id Id

datatype Response =
    BeenProcessed Id
  | Failed Id
  | OkToCreate
  | OkToProcess "Id list"
  | Shutdown

type_synonym message = "channel \<times> Response"
type_synonym bus = "channel \<Rightarrow> Response \<Rightarrow> bool"

record Council =
  value_create_queue :: ValueCreationQueue
  complete_graph :: ChangeSetGraph
  readings :: nat

definition Council_default :: Council where
  "Council_default = \<lparr>value_create_queue = ValueCreationQueue_default, complete_graph = [], readings = 0\<rparr>"

fun publish_all :: "bus \<Rightarrow> message list \<Rightarrow> message list \<times> (CouncilError, unit) result" where
  "publish_all nats [] = ([], Inr ())"
| "publish_all nats ((reply_channel, response) # messages) =
     (if nats reply_channel response
      then let (sent, r) = publish_all nats messages in ((reply_channel, response) # sent, r)
      else ([], Inl Panicked))"

section \<open>Handlers\<close>

type_synonym handled = "Council \<times> message list \<times> (CouncilError, unit) result"

definition job_would_like_to_create_attribute_values :: "channel \<Rightarrow> Council \<Rightarrow> handled" where
  "job_would_like_to_create_attribute_values reply_channel S =
     (S\<lparr>value_create_queue := push reply_channel (value_create_queue S)\<rparr>, [], Inr ())"

definition job_finished_value_creation :: "channel \<Rightarrow> Council \<Rightarrow> handled" where
  "job_finished_value_creation reply_channel S =
     (let (q, r) = finished_processing reply_channel (value_create_queue S)
      in (S\<lparr>value_create_queue := q\<rparr>, [], r))"

definition register_graph_from_job ::
  "clock \<Rightarrow> channel \<Rightarrow> Id \<Rightarrow> (Id \<times> Id list) list \<Rightarrow> Council \<Rightarrow> handled" where
  "register_graph_from_job clk reply_channel change_set_id new_dependency_data S =
     (let (G, t) = merge_dependency_graph clk (readings S) reply_channel new_dependency_data
                     change_set_id (complete_graph S)
      in (S\<lparr>complete_graph := G, readings := t\<rparr>, [], Inr ()))"

definition job_processed_a_value :: "bus \<Rightarrow> clock \<Rightarrow> channel \<Rightarrow> Id \<Rightarrow> Id \<Rightarrow> Council \<Rightarrow> handled" where
  "job_processed_a_value nats clk reply_channel change_set_id node_id S =
     (case mark_node_as_processed clk (readings S) reply_channel change_set_id node_id
             (complete_graph S) of
        (G, t, Inl e) \<Rightarrow> (S\<lparr>complete_graph := G, readings := t\<rparr>, [], Inl e)
      | (G, t, Inr reply_channels) \<Rightarrow>
          (S\<lparr>complete_graph := G, readings := t\<rparr>,
           publish_all nats (map (\<lambda>c. (c, BeenProcessed node_id)) reply_channels)))"

definition job_failed_processing_a_value :: "bus \<Rightarrow> channel \<Rightarrow> Id \<Rightarrow> Id \<Rightarrow> Council \<Rightarrow> handled" where
  "job_failed_processing_a_value nats reply_channel change_set_id node_id S =
     (case remove_node_and_dependents reply_channel change_set_id node_id (complete_graph S) of
        (G, Inl e) \<Rightarrow> (S\<lparr>complete_graph := G\<rparr>, [], Inl e)
      | (G, Inr notifications) \<Rightarrow>
          (S\<lparr>complete_graph := G\<rparr>,
           publish_all nats (map (\<lambda>(c, failed_node_id). (c, Failed failed_node_id)) notifications)))"

definition job_is_going_away :: "clock \<Rightarrow> channel \<Rightarrow> Id \<Rightarrow> Council \<Rightarrow> handled" where
  "job_is_going_away clk reply_channel change_set_id S =
     (let S1 = S\<lparr>value_create_queue := ValueCreationQueue_remove reply_channel (value_create_queue S)\<rparr>
      in case remove_channel clk (readings S) change_set_id reply_channel (complete_graph S) of
           Inl e \<Rightarrow> (S1, [], Inl e)
         | Inr (G, t) \<Rightarrow> (S1\<lparr>complete_graph := G, readings := t\<rparr>, [], Inr ()))"

fun handle_request :: "bus \<Rightarrow> clock \<Rightarrow> channel \<Rightarrow> Request \<Rightarrow> Council \<Rightarrow> handled" where
  "handle_request nats clk reply_channel CreateValues S =
     job_would_like_to_create_attribute_values reply_channel S"
| "handle_request nats clk reply_channel ValueCreationDone S =
     job_finished_value_creation reply_channel S"
| "handle_request nats clk reply_channel (ValueDependencyGraph change_set_id dependency_graph) S =
     register_graph_from_job clk reply_channel change_set_id dependency_graph S"
| "handle_request nats clk reply_channel (ProcessedValue change_set_id node_id) S =
     job_processed_a_value nats clk reply_channel change_set_id node_id S"
| "handle_request nats clk reply_channel (Bye change_set_id) S =
     job_is_going_away clk reply_channel change_set_id S"
| "handle_request nats clk reply_channel (ValueProcessingFailed change_set_id node_id) S =
     job_failed_processing_a_value nats reply_channel change_set_id node_id S"

section \<open>The loop\<close>

text \<open>The head of the loop: whose turn it is to create values, and what can be processed.\<close>

definition announce :: "bus \<Rightarrow> clock \<Rightarrow> Council \<Rightarrow> handled" where
  "announce nats clk S =
     (let (q, next_channel) = fetch_next (value_create_queue S);
          S1 = S\<lparr>value_create_queue := q\<rparr>
      in case publish_all nats (case next_channel of Some c \<Rightarrow> [(c, OkToCreate)] | None \<Rightarrow> []) of
           (sent, Inl e) \<Rightarrow> (S1, sent, Inl e)
         | (sent, Inr _) \<Rightarrow>
             (let (available, G, t) = fetch_all_available clk (readings S) (complete_graph S);
                  (sent', r) = publish_all nats (map (\<lambda>(c, i). (c, OkToProcess [i])) available)
              in (S1\<lparr>complete_graph := G, readings := t\<rparr>, sent @ sent', r)))"

text \<open>A message from the bus carries a request, unless its payload cannot be read, and a reply
  channel, unless its sender gave none.\<close>

datatype event = Timeout | Incoming "Request option" "channel option" | Closed | ShutdownRequest

datatype outcome = Waiting | Stopped | Crashed CouncilError

fun run :: "bus \<Rightarrow> clock \<Rightarrow> event list \<Rightarrow> Council \<Rightarrow> Council \<times> message list \<times> outcome" where
  "run nats clk events S =
     (case announce nats clk S of
        (S1, sent, Inl e) \<Rightarrow> (S1, sent, Crashed e)
      | (S1, sent, Inr _) \<Rightarrow>
          (case events of
             [] \<Rightarrow> (S1, sent, Waiting)
           | event # events' \<Rightarrow>
               (case event of
                  Timeout \<Rightarrow> apsnd (apfst ((@) sent)) (run nats clk events' S1)
                | Incoming (Some request) (Some reply_channel) \<Rightarrow>
                    (case handle_request nats clk reply_channel request S1 of
                       (S2, sent', Inl e) \<Rightarrow> (S2, sent @ sent', Crashed e)
                     | (S2, sent', Inr _) \<Rightarrow>
                         apsnd (apfst ((@) (sent @ sent'))) (run nats clk events' S2))
                | Incoming _ _ \<Rightarrow> apsnd (apfst ((@) sent)) (run nats clk events' S1)
                | Closed \<Rightarrow> (S1, sent, Stopped)
                | ShutdownRequest \<Rightarrow> (S1, sent, Stopped))))"

declare run.simps [simp del]

end
