(* ===== verification/Council_Invariants.thy ===== *)
theory Council_Invariants
  imports Council_Server "HOL-Library.Multiset"
begin

text \<open>
  The states in which the council waits for its next event, as an inductive relation over the loop of
  \<open>Council_Server\<close>, and what holds in all of them. A property of plans that the operations on plans
  keep (locale \<open>plan_invariant\<close>) holds for every change set in every such state. Two instances: plans
  stay orderly whatever jobs send, as long as the clock moves on between handing work out and serving a
  request, and as long as no job says goodbye every needed value stays a node of its plan, whatever the
  clock does.
\<close>

section \<open>Iteration order\<close>

text \<open>The order in which a hash map is iterated may change when it grows: the next state is any
  rearrangement.\<close>

definition shuffled :: "ChangeSetGraph \<Rightarrow> ChangeSetGraph \<Rightarrow> bool" where
  "shuffled G G' \<longleftrightarrow>
     (\<exists>H. list_all2 (\<lambda>(cs, g) (cs', g'). cs' = cs \<and> mset g' = mset g) G H \<and> mset G' = mset H)"

lemma map_of_shuffle:
  assumes "distinct (map fst xs)" and "mset ys = mset xs"
  shows "map_of ys = map_of xs"
proof -
  have "mset (map fst ys) = mset (map fst xs)" using assms(2) by simp
  then have "distinct (map fst ys)" using assms(1) by (metis mset_eq_imp_distinct_iff)
  moreover have "set ys = set xs" using assms(2) by (metis set_mset_mset)
  ultimately show ?thesis using assms(1) by (simp add: map_of_inject_set)
qed

lemma good_nodes_shuffle:
  assumes "good_nodes clk t g" and "mset g' = mset g"
  shows "good_nodes clk t g'" "plan_of g' = plan_of g"
proof -
  have "mset (map fst g') = mset (map fst g)" "set g' = set g"
    using assms(2) by (simp, metis set_mset_mset)
  then show "good_nodes clk t g'"
    using assms(1) mset_eq_imp_distinct_iff [of "map fst g'" "map fst g"]
    by (auto simp: good_nodes_def list_all_iff)
  show "plan_of g' = plan_of g"
    using map_of_shuffle [of g g'] assms by (simp add: plan_of_def good_nodes_def)
qed

lemma shuffled_good:
  assumes "good_graph clk t G" and "shuffled G G'"
  shows "good_graph clk t G'" "plans_of G' = plans_of G"
proof -
  from assms(2) obtain H where H: "list_all2 (\<lambda>(cs, g) (cs', g'). cs' = cs \<and> mset g' = mset g) G H"
    and G': "mset G' = mset H" by (auto simp: shuffled_def)
  from H assms(1) have "good_graph clk t H \<and> map fst H = map fst G \<and> plans_of H = plans_of G"
  proof (induction G H rule: list_all2_induct)
    case (Cons x xs y ys)
    obtain cs g cs' g' where xy: "x = (cs, g)" "y = (cs', g')" by (cases x; cases y)
    note IH = Cons.IH Cons.hyps Cons.prems
    have "map fst ys = map fst xs" using IH by (simp add: xy)
    then have "fst ` set ys = fst ` set xs" by (metis list.set_map)
    with IH good_nodes_shuffle [of clk t g g'] show ?case by (auto simp: xy plans_of_def fun_eq_iff)
  qed simp
  then have good: "good_graph clk t H" and plans: "plans_of H = plans_of G" by simp_all
  have "distinct (map fst H)" using good by (simp add: good_graph_def)
  then show "plans_of G' = plans_of G"
    using map_of_shuffle [OF _ G'] plans by (simp add: plans_of_def)
  have "mset (map fst G') = mset (map fst H)" "set G' = set H"
    using G' by (simp, metis set_mset_mset)
  then show "good_graph clk t G'"
    using good mset_eq_imp_distinct_iff [of "map fst G'" "map fst H"]
    by (auto simp: good_graph_def list_all_iff)
qed

section \<open>Reachable states\<close>

text \<open>The states at the head of the loop, as long as every request is allowed in the state in which it is
  served.\<close>

inductive reachable :: "bus \<Rightarrow> clock \<Rightarrow> (Council \<Rightarrow> Request \<Rightarrow> bool) \<Rightarrow> Council \<Rightarrow> bool"
  for nats clk allowed where
  started: "reachable nats clk allowed Council_default"
| announced: "reachable nats clk allowed S \<Longrightarrow> announce nats clk S = (S', sent, Inr ()) \<Longrightarrow>
    reachable nats clk allowed S'"
| served: "reachable nats clk allowed S \<Longrightarrow> announce nats clk S = (S1, sent, Inr ()) \<Longrightarrow>
    allowed S1 request \<Longrightarrow> handle_request nats clk c request S1 = (S', sent', Inr ()) \<Longrightarrow>
    reachable nats clk allowed S'"
| rehashed: "reachable nats clk allowed S \<Longrightarrow> shuffled (complete_graph S) G \<Longrightarrow>
    reachable nats clk allowed (S\<lparr>complete_graph := G\<rparr>)"

definition allowed_event :: "(Request \<Rightarrow> bool) \<Rightarrow> event \<Rightarrow> bool" where
  "allowed_event allowed e = (case e of
     Incoming (Some request) (Some c) \<Rightarrow> allowed request | _ \<Rightarrow> True)"

text \<open>The loop passes through these states only.\<close>

lemma run_reachable:
  assumes "reachable nats clk (\<lambda>_. allowed) S" and "list_all (allowed_event allowed) events"
    and "run nats clk events S = (S', sent, Waiting)"
  shows "reachable nats clk (\<lambda>_. allowed) S'"
  using assms
proof (induction events arbitrary: S sent)
  case Nil
  then show ?case
    by (simp add: run.simps [of _ _ "[]"] split: prod.splits sum.splits) (auto intro: announced)
next
  case (Cons e es)
  obtain S1 out r where a: "announce nats clk S = (S1, out, r)" by (cases "announce nats clk S")
  have r: "r = Inr ()" using Cons.prems(3) a by (cases r) (auto simp: run.simps [of _ _ "e # es"])
  note run = Cons.prems(3) [unfolded run.simps [of _ _ "e # es"]]
  have S1: "reachable nats clk (\<lambda>_. allowed) S1" using Cons.prems(1) a r by (auto intro: announced)
  have go_on: "reachable nats clk (\<lambda>_. allowed) S'"
    if "reachable nats clk (\<lambda>_. allowed) S2" "apsnd (apfst f) (run nats clk es S2) = (S', sent, Waiting)" for f S2
    using that Cons.IH [OF that(1)] Cons.prems(2) by (cases "run nats clk es S2") auto
  show ?case
  proof (cases "\<exists>request c. e = Incoming (Some request) (Some c)")
    case True
    then obtain request c where e: "e = Incoming (Some request) (Some c)" by blast
    obtain S2 out2 r2 where h: "handle_request nats clk c request S1 = (S2, out2, r2)"
      by (cases "handle_request nats clk c request S1")
    have r2: "r2 = Inr ()" using run a r e h by (cases r2) auto
    have "reachable nats clk (\<lambda>_. allowed) S2"
      using served [OF Cons.prems(1)] a r h r2 Cons.prems(2) by (auto simp: e allowed_event_def)
    then show ?thesis using go_on run a r e h r2 by auto
  next
    case False
    then show ?thesis using go_on [OF S1] run a r by (auto split: event.splits option.splits)
  qed
qed

section \<open>Invariants of plans\<close>

definition keeps :: "(plan \<Rightarrow> bool) \<Rightarrow> clock \<Rightarrow> Council \<Rightarrow> bool" where
  "keeps Q clk S \<longleftrightarrow> good_graph clk (readings S) (complete_graph S)
     \<and> (\<forall>cs p. plans_of (complete_graph S) cs = Some p \<longrightarrow> Q p)"

locale plan_invariant =
  fixes Q :: "plan \<Rightarrow> bool" and allowed :: "clock \<Rightarrow> Council \<Rightarrow> Request \<Rightarrow> bool"
  assumes empty: "Q Map.empty"
    and fetch: "Q p \<Longrightarrow> Q (plan_fetch p)"
    and merge: "Q p \<Longrightarrow> Q (plan_merge c new p)"
    and finish: "Q p \<Longrightarrow> plan_finish c i p = Inr (p', ws) \<Longrightarrow> Q p'"
    and fail: "Q p \<Longrightarrow> plan_fail c i p = Inr (p', ns) \<Longrightarrow> Q p'"
    and bye: "allowed clk S (Bye cs) \<Longrightarrow> Q p \<Longrightarrow> Q (plan_bye c p)"
    and overlooked: "allowed clk S request \<Longrightarrow>
      moved_on clk (readings S) (complete_graph S) \<or> (\<forall>p q. plan_le p q \<longrightarrow> Q q \<longrightarrow> Q p)"
begin

lemma keeps_good: "keeps Q clk S \<Longrightarrow> good_graph clk (readings S) (complete_graph S)"
  by (simp add: keeps_def)

lemma keeps_announce:
  assumes "mono clk" and "keeps Q clk S" and "announce nats clk S = (S', sent, Inr ())"
  shows "keeps Q clk S'"
proof -
  obtain rs G t where f: "fetch_all_available clk (readings S) (complete_graph S) = (rs, G, t)"
    by (cases "fetch_all_available clk (readings S) (complete_graph S)")
  have "complete_graph S' = G" "readings S' = t"
    using assms(3) f by (auto simp: announce_def Let_def split: prod.splits sum.splits)
  with fetch_all_refines [OF assms(1) keeps_good [OF assms(2)] f] assms(2) fetch show ?thesis
    by (auto simp: keeps_def)
qed

lemma keeps_leads_to:
  assumes "keeps Q clk S" and "allowed clk S request"
    and to: "graph_leads_to clk cs (readings S) (complete_graph S) (readings S') (complete_graph S') q"
    and "\<And>p. q = Some p \<Longrightarrow> Q p"
  shows "keeps Q clk S'"
proof -
  obtain q' where q': "plans_of (complete_graph S') = (plans_of (complete_graph S))(cs := q')"
    "rel_option plan_le q' q" "moved_on clk (readings S) (complete_graph S) \<longrightarrow> q' = q"
    using to by (auto simp: graph_leads_to_def)
  have "Q p" if "q' = Some p" for p
    using overlooked [OF assms(2)]
  proof
    assume "moved_on clk (readings S) (complete_graph S)"
    with q'(3) that assms(4) show ?thesis by simp
  next
    assume "\<forall>p q. plan_le p q \<longrightarrow> Q q \<longrightarrow> Q p"
    with q'(2) that assms(4) show ?thesis by (cases q) auto
  qed
  with assms(1) to q'(1) show ?thesis by (auto simp: keeps_def graph_leads_to_def split: if_splits)
qed

lemma keeps_handle:
  assumes "mono clk" and "keeps Q clk S" and "allowed clk S request"
    and "handle_request nats clk c request S = (S', sent, Inr ())"
  shows "keeps Q clk S'"
proof (cases request)
  case (ValueDependencyGraph cs new)
  obtain G t where m: "merge_dependency_graph clk (readings S) c new cs (complete_graph S) = (G, t)"
    by (cases "merge_dependency_graph clk (readings S) c new cs (complete_graph S)")
  with assms(4) ValueDependencyGraph have "complete_graph S' = G" "readings S' = t"
    by (auto simp: register_graph_from_job_def)
  with merge_refines [OF assms(1) keeps_good [OF assms(2)] m] assms(2) merge empty show ?thesis
    by (intro keeps_leads_to [OF assms(2,3)]) (auto simp: keeps_def split: option.splits)
next
  case (ProcessedValue cs i)
  obtain G t r where m: "mark_node_as_processed clk (readings S) c cs i (complete_graph S) = (G, t, r)"
    by (cases "mark_node_as_processed clk (readings S) c cs i (complete_graph S)")
  have S': "complete_graph S' = G" "readings S' = t" "r \<noteq> Inl e" for e
    using m assms(4) ProcessedValue by (auto simp: job_processed_a_value_def split: sum.splits)
  from finish_refines [OF assms(1) keeps_good [OF assms(2)] m] S'
  obtain p p' ws where p: "plans_of (complete_graph S) cs = Some p" "plan_finish c i p = Inr (p', ws)"
    "graph_leads_to clk cs (readings S) (complete_graph S) t G (if p' = Map.empty then None else Some p')"
    by (auto split: option.splits sum.splits)
  have "Q p'" using assms(2) p(1) finish [OF _ p(2)] by (auto simp: keeps_def)
  with p(3) show ?thesis
    by (intro keeps_leads_to [OF assms(2,3)]) (auto simp: S' split: if_splits)
next
  case (ValueProcessingFailed cs i)
  obtain G r where m: "remove_node_and_dependents c cs i (complete_graph S) = (G, r)"
    by (cases "remove_node_and_dependents c cs i (complete_graph S)")
  with assms(4) ValueProcessingFailed
  have "complete_graph S' = G" "readings S' = readings S" "r \<noteq> Inl e" for e
    by (auto simp: job_failed_processing_a_value_def split: sum.splits)
  with fail_refines [OF keeps_good [OF assms(2)] m assms(1)] assms(2) show ?thesis
    by (auto simp: keeps_def split: option.splits sum.splits prod.splits if_splits
        dest: fail [rotated])
next
  case (Bye cs)
  obtain G t where m: "remove_channel clk (readings S) cs c (complete_graph S) = Inr (G, t)"
    "graph_leads_to clk cs (readings S) (complete_graph S) t G
      (map_option (plan_bye c) (plans_of (complete_graph S) cs))"
    by (rule bye_refines [OF assms(1) keeps_good [OF assms(2)]])
  have S': "complete_graph S' = G" "readings S' = t"
    using m(1) assms(4) Bye by (auto simp: job_is_going_away_def)
  show ?thesis
    by (rule keeps_leads_to [OF assms(2,3) m(2) [folded S']])
      (use assms(2,3) bye Bye in \<open>auto simp: keeps_def\<close>)
qed (use assms(2,4) in \<open>auto simp: keeps_def job_would_like_to_create_attribute_values_def
    job_finished_value_creation_def split: prod.splits\<close>)

lemma reachable_keeps:
  assumes "mono clk" and "reachable nats clk (allowed clk) S"
  shows "keeps Q clk S"
  using assms(2)
proof induction
  case started
  then show ?case by (simp add: keeps_def Council_default_def plans_of_def)
next
  case (rehashed S G)
  then show ?case
    using shuffled_good [of clk "readings S" "complete_graph S" G] by (auto simp: keeps_def)
qed (blast intro: keeps_announce [OF assms(1)] keeps_handle [OF assms(1)])+

end

text \<open>The clock has moved on since the work under way was handed out. A reading that is the same as the one at
  which work was handed out hides from \<open>is_processing_stale\<close> what the request changes.\<close>

definition on_time :: "clock \<Rightarrow> Council \<Rightarrow> Request \<Rightarrow> bool" where
  "on_time clk S request \<longleftrightarrow> moved_on clk (readings S) (complete_graph S)"

interpretation orderly_plans: plan_invariant orderly on_time
  by unfold_locales
    (auto intro: orderly_fetch orderly_merge orderly_bye dest: orderly_finish orderly_fail simp: on_time_def)

definition no_bye :: "Council \<Rightarrow> Request \<Rightarrow> bool" where
  "no_bye S request = (case request of Bye _ \<Rightarrow> False | _ \<Rightarrow> True)"

interpretation closed_plans: plan_invariant closed "\<lambda>_. no_bye"
  by unfold_locales
    (auto intro: closed_fetch closed_merge closed_le dest: closed_finish closed_fail simp: no_bye_def)

text \<open>What every state has, whatever arrives.\<close>

interpretation any_plans: plan_invariant "\<lambda>_. True" "\<lambda>_ _ _. True"
  by unfold_locales auto

end
