(* ===== verification/Council_Liveness.thy ===== *)
theory Council_Liveness
  imports Council_Invariants
begin

text \<open>
  The work registered with the council gets done. As long as the jobs report what they are told to
  process, in whatever order, every turn (hand out what can be started, one job reports) removes one
  value from a plan without cycles, no report is refused, and after as many turns as there were values
  nothing is left.
\<close>

section \<open>Calm plans\<close>

definition calm :: "plan \<Rightarrow> bool" where
  "calm p \<longleftrightarrow> finite (dom p) \<and> acyclic (needed_by p) \<and> closed p \<and> orderly p
     \<and> (\<forall>i v. p i = Some v \<longrightarrow> \<not> outdated v)"

lemma needed_by_fetch [simp]: "needed_by (plan_fetch p) = needed_by p"
  by (auto simp: needed_by_def plan_fetch_def)

lemma dom_fetch [simp]: "dom (plan_fetch p) = dom p"
  by (auto simp: plan_fetch_def)

lemma calm_fetch:
  assumes "calm p"
  shows "calm (plan_fetch p)"
    and "dom p \<noteq> {} \<Longrightarrow> \<exists>i v c. plan_fetch p i = Some v \<and> worker v = Some c"
proof -
  have "\<not> outdated v" if "plan_fetch p i = Some v" for i v
    using that assms by (auto simp: plan_fetch_def calm_def start_def split: if_splits)
  then show "calm (plan_fetch p)"
    using assms by (auto simp: calm_def closed_fetch orderly_fetch)
  assume "dom p \<noteq> {}"
  with assms obtain i v where v: "p i = Some v" "worker v \<noteq> None \<or> can_start v"
    by (auto simp: calm_def orderly_def intro: progress)
  then have "plan_fetch p i = Some (start v)" "worker (start v) \<noteq> None"
    by (auto simp: plan_fetch_def start_def can_start_def)
  then show "\<exists>i v c. plan_fetch p i = Some v \<and> worker v = Some c" by blast
qed

lemma calm_finish:
  assumes p: "calm p" and v: "p i = Some v" "worker v = Some c"
  obtains p' where "plan_finish c i p = Inr (p', insert c (set (waiting v)))" "calm p'"
    "dom p' = dom p - {i}"
proof -
  let ?p = "\<lambda>j. if j = i then None else map_option (release i) (p j)"
  have ok: "\<not> outdated v" "needs v = {}"
    using p v orderlyD(2) [of p i v] by (auto simp: calm_def)
  then have f: "plan_finish c i p = Inr (?p, insert c (set (waiting v)))"
    using v by (simp add: plan_finish_def)
  have dom: "dom ?p = dom p - {i}" by (auto split: if_splits)
  have "needed_by ?p \<subseteq> needed_by p"
    by (auto simp: needed_by_def release_def split: if_splits)
  then have "acyclic (needed_by ?p)" using p by (auto simp: calm_def intro: acyclic_subset)
  moreover have "\<not> outdated w" if w: "?p j = Some w" for j w
  proof -
    from w obtain u where u: "p j = Some u" "w = release i u" by (auto split: if_splits)
    have "\<not> outdated u" using p u(1) by (auto simp: calm_def)
    moreover have "i \<in> needs u \<Longrightarrow> worker u = None"
      using orderlyD(2) [of p j u] u(1) p \<open>\<not> outdated u\<close>
      by (cases "worker u") (auto simp: calm_def)
    ultimately show ?thesis by (auto simp: u(2) release_def)
  qed
  moreover have "finite (dom ?p)" using p dom by (simp add: calm_def)
  ultimately have "calm ?p"
    using p f closed_finish orderly_finish unfolding calm_def by blast
  then show thesis by (rule that [OF f _ dom])
qed

section \<open>Turns\<close>

text \<open>One turn: the available work is handed out and one of the jobs at work, chosen by \<open>pick\<close>,
  reports that it is done.\<close>

fun turns ::
  "clock \<Rightarrow> Id \<Rightarrow> (ChangeSetGraph \<Rightarrow> channel \<times> Id) \<Rightarrow> nat \<Rightarrow> nat \<Rightarrow> ChangeSetGraph \<Rightarrow>
   (CouncilError, ChangeSetGraph) result" where
  "turns clk cs pick t 0 G = Inr G"
| "turns clk cs pick t (Suc n) G =
     (let (available, G1, t1) = fetch_all_available clk t G; (c, i) = pick G1
      in case mark_node_as_processed clk t1 c cs i G1 of
           (G2, t2, Inl e) \<Rightarrow> Inl e
         | (G2, t2, Inr reply_channels) \<Rightarrow> turns clk cs pick t2 n G2)"

definition at_work :: "ChangeSetGraph \<Rightarrow> Id \<Rightarrow> channel \<Rightarrow> Id \<Rightarrow> bool" where
  "at_work G cs c i \<longleftrightarrow> (\<exists>g m. map_of G cs = Some g \<and> map_of g i = Some m
     \<and> processing_reply_channel m = Some c)"

definition picks :: "(ChangeSetGraph \<Rightarrow> channel \<times> Id) \<Rightarrow> Id \<Rightarrow> bool" where
  "picks pick cs \<longleftrightarrow>
     (\<forall>G. (\<exists>c i. at_work G cs c i) \<longrightarrow> (case pick G of (c, i) \<Rightarrow> at_work G cs c i))"

lemma at_work_plan: "at_work G cs c i \<longleftrightarrow> (\<exists>p v. plans_of G cs = Some p \<and> p i = Some v \<and> worker v = Some c)"
  by (auto simp: at_work_def plans_of_apply plan_of_apply view_of_sel)

lemma turn:
  assumes clk: "mono clk" and G: "good_graph clk t G" and p: "plans_of G cs = Some p" "calm p"
    and ne: "dom p \<noteq> {}" and pick: "picks pick cs"
  obtains G' t' where "\<And>n. turns clk cs pick t (Suc n) G = turns clk cs pick t' n G'"
    "good_graph clk t' G'"
    "(case plans_of G' cs of None \<Rightarrow> card (dom p) = 1
      | Some p' \<Rightarrow> calm p' \<and> dom p' \<noteq> {} \<and> Suc (card (dom p')) = card (dom p))"
proof -
  obtain rs G1 t1 where f: "fetch_all_available clk t G = (rs, G1, t1)"
    by (cases "fetch_all_available clk t G")
  note F = fetch_all_refines [OF clk G f]
  have p1: "plans_of G1 cs = Some (plan_fetch p)" using F(1) p(1) by simp
  obtain c i where ci: "pick G1 = (c, i)" by (cases "pick G1")
  have "\<exists>c i. at_work G1 cs c i"
    using calm_fetch(2) [OF p(2) ne] p1 by (auto simp: at_work_plan)
  then have "at_work G1 cs c i" using pick ci unfolding picks_def by (metis case_prod_conv)
  then obtain v where v: "plan_fetch p i = Some v" "worker v = Some c"
    using p1 by (auto simp: at_work_plan)
  obtain p' where p': "plan_finish c i (plan_fetch p) = Inr (p', insert c (set (waiting v)))"
    "calm p'" "dom p' = dom p - {i}"
    using calm_finish [OF calm_fetch(1) [OF p(2)] v] by auto
  obtain G2 t2 r where m: "mark_node_as_processed clk t1 c cs i G1 = (G2, t2, r)"
    by (cases "mark_node_as_processed clk t1 c cs i G1")
  from finish_refines [OF clk F(2) m] p1 p'(1)
  obtain wl where M0: "r = Inr wl"
    "graph_leads_to clk cs t1 G1 t2 G2 (if p' = Map.empty then None else Some p')"
    by auto
  have "plans_of G2 = (plans_of G1)(cs := if p' = Map.empty then None else Some p')"
    by (rule graph_leads_to_up_to_date [OF M0(2)]) (use p'(2) in \<open>auto simp: calm_def split: if_splits\<close>)
  with M0 have M: "r = Inr wl" "good_graph clk t2 G2"
    "plans_of G2 = (plans_of G1)(cs := if p' = Map.empty then None else Some p')"
    by (simp_all add: graph_leads_toD(1) [OF M0(2)])
  have i: "i \<in> dom p" using v(1) by (auto simp: plan_fetch_def)
  have fin: "finite (dom p)" using p(2) by (simp add: calm_def)
  have "Suc (card (dom p')) = card (dom p)" using card_Suc_Diff1 [OF fin i] p'(3) by simp
  then have "(case plans_of G2 cs of None \<Rightarrow> card (dom p) = 1
      | Some p' \<Rightarrow> calm p' \<and> dom p' \<noteq> {} \<and> Suc (card (dom p')) = card (dom p))"
    using M(3) p'(2) by (cases "p' = Map.empty") auto
  moreover have "turns clk cs pick t (Suc n) G = turns clk cs pick t2 n G2" for n
    by (simp add: f ci m M(1))
  ultimately show thesis using that M(2) by blast
qed

lemma turns_drain:
  assumes clk: "mono clk" and "good_graph clk t G" and pick: "picks pick cs"
    and "plans_of G cs = Some p" and "calm p" and "dom p \<noteq> {}"
  shows "\<exists>G'. turns clk cs pick t (card (dom p)) G = Inr G' \<and> plans_of G' cs = None"
  using assms(2,4-6)
proof (induction "card (dom p)" arbitrary: t G p)
  case 0
  then show ?case by (auto simp: calm_def)
next
  case (Suc n)
  obtain G' t' where T: "\<And>n. turns clk cs pick t (Suc n) G = turns clk cs pick t' n G'"
    "good_graph clk t' G'"
    "(case plans_of G' cs of None \<Rightarrow> card (dom p) = 1
      | Some p' \<Rightarrow> calm p' \<and> dom p' \<noteq> {} \<and> Suc (card (dom p')) = card (dom p))"
    using turn [OF clk Suc.prems(1,2,3,4) pick] by blast
  have eq: "turns clk cs pick t (card (dom p)) G = turns clk cs pick t' n G'"
    using T(1) Suc.hyps(2) by metis
  show ?case
  proof (cases "plans_of G' cs")
    case None
    with T(3) Suc.hyps(2) have "n = 0" by simp
    with eq None show ?thesis by simp
  next
    case (Some p')
    with T(3) have "calm p'" "dom p' \<noteq> {}" "n = card (dom p')" using Suc.hyps(2) by auto
    with Suc.hyps(1) [OF this(3) T(2) Some] eq show ?thesis by simp
  qed
qed

end
