(* ===== verification/Council_Queue.thy ===== *)
theory Council_Queue
  imports Council_Graph
begin

text \<open>
  The queue of jobs that want to create values, seen as a line of which at most one job has its turn
  (locale \<open>turn_queue\<close>). Whatever implements the interface calls one at a time and in order, however joining,
  calling, finishing and quitting follow each other; \<open>ValueCreationQueue\<close> does.
\<close>

datatype 'c turn_event = Join 'c | Call | Finish 'c | Quit 'c

text \<open>What a sequence of events does to a line: who is called, and the line at the end.\<close>

fun take_turns :: "('c \<Rightarrow> 'q \<Rightarrow> 'q) \<Rightarrow> ('q \<Rightarrow> 'q \<times> 'c option) \<Rightarrow> ('c \<Rightarrow> 'q \<Rightarrow> 'q \<times> 'r) \<Rightarrow> ('c \<Rightarrow> 'q \<Rightarrow> 'q) \<Rightarrow>
    'c turn_event list \<Rightarrow> 'q \<Rightarrow> 'c list \<times> 'q" where
  "take_turns join call finish quit [] q = ([], q)"
| "take_turns join call finish quit (Join c # es) q = take_turns join call finish quit es (join c q)"
| "take_turns join call finish quit (Call # es) q =
     (case call q of
        (q', None) \<Rightarrow> take_turns join call finish quit es q'
      | (q', Some c) \<Rightarrow> apfst (Cons c) (take_turns join call finish quit es q'))"
| "take_turns join call finish quit (Finish c # es) q =
     take_turns join call finish quit es (fst (finish c q))"
| "take_turns join call finish quit (Quit c # es) q = take_turns join call finish quit es (quit c q)"

fun joined :: "'c turn_event list \<Rightarrow> 'c list" where
  "joined [] = []"
| "joined (Join c # es) = c # joined es"
| "joined (_ # es) = joined es"

lemma joined_append [simp]: "joined (es @ es') = joined es @ joined es'"
  by (induction es rule: joined.induct) auto

lemma take_turns_append:
  "take_turns join call finish quit (es @ es') q =
     (let (cs, q1) = take_turns join call finish quit es q;
          (cs', q2) = take_turns join call finish quit es' q1
      in (cs @ cs', q2))"
  by (induction join call finish quit es q rule: take_turns.induct)
    (auto split: prod.splits option.splits)

locale turn_queue =
  fixes join :: "'c \<Rightarrow> 'q \<Rightarrow> 'q"
    and call :: "'q \<Rightarrow> 'q \<times> 'c option"
    and finish :: "'c \<Rightarrow> 'q \<Rightarrow> 'q \<times> ('e, unit) result"
    and quit :: "'c \<Rightarrow> 'q \<Rightarrow> 'q"
    and line :: "'q \<Rightarrow> 'c list"
    and holder :: "'q \<Rightarrow> 'c option"
  assumes join: "line (join c q) = line q @ [c]" "holder (join c q) = holder q"
    and call_busy: "holder q \<noteq> None \<Longrightarrow> call q = (q, None)"
    and call_idle: "holder q = None \<Longrightarrow> snd (call q) = (case line q of [] \<Rightarrow> None | c # cs \<Rightarrow> Some c)
      \<and> holder (fst (call q)) = snd (call q) \<and> line (fst (call q)) = tl (line q)"
    and finish_own: "holder q = Some c \<Longrightarrow> snd (finish c q) = Inr ()
      \<and> holder (fst (finish c q)) = None \<and> line (fst (finish c q)) = line q"
    and finish_other: "holder q \<noteq> Some c \<Longrightarrow> fst (finish c q) = q \<and> \<not> is_ok (snd (finish c q))"
    and quit: "line (quit c q) = filter (\<lambda>d. d \<noteq> c) (line q)"
      "holder (quit c q) = (if holder q = Some c then None else holder q)"
begin

abbreviation run_turns :: "'c turn_event list \<Rightarrow> 'q \<Rightarrow> 'c list \<times> 'q" where
  "run_turns \<equiv> take_turns join call finish quit"

lemma call_line:
  "line q = (case snd (call q) of None \<Rightarrow> [] | Some c \<Rightarrow> [c]) @ line (fst (call q))"
  by (cases "holder q") (auto simp: call_busy dest!: call_idle split: list.splits)

text \<open>Everybody who was in line or joined it and did not quit was called or is in line, in that order.\<close>

lemma first_come_first_served:
  assumes "\<And>c. Quit c \<in> set es \<Longrightarrow> \<not> P c" and "run_turns es q = (cs, q')"
  shows "filter P (cs @ line q') = filter P (line q @ joined es)"
  using assms
proof (induction es arbitrary: q cs)
  case (Cons e es)
  show ?case
  proof (cases e)
    case (Join c)
    with Cons.IH [of "join c q" cs] Cons.prems show ?thesis by (simp add: join)
  next
    case Call
    obtain q1 r where c: "call q = (q1, r)" by (cases "call q")
    obtain cs1 where t: "run_turns es q1 = (cs1, q')" and "cs = (case r of None \<Rightarrow> [] | Some c \<Rightarrow> [c]) @ cs1"
      using Cons.prems(2) c Call by (cases "run_turns es q1") (auto split: option.splits)
    note this(2)
    moreover have "line q = (case r of None \<Rightarrow> [] | Some c \<Rightarrow> [c]) @ line q1"
      using call_line [of q] c by simp
    moreover have "filter P (cs1 @ line q') = filter P (line q1 @ joined es)"
      using Cons.IH [OF _ t] Cons.prems(1) by simp
    ultimately show ?thesis by (simp add: Call)
  next
    case (Finish c)
    have "line (fst (finish c q)) = line q"
      using finish_own [of q c] finish_other [of q c] by (cases "holder q = Some c") simp_all
    with Cons.IH [of "fst (finish c q)" cs] Cons.prems Finish show ?thesis by simp
  next
    case (Quit c)
    have "filter P (line (quit c q)) = filter P (line q)"
      using Cons.prems(1) [of c] Quit by (simp add: quit) (metis (mono_tags, lifting) filter_cong)
    with Cons.IH [of "quit c q" cs] Cons.prems Quit show ?thesis by simp
  qed
qed simp

text \<open>Nobody is called while somebody has the turn.\<close>

lemma one_at_a_time:
  assumes "holder q = Some c" and "Finish c \<notin> set es" and "Quit c \<notin> set es"
  shows "fst (run_turns es q) = [] \<and> holder (snd (run_turns es q)) = Some c"
  using assms
proof (induction es arbitrary: q)
  case (Cons e es)
  then show ?case by (cases e) (auto simp: join call_busy finish_other quit)
qed simp

end

interpretation value_creation: turn_queue push fetch_next finished_processing
  ValueCreationQueue_remove queue processing
  by unfold_locales
    (auto simp: push_def fetch_next_def finished_processing_def ValueCreationQueue_remove_def
      is_busy_def split: list.split option.split intro: filter_cong)

end
