(* ===== verification/Council_Properties.thy ===== *)
theory Council_Properties
  imports Council_Liveness Council_Queue
begin

text \<open>
  The properties of the council server, with witnesses on a small registered graph: value 2 depends on
  value 1, value 3 on both, all wanted by one job. The clock of the witnesses is the successor function.
\<close>

section \<open>A sample\<close>

definition sample_request :: "(Id \<times> Id list) list" where
  "sample_request = [(2, [1]), (3, [1, 2])]"

definition sample_council :: ChangeSetGraph where
  "sample_council = fst (merge_dependency_graph Suc 0 ''a'' sample_request 9 [])"

definition sample_time :: nat where
  "sample_time = snd (merge_dependency_graph Suc 0 ''a'' sample_request 9 [])"

abbreviation sample_plan :: plan where
  "sample_plan \<equiv> plan_merge ''a'' sample_request Map.empty"

definition first_worker :: "Id \<Rightarrow> ChangeSetGraph \<Rightarrow> channel \<times> Id" where
  "first_worker cs G =
     (case map_of G cs of
        None \<Rightarrow> ([], 0)
      | Some g \<Rightarrow>
          (case find (\<lambda>(i, m). map_of g i = Some m \<and> processing_reply_channel m \<noteq> None) g of
             None \<Rightarrow> ([], 0)
           | Some (i, m) \<Rightarrow>
               (case processing_reply_channel m of None \<Rightarrow> ([], 0) | Some c \<Rightarrow> (c, i))))"

lemma find_SomeD: "find P xs = Some x \<Longrightarrow> P x"
  by (induction xs) (auto split: if_splits)

lemma picks_first_worker [simp]: "picks (first_worker cs) cs"
  unfolding picks_def
proof (intro allI impI)
  fix G assume "\<exists>c i. at_work G cs c i"
  then obtain g i m where g: "map_of G cs = Some g" "map_of g i = Some m"
    "processing_reply_channel m \<noteq> None" by (auto simp: at_work_def)
  let ?P = "\<lambda>(i, m). map_of g i = Some m \<and> processing_reply_channel m \<noteq> None"
  have "(i, m) \<in> set g" using g(2) by (rule map_of_SomeD)
  with g have "find ?P g \<noteq> None" by (auto simp: find_None_iff)
  then obtain j n where f: "find ?P g = Some (j, n)" by auto
  then have "?P (j, n)" by (rule find_SomeD)
  with f g show "case first_worker cs G of (c, i) \<Rightarrow> at_work G cs c i"
    by (auto simp: first_worker_def at_work_def)
qed

lemma acyclic_rank: "(\<And>d i. (d, i) \<in> r \<Longrightarrow> f d < (f i :: nat)) \<Longrightarrow> acyclic r"
  by (rule wf_acyclic, rule wf_subset [OF wf_measure [of f]]) auto

lemma calm_registered:
  assumes "\<And>d i. d \<in> new_needs new i \<Longrightarrow> f d < (f i :: nat)"
  shows "calm (plan_merge c new Map.empty)"
proof -
  have "finite (touched new)" by (auto simp: touched_def)
  moreover have "dom (plan_merge c new Map.empty) = touched new"
    by (auto simp: plan_merge_def split: if_splits)
  moreover have "acyclic (needed_by (plan_merge c new Map.empty))"
    by (rule acyclic_rank [of _ f])
      (auto simp: needed_by_def plan_merge_def want_def blank_def assms split: if_splits)
  moreover have "\<not> outdated v" if "plan_merge c new Map.empty i = Some v" for i v
    using that by (auto simp: plan_merge_def want_def blank_def split: if_splits)
  ultimately show ?thesis
    unfolding calm_def using closed_merge orderly_merge orderly_empty by metis
qed

lemma mono_Suc [simp]: "mono Suc"
  by (simp add: mono_def)

lemma sample_good:
  "good_graph Suc sample_time sample_council" "plans_of sample_council = [9 \<mapsto> sample_plan]"
  using graph_leads_toD [OF merge_refines [of Suc 0 "[]" "''a''" sample_request 9 sample_council sample_time]]
  by (simp_all add: sample_council_def sample_time_def plans_of_def [of "[]"] moved_on_def)

lemma sample_good_plan: "plans_of sample_council 9 = Some sample_plan"
  by (simp add: sample_good(2))

lemma sample_calm: "calm sample_plan"
  by (rule calm_registered [of _ unat])
    (auto simp: new_needs_def sample_request_def split: if_splits)

lemma sample_dom: "dom sample_plan = {1, 2, 3}"
  by (auto simp: plan_merge_def touched_def sample_request_def split: if_splits)

section \<open>Work gets done\<close>

text \<open>C3: Registered work is done. When a change set's values form a graph without cycles in which
  every needed value is registered, every value has a job, a value in work needs nothing and no work under
  way is outdated (\<open>calm\<close>), then, as long as the jobs only report the values they were told to process,
  whichever of them reports next, no report is refused and after as many reports as there are values the
  change set is done and forgotten. The clock may give the same reading any number of times.\<close>

theorem council_drains:
  assumes "mono clk" and "good_graph clk t G" and "picks pick cs"
    and "plans_of G cs = Some p" and "calm p" and "dom p \<noteq> {}"
  shows "\<exists>G'. turns clk cs pick t (card (dom p)) G = Inr G' \<and> plans_of G' cs = None"
  by (rule turns_drain [OF assms])

theorem council_drains_witness:
  "\<exists>G'. turns Suc 9 (first_worker 9) sample_time 3 sample_council = Inr G' \<and> plans_of G' 9 = None"
proof -
  have n: "card (dom sample_plan) = 3" "dom sample_plan \<noteq> {}" unfolding sample_dom by simp_all
  show ?thesis
    using council_drains [OF mono_Suc sample_good(1) picks_first_worker sample_good_plan
        sample_calm n(2)]
    unfolding n(1) .
qed

section \<open>The operations\<close>

text \<open>C19: Handing out work. \<open>fetch_all_available\<close> tells the first waiting job of every value that needs
  nothing and that nobody works on to process it, and nobody else; the value is then worked on by that
  job, and afterwards no further value can be started.\<close>

theorem fetch_hands_out_ready_values:
  assumes "mono clk" and "good_graph clk t G" and "fetch_all_available clk t G = (rs, G', t')"
  shows "set rs = (\<Union>p \<in> ran (plans_of G). handed_out p)
    \<and> plans_of G' = (\<lambda>cs. map_option plan_fetch (plans_of G cs))
    \<and> (\<forall>p \<in> ran (plans_of G'). handed_out p = {})"
proof -
  note F = fetch_all_refines [OF assms]
  have "handed_out (plan_fetch p) = {}" for p by (auto simp: handed_out_def plan_fetch_def)
  then have "\<forall>p \<in> ran (plans_of G'). handed_out p = {}" by (auto simp: F(1) ran_def)
  with F(1,5) show ?thesis by simp
qed

theorem fetch_hands_out_ready_values_witness:
  "set (fst (fetch_all_available Suc sample_time sample_council)) = {(''a'', 1)}"
proof -
  obtain rs G' t' where f: "fetch_all_available Suc sample_time sample_council = (rs, G', t')"
    by (cases "fetch_all_available Suc sample_time sample_council")
  have ran: "ran (plans_of sample_council) = {sample_plan}"
    by (simp add: sample_good(2))
  have "handed_out sample_plan = {(''a'', 1)}"
    by (auto simp: handed_out_def plan_merge_def want_def blank_def can_start_def new_needs_def
        touched_def sample_request_def split: if_splits) (rule exI [of _ 1], simp)
  with fetch_hands_out_ready_values [OF mono_Suc sample_good(1) f] show ?thesis
    by (simp add: f ran)
qed

text \<open>C20: Registering work. After \<open>merge_dependency_graph\<close> the plan of the change set has the values it
  had, those of the request and those they depend on; a value of the request needs in addition what
  the request says, and waits for the job once. Other values and other change sets are as before. The order
  in which the request lists its values does not matter. Work under way on a value of the request is
  outdated if the clock has moved on since work was handed out; on a clock that never goes back but may
  repeat a reading, work may fail to count as outdated, and nothing else differs.\<close>

theorem merge_adds_request:
  assumes "mono clk" and "good_graph clk t G"
    and "merge_dependency_graph clk t c new cs G = (G', t')"
  shows "\<exists>p'. plans_of G' = (plans_of G)(cs \<mapsto> p')
      \<and> plan_le p' (plan_merge c new (case plans_of G cs of Some p \<Rightarrow> p | None \<Rightarrow> Map.empty))
      \<and> (moved_on clk t G \<longrightarrow> p' = plan_merge c new (case plans_of G cs of Some p \<Rightarrow> p | None \<Rightarrow> Map.empty))
    \<and> good_graph clk t' G'"
  using merge_refines [OF assms] by (auto simp: graph_leads_to_def option_rel_Some2)

theorem merge_adds_request_witness:
  "\<exists>p'. plans_of (fst (merge_dependency_graph Suc sample_time ''b'' [(1, [])] 9 sample_council)) 9
    = Some p' \<and> plan_le p' (plan_merge ''b'' [(1, [])] sample_plan)"
proof -
  obtain G' t' where m: "merge_dependency_graph Suc sample_time ''b'' [(1, [])] 9 sample_council = (G', t')"
    by (cases "merge_dependency_graph Suc sample_time ''b'' [(1, [])] 9 sample_council")
  from merge_adds_request [OF mono_Suc sample_good(1) m] show ?thesis
    by (auto simp: m sample_good_plan)
qed

text \<open>C21: Finishing work. \<open>mark_node_as_processed\<close> refuses a report about an unknown value and a report of
  a job that does not work on the value, and then changes nothing. A report on outdated work puts the
  job back in line. Otherwise the value is removed, no value needs it any more, the jobs that waited
  for it and the one that did it are told, each once, and a change set without values is forgotten. A
  report for an unknown change set panics. On a clock that never goes back the plan is as intended, but for
  work that may fail to count as outdated when a reading is repeated; if the clock has moved on since work
  was handed out, it is exactly as intended.\<close>

theorem finish_removes_or_requeues:
  assumes "mono clk" and "good_graph clk t G"
    and "mark_node_as_processed clk t c cs i G = (G', t', r)"
  shows "(case plans_of G cs of
      None \<Rightarrow> r = Inl Panicked \<and> G' = G
    | Some p \<Rightarrow> (case plan_finish c i p of
        Inl e \<Rightarrow> r = Inl e \<and> G' = G
      | Inr (p', ws) \<Rightarrow> \<exists>wl p''. r = Inr wl \<and> distinct wl \<and> set wl = ws
          \<and> plans_of G' = (plans_of G)(cs := if p'' = Map.empty then None else Some p'')
          \<and> plan_le p'' p' \<and> (moved_on clk t G \<longrightarrow> p'' = p')))
    \<and> good_graph clk t' G'"
proof (cases "plans_of G cs")
  case None
  with finish_refines [OF assms] assms(2) show ?thesis by simp
next
  case (Some p)
  show ?thesis
  proof (cases "plan_finish c i p")
    case (Inl e)
    with Some finish_refines [OF assms] good_graph_mono [OF assms(1,2)] show ?thesis by simp
  next
    case (Inr x)
    then obtain p' ws where f: "plan_finish c i p = Inr (p', ws)" by (cases x) simp
    with Some finish_refines [OF assms]
    obtain wl where wl: "r = Inr wl" "distinct wl" "set wl = ws"
      "graph_leads_to clk cs t G t' G' (if p' = Map.empty then None else Some p')" by auto
    obtain p'' where "plans_of G' = (plans_of G)(cs := if p'' = Map.empty then None else Some p'')"
      "plan_le p'' p'" "moved_on clk t G \<longrightarrow> p'' = p'"
      by (rule graph_leads_to_plan [OF wl(4)])
    with Some f wl graph_leads_toD(1) [OF wl(4)] show ?thesis by auto
  qed
qed

theorem finish_removes_or_requeues_witness:
  "snd (snd (mark_node_as_processed Suc sample_time ''b'' 9 1 sample_council))
    = Inl ShouldNotBeProcessingByJob"
proof -
  obtain G' t' r where m: "mark_node_as_processed Suc sample_time ''b'' 9 1 sample_council = (G', t', r)"
    by (cases "mark_node_as_processed Suc sample_time ''b'' 9 1 sample_council")
  have "plan_finish ''b'' 1 sample_plan = Inl ShouldNotBeProcessingByJob"
    by (simp add: plan_finish_def plan_merge_def touched_def sample_request_def want_def blank_def)
  with finish_removes_or_requeues [OF mono_Suc sample_good(1) m] show ?thesis
    by (simp add: m sample_good_plan)
qed

text \<open>C22: Failing work. \<open>remove_node_and_dependents\<close> removes the value and exactly the values that depend
  on it, directly or through others, and tells every job that waits for one of them about that value,
  and the reporting job about the failed one. It is an error exactly when one of these values is being
  worked on by another job. The loop over the worklist ends, whatever the graph, even with cycles.\<close>

theorem fail_removes_dependents:
  assumes "mono clk" and "good_graph clk t G" and "remove_node_and_dependents c cs i G = (G', r)"
  shows "(case plans_of G cs of
      None \<Rightarrow> r = Inl Panicked \<and> G' = G
    | Some p \<Rightarrow> (case plan_fail c i p of
        Inl e \<Rightarrow> r = Inl e
      | Inr (p', ns) \<Rightarrow> \<exists>nl. r = Inr nl \<and> set nl = ns
          \<and> plans_of G' = (plans_of G)(cs := if p' = Map.empty then None else Some p')))"
  using fail_refines [OF assms(2,3,1)] by blast

theorem fail_removes_dependents_witness:
  "\<exists>nl. snd (remove_node_and_dependents ''a'' 9 3 sample_council) = Inr nl"
proof -
  obtain G' r where m: "remove_node_and_dependents ''a'' 9 3 sample_council = (G', r)"
    by (cases "remove_node_and_dependents ''a'' 9 3 sample_council")
  have "worker v = None" if "sample_plan j = Some v" for j v
    using that by (auto simp: plan_merge_def want_def blank_def split: if_splits)
  then have "\<exists>p' ns. plan_fail ''a'' 3 sample_plan = Inr (p', ns)" by (auto simp: plan_fail_def)
  with fail_removes_dependents [OF mono_Suc sample_good(1) m] show ?thesis
    by (auto simp: m sample_good_plan)
qed

text \<open>C23: A job leaves. \<open>remove_channel\<close> never panics; afterwards no value of the change set waits for
  the job or is worked on by it, and a value that nobody else wants is removed. What else the plan says is
  as intended, but for work that may fail to count as outdated when the clock repeats a reading.\<close>

theorem bye_forgets_job:
  assumes "mono clk" and "good_graph clk t G"
  shows "\<exists>G' t'. remove_channel clk t cs c G = Inr (G', t') \<and> good_graph clk t' G'
    \<and> (case plans_of G cs of
         None \<Rightarrow> plans_of G' = plans_of G
       | Some p \<Rightarrow> \<exists>p'. plans_of G' = (plans_of G)(cs \<mapsto> p') \<and> plan_le p' (plan_bye c p)
           \<and> (moved_on clk t G \<longrightarrow> p' = plan_bye c p))
    \<and> (\<forall>p i v. plans_of G' cs = Some p \<longrightarrow> p i = Some v \<longrightarrow>
         c \<notin> set (waiting v) \<and> worker v \<noteq> Some c \<and> \<not> idle v)"
proof -
  obtain G' t' where b: "remove_channel clk t cs c G = Inr (G', t')"
    "graph_leads_to clk cs t G t' G' (map_option (plan_bye c) (plans_of G cs))"
    by (rule bye_refines [OF assms])
  have gone: "c \<notin> set (waiting w) \<and> worker w \<noteq> Some c \<and> \<not> idle w" if "plan_bye c p i = Some w" for p i w
    using that by (auto simp: plan_bye_def leave_def split: option.splits if_splits)
  have le: "c \<notin> set (waiting v) \<and> worker v \<noteq> Some c \<and> \<not> idle v"
    if le: "plan_le q (plan_bye c p)" and v: "q i = Some v" for q p i v
  proof -
    from plan_leD [OF le v] obtain w where "plan_bye c p i = Some w" "view_le v w" .
    with gone [of p i w] view_leD [of v w] show ?thesis by simp
  qed
  show ?thesis
  proof (cases "plans_of G cs")
    case None
    with b have "plans_of G' = plans_of G" by (auto simp: graph_leads_to_def)
    with b(1) None graph_leads_toD(1) [OF b(2)] show ?thesis by simp
  next
    case (Some p)
    with b(2) obtain p' where p': "plans_of G' = (plans_of G)(cs \<mapsto> p')" "plan_le p' (plan_bye c p)"
      "moved_on clk t G \<longrightarrow> p' = plan_bye c p"
      by (fastforce simp: graph_leads_to_def option_rel_Some2)
    have "\<exists>q. plans_of G' = (plans_of G)(cs \<mapsto> q) \<and> plan_le q (plan_bye c p)
        \<and> (moved_on clk t G \<longrightarrow> q = plan_bye c p)"
      using p' by blast
    with b(1) Some graph_leads_toD(1) [OF b(2)] le [OF p'(2)] show ?thesis by (simp add: p'(1))
  qed
qed

theorem bye_forgets_job_witness:
  "\<exists>G' t'. remove_channel Suc sample_time 9 ''a'' sample_council = Inr (G', t') \<and> plans_of G' 9 = Some Map.empty"
proof -
  have "plan_bye ''a'' sample_plan = Map.empty"
    by (auto simp: plan_bye_def plan_merge_def want_def blank_def leave_def idle_def fun_eq_iff)
  with bye_forgets_job [OF mono_Suc sample_good(1), of 9 "''a''"] plan_le_empty show ?thesis
    by (auto simp: sample_good_plan)
qed

section \<open>Every reachable state\<close>

abbreviation open_bus :: bus where
  "open_bus \<equiv> \<lambda>_ _. True"

lemma publish_open [simp]: "publish_all open_bus ms = (ms, Inr ())"
  by (induction ms) auto

definition sample_state :: Council where
  "sample_state = Council_default\<lparr>complete_graph := sample_council, readings := sample_time\<rparr>"

lemma on_time_default [simp]: "on_time clk Council_default request"
  by (simp add: on_time_def moved_on_def Council_default_def)

lemma sample_reachable:
  assumes "\<And>cs new. allowed Council_default (ValueDependencyGraph cs new)"
  shows "reachable open_bus Suc allowed sample_state"
proof (rule served [OF started])
  show "announce open_bus Suc Council_default = (Council_default, [], Inr ())"
    by (simp add: announce_def Council_default_def ValueCreationQueue_default_def fetch_next_def
        is_busy_def)
  show "allowed Council_default (ValueDependencyGraph 9 sample_request)" by (rule assms)
  show "handle_request open_bus Suc ''a'' (ValueDependencyGraph 9 sample_request) Council_default
      = (sample_state, [], Inr ())"
    by (simp add: register_graph_from_job_def sample_state_def Council_default_def sample_council_def
        sample_time_def split_def Let_def)
qed

text \<open>C13: Whatever jobs send and in whatever order hash maps are iterated, in every reachable state of
  the server a value of a plan has a job that waits for it or works on it, and a value whose work is
  under way and not outdated needs nothing any more. The clock never goes back, and whenever a request is
  served it has moved on since the work under way was handed out; a repeated reading breaks this.\<close>

theorem reachable_plans_orderly:
  assumes "mono clk" and "reachable nats clk (on_time clk) S"
    and "plans_of (complete_graph S) cs = Some p" and "p i = Some v"
  shows "(waiting v \<noteq> [] \<or> worker v \<noteq> None) \<and> (worker v \<noteq> None \<longrightarrow> \<not> outdated v \<longrightarrow> needs v = {})"
proof -
  have "orderly p"
    using orderly_plans.reachable_keeps [OF assms(1,2)] assms(3) by (auto simp: keeps_def)
  from orderlyD [OF this assms(4)] show ?thesis by (auto simp: idle_def)
qed

theorem reachable_plans_orderly_witness:
  "\<exists>v. sample_plan 2 = Some v \<and> waiting v \<noteq> [] \<and> needs v = {1}"
proof -
  obtain v where v: "sample_plan 2 = Some v"
    using sample_dom by (metis domD insertI1 insertI2)
  have w: "worker v = None" "needs v = {1}"
    using v by (auto simp: plan_merge_def want_def blank_def new_needs_def sample_request_def
        split: if_splits)
  have "plans_of (complete_graph sample_state) 9 = Some sample_plan"
    by (simp add: sample_state_def sample_good_plan)
  from reachable_plans_orderly [OF mono_Suc sample_reachable this v] v w show ?thesis by simp
qed

text \<open>C17: As long as no job says goodbye, in every reachable state every value that is still needed is
  itself a value of the plan, so that somebody can process it.\<close>

theorem reachable_plans_closed:
  assumes "mono clk" and "reachable nats clk no_bye S"
    and "plans_of (complete_graph S) cs = Some p" and "p i = Some v" and "d \<in> needs v"
  shows "d \<in> dom p"
proof -
  have "closed p"
    using closed_plans.reachable_keeps [OF assms(1,2)] assms(3) by (auto simp: keeps_def)
  from closedD [OF this assms(4,5)] show ?thesis .
qed

theorem reachable_plans_closed_witness: "1 \<in> dom sample_plan"
proof -
  obtain v where v: "sample_plan 2 = Some v"
    using sample_dom by (metis domD insertI1 insertI2)
  have d: "1 \<in> needs v"
    using v by (auto simp: plan_merge_def want_def blank_def new_needs_def sample_request_def
        split: if_splits)
  have p: "plans_of (complete_graph sample_state) 9 = Some sample_plan"
    by (simp add: sample_state_def sample_good_plan)
  have "reachable open_bus Suc no_bye sample_state"
    by (rule sample_reachable) (simp add: no_bye_def)
  from reachable_plans_closed [OF mono_Suc this p v d] show ?thesis .
qed

text \<open>C7: No report is lost. In every reachable state, when the job that works on a value reports it
  processed, the report is accepted; either the value is gone and the job and everybody who waited for
  the value are told, or the job waits for the value again. The states are those in which whenever a request
  was served the clock, which never goes back, had moved on since the work under way was handed out; the
  reading at the report itself does not matter.\<close>

theorem report_never_lost:
  assumes "mono clk" and "reachable nats clk (on_time clk) S"
    and p: "plans_of (complete_graph S) cs = Some p" "p i = Some v" "worker v = Some c"
  shows "\<exists>G' t' wl. mark_node_as_processed clk (readings S) c cs i (complete_graph S) = (G', t', Inr wl)
    \<and> (set wl = insert c (set (waiting v)) \<and> (\<forall>p'. plans_of G' cs = Some p' \<longrightarrow> p' i = None)
       \<or> (\<exists>p' v'. plans_of G' cs = Some p' \<and> p' i = Some v' \<and> c \<in> set (waiting v')))"
proof -
  have k: "keeps orderly clk S" by (rule orderly_plans.reachable_keeps [OF assms(1,2)])
  obtain G' t' r where m: "mark_node_as_processed clk (readings S) c cs i (complete_graph S) = (G', t', r)"
    by (cases "mark_node_as_processed clk (readings S) c cs i (complete_graph S)")
  note F = finish_refines [OF assms(1) orderly_plans.keeps_good [OF k] m]
  have "orderly p" using k p(1) by (auto simp: keeps_def)
  note o = orderlyD(2) [OF this p(2)]
  show ?thesis
  proof (cases "outdated v")
    case True
    let ?v = "v\<lparr>worker := None, waiting := waiting v @ [c], outdated := False\<rparr>"
    have "plan_finish c i p = Inr (p(i \<mapsto> ?v), {})" using True p(2,3) by (simp add: plan_finish_def)
    with p(1) F obtain wl where wl: "r = Inr wl"
      "graph_leads_to clk cs (readings S) (complete_graph S) t' G' (Some (p(i \<mapsto> ?v)))" by auto
    obtain p' where p': "plans_of G' cs = Some p'" "plan_le p' (p(i \<mapsto> ?v))"
      using wl(2) by (auto simp: graph_leads_to_def option_rel_Some2)
    have "rel_option view_le (p' i) (Some ?v)" using p'(2) by (simp add: plan_le_def) (metis fun_upd_same)
    then obtain v' where v': "p' i = Some v'" "view_le v' ?v" by (auto simp: option_rel_Some2)
    have "c \<in> set (waiting v')" using view_leD(1) [OF v'(2)] by simp
    with m wl(1) p'(1) v'(1) show ?thesis by blast
  next
    case False
    then have "needs v = {}" using o p(3) by simp
    let ?p = "\<lambda>j. if j = i then None else map_option (release i) (p j)"
    have "plan_finish c i p = Inr (?p, insert c (set (waiting v)))"
      using False p(2,3) \<open>needs v = {}\<close> by (simp add: plan_finish_def)
    with p(1) F obtain wl where wl: "r = Inr wl" "set wl = insert c (set (waiting v))"
      "graph_leads_to clk cs (readings S) (complete_graph S) t' G' (if ?p = Map.empty then None else Some ?p)"
      by auto
    have "p' i = None" if p': "plans_of G' cs = Some p'" for p'
    proof -
      obtain p'' where "plans_of G' = (plans_of (complete_graph S))(cs := if p'' = Map.empty then None else Some p'')"
        "plan_le p'' ?p" by (rule graph_leads_to_plan [OF wl(3)])
      with p' have "plan_le p' ?p" by (auto split: if_splits)
      moreover have "i \<notin> dom ?p" by (simp only: domIff simp_thms if_True not_False_eq_True)
      ultimately have "i \<notin> dom p'" using plan_le_dom by blast
      then show ?thesis by (simp add: domIff)
    qed
    with m wl(1,2) show ?thesis by blast
  qed
qed

lemmas council_eval = announce_def fetch_next_def is_busy_def register_graph_from_job_def
  job_processed_a_value_def job_is_going_away_def merge_dependency_graph_def merge_node_def
  merge_entry_def mark_node_as_processed_def remove_channel_def next_to_process_def merge_metadata_def
  NodeMetadata_default_def mark_as_processed_def is_processing_stale_def
  add_wanted_by_reply_channel_def NodeMetadata_remove_channel_def NodeMetadata_is_empty_def
  ValueCreationQueue_remove_def dependencies_satisfied_def wanted_set_def Let_def

text \<open>The state after the work of the sample was handed out.\<close>

lemma sample_announced:
  assumes "\<And>cs new. allowed Council_default (ValueDependencyGraph cs new)"
  obtains S v where "reachable open_bus Suc allowed S"
    "plans_of (complete_graph S) = [9 \<mapsto> plan_fetch sample_plan]"
    "plan_fetch sample_plan 1 = Some v" "worker v = Some ''a''" "waiting v = []" "needs v = {}"
    "good_graph Suc (readings S) (complete_graph S)" "moved_on Suc (readings S) (complete_graph S)"
proof -
  obtain rs G t where f: "fetch_all_available Suc sample_time sample_council = (rs, G, t)"
    by (cases "fetch_all_available Suc sample_time sample_council")
  let ?S = "Council_default\<lparr>complete_graph := G, readings := t\<rparr>"
  have "reachable open_bus Suc allowed ?S"
    by (rule announced [OF sample_reachable [of allowed, OF assms], of _ "map (\<lambda>(c, i). (c, OkToProcess [i])) rs"])
      (simp add: announce_def sample_state_def Council_default_def ValueCreationQueue_default_def
        fetch_next_def is_busy_def f)
  moreover have "plans_of G = [9 \<mapsto> plan_fetch sample_plan]"
    using fetch_all_refines(1) [OF mono_Suc sample_good(1) f] by (auto simp: sample_good(2))
  moreover have "plan_fetch sample_plan 1
      = Some \<lparr>waiting = [], worker = Some ''a'', needs = {}, outdated = False\<rparr>"
    by (simp add: plan_fetch_def plan_merge_def touched_def new_needs_def sample_request_def want_def
        blank_def start_def can_start_def)
  moreover have "moved_on Suc t G"
    using f by (auto simp: sample_council_def sample_time_def sample_request_def council_eval moved_on_def
        moved_def)
  moreover have "good_graph Suc t G" by (rule fetch_all_refines(2) [OF mono_Suc sample_good(1) f])
  ultimately show thesis
    by (intro that [of ?S "\<lparr>waiting = [], worker = Some ''a'', needs = {}, outdated = False\<rparr>"])
      simp_all
qed

theorem report_never_lost_witness:
  "\<exists>S G' t' wl. reachable open_bus Suc (on_time Suc) S
    \<and> mark_node_as_processed Suc (readings S) ''a'' 9 1 (complete_graph S) = (G', t', Inr wl)"
proof -
  obtain S v where S: "reachable open_bus Suc (on_time Suc) S"
    "plans_of (complete_graph S) = [9 \<mapsto> plan_fetch sample_plan]"
    "plan_fetch sample_plan 1 = Some v" "worker v = Some ''a''"
    using sample_announced [of "on_time Suc", OF on_time_default] by blast
  have "plans_of (complete_graph S) 9 = Some (plan_fetch sample_plan)" using S(2) by simp
  from report_never_lost [OF mono_Suc S(1) this S(3,4)]
  obtain G' t' wl where "mark_node_as_processed Suc (readings S) ''a'' 9 1 (complete_graph S) = (G', t', Inr wl)"
    by (elim exE conjE) (rule that)
  with S(1) show ?thesis by blast
qed

text \<open>C18: When the server crashes. With a bus that delivers, a request crashes the server exactly when
  a job that does not have its turn says it is done creating values, when a job reports a value it was
  not told to process, or when it reports a failure for an unknown change set or for a value that a
  value under work by another job depends on. The other requests never do.\<close>

theorem crash_condition:
  assumes "mono clk" and "good_graph clk (readings S) (complete_graph S)"
  shows "is_ok (snd (snd (handle_request open_bus clk c request S))) =
    (case request of
       ValueCreationDone \<Rightarrow> processing (value_create_queue S) = Some c
     | ProcessedValue cs i \<Rightarrow> at_work (complete_graph S) cs c i
     | ValueProcessingFailed cs i \<Rightarrow>
         (\<exists>p. plans_of (complete_graph S) cs = Some p
           \<and> (\<forall>j \<in> dependents p i. \<not> blocked_by_other c p j))
     | _ \<Rightarrow> True)"
proof (cases request)
  case (ProcessedValue cs i)
  obtain G' t' r where m: "mark_node_as_processed clk (readings S) c cs i (complete_graph S) = (G', t', r)"
    by (cases "mark_node_as_processed clk (readings S) c cs i (complete_graph S)")
  have "is_ok r \<longleftrightarrow> at_work (complete_graph S) cs c i"
    using finish_refines [OF assms m]
    by (auto simp: at_work_plan plan_finish_def split: option.splits if_splits)
  then show ?thesis
    by (cases r) (simp_all add: ProcessedValue job_processed_a_value_def m)
next
  case (ValueProcessingFailed cs i)
  obtain G' r where m: "remove_node_and_dependents c cs i (complete_graph S) = (G', r)"
    by (cases "remove_node_and_dependents c cs i (complete_graph S)")
  have "is_ok r \<longleftrightarrow> (\<exists>p. plans_of (complete_graph S) cs = Some p
           \<and> (\<forall>j \<in> dependents p i. \<not> blocked_by_other c p j))"
    using fail_refines [OF assms(2) m assms(1)]
    by (auto simp: plan_fail_def blocked_by_other_def split: option.splits if_splits)
  then show ?thesis
    by (cases r) (simp_all add: ValueProcessingFailed job_failed_processing_a_value_def m)
next
  case (Bye cs)
  obtain G' t' where "remove_channel clk (readings S) cs c (complete_graph S) = Inr (G', t')"
    using bye_refines [OF assms] by blast
  then show ?thesis by (simp add: Bye job_is_going_away_def)
qed (simp_all add: job_would_like_to_create_attribute_values_def register_graph_from_job_def
    job_finished_value_creation_def finished_processing_def split_def Let_def)

theorem crash_condition_witness:
  "\<not> is_ok (snd (snd (handle_request open_bus Suc ''a'' (ProcessedValue 8 1) sample_state)))"
proof -
  have "good_graph Suc (readings sample_state) (complete_graph sample_state)"
    by (simp add: sample_state_def sample_good(1))
  from crash_condition [OF mono_Suc this, of "''a''" "ProcessedValue 8 1"] show ?thesis
    by (simp add: at_work_plan sample_state_def sample_good(2))
qed

section \<open>Creating values\<close>

text \<open>What the events of the loop mean for the line of jobs that want to create values: every turn of the loop
  first calls the next one.\<close>

definition turn_event_of :: "event \<Rightarrow> channel turn_event list" where
  "turn_event_of e = (case e of
       Incoming (Some CreateValues) (Some c) \<Rightarrow> [Join c]
     | Incoming (Some ValueCreationDone) (Some c) \<Rightarrow> [Finish c]
     | Incoming (Some (Bye cs)) (Some c) \<Rightarrow> [Quit c]
     | _ \<Rightarrow> [])"

fun turn_events :: "event list \<Rightarrow> channel turn_event list" where
  "turn_events [] = [Call]"
| "turn_events (e # es) = Call # turn_event_of e @ turn_events es"

definition told_to_create :: "message list \<Rightarrow> channel list" where
  "told_to_create sent = map fst (filter (\<lambda>(c, response). response = OkToCreate) sent)"

text \<open>The jobs that ask to create values, in the order of their requests, and those that leave.\<close>

definition asked_to_create :: "event list \<Rightarrow> channel list" where
  "asked_to_create events = joined (turn_events events)"

definition said :: "channel \<Rightarrow> Request \<Rightarrow> event list \<Rightarrow> bool" where
  "said c request events \<longleftrightarrow> Incoming (Some request) (Some c) \<in> set events"

lemma turn_event_of_iff:
  "Finish c \<in> set (turn_event_of e) \<longleftrightarrow> e = Incoming (Some ValueCreationDone) (Some c)"
  "Quit c \<in> set (turn_event_of e) \<longleftrightarrow> (\<exists>cs. e = Incoming (Some (Bye cs)) (Some c))"
proof -
  have "(Finish c \<in> set (turn_event_of e) \<longleftrightarrow> e = Incoming (Some ValueCreationDone) (Some c))
    \<and> (Quit c \<in> set (turn_event_of e) \<longleftrightarrow> (\<exists>cs. e = Incoming (Some (Bye cs)) (Some c)))"
  proof (cases "\<exists>request d. e = Incoming (Some request) (Some d)")
    case True
    then obtain request d where "e = Incoming (Some request) (Some d)" by blast
    then show ?thesis by (cases request) (auto simp: turn_event_of_def)
  next
    case False
    then show ?thesis by (auto simp: turn_event_of_def split: event.splits option.splits)
  qed
  then show "Finish c \<in> set (turn_event_of e) \<longleftrightarrow> e = Incoming (Some ValueCreationDone) (Some c)"
    "Quit c \<in> set (turn_event_of e) \<longleftrightarrow> (\<exists>cs. e = Incoming (Some (Bye cs)) (Some c))" by simp_all
qed

lemma turn_events_said:
  "Finish c \<in> set (turn_events events) \<longleftrightarrow> said c ValueCreationDone events"
  "Quit c \<in> set (turn_events events) \<longleftrightarrow> (\<exists>cs. said c (Bye cs) events)"
  by (induction events) (auto simp: said_def turn_event_of_iff)

lemma told_to_create_append [simp]: "told_to_create (xs @ ys) = told_to_create xs @ told_to_create ys"
  by (simp add: told_to_create_def)

lemma publish_all_sent: "publish_all nats ms = (sent, Inr ()) \<Longrightarrow> sent = ms"
  by (induction ms arbitrary: sent) (auto split: if_splits prod.splits)

lemma announce_calls:
  assumes "announce nats clk S = (S', sent, Inr ())"
  shows "fetch_next (value_create_queue S) = (value_create_queue S',
    (case told_to_create sent of [] \<Rightarrow> None | c # _ \<Rightarrow> Some c))" "length (told_to_create sent) \<le> 1"
proof -
  obtain q n where q: "fetch_next (value_create_queue S) = (q, n)" by (cases "fetch_next (value_create_queue S)")
  have no: "told_to_create (map (\<lambda>(c, i). (c, OkToProcess [i])) rs) = []" for rs
    by (induction rs) (auto simp: told_to_create_def)
  obtain rs where "sent = (case n of Some c \<Rightarrow> [(c, OkToCreate)] | None \<Rightarrow> [])
      @ map (\<lambda>(c, i). (c, OkToProcess [i])) rs" and S': "value_create_queue S' = q"
    using assms by (auto simp: announce_def q Let_def split: prod.splits sum.splits dest!: publish_all_sent)
  then have "told_to_create sent = (case n of Some c \<Rightarrow> [c] | None \<Rightarrow> [])"
    by (simp add: no) (simp add: told_to_create_def split: option.split)
  then show "fetch_next (value_create_queue S) = (value_create_queue S',
      (case told_to_create sent of [] \<Rightarrow> None | c # _ \<Rightarrow> Some c))" "length (told_to_create sent) \<le> 1"
    by (auto simp: q S' split: option.split)
qed

lemma handle_tells_nobody:
  assumes "handle_request nats clk c request S = (S', sent, Inr ())"
  shows "told_to_create sent = []"
    "value_create_queue S' = (case request of
       CreateValues \<Rightarrow> push c (value_create_queue S)
     | ValueCreationDone \<Rightarrow> fst (finished_processing c (value_create_queue S))
     | Bye cs \<Rightarrow> ValueCreationQueue_remove c (value_create_queue S)
     | _ \<Rightarrow> value_create_queue S)"
proof -
  have no: "told_to_create (map (\<lambda>c. (c, BeenProcessed i)) cs) = []"
    "told_to_create (map (\<lambda>(c, i). (c, Failed i)) ns) = []" for i cs ns
    by (induction cs, simp_all add: told_to_create_def) (induction ns, auto)
  show "told_to_create sent = []"
    using assms no by (cases request) (auto simp: told_to_create_def [of "[]"]
        job_would_like_to_create_attribute_values_def register_graph_from_job_def job_finished_value_creation_def
        job_processed_a_value_def job_failed_processing_a_value_def job_is_going_away_def Let_def
        split: prod.splits sum.splits dest!: publish_all_sent)
  show "value_create_queue S' = (case request of
       CreateValues \<Rightarrow> push c (value_create_queue S)
     | ValueCreationDone \<Rightarrow> fst (finished_processing c (value_create_queue S))
     | Bye cs \<Rightarrow> ValueCreationQueue_remove c (value_create_queue S)
     | _ \<Rightarrow> value_create_queue S)"
    using assms by (cases request) (auto
        simp: job_would_like_to_create_attribute_values_def register_graph_from_job_def job_finished_value_creation_def
        job_processed_a_value_def job_failed_processing_a_value_def job_is_going_away_def Let_def
        split: prod.splits sum.splits)
qed

abbreviation creation_turns :: "channel turn_event list \<Rightarrow> ValueCreationQueue \<Rightarrow> channel list \<times> ValueCreationQueue" where
  "creation_turns \<equiv> take_turns push fetch_next finished_processing ValueCreationQueue_remove"

text \<open>The loop takes turns.\<close>

lemma run_takes_turns:
  assumes "run nats clk events S = (S', sent, Waiting)"
  shows "creation_turns (turn_events events) (value_create_queue S)
    = (told_to_create sent, value_create_queue S')"
  using assms
proof (induction events arbitrary: S sent)
  case Nil
  then have a: "announce nats clk S = (S', sent, Inr ())"
    by (simp add: run.simps [of _ _ "[]"] split: prod.splits sum.splits)
  from announce_calls [OF this] show ?case
    by (cases "told_to_create sent") auto
next
  case (Cons e es)
  obtain S1 out r where a0: "announce nats clk S = (S1, out, r)" by (cases "announce nats clk S")
  have "r = Inr ()" using Cons.prems a0 by (cases r) (auto simp: run.simps [of _ _ "e # es"])
  with a0 have a: "announce nats clk S = (S1, out, Inr ())" by simp
  note run = Cons.prems [unfolded run.simps [of _ _ "e # es"] a]
  obtain S2 sent2 sent' where S2: "creation_turns (turn_event_of e) (value_create_queue S1) = ([], value_create_queue S2)"
    "run nats clk es S2 = (S', sent', Waiting)" "sent = out @ sent2 @ sent'" "told_to_create sent2 = []"
  proof (cases "\<exists>request c. e = Incoming (Some request) (Some c)")
    case True
    then obtain request c where e: "e = Incoming (Some request) (Some c)" by blast
    obtain S2 out2 r2 where h: "handle_request nats clk c request S1 = (S2, out2, r2)"
      by (cases "handle_request nats clk c request S1")
    have r2: "r2 = Inr ()" using run e h by (cases r2) auto
    note H = handle_tells_nobody [OF h [unfolded r2]]
    obtain sent' where "run nats clk es S2 = (S', sent', Waiting)" "sent = out @ out2 @ sent'"
      using run e h r2 by (cases "run nats clk es S2") auto
    moreover have "creation_turns (turn_event_of e) (value_create_queue S1) = ([], value_create_queue S2)"
      by (cases request) (simp_all add: turn_event_of_def e H(2))
    ultimately show thesis using H(1) that by blast
  next
    case False
    then have "turn_event_of e = []"
      by (auto simp: turn_event_of_def split: event.splits option.splits Request.splits)
    moreover obtain sent' where "run nats clk es S1 = (S', sent', Waiting)" "sent = out @ sent'"
      using run False by (cases "run nats clk es S1") (auto split: event.splits option.splits)
    ultimately show thesis using that [of S1 sent' "[]"] by (simp add: told_to_create_def)
  qed
  note IH = Cons.IH [OF S2(2)]
  have ev: "turn_events (e # es) = [Call] @ turn_event_of e @ turn_events es" by simp
  have "creation_turns [Call] (value_create_queue S) = (told_to_create out, value_create_queue S1)"
    using announce_calls [OF a] by (cases "told_to_create out") auto
  then show ?case
    unfolding ev take_turns_append by (simp add: S2(1,3,4) IH)
qed

text \<open>C24: Jobs create values one at a time and in the order in which they asked. Over any run of the server
  that has not crashed, with requests of all jobs in any order: those that are told to create values,
  followed by those still in line, are those that were in line, followed by those that asked, in the order of
  their requests, a job that said goodbye apart. And as long as the job that has its turn neither says it is
  done nor says goodbye, nobody is told to create values.\<close>

theorem value_creation_in_order:
  assumes "run nats clk events S = (S', sent, Waiting)"
  shows "filter (\<lambda>c. \<forall>cs. \<not> said c (Bye cs) events) (told_to_create sent @ queue (value_create_queue S'))
      = filter (\<lambda>c. \<forall>cs. \<not> said c (Bye cs) events) (queue (value_create_queue S) @ asked_to_create events)
    \<and> (\<forall>c. processing (value_create_queue S) = Some c \<longrightarrow> \<not> said c ValueCreationDone events \<longrightarrow>
        (\<forall>cs. \<not> said c (Bye cs) events) \<longrightarrow>
        told_to_create sent = [] \<and> processing (value_create_queue S') = Some c)"
proof
  note t = run_takes_turns [OF assms]
  show "filter (\<lambda>c. \<forall>cs. \<not> said c (Bye cs) events) (told_to_create sent @ queue (value_create_queue S'))
      = filter (\<lambda>c. \<forall>cs. \<not> said c (Bye cs) events) (queue (value_create_queue S) @ asked_to_create events)"
    unfolding asked_to_create_def
    by (rule value_creation.first_come_first_served [OF _ t]) (simp add: turn_events_said)
  show "\<forall>c. processing (value_create_queue S) = Some c \<longrightarrow> \<not> said c ValueCreationDone events \<longrightarrow>
        (\<forall>cs. \<not> said c (Bye cs) events) \<longrightarrow>
        told_to_create sent = [] \<and> processing (value_create_queue S') = Some c"
    using value_creation.one_at_a_time [of "value_create_queue S" _ "turn_events events"]
    by (simp add: t turn_events_said)
qed

definition two_creators :: "event list" where
  "two_creators = [Incoming (Some CreateValues) (Some ''a''), Incoming (Some CreateValues) (Some ''b''),
     Timeout, Incoming (Some ValueCreationDone) (Some ''a'')]"

theorem value_creation_in_order_witness:
  "\<exists>S' sent. run open_bus Suc two_creators Council_default = (S', sent, Waiting)
     \<and> told_to_create sent @ queue (value_create_queue S') = [''a'', ''b'']"
proof -
  obtain S' sent where r: "run open_bus Suc two_creators Council_default = (S', sent, Waiting)"
    by (simp add: two_creators_def run.simps [of _ _ "_ # _"] run.simps [of _ _ "[]"] council_eval push_def
        job_would_like_to_create_attribute_values_def job_finished_value_creation_def finished_processing_def
        Council_default_def ValueCreationQueue_default_def)
  have "\<not> said c (Bye cs) two_creators" for c cs by (simp add: said_def two_creators_def)
  with value_creation_in_order [OF r] r show ?thesis
    by (simp add: asked_to_create_def two_creators_def turn_event_of_def Council_default_def ValueCreationQueue_default_def)
qed

section \<open>Where the promises end\<close>

text \<open>C25: A goodbye discards the work of others. When a job leaves a change set, the work of every
  other job in it counts as outdated, although nothing a value depends on has changed: a value in work
  that was about to be finished is not removed by the report of its job, nobody is told, and the job
  has to process the value again. This is so whenever the clock, which never goes back, has moved on between
  handing out the work and the goodbye.\<close>

theorem bye_discards_work_of_others:
  assumes "mono clk" and "good_graph clk t G" and "moved_on clk t G"
    and p: "plans_of G cs = Some p" "p i = Some v" "worker v = Some c" and "c \<noteq> d"
  shows "\<exists>G1 t1 G2 t2 p2. remove_channel clk t cs d G = Inr (G1, t1)
    \<and> mark_node_as_processed clk t1 c cs i G1 = (G2, t2, Inr [])
    \<and> plans_of G2 cs = Some p2
    \<and> p2 i = Some (v\<lparr>worker := None, waiting := filter (\<lambda>e. e \<noteq> d) (waiting v) @ [c], outdated := False\<rparr>)"
proof -
  obtain G1 t1 where b: "remove_channel clk t cs d G = Inr (G1, t1)"
    "graph_leads_to clk cs t G t1 G1 (map_option (plan_bye d) (plans_of G cs))"
    by (rule bye_refines [OF assms(1,2)])
  note B = graph_leads_toD(1) [OF b(2)] graph_leads_toD(3,4) [OF b(2) assms(3)]
  obtain G2 t2 r where m: "mark_node_as_processed clk t1 c cs i G1 = (G2, t2, r)"
    by (cases "mark_node_as_processed clk t1 c cs i G1")
  have v: "plan_bye d p i = Some (leave d v)"
    using p(2,3) \<open>c \<noteq> d\<close> by (simp add: plan_bye_def idle_def leave_def)
  let ?p = "(plan_bye d p)(i \<mapsto>
      v\<lparr>worker := None, waiting := filter (\<lambda>e. e \<noteq> d) (waiting v) @ [c], outdated := False\<rparr>)"
  have "plan_finish c i (plan_bye d p) = Inr (?p, {})"
    using p(3) \<open>c \<noteq> d\<close> by (simp add: plan_finish_def v leave_def)
  with finish_refines [OF assms(1) B(1) m] have r: "r = Inr []" "graph_leads_to clk cs t1 G1 t2 G2 (Some ?p)"
    by (auto simp: B(2) p(1))
  from graph_leads_toD(3) [OF r(2) B(3)] b(1) m r(1) show ?thesis by auto
qed

theorem bye_discards_work_of_others_witness:
  "\<exists>S G1 t1 G2 t2. reachable open_bus Suc (on_time Suc) S
    \<and> remove_channel Suc (readings S) 9 ''b'' (complete_graph S) = Inr (G1, t1)
    \<and> mark_node_as_processed Suc t1 ''a'' 9 1 G1 = (G2, t2, Inr [])"
proof -
  obtain S v where S: "reachable open_bus Suc (on_time Suc) S"
    "plans_of (complete_graph S) = [9 \<mapsto> plan_fetch sample_plan]"
    "plan_fetch sample_plan 1 = Some v" "worker v = Some ''a''"
    "good_graph Suc (readings S) (complete_graph S)" "moved_on Suc (readings S) (complete_graph S)"
    using sample_announced [of "on_time Suc", OF on_time_default] by blast
  have p: "plans_of (complete_graph S) 9 = Some (plan_fetch sample_plan)" using S(2) by simp
  have "''a'' \<noteq> ''b''" by simp
  from bye_discards_work_of_others [OF mono_Suc S(5,6) p S(3,4) this]
  obtain G1 t1 G2 t2 where "remove_channel Suc (readings S) 9 ''b'' (complete_graph S) = Inr (G1, t1)"
    "mark_node_as_processed Suc t1 ''a'' 9 1 G1 = (G2, t2, Inr [])"
    by (elim exE conjE) (rule that)
  with S(1) show ?thesis by blast
qed

text \<open>A run in which job \<open>a\<close> leaves another job without its value.\<close>

definition stranding :: "event list" where
  "stranding = [Incoming (Some (ValueDependencyGraph 9 [(2, [])])) (Some ''b''),
     Incoming (Some (ValueDependencyGraph 9 [(2, [1])])) (Some ''a''),
     Incoming (Some (ProcessedValue 9 2)) (Some ''b''),
     Incoming (Some (Bye 9)) (Some ''a'')]"

definition stranded :: "nat \<Rightarrow> Council" where
  "stranded t = \<lparr>value_create_queue = ValueCreationQueue_default,
     complete_graph = [(9, [(2, \<lparr>wanted_by_reply_channels = [''b''], processing_reply_channel = None,
       depends_on_node_ids = {1}, processing_started_at = Some 4, last_updated_at = 17\<rparr>)])],
     readings = t\<rparr>"

lemma run_stranding:
  "run open_bus Suc (stranding @ es) Council_default =
     apsnd (apfst ((@) [(''b'', OkToProcess [2]), (''a'', OkToProcess [1])]))
       (run open_bus Suc es (stranded 18))"
  by (cases "run open_bus Suc es (stranded 18)")
    (simp add: stranding_def run.simps [of _ _ "_ # _"] council_eval Council_default_def
      ValueCreationQueue_default_def stranded_def eval_nat_numeral)

lemma run_stranded:
  "run open_bus Suc (replicate n Timeout) (stranded t) = (stranded (t + 2 * n + 2), [], Waiting)"
proof (induction n arbitrary: t)
  have "announce open_bus Suc (stranded t) = (stranded (t + 2), [], Inr ())" for t
    by (simp add: council_eval stranded_def ValueCreationQueue_default_def)
  note this [simp]
  case 0
  then show ?case by (simp add: run.simps)
  case (Suc n)
  then show ?case by (simp add: run.simps [of _ _ "_ # _"])
qed

text \<open>C26: A goodbye can strand another job. Job \<open>b\<close> wants value 2; job \<open>a\<close> registers that value 2 depends
  on value 1, which only \<open>a\<close> wants, and leaves. Value 1 is removed from the plan, value 2 still needs
  it, and \<open>b\<close>, which waits for value 2, never hears from the server again, however long it waits.\<close>

theorem bye_strands_job:
  "\<exists>S. run open_bus Suc (stranding @ replicate n Timeout) Council_default
       = (S, [(''b'', OkToProcess [2]), (''a'', OkToProcess [1])], Waiting)
     \<and> plans_of (complete_graph S) = [9 \<mapsto>
         [2 \<mapsto> \<lparr>waiting = [''b''], worker = None, needs = {1}, outdated = False\<rparr>]]"
  by (simp add: run_stranding run_stranded)
    (simp add: stranded_def plans_of_def plan_of_def view_of_def fun_eq_iff)










end
