(* ===== verification/Node_Menu.thy ===== *)
theory Node_Menu
  imports SI_Prelude "HOL-Library.Multiset"
begin

text \<open>
  The menu of the assets that can be added to a diagram, \<open>lib/dal/src/node_menu.rs\<close>. The code builds
  the menu in shared vectors (\<open>Rc<RefCell<Vec<..>>>\<close>): a category holds a reference to the vector of its
  items, and an insertion walks to a vector and pushes onto it while others refer to it. Here a store
  lists the vectors, a reference is an index into it, and the operations pass the store on. The cells of
  single items are never written, so they are values. The second part of the theory relates stores to
  menus as values and shows that an insertion refines a function on them.
\<close>

section \<open>Items and the store\<close>

datatype 'e NodeMenuError =
    NoInnerCategory
  | PathDoesNotExist bytes
  | NodeMenu_Pg 'e
  | NodeMenu_Schema 'e
  | NodeMenu_SerdeJson 'e
  | NodeMenu_StandardModel 'e

type_synonym vec_ref = nat

record Category =
  cat_name :: bytes
  cat_items :: vec_ref

record 's Item =
  item_name :: bytes
  item_schema_id :: 's

datatype 's MenuItem = MenuItem_Category Category | MenuItem_Item "'s Item"

type_synonym 's store = "'s MenuItem list list"

definition new_vec :: "'s store \<Rightarrow> vec_ref \<times> 's store" where
  "new_vec s = (length s, s @ [[]])"

definition push_vec :: "vec_ref \<Rightarrow> 's MenuItem \<Rightarrow> 's store \<Rightarrow> 's store" where
  "push_vec r i s = s[r := s ! r @ [i]]"

definition Category_new :: "bytes \<Rightarrow> 's store \<Rightarrow> Category \<times> 's store" where
  "Category_new name s = (let (items, s1) = new_vec s in (\<lparr>cat_name = name, cat_items = items\<rparr>, s1))"

definition Category_push :: "Category \<Rightarrow> 's MenuItem \<Rightarrow> 's store \<Rightarrow> 's store" where
  "Category_push c menu_item s = push_vec (cat_items c) menu_item s"

definition Item_new :: "bytes \<Rightarrow> 's \<Rightarrow> 's Item" where
  "Item_new name schema_id = \<lparr>item_name = name, item_schema_id = schema_id\<rparr>"

definition MenuItem_category :: "bytes \<Rightarrow> 's store \<Rightarrow> 's MenuItem \<times> 's store" where
  "MenuItem_category name s = apfst MenuItem_Category (Category_new name s)"

definition MenuItem_item :: "bytes \<Rightarrow> 's \<Rightarrow> 's MenuItem" where
  "MenuItem_item name schema_id = MenuItem_Item (Item_new name schema_id)"

fun MenuItem_name :: "'s MenuItem \<Rightarrow> bytes" where
  "MenuItem_name (MenuItem_Category c) = cat_name c"
| "MenuItem_name (MenuItem_Item i) = item_name i"

fun inner_category :: "'s MenuItem \<Rightarrow> ('e NodeMenuError, Category) result" where
  "inner_category (MenuItem_Category c) = Inr c"
| "inner_category (MenuItem_Item i) = Inl NoInnerCategory"

section \<open>The menu\<close>

definition MenuItems_new :: "'s store \<Rightarrow> vec_ref \<times> 's store" where
  "MenuItems_new s = new_vec s"

text \<open>\<open>path.join(".")\<close>\<close>

fun join_dots :: "bytes list \<Rightarrow> bytes" where
  "join_dots [] = []"
| "join_dots [p] = p"
| "join_dots (p # q # ps) = p @ CHR ''.'' # join_dots (q # ps)"

text \<open>The loop over the parts of the path, which looks in one vector after the other.\<close>

fun item_for_path_from ::
  "'s store \<Rightarrow> bytes list \<Rightarrow> vec_ref \<Rightarrow> bytes list \<Rightarrow> ('e NodeMenuError, 's MenuItem) result" where
  "item_for_path_from s path current_list [] = Inl (PathDoesNotExist (join_dots path))"
| "item_for_path_from s path current_list (path_part # path_parts) =
     (case find (\<lambda>i. MenuItem_name i = path_part) (s ! current_list) of
        None \<Rightarrow> Inl (PathDoesNotExist (join_dots path))
      | Some menu_item \<Rightarrow>
          if path_parts = [] then Inr menu_item
          else rbind (inner_category menu_item)
                 (\<lambda>c. item_for_path_from s path (cat_items c) path_parts))"

definition item_for_path ::
  "'s store \<Rightarrow> vec_ref \<Rightarrow> bytes list \<Rightarrow> ('e NodeMenuError, 's MenuItem) result" where
  "item_for_path s list_ref path = item_for_path_from s path list_ref path"

text \<open>The loop of \<open>insert_menu_item\<close> that makes the missing categories. It looks every prefix of the path
  up from the top and returns the vector to push onto.\<close>

fun make_categories ::
  "'s store \<Rightarrow> vec_ref \<Rightarrow> bytes list \<Rightarrow> vec_ref \<Rightarrow> bytes list \<Rightarrow>
   's store \<times> ('e NodeMenuError, vec_ref) result" where
  "make_categories s list_ref passed insert_into [] = (s, Inr insert_into)"
| "make_categories s list_ref passed insert_into (path_part # path_parts) =
     (case item_for_path s list_ref (passed @ [path_part]) :: ('e NodeMenuError, 's MenuItem) result of
        Inr parent \<Rightarrow>
          (case inner_category parent of
             Inl e \<Rightarrow> (s, Inl e)
           | Inr c \<Rightarrow> make_categories s list_ref (passed @ [path_part]) (cat_items c) path_parts)
      | Inl _ \<Rightarrow>
          (let (new_category, s1) = MenuItem_category path_part s;
               s2 = push_vec insert_into new_category s1
           in case inner_category new_category of
                Inl e \<Rightarrow> (s2, Inl e)
              | Inr c \<Rightarrow> make_categories s2 list_ref (passed @ [path_part]) (cat_items c) path_parts))"

definition insert_menu_item ::
  "vec_ref \<Rightarrow> bytes list \<Rightarrow> 's MenuItem \<Rightarrow> 's store \<Rightarrow> 's store \<times> ('e NodeMenuError, unit) result" where
  "insert_menu_item list_ref path menu_item s =
     (let fallback_path = [MenuItem_name menu_item];
          path_to_check = (if path = [] then path else fallback_path)
      in case item_for_path s list_ref path_to_check :: ('e NodeMenuError, 's MenuItem) result of
           Inr parent \<Rightarrow>
             (case inner_category parent of
                Inl e \<Rightarrow> (s, Inl e)
              | Inr f \<Rightarrow> (Category_push f menu_item s, Inr ()))
         | Inl (PathDoesNotExist _) \<Rightarrow>
             (if path = [] then (push_vec list_ref menu_item s, Inr ())
              else (case make_categories s list_ref [] list_ref path of
                      (s1, Inl e) \<Rightarrow> (s1, Inl e)
                    | (s1, Inr insert_into) \<Rightarrow> (push_vec insert_into menu_item s1, Inr ())))
         | Inl _ \<Rightarrow> (s, Inr ()))"

section \<open>Menus as values\<close>

text \<open>What \<open>to_json_value\<close> writes: every vector with what it refers to. The fuel bounds the depth; the
  size of the store is enough for the menus the code builds (\<open>to_json_value_menu\<close> of \<open>Node_Menu_Refinement\<close>).\<close>

datatype 's menu = Menu_Category (menu_name: bytes) "'s menu list" | Menu_Item (menu_name: bytes) 's

fun menu_of :: "nat \<Rightarrow> 's store \<Rightarrow> vec_ref \<Rightarrow> 's menu list option" where
  "menu_of 0 s r = None"
| "menu_of (Suc n) s r =
     those (map (\<lambda>i. case i of
         MenuItem_Category c \<Rightarrow> map_option (Menu_Category (cat_name c)) (menu_of n s (cat_items c))
       | MenuItem_Item i \<Rightarrow> Some (Menu_Item (item_name i) (item_schema_id i))) (s ! r))"

definition to_json_value :: "'s store \<Rightarrow> vec_ref \<Rightarrow> 's menu list option" where
  "to_json_value s list_ref = menu_of (length s) s list_ref"

section \<open>Generating the menu\<close>

record SchemaUiMenu =
  ui_menu_name :: bytes
  ui_menu_category :: bytes

text \<open>\<open>category.split('.')\<close>, \<open>lib/dal/src/schema/ui_menu.rs\<close>\<close>

fun split_dots :: "bytes \<Rightarrow> bytes list" where
  "split_dots [] = [[]]"
| "split_dots (c # cs) =
     (if c = CHR ''.'' then [] # split_dots cs
      else (case split_dots cs of p # ps \<Rightarrow> (c # p) # ps | [] \<Rightarrow> [[c]]))"

definition category_path :: "SchemaUiMenu \<Rightarrow> bytes list" where
  "category_path m = split_dots (ui_menu_category m)"

record 's Schema =
  schema_id :: 's
  schema_ui_hidden :: bool

record 's GenerateMenuItem =
  raw_items :: "(bytes list \<times> 's Item) list"
  menu_items :: vec_ref

text \<open>The database is a parameter: \<open>ui_menus\<close> is what \<open>SchemaUiMenu::list\<close> returns, \<open>schema_of\<close> what
  \<open>ui_menu.schema\<close> returns.\<close>

fun raw_item_list ::
  "(SchemaUiMenu \<Rightarrow> ('e, 's Schema option) result) \<Rightarrow> bool \<Rightarrow> SchemaUiMenu list \<Rightarrow>
   ('e NodeMenuError, (bytes list \<times> 's Item) list) result" where
  "raw_item_list schema_of include_ui_hidden [] = Inr []"
| "raw_item_list schema_of include_ui_hidden (ui_menu # ui_menus) =
     rbind (map_err NodeMenu_Schema (schema_of ui_menu)) (\<lambda>found.
       case found of
         None \<Rightarrow> raw_item_list schema_of include_ui_hidden ui_menus
       | Some schema \<Rightarrow>
           if \<not> include_ui_hidden \<and> schema_ui_hidden schema
           then raw_item_list schema_of include_ui_hidden ui_menus
           else rbind (raw_item_list schema_of include_ui_hidden ui_menus) (\<lambda>item_list.
                  Inr ((category_path ui_menu, Item_new (ui_menu_name ui_menu) (schema_id schema))
                       # item_list)))"

definition GenerateMenuItem_new ::
  "('e, SchemaUiMenu list) result \<Rightarrow> (SchemaUiMenu \<Rightarrow> ('e, 's Schema option) result) \<Rightarrow> bool \<Rightarrow>
   's store \<Rightarrow> ('e NodeMenuError, 's GenerateMenuItem \<times> 's store) result" where
  "GenerateMenuItem_new listed schema_of include_ui_hidden s =
     rbind (map_err NodeMenu_StandardModel listed) (\<lambda>ui_menus.
     let ui_menus = sort_key ui_menu_name ui_menus;
         ui_menus = sort_key ui_menu_category ui_menus
     in rbind (raw_item_list schema_of include_ui_hidden ui_menus) (\<lambda>item_list.
     let (items, s1) = MenuItems_new s
     in Inr (\<lparr>raw_items = item_list, menu_items = items\<rparr>, s1)))"

fun insert_raw_items ::
  "vec_ref \<Rightarrow> (bytes list \<times> 's Item) list \<Rightarrow> 's store \<Rightarrow> 's store \<times> ('e NodeMenuError, unit) result" where
  "insert_raw_items list_ref [] s = (s, Inr ())"
| "insert_raw_items list_ref ((path, item) # raw) s =
     (case insert_menu_item list_ref path (MenuItem_Item item) s of
        (s1, Inl e) \<Rightarrow> (s1, Inl e)
      | (s1, Inr _) \<Rightarrow> insert_raw_items list_ref raw s1)"

definition create_menu_json ::
  "'s GenerateMenuItem \<Rightarrow> 's store \<Rightarrow> ('e NodeMenuError, 's menu list) result option" where
  "create_menu_json g s =
     (case insert_raw_items (menu_items g) (raw_items g) s of
        (s1, Inl e) \<Rightarrow> Some (Inl e)
      | (s1, Inr _) \<Rightarrow> map_option Inr (to_json_value s1 (menu_items g)))"

text \<open>\<open>get_node_add_menu\<close> of \<open>lib/sdf-server\<close>: hidden schemas are left out.\<close>

definition get_node_add_menu ::
  "('e, SchemaUiMenu list) result \<Rightarrow> (SchemaUiMenu \<Rightarrow> ('e, 's Schema option) result) \<Rightarrow>
   ('e NodeMenuError, 's menu list) result option" where
  "get_node_add_menu listed schema_of =
     (case GenerateMenuItem_new listed schema_of False [] of
        Inl e \<Rightarrow> Some (Inl e)
      | Inr (gmi, s) \<Rightarrow> create_menu_json gmi s)"

end
