(* ===== verification/Node_Menu_Refinement.thy ===== *)
theory Node_Menu_Refinement
  imports Node_Menu
begin

text \<open>
  The menu in the store behaves like a menu that is a value. A shape is a menu in which every category
  carries the reference of its vector; a store holds a shape when the vectors are as the shape says. As
  no vector occurs twice in a shape, a push changes the shape in one place, and \<open>insert_menu_item\<close>
  refines \<open>menu_insert\<close>, a function on menus.
\<close>

section \<open>Insertion on menus\<close>

text \<open>The reference: descend along the path through the first entries with the names of its parts, make
  what is missing, and append.\<close>

function add_at :: "bytes list \<Rightarrow> 's menu \<Rightarrow> 's menu list \<Rightarrow> ('e NodeMenuError, 's menu list) result" where
  "add_at [] x ts = Inr (ts @ [x])"
| "add_at (p # ps) x [] = rbind (add_at ps x []) (\<lambda>us. Inr [Menu_Category p us])"
| "add_at (p # ps) x (t # ts) =
     (if menu_name t = p
      then (case t of
              Menu_Category n us \<Rightarrow> rbind (add_at ps x us) (\<lambda>us'. Inr (Menu_Category n us' # ts))
            | Menu_Item n i \<Rightarrow> Inl NoInnerCategory)
      else rbind (add_at (p # ps) x ts) (\<lambda>ts'. Inr (t # ts')))"
  by pat_completeness auto
termination by (relation "measures [\<lambda>(ps, x, ts). length ps, \<lambda>(ps, x, ts). length ts]") auto

definition menu_insert :: "bytes list \<Rightarrow> 's menu \<Rightarrow> 's menu list \<Rightarrow> ('e NodeMenuError, 's menu list) result" where
  "menu_insert path x ts =
     add_at (if path \<noteq> [] \<and> menu_name x \<in> menu_name ` set ts then [menu_name x] else path) x ts"

lemma add_at_passes:
  "p \<notin> menu_name ` set bs \<Longrightarrow>
   add_at (p # ps) x (bs @ ts) = rbind (add_at (p # ps) x ts) (\<lambda>ts'. Inr (bs @ ts'))"
  by (induction bs) (auto simp: rbind_def split: sum.split)

lemma add_at_missing:
  "p \<notin> menu_name ` set ts \<Longrightarrow>
   add_at (p # ps) x ts = rbind (add_at ps x []) (\<lambda>us. Inr (ts @ [Menu_Category p us]))"
  using add_at_passes [of p ts ps x "[]"] by (simp add: rbind_assoc)

lemma add_at_error: "add_at ps x ts = Inl e \<Longrightarrow> e = NoInnerCategory"
  by (induction ps x ts rule: add_at.induct)
    (auto simp: rbind_def split: if_splits menu.splits sum.splits)

section \<open>Shapes\<close>

datatype 's shape = Shape_Category bytes vec_ref "'s shape list" | Shape_Item bytes 's

fun entry_of :: "'s shape \<Rightarrow> 's MenuItem" where
  "entry_of (Shape_Category n a us) = MenuItem_Category \<lparr>cat_name = n, cat_items = a\<rparr>"
| "entry_of (Shape_Item n i) = MenuItem_Item \<lparr>item_name = n, item_schema_id = i\<rparr>"

fun erase :: "'s shape \<Rightarrow> 's menu" where
  "erase (Shape_Category n a us) = Menu_Category n (map erase us)"
| "erase (Shape_Item n i) = Menu_Item n i"

fun refs_of :: "'s shape \<Rightarrow> vec_ref list" where
  "refs_of (Shape_Category n a us) = a # concat (map refs_of us)"
| "refs_of (Shape_Item n i) = []"

fun holds :: "'s store \<Rightarrow> 's shape \<Rightarrow> bool" where
  "holds s (Shape_Category n a us) \<longleftrightarrow>
     a < length s \<and> s ! a = map entry_of us \<and> (\<forall>u \<in> set us. holds s u)"
| "holds s (Shape_Item n i) \<longleftrightarrow> True"

fun grow :: "vec_ref \<Rightarrow> 's shape \<Rightarrow> 's shape \<Rightarrow> 's shape" where
  "grow b x (Shape_Category n a us) =
     Shape_Category n a (map (grow b x) us @ (if a = b then [x] else []))"
| "grow b x (Shape_Item n i) = Shape_Item n i"

fun descend :: "bytes list \<Rightarrow> 's shape \<Rightarrow> 's shape option" where
  "descend [] t = Some t"
| "descend (p # ps) (Shape_Category n a us) =
     (case find (\<lambda>u. MenuItem_name (entry_of u) = p) us of None \<Rightarrow> None | Some u \<Rightarrow> descend ps u)"
| "descend (p # ps) (Shape_Item n i) = None"

lemma name_erase [simp]: "menu_name (erase u) = MenuItem_name (entry_of u)"
  by (cases u) simp_all

lemma entry_of_grow [simp]: "entry_of (grow b x u) = entry_of u"
  by (cases u) simp_all

lemma find_entry: "find (\<lambda>i. MenuItem_name i = p) (map entry_of us)
    = map_option entry_of (find (\<lambda>u. MenuItem_name (entry_of u) = p) us)"
  by (induction us) simp_all

lemma find_split:
  "find P us = Some u \<Longrightarrow> \<exists>bs as. us = bs @ u # as \<and> P u \<and> (\<forall>b \<in> set bs. \<not> P b)"
proof (induction us)
  case (Cons v us)
  show ?case
  proof (cases "P v")
    case True
    with Cons.prems show ?thesis by (intro exI [of _ "[]"] exI [of _ us]) simp
  next
    case False
    with Cons obtain bs as where "us = bs @ u # as" "P u" "\<forall>b \<in> set bs. \<not> P b" by auto
    with False show ?thesis by (intro exI [of _ "v # bs"] exI [of _ as]) simp
  qed
qed simp

lemma find_append [simp]:
  "find P (xs @ ys) = (case find P xs of None \<Rightarrow> find P ys | Some x \<Rightarrow> Some x)"
  by (induction xs) simp_all

lemma grow_other: "b \<notin> set (refs_of t) \<Longrightarrow> grow b x t = t"
  by (induction t) (auto simp: map_idI)

lemma refs_grow:
  "mset (refs_of (grow b x t))
   = mset (refs_of t) + repeat_mset (count (mset (refs_of t)) b) (mset (refs_of x))"
proof (induction t)
  case (Shape_Category n a us)
  have "mset (concat (map (\<lambda>u. refs_of (grow b x u)) us))
    = mset (concat (map refs_of us)) + repeat_mset (count (mset (concat (map refs_of us))) b) (mset (refs_of x))"
    using Shape_Category by (induction us) (simp_all add: repeat_mset_distrib)
  then show ?case by (simp add: comp_def)
qed simp

lemma distinct_grow:
  assumes "distinct (refs_of t)" "distinct (refs_of x)" "set (refs_of t) \<inter> set (refs_of x) = {}"
  shows "distinct (refs_of (grow b x t))"
proof -
  define k where "k = count (mset (refs_of t)) b"
  have "k \<le> 1" using assms(1) by (simp add: k_def distinct_count_atmost_1)
  then have "mset (refs_of (grow b x t)) = mset (refs_of t)
      \<or> mset (refs_of (grow b x t)) = mset (refs_of t @ refs_of x)"
    unfolding refs_grow k_def [symmetric] by (auto simp: le_Suc_eq)
  moreover have "distinct (refs_of t @ refs_of x)" using assms by auto
  ultimately show ?thesis using assms(1) mset_eq_imp_distinct_iff by metis
qed

lemma refs_grow_cases:
  "a \<in> set (refs_of (grow b x t)) \<Longrightarrow> a \<in> set (refs_of t) \<or> a \<in> set (refs_of x)"
proof (induction t)
  case (Shape_Category n c us)
  then show ?case by (cases "c = b") auto
qed simp

section \<open>The store and its shape\<close>

lemma holds_frame:
  "holds s t \<Longrightarrow> length s \<le> length s' \<Longrightarrow> (\<And>a. a \<in> set (refs_of t) \<Longrightarrow> s' ! a = s ! a) \<Longrightarrow> holds s' t"
  by (induction t) auto

lemma refs_bounded: "holds s t \<Longrightarrow> a \<in> set (refs_of t) \<Longrightarrow> a < length s"
  by (induction t) auto

lemma holds_new: "holds s t \<Longrightarrow> holds (s @ [[]]) t"
  using refs_bounded [of s t] by (auto intro!: holds_frame [of s t] simp: nth_append)

lemma length_push_vec [simp]: "length (push_vec b i s) = length s"
  by (simp add: push_vec_def)

lemma push_vec_other [simp]: "a \<noteq> b \<Longrightarrow> push_vec b i s ! a = s ! a"
  by (simp add: push_vec_def)

lemma push_vec_same [simp]: "b < length s \<Longrightarrow> push_vec b i s ! b = s ! b @ [i]"
  by (simp add: push_vec_def)

lemma holds_push:
  assumes "holds s t" and x: "holds s x" "b \<notin> set (refs_of x)" and b: "b < length s"
  shows "holds (push_vec b (entry_of x) s) (grow b x t)"
  using assms(1)
proof (induction t)
  case (Shape_Category n a us)
  have x': "holds (push_vec b (entry_of x) s) x"
    by (rule holds_frame [OF x(1)]) (use x(2) in \<open>auto intro: push_vec_other\<close>)
  have us: "holds (push_vec b (entry_of x) s) (grow b x u)" if "u \<in> set us" for u
    using Shape_Category that by simp
  have "map entry_of (map (grow b x) us) = map entry_of us" by simp
  with x' us Shape_Category.prems b show ?case by (cases "a = b") (simp_all del: map_map)
qed simp

lemma descend_refs: "descend ps t = Some u \<Longrightarrow> set (refs_of u) \<subseteq> set (refs_of t)"
proof (induction ps t rule: descend.induct)
  case (2 p ps n a us)
  from 2(2) obtain v where v: "find (\<lambda>u. MenuItem_name (entry_of u) = p) us = Some v" "descend ps v = Some u"
    by (auto split: option.splits)
  with find_split [OF v(1)] 2(1) [OF v] show ?case by auto
qed auto

lemma descend_holds: "descend ps t = Some u \<Longrightarrow> holds s t \<Longrightarrow> holds s u"
proof (induction ps t rule: descend.induct)
  case (2 p ps n a us)
  from 2(2) obtain v where v: "find (\<lambda>u. MenuItem_name (entry_of u) = p) us = Some v" "descend ps v = Some u"
    by (auto split: option.splits)
  with find_split [OF v(1)] 2(1) [OF v] 2(3) show ?case by auto
qed auto

lemma descend_append:
  "descend (ps @ qs) t = (case descend ps t of None \<Rightarrow> None | Some u \<Rightarrow> descend qs u)"
  by (induction ps t rule: descend.induct) (simp_all split: option.split)

lemma item_for_path_descend:
  assumes "holds s (Shape_Category n a us)" and "ps \<noteq> []"
  shows "(case descend ps (Shape_Category n a us) of
      Some u \<Rightarrow> item_for_path_from s path a ps = Inr (entry_of u)
    | None \<Rightarrow> \<exists>e. item_for_path_from s path a ps = Inl e)"
  using assms
proof (induction ps arbitrary: n a us)
  case (Cons p ps)
  have s: "s ! a = map entry_of us" using Cons.prems by simp
  show ?case
  proof (cases "find (\<lambda>u. MenuItem_name (entry_of u) = p) us")
    case None
    then show ?thesis by (simp add: s find_entry)
  next
    case (Some v)
    show ?thesis
    proof (cases "ps = [] \<or> (\<exists>m i. v = Shape_Item m i)")
      case True
      with Some show ?thesis by (cases ps) (auto simp: s find_entry)
    next
      case False
      then obtain m b vs where v: "v = Shape_Category m b vs" by (cases v) auto
      have "holds s v" using find_split [OF Some] Cons.prems(1) by auto
      with Cons.IH [of m b vs] False Some show ?thesis
        by (simp add: s find_entry v split: option.splits)
    qed
  qed
qed simp

section \<open>Paths in a shape\<close>

fun items_of :: "'s shape \<Rightarrow> 's shape list" where
  "items_of (Shape_Category n a us) = us"
| "items_of (Shape_Item n i) = []"

text \<open>The first step of a path to a category: the entry it goes to, and that a push below that entry
  leaves the others as they are.\<close>

lemma descend_step:
  assumes "distinct (refs_of (Shape_Category n a us))"
    and d: "descend (p # ps) (Shape_Category n a us) = Some (Shape_Category m b vs)"
  obtains bs c ws as where "us = bs @ Shape_Category p c ws # as"
    "p \<notin> menu_name ` set (map erase bs)"
    "descend ps (Shape_Category p c ws) = Some (Shape_Category m b vs)"
    "distinct (refs_of (Shape_Category p c ws))"
    "\<And>x. grow b x (Shape_Category n a us) = Shape_Category n a (bs @ grow b x (Shape_Category p c ws) # as)"
proof -
  from d obtain v where f: "find (\<lambda>u. MenuItem_name (entry_of u) = p) us = Some v"
    and v: "descend ps v = Some (Shape_Category m b vs)"
    by (auto split: option.splits)
  from find_split [OF f] obtain bs as where us: "us = bs @ v # as" "MenuItem_name (entry_of v) = p"
    "\<forall>u \<in> set bs. MenuItem_name (entry_of u) \<noteq> p" by blast
  obtain c ws where c: "v = Shape_Category p c ws"
    using v us(2) by (cases v; cases ps) auto
  have "b \<in> set (refs_of v)" using descend_refs [OF v] by auto
  then have "a \<noteq> b" "b \<notin> (\<Union>u \<in> set bs \<union> set as. set (refs_of u))"
    using assms(1) us(1) by auto
  then have g: "grow b x (Shape_Category n a us) = Shape_Category n a (bs @ grow b x v # as)" for x
    by (simp add: us(1) map_idI grow_other)
  have d: "distinct (refs_of v)" using assms(1) us(1) by simp
  have "p \<notin> menu_name ` set (map erase bs)" using us(3) by auto
  from that [OF us(1) [unfolded c] this v [unfolded c] d [unfolded c] g [unfolded c]] show thesis .
qed

lemma add_at_step:
  assumes "p \<notin> menu_name ` set (map erase bs)"
  shows "add_at (p # ps) x (map erase (bs @ Shape_Category p c ws # as))
    = rbind (add_at ps x (map erase ws)) (\<lambda>w. Inr (map erase bs @ Menu_Category p w # map erase as))"
  using add_at_passes [OF assms, of ps x "map erase (Shape_Category p c ws # as)"]
  by (simp add: rbind_assoc)

lemma add_at_grow:
  assumes "distinct (refs_of (Shape_Category n a us))"
    and "descend ps (Shape_Category n a us) = Some (Shape_Category m b vs)"
  shows "add_at ps (erase x) (map erase us) = Inr (map erase (items_of (grow b x (Shape_Category n a us))))"
  using assms
proof (induction ps arbitrary: n a us)
  case Nil
  then have "map (grow b x) us = us" by (intro map_idI grow_other) auto
  with Nil show ?case by simp
next
  case (Cons p ps)
  from descend_step [OF Cons.prems] obtain bs c ws as where D: "us = bs @ Shape_Category p c ws # as"
    "p \<notin> menu_name ` set (map erase bs)"
    "descend ps (Shape_Category p c ws) = Some (Shape_Category m b vs)"
    "distinct (refs_of (Shape_Category p c ws))"
    "\<And>x. grow b x (Shape_Category n a us) = Shape_Category n a (bs @ grow b x (Shape_Category p c ws) # as)"
    by metis
  from Cons.IH [OF D(4,3)] show ?case
    unfolding D(5) unfolding D(1) add_at_step [OF D(2)] by simp
qed

lemma add_at_blocked:
  assumes "distinct (refs_of (Shape_Category n a us))"
    and "descend ps (Shape_Category n a us) = Some (Shape_Category m b vs)"
    and "find (\<lambda>u. MenuItem_name (entry_of u) = q) vs = Some (Shape_Item k i)"
  shows "add_at (ps @ q # qs) x (map erase us) = Inl NoInnerCategory"
  using assms(1,2)
proof (induction ps arbitrary: n a us)
  case Nil
  with find_split [OF assms(3)] obtain bs as where us: "us = bs @ Shape_Item k i # as" "k = q"
    "\<forall>u \<in> set bs. MenuItem_name (entry_of u) \<noteq> q" by auto
  then have "q \<notin> menu_name ` set (map erase bs)" by auto
  from add_at_passes [OF this, of qs x "map erase (Shape_Item k i # as)"] us show ?case by simp
next
  case (Cons p ps)
  from descend_step [OF Cons.prems] obtain bs c ws as where D: "us = bs @ Shape_Category p c ws # as"
    "p \<notin> menu_name ` set (map erase bs)"
    "descend ps (Shape_Category p c ws) = Some (Shape_Category m b vs)"
    "distinct (refs_of (Shape_Category p c ws))"
    by metis
  from Cons.IH [OF D(4,3)] show ?case
    unfolding D(1) append_Cons add_at_step [OF D(2)] by simp
qed

text \<open>Making an empty category where the path leads anyway does not change what an insertion gives.\<close>

lemma add_at_prepared:
  assumes "distinct (refs_of (Shape_Category n a us))"
    and "descend ps (Shape_Category n a us) = Some (Shape_Category m b vs)"
    and "find (\<lambda>u. MenuItem_name (entry_of u) = q) vs = None"
  shows "add_at (ps @ q # qs) x
      (map erase (items_of (grow b (Shape_Category q c []) (Shape_Category n a us))))
    = add_at (ps @ q # qs) x (map erase us)"
  using assms(1,2)
proof (induction ps arbitrary: n a us)
  case Nil
  then have id: "map (grow b (Shape_Category q c [])) us = us" by (intro map_idI grow_other) auto
  have q: "q \<notin> menu_name ` set (map erase us)"
    using Nil assms(3) by (auto simp: find_None_iff)
  have "map erase (items_of (grow b (Shape_Category q c []) (Shape_Category n a us)))
      = map erase us @ [Menu_Category q []]"
    using Nil id by simp
  then show ?case by (simp only: append_Nil add_at_passes [OF q] add_at_missing [OF q])
    (simp add: rbind_assoc)
next
  case (Cons p ps)
  from descend_step [OF Cons.prems] obtain bs d ws as where D: "us = bs @ Shape_Category p d ws # as"
    "p \<notin> menu_name ` set (map erase bs)"
    "descend ps (Shape_Category p d ws) = Some (Shape_Category m b vs)"
    "distinct (refs_of (Shape_Category p d ws))"
    "\<And>x. grow b x (Shape_Category n a us) = Shape_Category n a (bs @ grow b x (Shape_Category p d ws) # as)"
    by metis
  obtain ws' where ws': "grow b (Shape_Category q c []) (Shape_Category p d ws) = Shape_Category p d ws'"
    by simp
  from Cons.IH [OF D(4,3)] show ?case
    unfolding D(5) unfolding D(1) ws' items_of.simps append_Cons add_at_step [OF D(2)] by simp
qed

lemma descend_prepared:
  assumes "distinct (refs_of (Shape_Category n a us))"
    and "descend ps (Shape_Category n a us) = Some (Shape_Category m b vs)"
    and "find (\<lambda>u. MenuItem_name (entry_of u) = q) vs = None"
  shows "descend (ps @ [q]) (grow b (Shape_Category q c []) (Shape_Category n a us))
    = Some (Shape_Category q c [])"
  using assms(1,2)
proof (induction ps arbitrary: n a us)
  case Nil
  then have "map (grow b (Shape_Category q c [])) us = us" by (intro map_idI grow_other) auto
  with Nil assms(3) show ?case by simp
next
  case (Cons p ps)
  from descend_step [OF Cons.prems] obtain bs d ws as where D: "us = bs @ Shape_Category p d ws # as"
    "p \<notin> menu_name ` set (map erase bs)"
    "descend ps (Shape_Category p d ws) = Some (Shape_Category m b vs)"
    "distinct (refs_of (Shape_Category p d ws))"
    "\<And>x. grow b x (Shape_Category n a us) = Shape_Category n a (bs @ grow b x (Shape_Category p d ws) # as)"
    by metis
  have "find (\<lambda>u. MenuItem_name (entry_of u) = p) bs = None"
    using D(2) by (auto simp: find_None_iff image_image)
  with Cons.IH [OF D(4,3)] show ?case
    unfolding D(5) append_Cons descend.simps(2) by simp
qed

section \<open>Refinement\<close>

definition good :: "'s store \<Rightarrow> 's shape \<Rightarrow> bool" where
  "good s t \<longleftrightarrow> holds s t \<and> distinct (refs_of t)"

lemma good_push:
  assumes "good s t" "good s x" "set (refs_of t) \<inter> set (refs_of x) = {}" "b \<in> set (refs_of t)"
  shows "good (push_vec b (entry_of x) s) (grow b x t)"
  using assms holds_push [of s t x b] distinct_grow [of t x b] refs_bounded [of s t b]
  by (auto simp: good_def)

lemma good_frame:
  assumes "good s x" and "length s \<le> length s'" and "\<And>a. a \<in> set (refs_of x) \<Longrightarrow> s' ! a = s ! a"
  shows "good s' x"
  using assms holds_frame by (auto simp: good_def)

text \<open>A new category below the category the path leads to.\<close>

lemma good_new_category:
  assumes t: "good s (Shape_Category n r us)"
    and d: "descend passed (Shape_Category n r us) = Some (Shape_Category m b vs)"
    and f: "find (\<lambda>u. MenuItem_name (entry_of u) = p) vs = None"
  defines "new \<equiv> Shape_Category p (length s) []"
  obtains us' where "grow b new (Shape_Category n r us) = Shape_Category n r us'"
    "good (push_vec b (entry_of new) (s @ [[]])) (Shape_Category n r us')"
    "descend (passed @ [p]) (Shape_Category n r us') = Some new"
    "\<And>ps x. add_at (passed @ p # ps) x (map erase us') = add_at (passed @ p # ps) x (map erase us)"
    "set (refs_of (Shape_Category n r us')) \<subseteq> insert (length s) (set (refs_of (Shape_Category n r us)))"
    "b \<in> set (refs_of (Shape_Category n r us))"
proof -
  let ?t = "Shape_Category n r us"
  have b: "b \<in> set (refs_of ?t)" using descend_refs [OF d] by auto
  have fresh: "length s \<notin> set (refs_of ?t)" using refs_bounded [of s ?t "length s"] t by (auto simp: good_def)
  have "good (s @ [[]]) new" by (simp add: good_def new_def)
  moreover have "good (s @ [[]]) ?t" using t holds_new unfolding good_def by blast
  ultimately have g: "good (push_vec b (entry_of new) (s @ [[]])) (grow b new ?t)"
    using fresh b by (intro good_push) (auto simp: new_def)
  obtain us' where us': "grow b new ?t = Shape_Category n r us'" by simp
  have dist: "distinct (refs_of ?t)" using t by (simp add: good_def)
  from add_at_prepared [OF dist d f] us'
  have a: "add_at (passed @ p # ps) x (map erase us') = add_at (passed @ p # ps) x (map erase us)" for ps x
    unfolding new_def by (metis items_of.simps(1))
  have "descend (passed @ [p]) (Shape_Category n r us') = Some new"
    using descend_prepared [OF dist d f] us' unfolding new_def by metis
  moreover have "set (refs_of (Shape_Category n r us')) \<subseteq> insert (length s) (set (refs_of ?t))"
    using refs_grow_cases [of _ b new ?t] unfolding us' by (auto simp: new_def)
  ultimately show thesis using that [OF us' g [unfolded us'] _ a] b by blast
qed

lemma make_categories_refines:
  assumes "good s (Shape_Category n r us)"
    and "descend passed (Shape_Category n r us) = Some (Shape_Category m b vs)"
  shows "case make_categories s r passed b ps :: 's store \<times> ('e NodeMenuError, vec_ref) result of
      (s', Inl e) \<Rightarrow> \<forall>x. add_at (passed @ ps) x (map erase us) = Inl e
    | (s', Inr b') \<Rightarrow> \<exists>us' m' vs'. good s' (Shape_Category n r us')
        \<and> descend (passed @ ps) (Shape_Category n r us') = Some (Shape_Category m' b' vs')
        \<and> (\<forall>x. add_at (passed @ ps) x (map erase us') = (add_at (passed @ ps) x (map erase us)
             :: ('e NodeMenuError, 's menu list) result))
        \<and> length s \<le> length s'
        \<and> set (refs_of (Shape_Category n r us')) \<subseteq> set (refs_of (Shape_Category n r us)) \<union> {length s..}
        \<and> (\<forall>a < length s. a \<notin> set (refs_of (Shape_Category n r us)) \<longrightarrow> s' ! a = s ! a)"
  using assms
proof (induction ps arbitrary: s us passed m b vs)
  case Nil
  then show ?case by auto
next
  case (Cons p ps)
  let ?t = "Shape_Category n r us"
  have dist: "distinct (refs_of ?t)" using Cons.prems(1) by (simp add: good_def)
  have d: "descend (passed @ [p]) ?t = find (\<lambda>u. MenuItem_name (entry_of u) = p) vs"
    by (simp add: descend_append Cons.prems(2) split: option.split)
  have i: "case descend (passed @ [p]) ?t of
      Some u \<Rightarrow> item_for_path s r (passed @ [p]) = (Inr (entry_of u) :: ('e NodeMenuError, 's MenuItem) result)
    | None \<Rightarrow> \<exists>e. item_for_path s r (passed @ [p]) = (Inl e :: ('e NodeMenuError, 's MenuItem) result)"
    unfolding item_for_path_def
    by (rule item_for_path_descend) (use Cons.prems(1) in \<open>simp_all add: good_def\<close>)
  show ?case
  proof (cases "find (\<lambda>u. MenuItem_name (entry_of u) = p) vs")
    case None
    obtain us' where N: "grow b (Shape_Category p (length s) []) ?t = Shape_Category n r us'"
      "good (push_vec b (entry_of (Shape_Category p (length s) [])) (s @ [[]])) (Shape_Category n r us')"
      "descend (passed @ [p]) (Shape_Category n r us') = Some (Shape_Category p (length s) [])"
      "\<And>ps x. add_at (passed @ p # ps) x (map erase us') = (add_at (passed @ p # ps) x (map erase us)
             :: ('e NodeMenuError, 's menu list) result)"
      "set (refs_of (Shape_Category n r us')) \<subseteq> insert (length s) (set (refs_of ?t))"
      "b \<in> set (refs_of ?t)"
      using good_new_category [OF Cons.prems None] by metis
    let ?s = "push_vec b (entry_of (Shape_Category p (length s) [])) (s @ [[]]) :: 's store"
    have eq: "make_categories s r passed b (p # ps) =
        (make_categories ?s r (passed @ [p]) (length s) ps :: _ \<times> ('e NodeMenuError, vec_ref) result)"
      using i None by (auto simp: d MenuItem_category_def Category_new_def new_vec_def)
    have frame: "?s ! a = s ! a" if "a < length s" "a \<notin> set (refs_of ?t)" for a
      using that N(6) by (cases "a = b") (auto simp: nth_append)
    obtain s' q where q: "make_categories ?s r (passed @ [p]) (length s) ps
        = (s', q :: ('e NodeMenuError, vec_ref) result)"
      by fastforce
    note IH = Cons.IH [OF N(2,3), unfolded q append_assoc append_Cons append_Nil]
    show ?thesis
    proof (cases q)
      case (Inl e)
      show ?thesis unfolding eq q Inl prod.case sum.case
        using IH N(4) [of ps] Inl by (simp del: add_at.simps)
    next
      case (Inr b')
      with IH obtain us'' m' vs' where R: "good s' (Shape_Category n r us'')"
        "descend (passed @ p # ps) (Shape_Category n r us'') = Some (Shape_Category m' b' vs')"
        "\<And>x. add_at (passed @ p # ps) x (map erase us'') = (add_at (passed @ p # ps) x (map erase us')
             :: ('e NodeMenuError, 's menu list) result)"
        "length ?s \<le> length s'"
        "set (refs_of (Shape_Category n r us'')) \<subseteq> set (refs_of (Shape_Category n r us')) \<union> {length ?s..}"
        "\<And>a. a < length ?s \<Longrightarrow> a \<notin> set (refs_of (Shape_Category n r us')) \<Longrightarrow> s' ! a = ?s ! a"
        by auto
      have "s' ! a = s ! a" if "a < length s" "a \<notin> set (refs_of ?t)" for a
        using R(6) [of a] frame [OF that] N(5) that by auto
      moreover have "set (refs_of (Shape_Category n r us'')) \<subseteq> set (refs_of ?t) \<union> {length s..}"
        using R(5) N(5) by (fastforce simp del: refs_of.simps)
      ultimately show ?thesis
        unfolding eq q Inr prod.case sum.case using R(1-4) N(4) [of ps]
        by (intro exI [of _ us''] exI [of _ m'] exI [of _ vs']) (simp del: refs_of.simps)
    qed
  next
    case (Some u)
    then have it: "item_for_path s r (passed @ [p]) = (Inr (entry_of u) :: ('e NodeMenuError, 's MenuItem) result)"
      using i by (simp add: d)
    show ?thesis
    proof (cases u)
      case (Shape_Item k j)
      with it have eq: "make_categories s r passed b (p # ps)
          = (s, Inl NoInnerCategory :: ('e NodeMenuError, vec_ref) result)"
        by simp
      show ?thesis unfolding eq
        by (simp add: add_at_blocked [OF dist Cons.prems(2) Some [unfolded Shape_Item]])
    next
      case (Shape_Category k c ws)
      then have D: "descend (passed @ [p]) ?t = Some (Shape_Category k c ws)" using d Some by simp
      have eq: "make_categories s r passed b (p # ps)
          = (make_categories s r (passed @ [p]) c ps :: _ \<times> ('e NodeMenuError, vec_ref) result)"
        using it Shape_Category by simp
      from Cons.IH [OF Cons.prems(1) D, unfolded append_assoc append_Cons append_Nil]
      show ?thesis unfolding eq .
    qed
  qed
qed

text \<open>A push onto the vector that a path leads to.\<close>

lemma push_refines:
  assumes t: "good s (Shape_Category n r us)" and x: "good s x"
    "set (refs_of (Shape_Category n r us)) \<inter> set (refs_of x) = {}"
    and d: "descend ps (Shape_Category n r us) = Some (Shape_Category m b vs)"
  shows "\<exists>us'. good (push_vec b (entry_of x) s) (Shape_Category n r us')
    \<and> add_at ps (erase x) (map erase us) = Inr (map erase us')"
proof -
  have "b \<in> set (refs_of (Shape_Category n r us))" using descend_refs [OF d] by auto
  from good_push [OF t x this]
  have g: "good (push_vec b (entry_of x) s) (grow b x (Shape_Category n r us))" .
  obtain us' where us': "grow b x (Shape_Category n r us) = Shape_Category n r us'" by simp
  have "add_at ps (erase x) (map erase us) = Inr (map erase us')"
    using add_at_grow [OF _ d] t unfolding good_def us' [symmetric] by (metis items_of.simps(1) us')
  with g show ?thesis unfolding us' by blast
qed

lemma insert_refines:
  assumes t: "good s (Shape_Category n r us)" and x: "good s x"
    "set (refs_of (Shape_Category n r us)) \<inter> set (refs_of x) = {}"
  shows "case insert_menu_item r path (entry_of x) s :: 's store \<times> ('e NodeMenuError, unit) result of
      (s', Inl e) \<Rightarrow> menu_insert path (erase x) (map erase us) = Inl e
    | (s', Inr _) \<Rightarrow> \<exists>us'. good s' (Shape_Category n r us')
        \<and> menu_insert path (erase x) (map erase us) = (Inr (map erase us') :: ('e NodeMenuError, 's menu list) result)"
proof -
  let ?t = "Shape_Category n r us" and ?name = "MenuItem_name (entry_of x)"
  have dist: "distinct (refs_of ?t)" and r: "s ! r = map entry_of us" using t by (simp_all add: good_def)
  consider (top) "path = []"
    | (inside) m b vs where "path \<noteq> []"
        "find (\<lambda>u. MenuItem_name (entry_of u) = ?name) us = Some (Shape_Category m b vs)"
    | (blocked) m i where "path \<noteq> []"
        "find (\<lambda>u. MenuItem_name (entry_of u) = ?name) us = Some (Shape_Item m i)"
    | (path) "path \<noteq> []" "find (\<lambda>u. MenuItem_name (entry_of u) = ?name) us = None"
    by (metis option.exhaust shape.exhaust)
  then show ?thesis
  proof cases
    case top
    with push_refines [OF t x, of "[]" n r us] show ?thesis
      by (auto simp: insert_menu_item_def item_for_path_def menu_insert_def)
  next
    case inside
    then have "?name \<in> menu_name ` set (map erase us)"
      using find_split [OF inside(2)] by (auto simp: image_image)
    with inside push_refines [OF t x, of "[?name]" m b vs] show ?thesis
      by (auto simp: insert_menu_item_def item_for_path_def menu_insert_def r find_entry Category_push_def)
  next
    case blocked
    then have "?name \<in> menu_name ` set (map erase us)"
      using find_split [OF blocked(2)] by (auto simp: image_image)
    with blocked add_at_blocked [OF dist _ blocked(2), of "[]" n r "[]"] show ?thesis
      by (auto simp: insert_menu_item_def item_for_path_def menu_insert_def r find_entry)
  next
    case path
    then have no: "?name \<notin> menu_name ` set (map erase us)"
      by (auto simp: image_image find_None_iff)
    then have mi: "menu_insert path (erase x) (map erase us) = add_at path (erase x) (map erase us)"
      by (simp add: menu_insert_def)
    have ins: "insert_menu_item r path (entry_of x) s = (case make_categories s r [] r path of
        (s1, Inl e) \<Rightarrow> (s1, Inl e) | (s1, Inr b) \<Rightarrow> (push_vec b (entry_of x) s1, Inr ()))"
      using path by (simp add: insert_menu_item_def item_for_path_def r find_entry)
    obtain s' q where q: "make_categories s r [] r path = (s', q :: ('e NodeMenuError, vec_ref) result)"
      by fastforce
    note M = make_categories_refines [OF t, of "[]" n r us path, where 'e = 'e, unfolded q append_Nil]
    show ?thesis
    proof (cases q)
      case (Inl e)
      with M show ?thesis by (simp add: ins q mi)
    next
      case (Inr b)
      with M obtain us' m' vs' where R: "good s' (Shape_Category n r us')"
        "descend path (Shape_Category n r us') = Some (Shape_Category m' b vs')"
        "\<And>x. add_at path x (map erase us') = (add_at path x (map erase us) :: ('e NodeMenuError, 's menu list) result)"
        "length s \<le> length s'" "set (refs_of (Shape_Category n r us')) \<subseteq> set (refs_of ?t) \<union> {length s..}"
        "\<And>a. a < length s \<Longrightarrow> a \<notin> set (refs_of ?t) \<Longrightarrow> s' ! a = s ! a"
        by auto
      have bd: "a < length s" "a \<notin> set (refs_of ?t)" if "a \<in> set (refs_of x)" for a
        using refs_bounded [of s x a] x that unfolding good_def by blast+
      have x': "good s' x" by (rule good_frame [OF x(1) R(4)]) (use R(6) bd in blast)
      have "set (refs_of (Shape_Category n r us')) \<inter> set (refs_of x) = {}"
        using R(5) bd by (fastforce simp del: refs_of.simps)
      from push_refines [OF R(1) x' this R(2)] show ?thesis
        by (auto simp: ins q mi Inr simp flip: R(3))
    qed
  qed
qed

section \<open>The generated menu\<close>

lemma those_map_Some: "(\<And>x. x \<in> set xs \<Longrightarrow> f x = Some (g x)) \<Longrightarrow> those (map f xs) = Some (map g xs)"
  by (induction xs) simp_all

lemma menu_of_holds:
  "holds s (Shape_Category n a us) \<Longrightarrow> length (refs_of (Shape_Category n a us)) \<le> k \<Longrightarrow>
   menu_of k s a = Some (map erase us)"
proof (induction k arbitrary: n a us)
  case (Suc k)
  have "(case entry_of u of
      MenuItem_Category c \<Rightarrow> map_option (Menu_Category (cat_name c)) (menu_of k s (cat_items c))
    | MenuItem_Item i \<Rightarrow> Some (Menu_Item (item_name i) (item_schema_id i))) = Some (erase u)"
    if u: "u \<in> set us" for u
  proof (cases u)
    case (Shape_Category m b vs)
    have "length (refs_of u) \<le> length (concat (map refs_of us))"
      using u by (induction us) auto
    then have "length (refs_of (Shape_Category m b vs)) \<le> k"
      using Suc.prems(2) Shape_Category by simp
    moreover have "holds s (Shape_Category m b vs)" using Suc.prems(1) u Shape_Category by auto
    ultimately show ?thesis using Suc.IH [of m b vs] Shape_Category by simp
  qed simp
  then show ?case using Suc.prems(1) by (simp add: comp_def those_map_Some)
qed simp

lemma to_json_value_menu:
  assumes "good s (Shape_Category n r us)"
  shows "to_json_value s r = Some (map erase us)"
proof -
  have "card (set (refs_of (Shape_Category n r us))) \<le> card {..< length s}"
    using assms refs_bounded by (intro card_mono) (auto simp: good_def simp del: refs_of.simps holds.simps)
  then have "length (refs_of (Shape_Category n r us)) \<le> length s"
    using assms by (simp add: good_def distinct_card del: refs_of.simps)
  with menu_of_holds [of s n r us] assms show ?thesis by (simp add: to_json_value_def good_def)
qed

fun menu_insert_all ::
  "(bytes list \<times> 's Item) list \<Rightarrow> 's menu list \<Rightarrow> ('e NodeMenuError, 's menu list) result" where
  "menu_insert_all [] ts = Inr ts"
| "menu_insert_all ((path, item) # raw) ts =
     rbind (menu_insert path (Menu_Item (item_name item) (item_schema_id item)) ts) (menu_insert_all raw)"

lemma insert_raw_refines:
  assumes "good s (Shape_Category n r us)"
  shows "(case insert_raw_items r raw s of
        (s1, Inl e) \<Rightarrow> Some (Inl e)
      | (s1, Inr _) \<Rightarrow> map_option Inr (to_json_value s1 r))
    = Some (menu_insert_all raw (map erase us) :: ('e NodeMenuError, 's menu list) result)"
  using assms
proof (induction raw arbitrary: s us)
  case Nil
  then show ?case by (simp add: to_json_value_menu)
next
  case (Cons a raw)
  obtain path item where a: "a = (path, item)" by fastforce
  let ?x = "Shape_Item (item_name item) (item_schema_id item)"
  obtain s1 q where q: "insert_menu_item r path (MenuItem_Item item) s = (s1, q :: ('e NodeMenuError, unit) result)"
    by fastforce
  have gx: "good s ?x" by (simp add: good_def)
  have e: "entry_of ?x = MenuItem_Item item" by simp
  have "case (s1, q) of
      (s', Inl e) \<Rightarrow> menu_insert path (erase ?x) (map erase us) = Inl e
    | (s', Inr _) \<Rightarrow> \<exists>us'. good s' (Shape_Category n r us')
        \<and> menu_insert path (erase ?x) (map erase us) = (Inr (map erase us') :: ('e NodeMenuError, 's menu list) result)"
    using insert_refines [OF Cons.prems gx, of path, where 'e = 'e] unfolding e q by simp
  with Cons.IH show ?case by (auto simp: a q split: sum.splits)
qed

lemma create_menu_json_refines:
  assumes "MenuItems_new s0 = (r, s)"
  shows "create_menu_json \<lparr>raw_items = raw, menu_items = r\<rparr> s = Some (menu_insert_all raw [])"
proof -
  have "good s (Shape_Category [] r [])"
    using assms by (auto simp: MenuItems_new_def new_vec_def good_def)
  note R = insert_raw_refines [OF this, unfolded list.map]
  show ?thesis unfolding create_menu_json_def GenerateMenuItem.select_convs by (rule R)
qed

end
