(* ===== verification/Node_Menu_Properties.thy ===== *)
theory Node_Menu_Properties
  imports Node_Menu_Refinement "HOL-Library.Sublist"
begin

text \<open>
  What is in the menu that \<open>get_node_add_menu\<close> returns. When no asset is named like a top-level category,
  every visible asset is in its category, sorted by name, and nothing else is in the menu; the one
  error is an asset whose name makes it the same path as a category. An asset that is named like a
  top-level category that is already there ends up in that category instead of its own.
\<close>

section \<open>The items of a menu\<close>

fun leaves_of :: "'s menu \<Rightarrow> (bytes list \<times> bytes \<times> 's) list" where
  "leaves_of (Menu_Category n us) = map (apfst ((#) n)) (concat (map leaves_of us))"
| "leaves_of (Menu_Item n i) = [([], n, i)]"

definition leaves :: "'s menu list \<Rightarrow> (bytes list \<times> bytes \<times> 's) list" where
  "leaves ts = concat (map leaves_of ts)"

definition leaves_at :: "bytes list \<Rightarrow> (bytes list \<times> 'a) list \<Rightarrow> (bytes list \<times> 'a) list" where
  "leaves_at path ls = filter (\<lambda>l. fst l = path) ls"

lemma leaves_simps [simp]: "leaves [] = []" "leaves (t # ts) = leaves_of t @ leaves ts"
    "leaves (ts @ us) = leaves ts @ leaves us"
  by (simp_all add: leaves_def)

lemma leaves_of_category [simp]: "leaves_of (Menu_Category n us) = map (apfst ((#) n)) (leaves us)"
  by (simp add: leaves_def)

declare leaves_of.simps(1) [simp del]

lemma leaves_at_simps [simp]: "leaves_at path [] = []"
    "leaves_at path (ls @ ms) = leaves_at path ls @ leaves_at path ms"
    "leaves_at path (l # ls) = (if fst l = path then [l] else []) @ leaves_at path ls"
  by (simp_all add: leaves_at_def)

lemma leaves_at_below [simp]:
  "leaves_at (q # path) (map (apfst ((#) n)) ls) = (if q = n then map (apfst ((#) n)) (leaves_at path ls) else [])"
  "leaves_at [] (map (apfst ((#) n)) ls) = []"
  by (induction ls) auto

section \<open>Categories with different names\<close>

fun cat_names :: "'s menu list \<Rightarrow> bytes list" where
  "cat_names [] = []"
| "cat_names (Menu_Category n us # ts) = n # cat_names ts"
| "cat_names (Menu_Item n i # ts) = cat_names ts"

fun neat_of :: "'s menu \<Rightarrow> bool" where
  "neat_of (Menu_Category n us) \<longleftrightarrow> distinct (cat_names us) \<and> (\<forall>u \<in> set us. neat_of u)"
| "neat_of (Menu_Item n i) \<longleftrightarrow> True"

definition neat :: "'s menu list \<Rightarrow> bool" where
  "neat ts \<longleftrightarrow> distinct (cat_names ts) \<and> (\<forall>t \<in> set ts. neat_of t)"

lemma neat_simps [simp]: "neat []"
    "neat (Menu_Category n us # ts) \<longleftrightarrow> n \<notin> set (cat_names ts) \<and> neat us \<and> neat ts"
    "neat (Menu_Item n i # ts) \<longleftrightarrow> neat ts"
  by (auto simp: neat_def)

lemma cat_names_snoc_item [simp]: "cat_names (ts @ [Menu_Item n i]) = cat_names ts"
  by (induction ts rule: cat_names.induct) simp_all

lemma neat_snoc_item [simp]: "neat (ts @ [Menu_Item n i]) \<longleftrightarrow> neat ts"
  by (auto simp: neat_def)

lemma leaves_at_other: "p \<notin> set (cat_names ts) \<Longrightarrow> leaves_at (p # path) (leaves ts) = []"
  by (induction ts rule: cat_names.induct) auto

text \<open>A successful insertion adds one item, at its path and behind the items that are there.\<close>

lemma add_at_leaves:
  assumes "(add_at ps x ts :: ('e NodeMenuError, 's menu list) result) = Inr ts'" and "x = Menu_Item n i" and "neat ts"
  shows "neat ts' \<and> set (cat_names ts') = set (cat_names ts) \<union> set (take 1 ps)
    \<and> (\<forall>path. leaves_at path (leaves ts') = leaves_at path (leaves ts) @ (if path = ps then [(ps, n, i)] else []))"
  using assms
proof (induction ps x ts arbitrary: ts' rule: add_at.induct)
  case (1 x ts)
  then show ?case by auto
next
  case (2 p ps x)
  from 2(2) obtain us where us: "(add_at ps x [] :: ('e NodeMenuError, 's menu list) result) = Inr us" "ts' = [Menu_Category p us]"
    by (auto simp: rbind_Inr_iff)
  from 2(1) [OF us(1) 2(3)] have IH: "neat us"
    "\<And>path. leaves_at path (leaves us) = (if path = ps then [(ps, n, i)] else [])" by auto
  have "leaves_at path (leaves ts') = (if path = p # ps then [(p # ps, n, i)] else [])" for path
    by (cases path) (auto simp: us(2) IH(2))
  with IH(1) us(2) show ?case by auto
next
  case (3 p ps x t ts)
  show ?case
  proof (cases "menu_name t = p")
    case True
    with 3(3) obtain us us' where us: "t = Menu_Category p us" "(add_at ps x us :: ('e NodeMenuError, 's menu list) result) = Inr us'"
      "ts' = Menu_Category p us' # ts"
      by (auto simp: rbind_Inr_iff split: menu.splits)
    from 3(1) [OF True us(1,2) 3(4)] 3(5) us(1) have IH: "neat us'"
      "\<And>path. leaves_at path (leaves us') = leaves_at path (leaves us) @ (if path = ps then [(ps, n, i)] else [])"
      by auto
    have "leaves_at path (leaves ts') = leaves_at path (leaves (t # ts)) @
        (if path = p # ps then [(p # ps, n, i)] else [])" for path
      using 3(5) by (cases path) (auto simp: us IH(2) leaves_at_other)
    with IH(1) us 3(5) show ?thesis by auto
  next
    case False
    with 3(3) obtain us where us: "(add_at (p # ps) x ts :: ('e NodeMenuError, 's menu list) result) = Inr us" "ts' = t # us"
      by (auto simp: rbind_Inr_iff)
    have "neat ts" using 3(5) by (cases t) auto
    from 3(2) [OF False us(1) 3(4) this] have IH: "neat us" "set (cat_names us) = insert p (set (cat_names ts))"
      "\<And>path. leaves_at path (leaves us) = leaves_at path (leaves ts) @ (if path = p # ps then [(p # ps, n, i)] else [])"
      by auto
    show ?thesis using False IH 3(5) us(2) by (cases t) auto
  qed
qed

lemma add_at_error_leaf:
  "(add_at ps x ts :: ('e NodeMenuError, 's menu list) result) = Inl e \<Longrightarrow> \<exists>q n i. (q, n, i) \<in> set (leaves ts) \<and> prefix (q @ [n]) ps"
proof (induction ps x ts rule: add_at.induct)
  case (3 p ps x t ts)
  show ?case
  proof (cases "menu_name t = p")
    case True
    show ?thesis
    proof (cases t)
      case (Menu_Category n us)
      with True 3(3) have "(add_at ps x us :: ('e NodeMenuError, 's menu list) result) = Inl e" by (auto simp: rbind_def split: sum.splits)
      from 3(1) [OF True Menu_Category this] True Menu_Category show ?thesis
        by (fastforce intro: rev_image_eqI)
    next
      case (Menu_Item n i)
      with True show ?thesis by (intro exI [of _ "[]"] exI [of _ p] exI [of _ i]) simp
    qed
  next
    case False
    with 3(2,3) show ?thesis by (fastforce simp: rbind_def split: sum.splits)
  qed
qed (auto simp: rbind_def split: sum.splits)

section \<open>What is found at a path\<close>

fun entry_at :: "bytes list \<Rightarrow> 's menu list \<Rightarrow> 's menu option" where
  "entry_at [] ts = None"
| "entry_at (p # ps) [] = None"
| "entry_at (p # ps) (t # ts) =
     (if menu_name t = p
      then (if ps = [] then Some t
            else case t of Menu_Category n us \<Rightarrow> entry_at ps us | Menu_Item n i \<Rightarrow> None)
      else entry_at (p # ps) ts)"

lemma entry_at_empty [simp]: "entry_at path [] = None"
  by (cases path) simp_all

lemma add_at_entry_item:
  "entry_at (qs @ [q]) ts = Some (Menu_Item n i) \<Longrightarrow> add_at (qs @ q # rest) x ts = Inl NoInnerCategory"
proof (induction "qs @ [q]" ts arbitrary: qs rule: entry_at.induct)
  case (3 p ps t ts)
  then show ?case by (cases qs) (auto split: if_splits menu.splits)
qed auto

lemma entry_at_snoc:
  "entry_at path ts = Some e \<Longrightarrow> entry_at path (ts @ us) = Some e"
  by (induction path ts rule: entry_at.induct) (auto split: if_splits menu.splits)

lemma entry_item_persists:
  "add_at ps x ts = Inr ts' \<Longrightarrow> entry_at path ts = Some (Menu_Item n i) \<Longrightarrow>
   entry_at path ts' = Some (Menu_Item n i)"
proof (induction ps x ts arbitrary: ts' path rule: add_at.induct)
  case (1 x ts)
  then show ?case using entry_at_snoc by auto
next
  case (2 p ps x)
  then show ?case by (cases path) auto
next
  case (3 p ps x t ts)
  then show ?case
    by (cases path) (auto simp: rbind_Inr_iff split: if_splits menu.splits)
qed

lemma entry_item_placed:
  "add_at ps x ts = Inr ts' \<Longrightarrow> x = Menu_Item n i \<Longrightarrow> entry_at (ps @ [n]) ts = None \<Longrightarrow>
   entry_at (ps @ [n]) ts' = Some (Menu_Item n i)"
proof (induction ps x ts arbitrary: ts' rule: add_at.induct)
  case (1 x ts)
  have "entry_at [n] ts = None \<Longrightarrow> entry_at [n] (ts @ [Menu_Item n i]) = Some (Menu_Item n i)"
    by (induction ts) (auto split: if_splits)
  with 1 show ?case by auto
next
  case (2 p ps x)
  then show ?case by (auto simp: rbind_Inr_iff)
next
  case (3 p ps x t ts)
  then show ?case
    by (auto simp: rbind_Inr_iff split: if_splits menu.splits)
qed

lemma entry_category_added:
  "add_at ps x ts = Inr ts' \<Longrightarrow> x = Menu_Item n i \<Longrightarrow> entry_at path ts' = Some (Menu_Category m us) \<Longrightarrow>
   prefix path ps \<or> (\<exists>us. entry_at path ts = Some (Menu_Category m us))"
proof (induction ps x ts arbitrary: ts' path us rule: add_at.induct)
  case (1 x ts)
  have "entry_at path (ts @ [Menu_Item n i]) = Some (Menu_Category m us) \<Longrightarrow>
      entry_at path ts = Some (Menu_Category m us)"
    by (induction path ts rule: entry_at.induct) (auto split: if_splits menu.splits)
  with 1 show ?case by auto
next
  case (2 p ps x)
  then show ?case by (cases path) (fastforce simp: rbind_Inr_iff split: if_splits)+
next
  case (3 p ps x t ts)
  then show ?case
    by (cases path) (fastforce simp: rbind_Inr_iff split: if_splits menu.splits)+
qed

section \<open>Sequences of insertions\<close>

fun add_all ::
  "(bytes list \<times> 's Item) list \<Rightarrow> 's menu list \<Rightarrow> ('e NodeMenuError, 's menu list) result" where
  "add_all [] ts = Inr ts"
| "add_all ((path, item) # raw) ts =
     rbind (add_at path (Menu_Item (item_name item) (item_schema_id item)) ts) (add_all raw)"

definition leaf_of :: "bytes list \<times> 's Item \<Rightarrow> bytes list \<times> bytes \<times> 's" where
  "leaf_of l = (fst l, item_name (snd l), item_schema_id (snd l))"

lemma add_at_names:
  "add_at (p # ps) x ts = Inr ts' \<Longrightarrow> t \<in> set ts' \<Longrightarrow> menu_name t = p \<or> menu_name t \<in> menu_name ` set ts"
  by (induction "p # ps" x ts arbitrary: ts' rule: add_at.induct)
    (auto simp: rbind_Inr_iff split: if_splits menu.splits)

lemma menu_insert_all_add_all:
  assumes "\<And>path item. (path, item) \<in> set raw \<Longrightarrow> path \<noteq> [] \<and> hd path \<in> T \<and> item_name item \<notin> T"
    and "menu_name ` set ts \<subseteq> T"
  shows "menu_insert_all raw ts = (add_all raw ts :: ('e NodeMenuError, 's menu list) result)"
  using assms
proof (induction raw arbitrary: ts)
  case (Cons a raw)
  obtain p ps item where a: "a = (p # ps, item)" "p \<in> T" "item_name item \<notin> T"
    using Cons.prems(1) by (metis list.collapse list.set_intros(1) surj_pair)
  let ?x = "Menu_Item (item_name item) (item_schema_id item)"
  have m: "menu_insert (p # ps) ?x ts = (add_at (p # ps) ?x ts :: ('e NodeMenuError, 's menu list) result)"
    using a Cons.prems(2) by (auto simp: menu_insert_def)
  show ?case
  proof (cases "add_at (p # ps) ?x ts :: ('e NodeMenuError, 's menu list) result")
    case (Inl e)
    then show ?thesis by (simp add: a m del: add_at.simps)
  next
    case (Inr ts')
    have "menu_name ` set ts' \<subseteq> T" using add_at_names [OF Inr] a(2) Cons.prems(2) by fastforce
    moreover have "\<And>path item. (path, item) \<in> set raw \<Longrightarrow> path \<noteq> [] \<and> hd path \<in> T \<and> item_name item \<notin> T"
      using Cons.prems(1) by auto
    ultimately have "menu_insert_all raw ts' = (add_all raw ts' :: ('e NodeMenuError, 's menu list) result)"
      using Cons.IH by blast
    with Inr show ?thesis by (simp add: a m del: add_at.simps)
  qed
qed simp

lemma add_all_append: "add_all (xs @ ys) ts = rbind (add_all xs ts) (add_all ys)"
  by (induction xs ts rule: add_all.induct) (simp_all add: rbind_def split: sum.split)

lemma add_all_leaves:
  assumes "(add_all raw ts :: ('e NodeMenuError, 's menu list) result) = Inr ts'" and "neat ts"
  shows "neat ts' \<and> (\<forall>path. leaves_at path (leaves ts') = leaves_at path (leaves ts @ map leaf_of raw))"
  using assms
proof (induction raw arbitrary: ts)
  case (Cons a raw)
  obtain path item where a: "a = (path, item)" by fastforce
  from Cons.prems(1) obtain us where us:
    "add_at path (Menu_Item (item_name item) (item_schema_id item)) ts = (Inr us :: ('e NodeMenuError, 's menu list) result)"
    "(add_all raw us :: ('e NodeMenuError, 's menu list) result) = Inr ts'"
    by (auto simp: a rbind_Inr_iff)
  have A: "neat us" "\<And>q. leaves_at q (leaves us) = leaves_at q (leaves ts) @ leaves_at q [leaf_of a]"
    using add_at_leaves [OF us(1) refl Cons.prems(2)] by (auto simp: a leaf_of_def)
  from Cons.IH [OF us(2) A(1)] A(2) show ?case by simp
qed simp

lemma set_leaves_eq:
  assumes "\<And>path. leaves_at path ls = leaves_at path ms"
  shows "set ls = set ms"
proof -
  have m: "l \<in> set ls \<longleftrightarrow> l \<in> set (leaves_at (fst l) ls)" for l and ls :: "(bytes list \<times> 'a) list"
    by (simp add: leaves_at_def)
  have "l \<in> set ls \<longleftrightarrow> l \<in> set ms" for l
    using m [of l ls] m [of l ms] assms [of "fst l"] by simp
  then show ?thesis by (rule set_eqI)
qed

lemma add_all_error:
  assumes "(add_all raw ts :: ('e NodeMenuError, 's menu list) result) = Inl e" and "neat ts"
  shows "e = NoInnerCategory \<and> (\<exists>q n i. (q, n, i) \<in> set (leaves ts @ map leaf_of raw)
    \<and> (\<exists>path \<in> fst ` set raw. prefix (q @ [n]) path))"
  using assms
proof (induction raw arbitrary: ts)
  case (Cons a raw)
  obtain path item where a: "a = (path, item)" by fastforce
  let ?x = "Menu_Item (item_name item) (item_schema_id item)"
  show ?case
  proof (cases "add_at path ?x ts :: ('e NodeMenuError, 's menu list) result")
    case (Inl e')
    with Cons.prems(1) have "e = e'" by (simp add: a)
    with add_at_error [OF Inl] add_at_error_leaf [OF Inl] show ?thesis by (auto simp: a)
  next
    case (Inr us)
    note L = add_at_leaves [OF Inr refl Cons.prems(2)]
    have "set (leaves us) = set (leaves ts @ [leaf_of a])"
      by (rule set_leaves_eq) (use L in \<open>auto simp: a leaf_of_def\<close>)
    with Cons.IH [of us] Cons.prems(1) L Inr show ?thesis by (auto simp: a)
  qed
qed simp

lemma add_all_entry_item:
  "add_all raw ts = Inr ts' \<Longrightarrow> entry_at path ts = Some (Menu_Item n i) \<Longrightarrow>
   entry_at path ts' = Some (Menu_Item n i)"
  by (induction raw ts rule: add_all.induct) (auto simp: rbind_Inr_iff dest: entry_item_persists)

lemma add_all_entry_category:
  assumes "(add_all raw ts :: ('e NodeMenuError, 's menu list) result) = Inr ts'"
    and "entry_at path ts' = Some (Menu_Category m us)"
  shows "(\<exists>q \<in> fst ` set raw. prefix path q) \<or> (\<exists>us. entry_at path ts = Some (Menu_Category m us))"
  using assms
proof (induction raw arbitrary: ts)
  case (Cons a raw)
  obtain q item where a: "a = (q, item)" by fastforce
  from Cons.prems(1) obtain vs where vs:
    "add_at q (Menu_Item (item_name item) (item_schema_id item)) ts = (Inr vs :: ('e NodeMenuError, 's menu list) result)"
    "(add_all raw vs :: ('e NodeMenuError, 's menu list) result) = Inr ts'"
    by (auto simp: a rbind_Inr_iff)
  from Cons.IH [OF vs(2) Cons.prems(2)] entry_category_added [OF vs(1) refl] show ?case
    by (auto simp: a)
qed auto

section \<open>Paths and the order of categories\<close>

lemma split_dots_ne [simp]: "split_dots s \<noteq> []"
  by (induction s) (auto split: list.splits)

lemma join_split_dots [simp]: "join_dots (split_dots s) = s"
proof (induction s)
  case (Cons c s)
  then show ?case
    by (cases "split_dots s"; cases "tl (split_dots s)") (auto split: list.splits)
qed simp

lemma join_dots_append:
  "ps \<noteq> [] \<Longrightarrow> qs \<noteq> [] \<Longrightarrow> join_dots (ps @ qs) = join_dots ps @ CHR ''.'' # join_dots qs"
proof (induction ps rule: join_dots.induct)
  case (2 p)
  then show ?case by (cases qs) simp_all
qed simp_all

lemma less_append [simp]: "(xs :: bytes) < xs @ c # ys"
  by (simp add: list_less_def lexord_append_rightI)

lemma prefix_category_less:
  assumes "ps \<noteq> []" and "prefix (ps @ [n]) qs"
  shows "join_dots ps < join_dots qs"
proof -
  from assms(2) obtain rs where "qs = ps @ n # rs" by (auto simp: prefix_def)
  with assms(1) show ?thesis using join_dots_append [of ps "n # rs"] by simp
qed

text \<open>In the order of the categories, an item comes before the categories whose path goes through its
  place, and the insertion that meets it fails.\<close>

lemma add_all_clash:
  assumes sorted: "sorted (map (join_dots \<circ> fst) raw)"
    and ne: "\<And>path. path \<in> fst ` set raw \<Longrightarrow> path \<noteq> []"
    and a: "a \<in> set raw" and b: "b \<in> set raw" and clash: "prefix (fst a @ [item_name (snd a)]) (fst b)"
  shows "(add_all raw [] :: ('e NodeMenuError, 's menu list) result) \<noteq> Inr ts"
proof
  assume ok: "(add_all raw [] :: ('e NodeMenuError, 's menu list) result) = Inr ts"
  obtain p item where a': "a = (p, item)" by fastforce
  let ?n = "item_name item" and ?x = "Menu_Item (item_name item) (item_schema_id item)"
  have less: "join_dots p < join_dots q" if "prefix (p @ [?n]) q" for q
    using prefix_category_less [OF _ that] ne a a' by force
  obtain xs ys where raw: "raw = xs @ a # ys" using a by (meson split_list)
  have "b \<in> set ys"
    using b sorted less [of "fst b"] clash by (fastforce simp: raw a' sorted_append)
  then obtain vs ws where ys: "ys = vs @ b # ws" by (meson split_list)
  from ok obtain t0 t1 t2 where t:
    "(add_all xs [] :: ('e NodeMenuError, 's menu list) result) = Inr t0"
    "(add_at p ?x t0 :: ('e NodeMenuError, 's menu list) result) = Inr t1"
    "(add_all vs t1 :: ('e NodeMenuError, 's menu list) result) = Inr t2"
    "(add_all (b # ws) t2 :: ('e NodeMenuError, 's menu list) result) = Inr ts"
    by (auto simp: raw ys a' add_all_append rbind_Inr_iff)
  have "\<not> (\<exists>m us. entry_at (p @ [?n]) t0 = Some (Menu_Category m us))"
  proof
    assume "\<exists>m us. entry_at (p @ [?n]) t0 = Some (Menu_Category m us)"
    then obtain m us where "entry_at (p @ [?n]) t0 = Some (Menu_Category m us)" by blast
    from add_all_entry_category [OF t(1) this]
    obtain q where q: "q \<in> fst ` set xs" "prefix (p @ [?n]) q" by auto
    have "join_dots q \<le> join_dots p" using sorted q(1) by (auto simp: raw a' sorted_append)
    with less [OF q(2)] show False by simp
  qed
  then have "\<exists>m i. entry_at (p @ [?n]) t1 = Some (Menu_Item m i)"
    using entry_item_placed [OF t(2) refl] entry_item_persists [OF t(2)]
    by (cases "entry_at (p @ [?n]) t0") (auto, metis menu.exhaust)
  then obtain m i where "entry_at (p @ [?n]) t2 = Some (Menu_Item m i)"
    using add_all_entry_item [OF t(3)] by blast
  moreover from clash obtain rest where "fst b = p @ ?n # rest" by (auto simp: a' prefix_def)
  ultimately show False using t(4) by (cases b) (auto simp: rbind_Inr_iff add_at_entry_item)
qed

section \<open>The menu of the diagram\<close>

definition shown :: "(SchemaUiMenu \<Rightarrow> 's Schema option) \<Rightarrow> SchemaUiMenu \<Rightarrow> bool" where
  "shown f m = (case f m of None \<Rightarrow> False | Some schema \<Rightarrow> \<not> schema_ui_hidden schema)"

definition menu_leaf :: "(SchemaUiMenu \<Rightarrow> 's Schema option) \<Rightarrow> SchemaUiMenu \<Rightarrow> bytes list \<times> bytes \<times> 's" where
  "menu_leaf f m = (category_path m, ui_menu_name m, schema_id (the (f m)))"

definition menu_clash :: "(SchemaUiMenu \<Rightarrow> 's Schema option) \<Rightarrow> SchemaUiMenu list \<Rightarrow> bool" where
  "menu_clash f ms \<longleftrightarrow> (\<exists>m \<in> set ms. \<exists>m' \<in> set ms. shown f m \<and> shown f m'
     \<and> prefix (category_path m @ [ui_menu_name m]) (category_path m'))"

definition raw_of :: "(SchemaUiMenu \<Rightarrow> 's Schema option) \<Rightarrow> SchemaUiMenu \<Rightarrow> bytes list \<times> 's Item" where
  "raw_of f m = (category_path m, Item_new (ui_menu_name m) (schema_id (the (f m))))"

lemma raw_item_list_shown:
  "raw_item_list (\<lambda>m. Inr (f m)) False ms = Inr (map (raw_of f) (filter (shown f) ms))"
  by (induction ms) (auto simp: shown_def raw_of_def split: option.splits)

lemma leaf_raw [simp]: "leaf_of (raw_of f m) = menu_leaf f m"
  by (simp add: leaf_of_def raw_of_def menu_leaf_def Item_new_def)

lemma raw_of_sel [simp]: "fst (raw_of f m) = category_path m" "item_name (snd (raw_of f m)) = ui_menu_name m"
  by (simp_all add: raw_of_def Item_new_def)

lemma category_path_ne [simp]: "category_path m \<noteq> []"
  by (simp add: category_path_def)

lemma category_path_key: "join_dots (category_path m) = ui_menu_category m"
  by (simp add: category_path_def)

lemma get_node_add_menu_inserts:
  "get_node_add_menu (Inr ms) (\<lambda>m. Inr (f m)) = Some (menu_insert_all (map (raw_of f)
     (filter (shown f) (sort_key ui_menu_category (sort_key ui_menu_name ms)))) [])"
  by (simp add: get_node_add_menu_def GenerateMenuItem_new_def raw_item_list_shown
      create_menu_json_refines split: prod.split)

lemma sorted_filter_key: "sorted (map g xs) \<Longrightarrow> sorted (map g (filter P xs))"
  by (induction xs) auto

text \<open>The second sort keeps the order of the first within a category.\<close>

lemma category_order:
  "filter (\<lambda>m. shown f m \<and> category_path m = path) (sort_key ui_menu_category xs)
   = filter (\<lambda>m. shown f m \<and> category_path m = path) xs"
proof -
  have F: "filter (\<lambda>m. shown f m \<and> category_path m = path) ys
      = filter (\<lambda>m. shown f m \<and> category_path m = path) (filter (\<lambda>m. ui_menu_category m = join_dots path) ys)" for ys
    by (auto simp: category_path_key [symmetric] intro!: filter_cong)
  show ?thesis by (simp only: F [of "sort_key ui_menu_category xs"] F [of xs] sort_key_stable)
qed

text \<open>C8: The menu for adding assets. When no visible asset is named like the first part of a category, the
  menu is made of exactly the visible assets: each stands in its category, and the assets of a category
  are in the order of their names. The one error, \<open>NoInnerCategory\<close>, is returned exactly when the place
  of one visible asset is on the path of the category of another.\<close>

theorem node_add_menu_contents:
  fixes f :: "SchemaUiMenu \<Rightarrow> 's Schema option"
  assumes "\<And>m m'. m \<in> set ms \<Longrightarrow> m' \<in> set ms \<Longrightarrow> shown f m \<Longrightarrow> shown f m' \<Longrightarrow>
    ui_menu_name m \<noteq> hd (category_path m')"
  shows "case get_node_add_menu (Inr ms :: ('e, SchemaUiMenu list) result) (\<lambda>m. Inr (f m)) of
      None \<Rightarrow> False
    | Some (Inl e) \<Rightarrow> e = NoInnerCategory \<and> menu_clash f ms
    | Some (Inr ts) \<Rightarrow> \<not> menu_clash f ms
        \<and> (\<forall>path. leaves_at path (leaves ts) = map (menu_leaf f)
             (filter (\<lambda>m. shown f m \<and> category_path m = path) (sort_key ui_menu_name ms)))"
proof -
  let ?ms = "filter (shown f) (sort_key ui_menu_category (sort_key ui_menu_name ms))"
  let ?raw = "map (raw_of f) ?ms"
  have ne: "path \<noteq> []" if "path \<in> fst ` set ?raw" for path
    using that by (auto simp: raw_of_def category_path_def)
  have "menu_insert_all ?raw [] = (add_all ?raw [] :: ('e NodeMenuError, 's menu list) result)"
    by (rule menu_insert_all_add_all [of _ "(hd \<circ> category_path) ` set ?ms"])
      (use assms in \<open>auto simp: raw_of_def Item_new_def category_path_def\<close>)
  then have eq: "get_node_add_menu (Inr ms :: ('e, SchemaUiMenu list) result) (\<lambda>m. Inr (f m)) = Some (add_all ?raw [])"
    by (simp add: get_node_add_menu_inserts)
  have "sorted (map (join_dots \<circ> fst) ?raw)"
    by (simp add: comp_def raw_of_def category_path_key sorted_filter_key)
  note no_clash = add_all_clash [OF this ne]
  show ?thesis
  proof (cases "add_all ?raw [] :: ('e NodeMenuError, 's menu list) result")
    case (Inl e)
    from add_all_error [OF Inl] show ?thesis
      by (auto simp: eq Inl menu_clash_def menu_leaf_def)
  next
    case (Inr ts)
    have "\<not> menu_clash f ms"
      using no_clash [of "raw_of f m" "raw_of f m'" ts for m m'] Inr by (auto simp: menu_clash_def)
    moreover have "leaves_at path (leaves ts) = map (menu_leaf f)
        (filter (\<lambda>m. shown f m \<and> category_path m = path) (sort_key ui_menu_name ms))" for path
    proof -
      have "leaves_at path (leaves ts) = leaves_at path (map (menu_leaf f) ?ms)"
        using add_all_leaves [OF Inr] by (simp add: comp_def)
      also have "\<dots> = map (menu_leaf f)
          (filter (\<lambda>m. shown f m \<and> category_path m = path) (sort_key ui_menu_category (sort_key ui_menu_name ms)))"
        by (simp add: leaves_at_def filter_map comp_def menu_leaf_def conj_commute)
      finally show ?thesis by (simp only: category_order)
    qed
    ultimately show ?thesis by (simp add: eq Inr)
  qed
qed

definition sample_menus :: "SchemaUiMenu list" where
  "sample_menus = [\<lparr>ui_menu_name = ''S3'', ui_menu_category = ''AWS''\<rparr>,
     \<lparr>ui_menu_name = ''Image'', ui_menu_category = ''Docker''\<rparr>,
     \<lparr>ui_menu_name = ''AMI'', ui_menu_category = ''AWS.EC2''\<rparr>,
     \<lparr>ui_menu_name = ''IAM'', ui_menu_category = ''AWS''\<rparr>]"

definition sample_schema :: "SchemaUiMenu \<Rightarrow> nat Schema option" where
  "sample_schema m = Some \<lparr>schema_id = length (ui_menu_name m), schema_ui_hidden = False\<rparr>"

lemma sample_menus_unclashed: "\<not> menu_clash sample_schema sample_menus"
  by (simp add: menu_clash_def sample_menus_def shown_def sample_schema_def category_path_def)

theorem node_add_menu_contents_witness:
  "\<exists>ts. get_node_add_menu (Inr sample_menus :: (unit, SchemaUiMenu list) result) (\<lambda>m. Inr (sample_schema m))
      = Some (Inr ts)
    \<and> leaves_at [''AWS''] (leaves ts) = [([''AWS''], ''IAM'', 3), ([''AWS''], ''S3'', 2)]"
proof -
  have sorted: "map (menu_leaf sample_schema) (filter (\<lambda>m. shown sample_schema m \<and> category_path m = [''AWS''])
      (sort_key ui_menu_name sample_menus)) = [([''AWS''], ''IAM'', 3), ([''AWS''], ''S3'', 2)]"
    by code_simp
  have "ui_menu_name m \<noteq> hd (category_path m')" if "m \<in> set sample_menus" "m' \<in> set sample_menus" for m m'
    using that by (auto simp: sample_menus_def category_path_def)
  note N = node_add_menu_contents [of sample_menus sample_schema, OF this, where 'e = unit]
  then obtain ts where "get_node_add_menu (Inr sample_menus :: (unit, SchemaUiMenu list) result)
      (\<lambda>m. Inr (sample_schema m)) = Some (Inr ts)"
    using sample_menus_unclashed by (auto split: option.splits sum.splits)
  moreover with N sorted have "leaves_at [''AWS''] (leaves ts) = [([''AWS''], ''IAM'', 3), ([''AWS''], ''S3'', 2)]"
    by auto
  ultimately show ?thesis by blast
qed

section \<open>Assets that are named like a category\<close>

text \<open>Where the assets are put, when they are inserted one after the other and \<open>T\<close> are the names at the top of
  the menu.\<close>

fun placed :: "bytes set \<Rightarrow> (bytes list \<times> 's Item) list \<Rightarrow> (bytes list \<times> 's Item) list" where
  "placed T [] = []"
| "placed T ((path, item) # raw) =
     (let path' = if item_name item \<in> T then [item_name item] else path
      in (path', item) # placed (insert (hd path') T) raw)"

lemma placed_append: "placed T (xs @ ys) = placed T xs @ placed (T \<union> hd ` fst ` set (placed T xs)) ys"
  by (induction T xs rule: placed.induct) (simp_all add: Let_def)

lemma add_at_top_names:
  "(add_at (p # ps) x ts :: ('e NodeMenuError, 's menu list) result) = Inr ts' \<Longrightarrow>
   menu_name ` set ts' = insert p (menu_name ` set ts)"
proof (induction ts arbitrary: ts')
  case (Cons t ts)
  show ?case
  proof (cases "menu_name t = p")
    case True
    with Cons.prems show ?thesis by (auto simp: rbind_Inr_iff split: menu.splits)
  next
    case False
    with Cons.prems obtain us where
      us: "(add_at (p # ps) x ts :: ('e NodeMenuError, 's menu list) result) = Inr us" "ts' = t # us"
      by (auto simp: rbind_Inr_iff)
    have "menu_name ` set ts' = insert (menu_name t) (menu_name ` set us)" by (simp add: us(2))
    also have "\<dots> = insert (menu_name t) (insert p (menu_name ` set ts))" using Cons.IH [OF us(1)] by simp
    finally show ?thesis by auto
  qed
qed (auto simp: rbind_Inr_iff)

lemma menu_insert_all_placed:
  assumes "\<And>path. path \<in> fst ` set raw \<Longrightarrow> path \<noteq> []"
  shows "menu_insert_all raw ts
    = (add_all (placed (menu_name ` set ts) raw) ts :: ('e NodeMenuError, 's menu list) result)"
  using assms
proof (induction raw arbitrary: ts)
  case (Cons a raw)
  obtain path item where a: "a = (path, item)" "path \<noteq> []" using Cons.prems by (cases a) auto
  let ?x = "Menu_Item (item_name item) (item_schema_id item)"
  define path' where "path' = (if item_name item \<in> menu_name ` set ts then [item_name item] else path)"
  have "path' \<noteq> []" by (simp add: path'_def a(2))
  then obtain p ps where p: "path' = p # ps" by (cases path') auto
  have m: "menu_insert path ?x ts = (add_at path' ?x ts :: ('e NodeMenuError, 's menu list) result)"
    by (simp add: menu_insert_def path'_def a(2))
  show ?case
  proof (cases "add_at path' ?x ts :: ('e NodeMenuError, 's menu list) result")
    case (Inl e)
    then show ?thesis by (simp add: a m Let_def flip: path'_def)
  next
    case (Inr ts')
    have "menu_name ` set ts' = insert (hd path') (menu_name ` set ts)"
      using add_at_top_names [OF Inr [unfolded p]] by (simp add: p)
    with Cons.IH [of ts'] Cons.prems Inr show ?thesis by (simp add: a m Let_def flip: path'_def)
  qed
qed simp

text \<open>C40: An asset that is named like a top-level category. \<open>insert_menu_item\<close> looks for an entry with the name
  of the new item at the top of the menu before it looks at the path (the two branches that choose
  \<open>path_to_check\<close> are the wrong way round). Assets are inserted in the order of their categories. If a
  category at the top of the menu has the name of an asset when the asset is inserted, because an asset
  inserted before was put into it, then the asset is put directly into that category, whatever its own
  category is. This accounts for the place of every asset of every menu (\<open>placed\<close>): the others are in
  their categories.\<close>

theorem asset_named_like_category_misplaced:
  fixes f :: "SchemaUiMenu \<Rightarrow> 's Schema option"
  assumes "get_node_add_menu (Inr ms :: ('e, SchemaUiMenu list) result) (\<lambda>m. Inr (f m)) = Some (Inr ts)"
    and "filter (shown f) (sort_key ui_menu_category (sort_key ui_menu_name ms)) = before @ m # after"
    and "ui_menu_name m \<in> hd ` fst ` set (placed {} (map (raw_of f) before))"
  shows "([ui_menu_name m], ui_menu_name m, schema_id (the (f m))) \<in> set (leaves ts)
    \<and> (\<forall>path. leaves_at path (leaves ts)
        = leaves_at path (map leaf_of (placed {} (map (raw_of f) (before @ m # after)))))"
proof -
  let ?raw = "map (raw_of f) (before @ m # after)"
  have "menu_insert_all ?raw [] = (Inr ts :: ('e NodeMenuError, 's menu list) result)"
    using assms(1) unfolding get_node_add_menu_inserts assms(2) by simp
  moreover have "path \<noteq> []" if "path \<in> fst ` set ?raw" for path
  proof -
    from that obtain m' where "path = category_path m'" unfolding set_map image_image raw_of_sel(1) by blast
    then show ?thesis by simp
  qed
  ultimately have "(add_all (placed {} ?raw) [] :: ('e NodeMenuError, 's menu list) result) = Inr ts"
    using menu_insert_all_placed [of ?raw "[]", where 'e = 'e] by simp
  from add_all_leaves [OF this] have L: "leaves_at path (leaves ts) = leaves_at path (map leaf_of (placed {} ?raw))" for path
    by simp
  obtain path item where r: "raw_of f m = (path, item)" by (cases "raw_of f m")
  then have item: "item = Item_new (ui_menu_name m) (schema_id (the (f m)))" by (simp add: raw_of_def)
  have "([ui_menu_name m], item) \<in> set (placed {} ?raw)"
    using assms(3) by (simp add: placed_append r item Item_new_def Let_def)
  then have "leaf_of ([ui_menu_name m], item) \<in> set (map leaf_of (placed {} ?raw))" unfolding set_map by (rule imageI)
  then have "([ui_menu_name m], ui_menu_name m, schema_id (the (f m))) \<in> set (map leaf_of (placed {} ?raw))"
    by (simp add: leaf_of_def item Item_new_def)
  with set_leaves_eq [OF L] L show ?thesis by blast
qed

definition sample_misnamed :: "SchemaUiMenu list" where
  "sample_misnamed = [\<lparr>ui_menu_name = ''AWS'', ui_menu_category = ''Accounts''\<rparr>,
     \<lparr>ui_menu_name = ''EC2'', ui_menu_category = ''AWS.Compute''\<rparr>,
     \<lparr>ui_menu_name = ''Accounts'', ui_menu_category = ''Billing''\<rparr>]"

theorem asset_named_like_category_misplaced_witness:
  "\<exists>ts. get_node_add_menu (Inr sample_misnamed :: (unit, SchemaUiMenu list) result) (\<lambda>m. Inr (sample_schema m))
      = Some (Inr ts)
    \<and> ([''AWS''], ''AWS'', 3) \<in> set (leaves ts) \<and> leaves_at [''Accounts''] (leaves ts) = []"
proof -
  let ?m = "\<lparr>ui_menu_name = ''AWS'', ui_menu_category = ''Accounts''\<rparr>"
  let ?before = "[\<lparr>ui_menu_name = ''EC2'', ui_menu_category = ''AWS.Compute''\<rparr>]"
  let ?after = "[\<lparr>ui_menu_name = ''Accounts'', ui_menu_category = ''Billing''\<rparr>]"
  have "(case get_node_add_menu (Inr sample_misnamed :: (unit, SchemaUiMenu list) result)
      (\<lambda>m. Inr (sample_schema m)) of Some (Inr ts) \<Rightarrow> True | _ \<Rightarrow> False) = True"
    by code_simp
  then obtain ts where ts: "get_node_add_menu (Inr sample_misnamed :: (unit, SchemaUiMenu list) result)
      (\<lambda>m. Inr (sample_schema m)) = Some (Inr ts)"
    by (auto split: option.splits sum.splits)
  have order: "filter (shown sample_schema) (sort_key ui_menu_category (sort_key ui_menu_name sample_misnamed))
      = ?before @ ?m # ?after"
    by code_simp
  have "ui_menu_name ?m \<in> hd ` fst ` set (placed {} (map (raw_of sample_schema) ?before))"
    by (simp add: raw_of_def category_path_def Let_def)
  note M = asset_named_like_category_misplaced [OF ts order this]
  have "leaves_at [''Accounts''] (map leaf_of (placed {} (map (raw_of sample_schema) (?before @ ?m # ?after)))) = []"
    by (simp add: raw_of_def category_path_def Let_def leaf_of_def Item_new_def)
  moreover have "schema_id (the (sample_schema ?m)) = 3" by (simp add: sample_schema_def)
  ultimately have "([''AWS''], ''AWS'', 3) \<in> set (leaves ts) \<and> leaves_at [''Accounts''] (leaves ts) = []"
    using M by (metis SchemaUiMenu.select_convs(1))
  with ts show ?thesis by blast
qed

end
