(* ===== verification/Status_Update.thy ===== *)
theory Status_Update
  imports Attribute_Context "HOL-Library.AList"
begin

text \<open>
  The status of a dependent values update, \<open>lib/dal/src/status.rs\<close>: which values are queued, which are
  running and which are completed. The data are kept in memory and in a row of the database, and every
  change is announced to the web frontend. The world outside holds the row, the announcements and the
  components whose update was recorded; a function \<open>fails\<close> of the number of calls so far says which
  calls to the database or to the message bus are refused. A \<open>HashMap\<close> is an association list with
  distinct keys, in the order of its iteration.
\<close>

section \<open>Data\<close>

datatype AttributeValueKind =
    Attribute Ulid | CodeGen | InputSocket Ulid | Internal | OutputSocket Ulid | Qualification

record AttributeValueMetadata =
  avm_value_id :: Ulid
  avm_component_id :: Ulid
  avm_value_kind :: AttributeValueKind

definition AttributeValueMetadata_new :: "Ulid \<Rightarrow> Ulid \<Rightarrow> AttributeValueKind \<Rightarrow> AttributeValueMetadata" where
  "AttributeValueMetadata_new value_id component kind =
     \<lparr>avm_value_id = value_id, avm_component_id = component, avm_value_kind = kind\<rparr>"

record StatusUpdateData =
  dependent_values_metadata :: "(Ulid \<times> AttributeValueMetadata) list"
  queued_dependent_value_ids :: "Ulid set"
  running_dependent_value_ids :: "Ulid set"
  completed_dependent_value_ids :: "Ulid set"

record StatusUpdate =
  su_pk :: Ulid
  su_updated_at :: nat
  su_finished_at :: "nat option"
  su_data :: StatusUpdateData

datatype StatusMessageState = Completed | Queued | Running | StatusFinished | StatusStarted

record StatusMessage =
  sm_pk :: Ulid
  sm_status :: StatusMessageState
  sm_values :: "AttributeValueMetadata list"

text \<open>\<open>Refused\<close> stands for the errors of the database and of the bus (\<open>Pg\<close>, \<open>PgPool\<close>, \<open>StandardModelError\<close>,
  \<open>SerdeJson\<close>, \<open>NatsError\<close>, \<open>Component\<close>), which carry an error of that library.\<close>

datatype 'e StatusUpdateError = AttributeValueMetadataNotFound Ulid | Refused 'e

datatype 'e metadata_error =
    Unread 'e
  | AttributeValueNotFound Ulid
  | ContextError AttributeContextError
  | ExternalProviderNotFound Ulid
  | InternalProviderNotFound Ulid
  | PropNotFound Ulid

datatype 'e StatusUpdaterError =
    AttributeValueMetadata "'e metadata_error"
  | GenericError bytes
  | MalformedAttributeValue Ulid
  | PublishRealtime
  | StatusUpdater_Refused 'e
  | StatusUpdateError "'e StatusUpdateError"
  | UnprocessedValuesRemaining "Ulid set"

section \<open>The world outside\<close>

record world =
  calls :: nat
  row_data :: StatusUpdateData
  row_finished :: bool
  sent :: "StatusMessage list"
  recorded :: "Ulid list"

text \<open>What the code asks of its context: which calls are refused, the clock of the database, the key of a
  new row and the workspace of the tenancy.\<close>

record 'e status_context =
  fails :: "nat \<Rightarrow> 'e option"
  now :: "nat \<Rightarrow> nat"
  new_pk :: Ulid
  workspace_pk :: "Ulid option"

definition call :: "'e status_context \<Rightarrow> world \<Rightarrow> world \<times> ('e, nat) result" where
  "call ctx w = (w\<lparr>calls := Suc (calls w)\<rparr>,
     case fails ctx (calls w) of Some e \<Rightarrow> Inl e | None \<Rightarrow> Inr (now ctx (calls w)))"

section \<open>The update and its row\<close>

definition empty_data :: StatusUpdateData where
  "empty_data = \<lparr>dependent_values_metadata = [], queued_dependent_value_ids = {},
     running_dependent_value_ids = {}, completed_dependent_value_ids = {}\<rparr>"

definition StatusUpdate_new ::
  "'e status_context \<Rightarrow> world \<Rightarrow> world \<times> ('e StatusUpdateError, StatusUpdate) result" where
  "StatusUpdate_new ctx w =
     (case call ctx w of
        (w1, Inl e) \<Rightarrow> (w1, Inl (Refused e))
      | (w1, Inr t) \<Rightarrow>
          (w1\<lparr>row_data := empty_data, row_finished := False\<rparr>,
           Inr \<lparr>su_pk = new_pk ctx, su_updated_at = t, su_finished_at = None, su_data = empty_data\<rparr>))"

definition persist_data_to_db ::
  "'e status_context \<Rightarrow> StatusUpdate \<Rightarrow> world \<Rightarrow> StatusUpdate \<times> world \<times> ('e StatusUpdateError, unit) result" where
  "persist_data_to_db ctx u w =
     (case call ctx w of
        (w1, Inl e) \<Rightarrow> (u, w1, Inl (Refused e))
      | (w1, Inr updated_at) \<Rightarrow>
          (u\<lparr>su_updated_at := updated_at\<rparr>, w1\<lparr>row_data := su_data u\<rparr>, Inr ()))"

definition metadata_from_value_ids ::
  "StatusUpdate \<Rightarrow> Ulid list \<Rightarrow> ('e StatusUpdateError, AttributeValueMetadata list) result" where
  "metadata_from_value_ids u value_ids =
     mapM (\<lambda>i. ok_or (AttributeValueMetadataNotFound i)
             (map_of (dependent_values_metadata (su_data u)) i)) value_ids"

definition set_dependent_values_metadata ::
  "'e status_context \<Rightarrow> (Ulid \<times> AttributeValueMetadata) list \<Rightarrow> StatusUpdate \<Rightarrow> world \<Rightarrow>
   StatusUpdate \<times> world \<times> ('e StatusUpdateError, unit) result" where
  "set_dependent_values_metadata ctx metadata u w =
     persist_data_to_db ctx (u\<lparr>su_data := (su_data u)\<lparr>dependent_values_metadata := metadata\<rparr>\<rparr>) w"

text \<open>The common end of the three operations that follow: persist, then look the metadata up.\<close>

definition persist_and_look_up ::
  "'e status_context \<Rightarrow> Ulid list \<Rightarrow> StatusUpdate \<Rightarrow> world \<Rightarrow>
   StatusUpdate \<times> world \<times> ('e StatusUpdateError, AttributeValueMetadata list) result" where
  "persist_and_look_up ctx value_ids u w =
     (case persist_data_to_db ctx u w of
        (u1, w1, Inl e) \<Rightarrow> (u1, w1, Inl e)
      | (u1, w1, Inr _) \<Rightarrow> (u1, w1, metadata_from_value_ids u1 value_ids))"

definition set_queued_dependent_value_ids ::
  "'e status_context \<Rightarrow> Ulid list \<Rightarrow> StatusUpdate \<Rightarrow> world \<Rightarrow>
   StatusUpdate \<times> world \<times> ('e StatusUpdateError, AttributeValueMetadata list) result" where
  "set_queued_dependent_value_ids ctx value_ids u w =
     persist_and_look_up ctx value_ids (u\<lparr>su_data := (su_data u)
       \<lparr>queued_dependent_value_ids := queued_dependent_value_ids (su_data u) \<union> set value_ids\<rparr>\<rparr>) w"

definition set_running_dependent_value_ids ::
  "'e status_context \<Rightarrow> Ulid list \<Rightarrow> StatusUpdate \<Rightarrow> world \<Rightarrow>
   StatusUpdate \<times> world \<times> ('e StatusUpdateError, AttributeValueMetadata list) result" where
  "set_running_dependent_value_ids ctx value_ids u w =
     persist_and_look_up ctx value_ids (u\<lparr>su_data := (su_data u)
       \<lparr>queued_dependent_value_ids := queued_dependent_value_ids (su_data u) - set value_ids,
        running_dependent_value_ids := running_dependent_value_ids (su_data u) \<union> set value_ids\<rparr>\<rparr>) w"

definition set_completed_dependent_value_ids ::
  "'e status_context \<Rightarrow> Ulid list \<Rightarrow> StatusUpdate \<Rightarrow> world \<Rightarrow>
   StatusUpdate \<times> world \<times> ('e StatusUpdateError, AttributeValueMetadata list) result" where
  "set_completed_dependent_value_ids ctx value_ids u w =
     persist_and_look_up ctx value_ids (u\<lparr>su_data := (su_data u)
       \<lparr>queued_dependent_value_ids := queued_dependent_value_ids (su_data u) - set value_ids,
        running_dependent_value_ids := running_dependent_value_ids (su_data u) - set value_ids,
        completed_dependent_value_ids := completed_dependent_value_ids (su_data u) \<union> set value_ids\<rparr>\<rparr>) w"

definition StatusUpdate_finish ::
  "'e status_context \<Rightarrow> StatusUpdate \<Rightarrow> world \<Rightarrow> StatusUpdate \<times> world \<times> ('e StatusUpdateError, unit) result" where
  "StatusUpdate_finish ctx u w =
     (case call ctx w of
        (w1, Inl e) \<Rightarrow> (u, w1, Inl (Refused e))
      | (w1, Inr t) \<Rightarrow>
          (u\<lparr>su_updated_at := t, su_finished_at := Some t\<rparr>, w1\<lparr>row_finished := True\<rparr>, Inr ()))"

section \<open>What a value is for\<close>

text \<open>The reads of the database that tell what a value is for, and how an identifier is printed.\<close>

record 'e value_reads =
  get_attribute_value :: "Ulid \<Rightarrow> ('e, AttributeContext option) result"
  get_external_provider :: "Ulid \<Rightarrow> ('e, Ulid option) result"
  external_provider_sockets :: "Ulid \<Rightarrow> ('e, Ulid list) result"
  get_internal_provider :: "Ulid \<Rightarrow> ('e, (Ulid \<times> Ulid) option) result"
  internal_provider_sockets :: "Ulid \<Rightarrow> ('e, Ulid list) result"
  get_component :: "Ulid \<Rightarrow> ('e, Ulid option) result"
  component_schema_variant :: "Ulid \<Rightarrow> ('e, Ulid option) result"
  find_code_item_prop :: "Ulid \<Rightarrow> ('e, Ulid) result"
  get_prop :: "Ulid \<Rightarrow> ('e, Ulid option) result"
  get_parent_prop :: "Ulid \<Rightarrow> ('e, Ulid option) result"
  show_id :: "Ulid \<Rightarrow> bytes"

abbreviation metadata_read :: "('e, 'a) result \<Rightarrow> ('e StatusUpdaterError, 'a) result" where
  "metadata_read r \<equiv> map_err (\<lambda>e. AttributeValueMetadata (Unread e)) r"

definition pop_socket :: "bytes \<Rightarrow> Ulid list \<Rightarrow> ('e StatusUpdaterError, Ulid) result" where
  "pop_socket message sockets = (if sockets = [] then Inl (GenericError message) else Inr (last sockets))"

definition output_socket_kind :: "'e value_reads \<Rightarrow> AttributeContext \<Rightarrow> ('e StatusUpdaterError, AttributeValueKind) result" where
  "output_socket_kind db context =
     rbind (metadata_read (get_external_provider db (external_provider_id context))) (\<lambda>found.
     rbind (ok_or (AttributeValueMetadata (ExternalProviderNotFound (external_provider_id context))) found)
       (\<lambda>external_provider.
     rbind (metadata_read (external_provider_sockets db external_provider)) (\<lambda>sockets.
     rbind (pop_socket (''unable to find socket for external provider id '' @ show_id db external_provider)
              sockets) (\<lambda>socket.
     Inr (OutputSocket socket)))))"

definition input_socket_kind :: "'e value_reads \<Rightarrow> AttributeContext \<Rightarrow> ('e StatusUpdaterError, AttributeValueKind) result" where
  "input_socket_kind db context =
     rbind (metadata_read (get_internal_provider db (internal_provider_id context))) (\<lambda>found.
     rbind (ok_or (AttributeValueMetadata (InternalProviderNotFound (internal_provider_id context))) found)
       (\<lambda>(internal_provider, provider_prop_id).
     if provider_prop_id = NONE then
       rbind (metadata_read (internal_provider_sockets db internal_provider)) (\<lambda>sockets.
       rbind (pop_socket (''unable to find socket for internal provider id '' @ show_id db internal_provider)
                sockets) (\<lambda>socket.
       Inr (InputSocket socket)))
     else Inr Internal))"

definition attribute_kind :: "'e value_reads \<Rightarrow> AttributeContext \<Rightarrow> ('e StatusUpdaterError, AttributeValueKind) result" where
  "attribute_kind db context =
     rbind (metadata_read (get_component db (component_id context))) (\<lambda>found.
     rbind (ok_or (GenericError (''Unable to find component '' @ show_id db (component_id context))) found)
       (\<lambda>component.
     rbind (metadata_read (component_schema_variant db component)) (\<lambda>found.
     rbind (ok_or (GenericError (''Unable to load schema variant from component ''
                                 @ show_id db (component_id context))) found) (\<lambda>schema_variant.
     rbind (metadata_read (find_code_item_prop db schema_variant)) (\<lambda>code_item_prop.
     rbind (metadata_read (get_prop db (prop_id context))) (\<lambda>found.
     rbind (ok_or (AttributeValueMetadata (PropNotFound (prop_id context))) found) (\<lambda>p.
     if p = code_item_prop then Inr CodeGen
     else rbind (metadata_read (get_parent_prop db p)) (\<lambda>parent.
       case parent of
         None \<Rightarrow> Inr (Attribute (prop_id context))
       | Some parent_prop \<Rightarrow>
           if parent_prop = code_item_prop then Inr CodeGen
           else rbind (metadata_read (get_parent_prop db parent_prop)) (\<lambda>grandparent.
             Inr (if grandparent = Some code_item_prop then CodeGen
                  else Attribute (prop_id context)))))))))))"

definition value_kind :: "'e value_reads \<Rightarrow> Ulid \<Rightarrow> AttributeContext \<Rightarrow> ('e StatusUpdaterError, AttributeValueKind) result" where
  "value_kind db value_id context =
     (if component_id context = NONE then Inr Internal
      else rbind (map_err (\<lambda>e. AttributeValueMetadata (ContextError e))
                    (is_least_specific_field_kind_external_provider context)) (\<lambda>external.
        if external then output_socket_kind db context
        else rbind (map_err (\<lambda>e. AttributeValueMetadata (ContextError e))
                      (is_least_specific_field_kind_internal_provider context)) (\<lambda>internal.
          if internal then input_socket_kind db context
          else if prop_id context \<noteq> NONE then attribute_kind db context
          else Inl (MalformedAttributeValue value_id))))"

definition value_metadata :: "'e value_reads \<Rightarrow> Ulid \<Rightarrow> ('e StatusUpdaterError, AttributeValueMetadata) result" where
  "value_metadata db value_id =
     rbind (metadata_read (get_attribute_value db value_id)) (\<lambda>found.
     rbind (ok_or (AttributeValueMetadata (AttributeValueNotFound value_id)) found) (\<lambda>context.
     rbind (value_kind db value_id context) (\<lambda>kind.
     Inr (AttributeValueMetadata_new value_id (component_id context) kind))))"

fun values_metadata ::
  "'e value_reads \<Rightarrow> Ulid list \<Rightarrow> (Ulid \<times> AttributeValueMetadata) list \<Rightarrow>
   ('e StatusUpdaterError, (Ulid \<times> AttributeValueMetadata) list) result" where
  "values_metadata db [] metadata = Inr metadata"
| "values_metadata db (value_id # value_ids) metadata =
     rbind (value_metadata db value_id) (\<lambda>m. values_metadata db value_ids (AList.update value_id m metadata))"

section \<open>The updater\<close>

definition publish_immediately ::
  "'e status_context \<Rightarrow> StatusMessage \<Rightarrow> world \<Rightarrow> world \<times> ('e StatusUpdaterError, unit) result" where
  "publish_immediately ctx message w =
     (case workspace_pk ctx of
        None \<Rightarrow> (w, Inl PublishRealtime)
      | Some _ \<Rightarrow>
          (case call ctx w of
             (w1, Inl e) \<Rightarrow> (w1, Inl (StatusUpdater_Refused e))
           | (w1, Inr _) \<Rightarrow> (w1\<lparr>sent := sent w1 @ [message]\<rparr>, Inr ())))"

definition status_update :: "StatusUpdate \<Rightarrow> StatusMessageState \<Rightarrow> AttributeValueMetadata list \<Rightarrow> StatusMessage" where
  "status_update u state values = \<lparr>sm_pk = su_pk u, sm_status = state, sm_values = values\<rparr>"

definition Inner_initialize ::
  "'e status_context \<Rightarrow> world \<Rightarrow> world \<times> ('e StatusUpdaterError, StatusUpdate) result" where
  "Inner_initialize ctx w =
     (case StatusUpdate_new ctx w of
        (w1, Inl e) \<Rightarrow> (w1, Inl (StatusUpdateError e))
      | (w1, Inr model) \<Rightarrow>
          (case publish_immediately ctx (status_update model StatusStarted []) w1 of
             (w2, Inl e) \<Rightarrow> (w2, Inl e)
           | (w2, Inr _) \<Rightarrow> (w2, Inr model)))"

text \<open>Every announcement of values ends in the same way: publish what the update returned.\<close>

definition announce_values ::
  "'e status_context \<Rightarrow> StatusMessageState \<Rightarrow>
   StatusUpdate \<times> world \<times> ('e StatusUpdateError, AttributeValueMetadata list) result \<Rightarrow>
   StatusUpdate \<times> world \<times> ('e StatusUpdaterError, unit) result" where
  "announce_values ctx state updated =
     (case updated of
        (u, w, Inl e) \<Rightarrow> (u, w, Inl (StatusUpdateError e))
      | (u, w, Inr values) \<Rightarrow> (u, publish_immediately ctx (status_update u state values) w))"

definition Inner_values_queued ::
  "'e status_context \<Rightarrow> 'e value_reads \<Rightarrow> Ulid list \<Rightarrow> StatusUpdate \<Rightarrow> world \<Rightarrow>
   StatusUpdate \<times> world \<times> ('e StatusUpdaterError, unit) result" where
  "Inner_values_queued ctx db value_ids u w =
     (case values_metadata db value_ids [] of
        Inl e \<Rightarrow> (u, w, Inl e)
      | Inr metadata \<Rightarrow>
          (case set_dependent_values_metadata ctx metadata u w of
             (u1, w1, Inl e) \<Rightarrow> (u1, w1, Inl (StatusUpdateError e))
           | (u1, w1, Inr _) \<Rightarrow>
               announce_values ctx Queued
                 (set_queued_dependent_value_ids ctx
                    (map fst (dependent_values_metadata (su_data u1))) u1 w1)))"

definition Inner_values_running ::
  "'e status_context \<Rightarrow> Ulid list \<Rightarrow> StatusUpdate \<Rightarrow> world \<Rightarrow>
   StatusUpdate \<times> world \<times> ('e StatusUpdaterError, unit) result" where
  "Inner_values_running ctx value_ids u w =
     announce_values ctx Running (set_running_dependent_value_ids ctx value_ids u w)"

text \<open>\<open>ComponentStatus::record_update_by_id\<close> makes two statements in the transaction of the job.\<close>

fun record_updates :: "'e status_context \<Rightarrow> Ulid list \<Rightarrow> world \<Rightarrow> world \<times> ('e StatusUpdaterError, unit) result" where
  "record_updates ctx [] w = (w, Inr ())"
| "record_updates ctx (component # components) w =
     (case call ctx w of
        (w1, Inl e) \<Rightarrow> (w1, Inl (StatusUpdater_Refused e))
      | (w1, Inr _) \<Rightarrow>
          (case call ctx w1 of
             (w2, Inl e) \<Rightarrow> (w2, Inl (StatusUpdater_Refused e))
           | (w2, Inr _) \<Rightarrow> record_updates ctx components (w2\<lparr>recorded := recorded w2 @ [component]\<rparr>)))"

definition Inner_values_completed ::
  "'e status_context \<Rightarrow> Ulid list \<Rightarrow> StatusUpdate \<Rightarrow> world \<Rightarrow>
   StatusUpdate \<times> world \<times> ('e StatusUpdaterError, unit) result" where
  "Inner_values_completed ctx value_ids u w =
     (case set_completed_dependent_value_ids ctx value_ids u w of
        (u1, w1, Inl e) \<Rightarrow> (u1, w1, Inl (StatusUpdateError e))
      | (u1, w1, Inr completed_values) \<Rightarrow>
          (case record_updates ctx
                  (filter (\<lambda>c. c \<noteq> NONE) (remdups (map avm_component_id completed_values))) w1 of
             (w2, Inl e) \<Rightarrow> (u1, w2, Inl e)
           | (w2, Inr _) \<Rightarrow> announce_values ctx Completed (u1, w2, Inr completed_values)))"

definition Inner_finish ::
  "'e status_context \<Rightarrow> StatusUpdate \<Rightarrow> world \<Rightarrow> StatusUpdate \<times> world \<times> ('e StatusUpdaterError, unit) result" where
  "Inner_finish ctx u w =
     (case StatusUpdate_finish ctx u w of
        (u1, w1, Inl e) \<Rightarrow> (u1, w1, Inl (StatusUpdateError e))
      | (u1, w1, Inr _) \<Rightarrow>
          (let data = su_data u1;
               all_value_ids = fst ` set (dependent_values_metadata data)
           in if all_value_ids \<noteq> completed_dependent_value_ids data
              then (u1, w1, Inl (UnprocessedValuesRemaining (all_value_ids - completed_dependent_value_ids data)))
              else if queued_dependent_value_ids data \<noteq> {}
              then (u1, w1, Inl (UnprocessedValuesRemaining (queued_dependent_value_ids data)))
              else if running_dependent_value_ids data \<noteq> {}
              then (u1, w1, Inl (UnprocessedValuesRemaining (running_dependent_value_ids data)))
              else (u1, publish_immediately ctx (status_update u1 StatusFinished []) w1)))"

text \<open>The outer updater holds nothing when it could not be initialised, and logs every error.\<close>

definition StatusUpdater_initialize :: "'e status_context \<Rightarrow> world \<Rightarrow> StatusUpdate option \<times> world" where
  "StatusUpdater_initialize ctx w =
     (case Inner_initialize ctx w of (w1, Inl e) \<Rightarrow> (None, w1) | (w1, Inr inner) \<Rightarrow> (Some inner, w1))"

definition with_inner ::
  "(StatusUpdate \<Rightarrow> world \<Rightarrow> StatusUpdate \<times> world \<times> ('e StatusUpdaterError, unit) result) \<Rightarrow>
   StatusUpdate option \<Rightarrow> world \<Rightarrow> StatusUpdate option \<times> world" where
  "with_inner f inner w =
     (case inner of
        None \<Rightarrow> (None, w)
      | Some u \<Rightarrow> (case f u w of (u1, w1, _) \<Rightarrow> (Some u1, w1)))"

definition StatusUpdater_values_queued ::
  "'e status_context \<Rightarrow> 'e value_reads \<Rightarrow> Ulid list \<Rightarrow> StatusUpdate option \<Rightarrow> world \<Rightarrow> StatusUpdate option \<times> world" where
  "StatusUpdater_values_queued ctx db value_ids = with_inner (Inner_values_queued ctx db value_ids)"

definition StatusUpdater_values_running ::
  "'e status_context \<Rightarrow> Ulid list \<Rightarrow> StatusUpdate option \<Rightarrow> world \<Rightarrow> StatusUpdate option \<times> world" where
  "StatusUpdater_values_running ctx value_ids = with_inner (Inner_values_running ctx value_ids)"

definition StatusUpdater_values_completed ::
  "'e status_context \<Rightarrow> Ulid list \<Rightarrow> StatusUpdate option \<Rightarrow> world \<Rightarrow> StatusUpdate option \<times> world" where
  "StatusUpdater_values_completed ctx value_ids = with_inner (Inner_values_completed ctx value_ids)"

definition StatusUpdater_finish ::
  "'e status_context \<Rightarrow> StatusUpdate option \<Rightarrow> world \<Rightarrow> StatusUpdate option \<times> world" where
  "StatusUpdater_finish ctx = with_inner (Inner_finish ctx)"

end
