(* ===== verification/Dependent_Values_Update.thy ===== *)
theory Dependent_Values_Update
  imports Council_Server Status_Update
begin

text \<open>
  The job that brings values up to date, \<open>lib/dal/src/job/definition/dependent_values_update.rs\<close>, and the
  client through which it talks to the council, \<open>lib/council-server/src/client.rs\<close>. The job runs until it
  waits for a message of the council and goes on when the message is delivered: one definition is one
  stretch of \<open>inner_run\<close> between two such points. What it sends to the council, which values it updates
  and the status it announces are part of its state. A function of the number of calls so far says which
  calls to the database, to the transaction and to the bus are refused.
\<close>

section \<open>The state of a job\<close>

datatype 'e JobConsumerError =
    JobRefused 'e
  | NoListenerAvailable
  | ClientSerdeJson
  | CouncilProtocol
  | NotFound Ulid
  | TaskPanicked

text \<open>Where the job waits, or how it ended. \<open>Aborted\<close> is the \<open>unreachable!\<close> of \<open>wait_to_create_values\<close>.\<close>

datatype 'e phase =
    AwaitingCreation | Updating | Ended "('e JobConsumerError, unit) result" | Aborted

record 'e job =
  job_phase :: "'e phase"
  job_calls :: nat
  requests :: "Request list"
  status_updater :: "StatusUpdate option"
  status_world :: world
  dependency_graph :: "(Ulid \<times> Ulid list) list"
  original_dependency_graph :: "(Ulid \<times> Ulid list) list"
  updated_values :: "Ulid list"
  receiver_request :: "(Ulid \<times> Ulid list) list option"

text \<open>What \<open>update_from_prototype_function\<close> makes of a value: it succeeds, it returns an error, or the task
  panics.\<close>

datatype update_result = Updated | UpdateFailed | UpdatePanicked

record 'e job_env =
  job_change_set :: Id
  job_fails :: "nat \<Rightarrow> 'e option"
  job_status_context :: "'e status_context"
  job_value_reads :: "'e value_reads"
  dependent_value_graph :: "Ulid list \<Rightarrow> (Ulid \<times> Ulid list) list"
  attribute_value_exists :: "Ulid \<Rightarrow> bool"
  update_from_prototype_function :: "Ulid \<Rightarrow> update_result"

type_synonym ('e, 'a) job_step = "'e job \<Rightarrow> 'e job \<times> ('e JobConsumerError, 'a) result"

definition seq :: "('e, 'a) job_step \<Rightarrow> ('a \<Rightarrow> ('e, 'b) job_step) \<Rightarrow> ('e, 'b) job_step" where
  "seq m f j = (case m j of (j1, Inl e) \<Rightarrow> (j1, Inl e) | (j1, Inr x) \<Rightarrow> f x j1)"

definition job_call :: "'e job_env \<Rightarrow> ('e, unit) job_step" where
  "job_call env j = (j\<lparr>job_calls := Suc (job_calls j)\<rparr>,
     case job_fails env (job_calls j) of Some e \<Rightarrow> Inl (JobRefused e) | None \<Rightarrow> Inr ())"

definition modify :: "('e job \<Rightarrow> 'e job) \<Rightarrow> ('e, unit) job_step" where
  "modify f j = (f j, Inr ())"

section \<open>The client of the council\<close>

definition publish_request :: "'e job_env \<Rightarrow> Request \<Rightarrow> ('e, unit) job_step" where
  "publish_request env request =
     seq (job_call env) (\<lambda>_. modify (\<lambda>j. j\<lparr>requests := requests j @ [request]\<rparr>))"

definition finished_creating_values :: "'e job_env \<Rightarrow> ('e, unit) job_step" where
  "finished_creating_values env = publish_request env ValueCreationDone"

definition register_dependency_graph :: "'e job_env \<Rightarrow> (Id \<times> Id list) list \<Rightarrow> ('e, unit) job_step" where
  "register_dependency_graph env graph =
     publish_request env (ValueDependencyGraph (job_change_set env) graph)"

definition processed_value :: "'e job_env \<Rightarrow> Id \<Rightarrow> ('e, unit) job_step" where
  "processed_value env node_id = publish_request env (ProcessedValue (job_change_set env) node_id)"

definition failed_processing_value :: "'e job_env \<Rightarrow> Id \<Rightarrow> ('e, unit) job_step" where
  "failed_processing_value env node_id =
     publish_request env (ValueProcessingFailed (job_change_set env) node_id)"

definition bye :: "'e job_env \<Rightarrow> ('e, unit) job_step" where
  "bye env = publish_request env (Bye (job_change_set env))"

text \<open>What the subscription gives: its end, or a message, whose payload may be empty or unreadable.\<close>

datatype delivery = Unsubscribed | EmptyPayload | Unreadable | Delivered Response

fun fetch_response :: "delivery \<Rightarrow> ('e JobConsumerError, Response option) result" where
  "fetch_response Unsubscribed = Inr None"
| "fetch_response EmptyPayload = Inl NoListenerAvailable"
| "fetch_response Unreadable = Inl ClientSerdeJson"
| "fetch_response (Delivered response) = Inr (Some response)"

section \<open>The stretches of the job\<close>

definition update_status ::
  "(StatusUpdate option \<Rightarrow> world \<Rightarrow> StatusUpdate option \<times> world) \<Rightarrow> ('e, unit) job_step" where
  "update_status f = modify (\<lambda>j. case f (status_updater j) (status_world j) of
     (inner, w) \<Rightarrow> j\<lparr>status_updater := inner, status_world := w\<rparr>)"

text \<open>\<open>WsEvent::change_set_written(ctx).await?.publish_on_commit(ctx).await?\<close>, and the commit that follows.\<close>

definition change_set_written :: "'e job_env \<Rightarrow> ('e, unit) job_step" where
  "change_set_written env = seq (job_call env) (\<lambda>_. job_call env)"

definition publish_and_commit :: "'e job_env \<Rightarrow> ('e, unit) job_step" where
  "publish_and_commit env = seq (change_set_written env) (\<lambda>_. job_call env)"

text \<open>From the start to the message that says that values may be created.\<close>

definition inner_run_start :: "'e job_env \<Rightarrow> ('e, unit) job_step" where
  "inner_run_start env =
     seq (update_status (\<lambda>_ w. StatusUpdater_initialize (job_status_context env) w)) (\<lambda>_.
     seq (job_call env) (\<lambda>_.
     seq (publish_request env CreateValues) (\<lambda>_.
     modify (\<lambda>j. j\<lparr>job_phase := AwaitingCreation\<rparr>))))"

text \<open>Values that were given are considered up to date, and a value that depends on nothing else is taken
  out of the graph.\<close>

definition prune_graph :: "Ulid list \<Rightarrow> (Ulid \<times> Ulid list) list \<Rightarrow> (Ulid \<times> Ulid list) list" where
  "prune_graph attribute_values graph =
     (let retained = map (\<lambda>(i, ds). (i, filter (\<lambda>d. d \<notin> set attribute_values) ds)) graph;
          to_remove = map fst (filter (\<lambda>(i, ds). ds = []) retained)
      in fold AList.delete to_remove retained)"

definition enqueued_values :: "(Ulid \<times> Ulid list) list \<Rightarrow> Ulid list" where
  "enqueued_values graph = map fst graph @ concat (map snd graph)"

text \<open>From there to the head of the loop. \<open>create_dependent_values\<close> and the query of the graph are calls.\<close>

definition inner_run_created :: "'e job_env \<Rightarrow> Ulid list \<Rightarrow> ('e, unit) job_step" where
  "inner_run_created env attribute_values =
     seq (job_call env) (\<lambda>_.
     seq (job_call env) (\<lambda>_.
     seq (finished_creating_values env) (\<lambda>_.
     seq (job_call env) (\<lambda>_.
     seq (job_call env) (\<lambda>_.
     let graph = prune_graph attribute_values (dependent_value_graph env attribute_values)
     in if graph = [] then modify (\<lambda>j. j\<lparr>job_phase := Ended (Inr ())\<rparr>)
        else
          seq (register_dependency_graph env graph) (\<lambda>_.
          seq (update_status (StatusUpdater_values_queued (job_status_context env) (job_value_reads env)
                 (enqueued_values graph))) (\<lambda>_.
          seq (job_call env) (\<lambda>_.
          modify (\<lambda>j. j\<lparr>job_phase := Updating, dependency_graph := graph,
                         original_dependency_graph := graph\<rparr>)))))))))"

definition update_value :: "'e job_env \<Rightarrow> Ulid \<Rightarrow> ('e, unit) job_step" where
  "update_value env i =
     seq (modify (\<lambda>j. j\<lparr>updated_values := updated_values j @ [i]\<rparr>)) (\<lambda>_.
     case update_from_prototype_function env i of
       Updated \<Rightarrow> seq (job_call env) (\<lambda>_. processed_value env i)
     | UpdateFailed \<Rightarrow>
         seq (failed_processing_value env i) (\<lambda>_. seq (job_call env) (\<lambda>_. job_call env))
     | UpdatePanicked \<Rightarrow> (\<lambda>j. (j, Inl TaskPanicked)))"

text \<open>The body of the loop over the values that may be processed: announce, look up, spawn.\<close>

fun start_tasks :: "'e job_env \<Rightarrow> Ulid list \<Rightarrow> ('e, unit) job_step" where
  "start_tasks env [] = modify id"
| "start_tasks env (i # ids) =
     seq (update_status (StatusUpdater_values_running (job_status_context env) [i])) (\<lambda>_.
     seq (job_call env) (\<lambda>_.
     seq (job_call env) (\<lambda>_.
     seq (job_call env) (\<lambda>_.
     if attribute_value_exists env i then start_tasks env ids else (\<lambda>j. (j, Inl (NotFound i)))))))"

text \<open>The tasks are joined before the next message is read. A task that went wrong ends the job.\<close>

fun join_tasks :: "'e job_env \<Rightarrow> Ulid list \<Rightarrow> ('e, unit) job_step" where
  "join_tasks env [] = modify id"
| "join_tasks env (i # ids) =
     (\<lambda>j. case update_value env i j of
        (j1, Inl e) \<Rightarrow> seq (bye env) (\<lambda>_ j. (j, Inl e)) j1
      | (j1, Inr _) \<Rightarrow> join_tasks env ids j1)"

definition value_done :: "'e job_env \<Rightarrow> Ulid \<Rightarrow> ('e, unit) job_step" where
  "value_done env i =
     seq (modify (\<lambda>j. j\<lparr>dependency_graph := AList.delete i (dependency_graph j)\<rparr>)) (\<lambda>_.
     update_status (StatusUpdater_values_completed (job_status_context env) [i]))"

text \<open>One turn of the loop; the result says whether the loop is left.\<close>

definition loop_body :: "'e job_env \<Rightarrow> Response option \<Rightarrow> ('e, bool) job_step" where
  "loop_body env response =
     (case response of
        Some (OkToProcess node_ids) \<Rightarrow>
          seq (start_tasks env node_ids) (\<lambda>_.
          seq (publish_and_commit env) (\<lambda>_.
          seq (join_tasks env node_ids) (\<lambda>_ j. (j, Inr False))))
      | Some (BeenProcessed node_id) \<Rightarrow>
          seq (value_done env node_id) (\<lambda>_.
          seq (publish_and_commit env) (\<lambda>_.
          seq (publish_and_commit env) (\<lambda>_ j. (j, Inr False))))
      | Some (Failed node_id) \<Rightarrow>
          seq (value_done env node_id) (\<lambda>_.
          seq (job_call env) (\<lambda>_.
          seq (publish_and_commit env) (\<lambda>_ j. (j, Inr False))))
      | Some OkToCreate \<Rightarrow> (\<lambda>j. (j, Inl CouncilProtocol))
      | Some Shutdown \<Rightarrow> (\<lambda>j. (j, Inr True))
      | None \<Rightarrow> (\<lambda>j. (j, Inr True)))"

text \<open>After the loop. That the status receiver cannot be reached is only logged.\<close>

definition inner_run_end :: "'e job_env \<Rightarrow> ('e, unit) job_step" where
  "inner_run_end env =
     seq (update_status (StatusUpdater_finish (job_status_context env))) (\<lambda>_.
     seq (change_set_written env) (\<lambda>_.
     seq (\<lambda>j. case job_call env j of
            (j1, Inl e) \<Rightarrow> (j1, Inr ())
          | (j1, Inr _) \<Rightarrow> (j1\<lparr>receiver_request := Some (original_dependency_graph j1)\<rparr>, Inr ())) (\<lambda>_.
     seq (bye env) (\<lambda>_.
     modify (\<lambda>j. j\<lparr>job_phase := Ended (Inr ())\<rparr>)))))"

definition loop_turn :: "'e job_env \<Rightarrow> Response option \<Rightarrow> ('e, unit) job_step" where
  "loop_turn env response =
     seq (loop_body env response) (\<lambda>left j.
       if left \<or> dependency_graph j = [] then inner_run_end env j else (j, Inr ()))"

section \<open>The job\<close>

text \<open>\<open>run\<close>: when \<open>inner_run\<close> fails the job says goodbye, and the error of the goodbye comes first.\<close>

definition conclude :: "'e job_env \<Rightarrow> 'e job \<times> ('e JobConsumerError, unit) result \<Rightarrow> 'e job" where
  "conclude env outcome =
     (case outcome of
        (j, Inr _) \<Rightarrow> j
      | (j, Inl e) \<Rightarrow>
          (case bye env j of
             (j1, Inl e') \<Rightarrow> j1\<lparr>job_phase := Ended (Inl e')\<rparr>
           | (j1, Inr _) \<Rightarrow> j1\<lparr>job_phase := Ended (Inl e)\<rparr>))"

definition new_job :: "world \<Rightarrow> 'e job" where
  "new_job w = \<lparr>job_phase = AwaitingCreation, job_calls = 0, requests = [], status_updater = None,
     status_world = w, dependency_graph = [], original_dependency_graph = [], updated_values = [],
     receiver_request = None\<rparr>"

definition job_start :: "'e job_env \<Rightarrow> world \<Rightarrow> 'e job" where
  "job_start env w = conclude env (inner_run_start env (new_job w))"

text \<open>A message is delivered to the job.\<close>

definition job_receive :: "'e job_env \<Rightarrow> Ulid list \<Rightarrow> delivery \<Rightarrow> 'e job \<Rightarrow> 'e job" where
  "job_receive env attribute_values d j =
     (case job_phase j of
        AwaitingCreation \<Rightarrow>
          (case fetch_response d of
             Inl e \<Rightarrow> conclude env (j, Inl e)
           | Inr (Some OkToCreate) \<Rightarrow> conclude env (inner_run_created env attribute_values j)
           | Inr (Some Shutdown) \<Rightarrow> j\<lparr>job_phase := Ended (Inr ())\<rparr>
           | Inr _ \<Rightarrow> j\<lparr>job_phase := Aborted\<rparr>)
      | Updating \<Rightarrow>
          (case fetch_response d of
             Inl e \<Rightarrow> conclude env (j, Inl e)
           | Inr response \<Rightarrow> conclude env (loop_turn env response j))
      | _ \<Rightarrow> j)"

end
