(* ===== verification/Status_Properties.thy ===== *)
theory Status_Properties
  imports Status_Update
begin

text \<open>
  What the frontend is told about an update. While no call is refused, the messages follow the calls of
  the updater one by one, the row of the database holds the data of the updater, and a value is queued,
  running or completed according to the last call about it. The update is announced as finished exactly
  when the last call about every queued value completed it.
\<close>

section \<open>Calls that are not refused\<close>

definition quiet :: "'e status_context \<Rightarrow> bool" where
  "quiet ctx \<longleftrightarrow> (\<forall>n. fails ctx n = None) \<and> workspace_pk ctx \<noteq> None"

definition clock_after :: "'e status_context \<Rightarrow> world \<Rightarrow> nat" where
  "clock_after ctx w = now ctx (calls w)"

lemma call_quiet:
  "quiet ctx \<Longrightarrow> call ctx w = (w\<lparr>calls := Suc (calls w)\<rparr>, Inr (now ctx (calls w)))"
  by (simp add: call_def quiet_def)

lemma publish_quiet:
  "quiet ctx \<Longrightarrow> publish_immediately ctx m w = (w\<lparr>calls := Suc (calls w), sent := sent w @ [m]\<rparr>, Inr ())"
  by (auto simp: publish_immediately_def call_quiet quiet_def split: option.split)

text \<open>A run is described by what it does to the data in memory and in the row, and to the messages; the
  counter and the time stamps are left out.\<close>

definition same_update :: "StatusUpdateData \<Rightarrow> Ulid \<Rightarrow> StatusUpdate option \<Rightarrow> bool" where
  "same_update d pk inner \<longleftrightarrow> (\<exists>u. inner = Some u \<and> su_data u = d \<and> su_pk u = pk)"

lemma record_updates_quiet:
  assumes "quiet ctx"
  shows "\<exists>n. record_updates ctx cs w = (w\<lparr>calls := n, recorded := recorded w @ cs\<rparr>, Inr ())"
proof (induction cs arbitrary: w)
  case Nil
  then show ?case by (intro exI [of _ "calls w"]) simp
next
  case (Cons c cs)
  from Cons.IH [of "w\<lparr>calls := Suc (Suc (calls w)), recorded := recorded w @ [c]\<rparr>"]
  show ?case by (simp add: call_quiet [OF assms])
qed

section \<open>Events\<close>

datatype status_event = Ran Ulid | Done Ulid

fun event_value :: "status_event \<Rightarrow> Ulid" where
  "event_value (Ran i) = i"
| "event_value (Done i) = i"

fun status_step :: "'e status_context \<Rightarrow> status_event \<Rightarrow> StatusUpdate option \<times> world \<Rightarrow> StatusUpdate option \<times> world" where
  "status_step ctx (Ran i) (inner, w) = StatusUpdater_values_running ctx [i] inner w"
| "status_step ctx (Done i) (inner, w) = StatusUpdater_values_completed ctx [i] inner w"

fun data_step :: "status_event \<Rightarrow> StatusUpdateData \<Rightarrow> StatusUpdateData" where
  "data_step (Ran i) d = d\<lparr>queued_dependent_value_ids := queued_dependent_value_ids d - {i},
     running_dependent_value_ids := insert i (running_dependent_value_ids d)\<rparr>"
| "data_step (Done i) d = d\<lparr>queued_dependent_value_ids := queued_dependent_value_ids d - {i},
     running_dependent_value_ids := running_dependent_value_ids d - {i},
     completed_dependent_value_ids := insert i (completed_dependent_value_ids d)\<rparr>"

fun event_state :: "status_event \<Rightarrow> StatusMessageState" where
  "event_state (Ran i) = Running"
| "event_state (Done i) = Completed"

definition event_message :: "Ulid \<Rightarrow> (Ulid \<Rightarrow> AttributeValueMetadata) \<Rightarrow> status_event \<Rightarrow> StatusMessage" where
  "event_message pk md e = \<lparr>sm_pk = pk, sm_status = event_state e, sm_values = [md (event_value e)]\<rparr>"

lemma metadata_kept [simp]: "dependent_values_metadata (data_step e d) = dependent_values_metadata d"
  by (cases e) simp_all

lemma persist_quiet:
  "quiet ctx \<Longrightarrow> persist_data_to_db ctx u w =
    (u\<lparr>su_updated_at := now ctx (calls w)\<rparr>, w\<lparr>calls := Suc (calls w), row_data := su_data u\<rparr>, Inr ())"
  by (simp add: persist_data_to_db_def call_quiet)

lemma status_step_quiet:
  assumes q: "quiet ctx" and inner: "same_update d pk inner"
    and m: "map_of (dependent_values_metadata d) (event_value e) = Some m"
  shows "\<exists>inner' w'. status_step ctx e (inner, w) = (inner', w') \<and> same_update (data_step e d) pk inner'
    \<and> sent w' = sent w @ [\<lparr>sm_pk = pk, sm_status = event_state e, sm_values = [m]\<rparr>]
    \<and> row_data w' = data_step e d \<and> row_finished w' = row_finished w"
proof -
  obtain u where u: "inner = Some u" "su_data u = d" "su_pk u = pk" using inner by (auto simp: same_update_def)
  show ?thesis
  proof (cases e)
    case (Ran i)
    then show ?thesis using m u
      by (simp add: StatusUpdater_values_running_def with_inner_def Inner_values_running_def
          set_running_dependent_value_ids_def persist_and_look_up_def persist_quiet [OF q]
          metadata_from_value_ids_def announce_values_def publish_quiet [OF q] status_update_def same_update_def)
  next
    case (Done i)
    let ?cs = "filter (\<lambda>c. c \<noteq> NONE) (remdups (map avm_component_id [m]))"
    let ?w1 = "w\<lparr>calls := Suc (calls w), row_data := data_step e d\<rparr>"
    obtain n where "record_updates ctx ?cs ?w1 = (?w1\<lparr>calls := n, recorded := recorded ?w1 @ ?cs\<rparr>, Inr ())"
      using record_updates_quiet [OF q] by blast
    then show ?thesis using m u Done
      by (simp add: StatusUpdater_values_completed_def with_inner_def Inner_values_completed_def
          set_completed_dependent_value_ids_def persist_and_look_up_def persist_quiet [OF q]
          metadata_from_value_ids_def announce_values_def publish_quiet [OF q] status_update_def same_update_def)
  qed
qed

lemma status_steps_quiet:
  assumes q: "quiet ctx" and "same_update d pk inner"
    and "\<And>e. e \<in> set es \<Longrightarrow> map_of (dependent_values_metadata d) (event_value e) = Some (md (event_value e))"
    and "row_data w = d"
  shows "\<exists>inner' w'. fold (status_step ctx) es (inner, w) = (inner', w') \<and> same_update (fold data_step es d) pk inner'
    \<and> sent w' = sent w @ map (event_message pk md) es
    \<and> row_data w' = fold data_step es d \<and> row_finished w' = row_finished w"
  using assms(2-4)
proof (induction es arbitrary: inner w d)
  case (Cons e es)
  have m: "map_of (dependent_values_metadata d) (event_value e) = Some (md (event_value e))"
    using Cons.prems(2) by simp
  obtain inner1 w1 where S: "status_step ctx e (inner, w) = (inner1, w1)" "same_update (data_step e d) pk inner1"
    "sent w1 = sent w @ [event_message pk md e]" "row_data w1 = data_step e d" "row_finished w1 = row_finished w"
    using status_step_quiet [OF q Cons.prems(1) m, of w] unfolding event_message_def by blast
  have "map_of (dependent_values_metadata (data_step e d)) (event_value e') = Some (md (event_value e'))"
    if "e' \<in> set es" for e'
    using Cons.prems(2) that by simp
  from Cons.IH [OF S(2) this S(4)] obtain inner' w' where
    "fold (status_step ctx) es (inner1, w1) = (inner', w')"
    "same_update (fold data_step es (data_step e d)) pk inner'"
    "sent w' = sent w1 @ map (event_message pk md) es"
    "row_data w' = fold data_step es (data_step e d)" "row_finished w' = row_finished w1"
    by blast
  with S(1,3,5) show ?case by simp
qed simp

section \<open>The state of a value\<close>

text \<open>A value is settled when the last event about it completed it.\<close>

fun settled :: "status_event list \<Rightarrow> Ulid \<Rightarrow> bool" where
  "settled [] i = False"
| "settled (e # es) i = (if i \<in> event_value ` set es then settled es i else e = Done i)"

lemma queued_fold:
  "queued_dependent_value_ids (fold data_step es d) = queued_dependent_value_ids d - event_value ` set es"
proof (induction es arbitrary: d)
  case (Cons e es)
  then show ?case by (cases e) auto
qed simp

lemma completed_fold:
  "completed_dependent_value_ids (fold data_step es d)
   = completed_dependent_value_ids d \<union> {i. Done i \<in> set es}"
proof (induction es arbitrary: d)
  case (Cons e es)
  then show ?case by (cases e) auto
qed simp

lemma running_fold:
  "running_dependent_value_ids (fold data_step es d)
   = (running_dependent_value_ids d - event_value ` set es)
     \<union> {i \<in> event_value ` set es. \<not> settled es i}"
proof (induction es arbitrary: d)
  case (Cons e es)
  then show ?case by (cases e) auto
qed simp

lemma settled_event: "settled es i \<Longrightarrow> Done i \<in> set es"
  by (induction es) (auto split: if_splits)

lemma all_settled_iff:
  assumes "queued_dependent_value_ids d = V" "running_dependent_value_ids d = {}"
    "completed_dependent_value_ids d = {}" and "event_value ` set es \<subseteq> V"
  shows "(V = completed_dependent_value_ids (fold data_step es d)
      \<and> queued_dependent_value_ids (fold data_step es d) = {}
      \<and> running_dependent_value_ids (fold data_step es d) = {}) \<longleftrightarrow> (\<forall>i \<in> V. settled es i)"
proof
  assume "V = completed_dependent_value_ids (fold data_step es d)
      \<and> queued_dependent_value_ids (fold data_step es d) = {}
      \<and> running_dependent_value_ids (fold data_step es d) = {}"
  then show "\<forall>i \<in> V. settled es i"
    using assms by (auto simp: queued_fold completed_fold running_fold)
next
  assume s: "\<forall>i \<in> V. settled es i"
  then have ev: "V = event_value ` set es" using settled_event assms(4) by (force intro!: equalityI)
  have "{i. Done i \<in> set es} \<subseteq> V" using assms(4) by force
  then show "V = completed_dependent_value_ids (fold data_step es d)
      \<and> queued_dependent_value_ids (fold data_step es d) = {}
      \<and> running_dependent_value_ids (fold data_step es d) = {}"
    using s ev assms settled_event by (auto simp: queued_fold completed_fold running_fold)
qed

section \<open>From the start to the end\<close>

lemma values_metadata_keys:
  assumes "values_metadata db ids m0 = Inr md" and "distinct (map fst m0)"
  shows "distinct (map fst md) \<and> fst ` set md = fst ` set m0 \<union> set ids"
  using assms
proof (induction db ids m0 rule: values_metadata.induct)
  case (2 db i ids m0)
  from 2(2) obtain m where "values_metadata db ids (AList.update i m m0) = Inr md"
    by (auto simp: rbind_Inr_iff)
  from 2(1) [OF this] 2(3) have "distinct (map fst md)
      \<and> fst ` set md = fst ` set (AList.update i m m0) \<union> set ids"
    by (simp add: distinct_update)
  then show ?case by (simp add: dom_update)
qed simp

definition queued_data :: "(Ulid \<times> AttributeValueMetadata) list \<Rightarrow> StatusUpdateData" where
  "queued_data md = \<lparr>dependent_values_metadata = md, queued_dependent_value_ids = fst ` set md,
     running_dependent_value_ids = {}, completed_dependent_value_ids = {}\<rparr>"

lemma mapM_keys: "distinct (map fst md) \<Longrightarrow> mapM (\<lambda>i. ok_or (e i) (map_of md i)) (map fst md) = Inr (map snd md)"
proof -
  assume d: "distinct (map fst md)"
  have "mapM (\<lambda>i. ok_or (e i) (map_of md i)) (map fst xs) = Inr (map snd xs)" if "set xs \<subseteq> set md" for xs
    using that d by (induction xs) (auto simp: map_of_eq_Some_iff)
  then show ?thesis by blast
qed

lemma status_start_quiet:
  assumes q: "quiet ctx" and md: "values_metadata db ids [] = Inr md"
  obtains inner w0 inner' w' where "StatusUpdater_initialize ctx w = (inner, w0)"
    "StatusUpdater_values_queued ctx db ids inner w0 = (inner', w')"
    "same_update (queued_data md) (new_pk ctx) inner'" "row_data w' = queued_data md" "\<not> row_finished w'"
    "sent w' = sent w @ [\<lparr>sm_pk = new_pk ctx, sm_status = StatusStarted, sm_values = []\<rparr>,
       \<lparr>sm_pk = new_pk ctx, sm_status = Queued, sm_values = map snd md\<rparr>]"
    "same_update empty_data (new_pk ctx) inner"
proof -
  have d: "distinct (map fst md)" using values_metadata_keys [OF md] by simp
  obtain inner w0 where i: "StatusUpdater_initialize ctx w = (inner, w0)" by fastforce
  obtain inner' w' where q': "StatusUpdater_values_queued ctx db ids inner w0 = (inner', w')" by fastforce
  have inner: "same_update empty_data (new_pk ctx) inner" "\<not> row_finished w0"
    "sent w0 = sent w @ [\<lparr>sm_pk = new_pk ctx, sm_status = StatusStarted, sm_values = []\<rparr>]"
    using i by (auto simp: StatusUpdater_initialize_def Inner_initialize_def StatusUpdate_new_def
        call_quiet [OF q] publish_quiet [OF q] status_update_def same_update_def)
  obtain u where u: "inner = Some u" "su_data u = empty_data" "su_pk u = new_pk ctx"
    using inner(1) by (auto simp: same_update_def)
  have "same_update (queued_data md) (new_pk ctx) inner'" "row_data w' = queued_data md"
    "row_finished w' = row_finished w0"
    "sent w' = sent w0 @ [\<lparr>sm_pk = new_pk ctx, sm_status = Queued, sm_values = map snd md\<rparr>]"
    using q' u by (auto simp: StatusUpdater_values_queued_def with_inner_def Inner_values_queued_def md
        set_dependent_values_metadata_def set_queued_dependent_value_ids_def persist_and_look_up_def
        persist_quiet [OF q] metadata_from_value_ids_def mapM_keys [OF d] announce_values_def
        publish_quiet [OF q] status_update_def same_update_def queued_data_def empty_data_def)
  with inner show thesis using that [OF i q'] by simp
qed

lemma status_finish_quiet:
  assumes q: "quiet ctx" and inner: "same_update d pk inner" and "row_data w = d"
  obtains inner' w' where "StatusUpdater_finish ctx inner w = (inner', w')" "row_finished w'" "row_data w' = d"
    "sent w' = sent w @ (if fst ` set (dependent_values_metadata d) = completed_dependent_value_ids d
         \<and> queued_dependent_value_ids d = {} \<and> running_dependent_value_ids d = {}
       then [\<lparr>sm_pk = pk, sm_status = StatusFinished, sm_values = []\<rparr>] else [])"
proof -
  obtain inner' w' where f: "StatusUpdater_finish ctx inner w = (inner', w')" by fastforce
  obtain u where u: "inner = Some u" "su_data u = d" "su_pk u = pk"
    using inner by (auto simp: same_update_def)
  have "row_finished w' \<and> row_data w' = d \<and>
    sent w' = sent w @ (if fst ` set (dependent_values_metadata d) = completed_dependent_value_ids d
         \<and> queued_dependent_value_ids d = {} \<and> running_dependent_value_ids d = {}
       then [\<lparr>sm_pk = pk, sm_status = StatusFinished, sm_values = []\<rparr>] else [])"
    using f u assms(3)
    by (auto simp: StatusUpdater_finish_def with_inner_def Inner_finish_def StatusUpdate_finish_def
        call_quiet [OF q] publish_quiet [OF q] status_update_def Let_def split: if_splits)
  with f show thesis using that by blast
qed

definition status_run ::
  "'e status_context \<Rightarrow> 'e value_reads \<Rightarrow> Ulid list \<Rightarrow> status_event list \<Rightarrow> world \<Rightarrow> StatusUpdate option \<times> world" where
  "status_run ctx db ids es w =
     (let (inner, w) = StatusUpdater_initialize ctx w;
          (inner, w) = StatusUpdater_values_queued ctx db ids inner w;
          (inner, w) = fold (status_step ctx) es (inner, w)
      in StatusUpdater_finish ctx inner w)"

text \<open>C16: What is announced about an update. When no call is refused and the queued values can be
  classified, the messages are, in this order: the start, the queued values, one message for each report
  that a value is running or completed, and the end exactly when the last report about every queued value
  completed it. The row of the update holds the sets of the values by their last report and is marked as
  finished in any case, also when values are left and no end is announced.\<close>

theorem status_messages:
  assumes q: "quiet ctx" and md: "values_metadata db ids [] = Inr md"
    and es: "event_value ` set es \<subseteq> set ids"
  shows "let w' = snd (status_run ctx db ids es w) in sent w' = sent w
      @ [\<lparr>sm_pk = new_pk ctx, sm_status = StatusStarted, sm_values = []\<rparr>,
         \<lparr>sm_pk = new_pk ctx, sm_status = Queued, sm_values = map snd md\<rparr>]
      @ map (event_message (new_pk ctx) (the \<circ> map_of md)) es
      @ (if \<forall>i \<in> set ids. settled es i
         then [\<lparr>sm_pk = new_pk ctx, sm_status = StatusFinished, sm_values = []\<rparr>] else [])
    \<and> row_finished w'
    \<and> completed_dependent_value_ids (row_data w') = {i. Done i \<in> set es}
    \<and> running_dependent_value_ids (row_data w') = {i \<in> event_value ` set es. \<not> settled es i}
    \<and> queued_dependent_value_ids (row_data w') = set ids - event_value ` set es"
proof -
  have keys: "fst ` set md = set ids" using values_metadata_keys [OF md] by simp
  obtain inner w0 inner1 w1 where S: "StatusUpdater_initialize ctx w = (inner, w0)"
    "StatusUpdater_values_queued ctx db ids inner w0 = (inner1, w1)"
    "same_update (queued_data md) (new_pk ctx) inner1" "row_data w1 = queued_data md"
    "sent w1 = sent w @ [\<lparr>sm_pk = new_pk ctx, sm_status = StatusStarted, sm_values = []\<rparr>,
       \<lparr>sm_pk = new_pk ctx, sm_status = Queued, sm_values = map snd md\<rparr>]"
    using status_start_quiet [OF q md] by metis
  have "map_of (dependent_values_metadata (queued_data md)) (event_value e) = Some ((the \<circ> map_of md) (event_value e))"
    if "e \<in> set es" for e
  proof -
    have "event_value e \<in> dom (map_of md)" using that es keys by (auto simp: dom_map_of_conv_image_fst)
    then show ?thesis by (auto simp: queued_data_def)
  qed
  from status_steps_quiet [OF q S(3) this S(4)] obtain inner2 w2 where E:
    "fold (status_step ctx) es (inner1, w1) = (inner2, w2)"
    "same_update (fold data_step es (queued_data md)) (new_pk ctx) inner2"
    "sent w2 = sent w1 @ map (event_message (new_pk ctx) (the \<circ> map_of md)) es"
    "row_data w2 = fold data_step es (queued_data md)"
    by blast
  obtain inner3 w3 where F: "StatusUpdater_finish ctx inner2 w2 = (inner3, w3)" "row_finished w3"
    "row_data w3 = fold data_step es (queued_data md)"
    "sent w3 = sent w2 @ (if fst ` set (dependent_values_metadata (fold data_step es (queued_data md)))
           = completed_dependent_value_ids (fold data_step es (queued_data md))
         \<and> queued_dependent_value_ids (fold data_step es (queued_data md)) = {}
         \<and> running_dependent_value_ids (fold data_step es (queued_data md)) = {}
       then [\<lparr>sm_pk = new_pk ctx, sm_status = StatusFinished, sm_values = []\<rparr>] else [])"
    using status_finish_quiet [OF q E(2,4)] by metis
  have w': "snd (status_run ctx db ids es w) = w3" by (simp add: status_run_def S(1,2) E(1) F(1))
  have "dependent_values_metadata (fold data_step es d) = dependent_values_metadata d" for d
    by (induction es arbitrary: d) simp_all
  then have "sent w3 = sent w2 @ (if \<forall>i \<in> set ids. settled es i
      then [\<lparr>sm_pk = new_pk ctx, sm_status = StatusFinished, sm_values = []\<rparr>] else [])"
    using F(4) all_settled_iff [of "queued_data md" "set ids" es] es keys
    by (simp add: queued_data_def)
  with S(5) E(3) F(2,3) show ?thesis
    by (simp add: w' Let_def queued_fold completed_fold running_fold queued_data_def keys)
qed

text \<open>A context in which nothing is refused, and values that belong to no component.\<close>

definition sample_status_context :: "unit status_context" where
  "sample_status_context = \<lparr>fails = \<lambda>_. None, now = id, new_pk = 1, workspace_pk = Some 2\<rparr>"

definition sample_world :: world where
  "sample_world = \<lparr>calls = 0, row_data = empty_data, row_finished = False, sent = [], recorded = []\<rparr>"

definition sample_reads :: "unit value_reads" where
  "sample_reads = \<lparr>get_attribute_value = \<lambda>_. Inr (Some \<lparr>prop_id = 7, internal_provider_id = NONE,
       external_provider_id = NONE, component_id = NONE\<rparr>),
     get_external_provider = \<lambda>_. Inr None, external_provider_sockets = \<lambda>_. Inr [],
     get_internal_provider = \<lambda>_. Inr None, internal_provider_sockets = \<lambda>_. Inr [],
     get_component = \<lambda>_. Inr None, component_schema_variant = \<lambda>_. Inr None,
     find_code_item_prop = \<lambda>_. Inl (), get_prop = \<lambda>_. Inr None, get_parent_prop = \<lambda>_. Inr None,
     show_id = \<lambda>_. []\<rparr>"

lemma sample_quiet: "quiet sample_status_context"
  by (simp add: quiet_def sample_status_context_def)

lemma sample_value_metadata:
  "value_metadata sample_reads i = Inr \<lparr>avm_value_id = i, avm_component_id = NONE, avm_value_kind = Internal\<rparr>"
  by (simp add: value_metadata_def value_kind_def sample_reads_def AttributeValueMetadata_new_def)

lemma sample_values_metadata: "\<exists>md. values_metadata sample_reads ids m0 = Inr md"
  by (induction ids arbitrary: m0) (simp_all add: sample_value_metadata)

theorem status_messages_witness:
  "let w' = snd (status_run sample_status_context sample_reads [1, 2] [Ran 1, Done 1] sample_world) in
   map sm_status (sent w') = [StatusStarted, Queued, Running, Completed]
   \<and> row_finished w' \<and> queued_dependent_value_ids (row_data w') = {2}"
  using status_messages [OF sample_quiet, of sample_reads "[1, 2]" _ "[Ran 1, Done 1]" sample_world]
  by (simp add: sample_value_metadata Let_def event_message_def sample_world_def)

end
