(* ===== verification/Update_System.thy ===== *)
theory Update_System
  imports Dependent_Values_Update Status_Properties Council_Liveness
begin

text \<open>
  A job and the council together. The job sends requests over the bus, the council answers; both directions
  keep the order of the messages, and which side goes on next is left open. As long as no call is refused
  and every update succeeds, every run of a job on a graph without cycles ends after the same number of
  steps: every value is updated once, after the values it depends on, the status is announced as finished
  and the council has forgotten the change set.
\<close>

section \<open>The system\<close>

record 'e system =
  sys_council :: Council
  sys_job :: "'e job"
  sys_handled :: nat
  sys_inbox :: "Response list"

text \<open>The loop of the server between two events: a request is handled and the work is handed out.\<close>

definition server_turn :: "clock \<Rightarrow> channel \<Rightarrow> Request \<Rightarrow> Council \<Rightarrow> handled" where
  "server_turn clk c r S =
     (case handle_request (\<lambda>_ _. True) clk c r S of
        (S1, msgs, Inl e) \<Rightarrow> (S1, msgs, Inl e)
      | (S1, msgs, Inr _) \<Rightarrow>
          (case announce (\<lambda>_ _. True) clk S1 of (S2, msgs', q) \<Rightarrow> (S2, msgs @ msgs', q)))"

definition messages_for :: "channel \<Rightarrow> message list \<Rightarrow> Response list" where
  "messages_for c msgs = map snd (filter (\<lambda>m. fst m = c) msgs)"

definition outbox :: "'e system \<Rightarrow> Request list" where
  "outbox s = drop (sys_handled s) (requests (sys_job s))"

inductive sys_step :: "clock \<Rightarrow> channel \<Rightarrow> 'e job_env \<Rightarrow> Ulid list \<Rightarrow> 'e system \<Rightarrow> 'e system \<Rightarrow> bool"
  for clk c env vs where
  serve: "outbox s = r # rs \<Longrightarrow> server_turn clk c r (sys_council s) = (S, msgs, Inr ()) \<Longrightarrow>
    sys_step clk c env vs s (s\<lparr>sys_council := S, sys_handled := Suc (sys_handled s),
      sys_inbox := sys_inbox s @ messages_for c msgs\<rparr>)"
| deliver: "sys_inbox s = m # ms \<Longrightarrow>
    sys_step clk c env vs s (s\<lparr>sys_job := job_receive env vs (Delivered m) (sys_job s), sys_inbox := ms\<rparr>)"

inductive_cases sys_stepE: "sys_step clk c env vs s s'"

definition sys_start :: "'e job_env \<Rightarrow> world \<Rightarrow> 'e system" where
  "sys_start env w = \<lparr>sys_council = Council_default, sys_job = job_start env w, sys_handled = 0, sys_inbox = []\<rparr>"

text \<open>A sequence of turns is what \<open>run\<close> does on the same requests.\<close>

lemma run_turn:
  assumes "announce (\<lambda>_ _. True) clk S = (S1, msgs, Inr ())"
    and "handle_request (\<lambda>_ _. True) clk c r S1 = (S2, msgs', Inr ())"
  shows "run (\<lambda>_ _. True) clk (Incoming (Some r) (Some c) # es) S
    = apsnd (apfst ((@) (msgs @ msgs'))) (run (\<lambda>_ _. True) clk es S2)"
  using assms by (subst run.simps) simp

lemma publish_all_True [simp]: "publish_all (\<lambda>_ _. True) msgs = (msgs, Inr ())"
  by (induction msgs) auto

section \<open>Plans by stages\<close>

text \<open>Where a value is: not yet handed out, handed out to the job, reported by the job, reported to the job,
  or completed.\<close>

datatype stage = Pending | Offered | Reported | Told | Settled

definition live :: "stage \<Rightarrow> bool" where
  "live t \<longleftrightarrow> t \<in> {Pending, Offered, Reported}"

lemma live_simps [simp]: "live Pending" "live Offered" "live Reported" "\<not> live Told" "\<not> live Settled"
  by (simp_all add: live_def)

definition stage_plan :: "channel \<Rightarrow> (Id \<times> Id list) list \<Rightarrow> (Id \<Rightarrow> stage) \<Rightarrow> plan" where
  "stage_plan c g \<sigma> = (\<lambda>i. if i \<in> touched g \<and> live (\<sigma> i)
     then Some \<lparr>waiting = (if \<sigma> i = Pending then [c] else []),
                worker = (if \<sigma> i = Pending then None else Some c),
                needs = {d \<in> new_needs g i. live (\<sigma> d)}, outdated = False\<rparr>
     else None)"

definition startable :: "(Id \<times> Id list) list \<Rightarrow> (Id \<Rightarrow> stage) \<Rightarrow> Id set" where
  "startable g \<sigma> = {i \<in> touched g. \<sigma> i = Pending \<and> (\<forall>d \<in> new_needs g i. \<not> live (\<sigma> d))}"

definition offer :: "(Id \<times> Id list) list \<Rightarrow> (Id \<Rightarrow> stage) \<Rightarrow> Id \<Rightarrow> stage" where
  "offer g \<sigma> i = (if i \<in> startable g \<sigma> then Offered else \<sigma> i)"

lemma live_offer [simp]: "live (offer g \<sigma> i) = live (\<sigma> i)"
  by (simp add: offer_def startable_def)

lemma stage_plan_merge: "plan_merge c g Map.empty = stage_plan c g (\<lambda>_. Pending)"
  by (auto simp: plan_merge_def stage_plan_def want_def blank_def fun_eq_iff)

lemma stage_plan_fetch: "plan_fetch (stage_plan c g \<sigma>) = stage_plan c g (offer g \<sigma>)"
  by (auto simp: plan_fetch_def stage_plan_def start_def can_start_def offer_def startable_def fun_eq_iff)

lemma stage_plan_handed_out: "handed_out (stage_plan c g \<sigma>) = (\<lambda>i. (c, i)) ` startable g \<sigma>"
  by (auto simp: handed_out_def stage_plan_def can_start_def startable_def split: if_splits)

lemma stage_plan_finish:
  assumes i: "i \<in> touched g" "\<sigma> i = Reported" "\<And>d. d \<in> new_needs g i \<Longrightarrow> \<not> live (\<sigma> d)"
    and "\<And>j d. j \<in> touched g \<Longrightarrow> \<sigma> j \<noteq> Pending \<Longrightarrow> d \<in> new_needs g j \<Longrightarrow> \<not> live (\<sigma> d)"
  shows "plan_finish c i (stage_plan c g \<sigma>) = Inr (stage_plan c g (\<sigma>(i := Told)), {c})"
proof -
  have needs: "{d \<in> new_needs g i. live (\<sigma> d)} = {}" using i(3) by auto
  have eq: "(\<lambda>j. if j = i then None else map_option (release i) (stage_plan c g \<sigma> j)) = stage_plan c g (\<sigma>(i := Told))"
  proof
    fix j
    have "\<sigma> j = Pending" if "i \<in> new_needs g j" "j \<in> touched g" using assms(4) [OF that(2) _ that(1)] i(2) by auto
    then show "(if j = i then None else map_option (release i) (stage_plan c g \<sigma> j)) = stage_plan c g (\<sigma>(i := Told)) j"
      using i(2) by (auto simp: stage_plan_def release_def)
  qed
  have "stage_plan c g \<sigma> i = Some \<lparr>waiting = [], worker = Some c, needs = {}, outdated = False\<rparr>"
    using i(1,2) needs by (simp add: stage_plan_def)
  then show ?thesis by (simp add: plan_finish_def eq)
qed

lemma stage_plan_up_to_date: "stage_plan c g \<sigma> i = Some v \<Longrightarrow> \<not> outdated v"
  by (auto simp: stage_plan_def split: if_splits)

lemma stage_plan_empty_iff: "stage_plan c g \<sigma> = Map.empty \<longleftrightarrow> (\<forall>i \<in> touched g. \<not> live (\<sigma> i))"
  by (auto simp: stage_plan_def fun_eq_iff)

section \<open>The council's side\<close>

definition council_at :: "clock \<Rightarrow> channel \<Rightarrow> Id \<Rightarrow> (Id \<times> Id list) list \<Rightarrow> (Id \<Rightarrow> stage) \<Rightarrow> Council \<Rightarrow> bool" where
  "council_at clk c cs g \<sigma> S \<longleftrightarrow> value_create_queue S = ValueCreationQueue_default
     \<and> good_graph clk (readings S) (complete_graph S)
     \<and> plans_of (complete_graph S)
         = (if stage_plan c g \<sigma> = Map.empty then Map.empty else [cs \<mapsto> stage_plan c g \<sigma>])"

lemma plans_of_single:
  assumes "good_graph clk t G" and "plans_of G = [cs \<mapsto> p]"
  shows "\<exists>g. G = [(cs, g)]"
proof -
  have d: "distinct (map fst G)" using assms(1) by (simp add: good_graph_def)
  have "dom (plans_of G) = {cs}" using assms(2) by simp
  then have "fst ` set G = {cs}" by (simp add: plans_of_def dom_map_option dom_map_of_conv_image_fst)
  then have "set (map fst G) = {cs}" by simp
  moreover have "length (map fst G) = card (set (map fst G))" using d by (simp only: distinct_card)
  ultimately have "length G = 1" by simp
  then obtain x where "G = [x]" by (auto simp: length_Suc_conv)
  with \<open>set (map fst G) = {cs}\<close> show ?thesis by (cases x) simp
qed

lemma fetch_single:
  assumes clk: "mono clk" and G: "good_graph clk t G"
    and p: "plans_of G = (if p = Map.empty then Map.empty else [cs \<mapsto> p])"
    and f: "fetch_all_available clk t G = (rs, G', t')"
  shows "set rs = handed_out p" "distinct (map snd rs)" "good_graph clk t' G'"
    "plans_of G' = (if plan_fetch p = Map.empty then Map.empty else [cs \<mapsto> plan_fetch p])"
proof -
  note F = fetch_all_refines [OF clk G f]
  have e: "plan_fetch p = Map.empty \<longleftrightarrow> p = Map.empty"
    by (auto simp: plan_fetch_def fun_eq_iff)
  show "good_graph clk t' G'" by (rule F(2))
  show "plans_of G' = (if plan_fetch p = Map.empty then Map.empty else [cs \<mapsto> plan_fetch p])"
    using F(1) p e by (auto simp: fun_eq_iff)
  have he: "handed_out Map.empty = {}" by (simp add: handed_out_def)
  show "set rs = handed_out p" using F(5) p he by (auto split: if_splits)
  show "distinct (map snd rs)"
  proof (cases "p = Map.empty")
    case True
    with F(5) p have "rs = []" by simp
    then show ?thesis by simp
  next
    case False
    with plans_of_single [OF G] p obtain g where g: "G = [(cs, g)]" by auto
    obtain rs1 g1 t1 where r: "fetch_nodes clk t g = (rs1, g1, t1)" by (cases "fetch_nodes clk t g")
    have "good_nodes clk t g" using G g by simp
    from fetch_nodes_refines(5) [OF clk this r] f g r show ?thesis by simp
  qed
qed

lemma announce_stage:
  assumes clk: "mono clk" and S: "council_at clk c cs g \<sigma> S"
  obtains S' ids where "announce (\<lambda>_ _. True) clk S = (S', map (\<lambda>i. (c, OkToProcess [i])) ids, Inr ())"
    "distinct ids" "set ids = startable g \<sigma>" "council_at clk c cs g (offer g \<sigma>) S'"
proof -
  obtain rs G t where f: "fetch_all_available clk (readings S) (complete_graph S) = (rs, G, t)"
    by (cases "fetch_all_available clk (readings S) (complete_graph S)")
  have S': "good_graph clk (readings S) (complete_graph S)" "value_create_queue S = ValueCreationQueue_default"
    "plans_of (complete_graph S) = (if stage_plan c g \<sigma> = Map.empty then Map.empty else [cs \<mapsto> stage_plan c g \<sigma>])"
    using S by (simp_all add: council_at_def)
  note F = fetch_single [OF clk S'(1,3) f, unfolded stage_plan_fetch stage_plan_handed_out]
  have rs: "map (\<lambda>x. (c, snd x)) rs = rs" by (rule map_idI) (use F(1) in auto)
  define ids where "ids = map snd rs"
  have ids: "distinct ids" "set ids = startable g \<sigma>"
    unfolding ids_def using F(1,2) by (auto simp: image_image)
  have m: "map (\<lambda>(c, i). (c, OkToProcess [i])) rs = map (\<lambda>i. (c, OkToProcess [i])) ids"
    by (subst rs [symmetric]) (simp add: ids_def)
  have "announce (\<lambda>_ _. True) clk S
      = (S\<lparr>complete_graph := G, readings := t\<rparr>, map (\<lambda>i. (c, OkToProcess [i])) ids, Inr ())"
    by (simp add: announce_def S'(2) fetch_next_def is_busy_def ValueCreationQueue_default_def f m [symmetric])
  moreover have "council_at clk c cs g (offer g \<sigma>) (S\<lparr>complete_graph := G, readings := t\<rparr>)"
    using F(3,4) S'(2) by (simp add: council_at_def)
  ultimately show thesis using that ids by blast
qed

lemma serve_processed:
  assumes clk: "mono clk" and S: "council_at clk c cs g \<sigma> S"
    and i: "i \<in> touched g" "\<sigma> i = Reported"
    and needs: "\<And>j d. j \<in> touched g \<Longrightarrow> \<sigma> j \<noteq> Pending \<Longrightarrow> d \<in> new_needs g j \<Longrightarrow> \<not> live (\<sigma> d)"
  defines "\<sigma>' \<equiv> \<sigma>(i := Told)"
  obtains S' ids where "server_turn clk c (ProcessedValue cs i) S
      = (S', (c, BeenProcessed i) # map (\<lambda>k. (c, OkToProcess [k])) ids, Inr ())"
    "distinct ids" "set ids = startable g \<sigma>'" "council_at clk c cs g (offer g \<sigma>') S'"
proof -
  obtain G t r where m: "mark_node_as_processed clk (readings S) c cs i (complete_graph S) = (G, t, r)"
    by (cases "mark_node_as_processed clk (readings S) c cs i (complete_graph S)")
  have ne: "stage_plan c g \<sigma> \<noteq> Map.empty" using i by (metis live_simps(3) stage_plan_empty_iff)
  have S': "good_graph clk (readings S) (complete_graph S)" "value_create_queue S = ValueCreationQueue_default"
    "plans_of (complete_graph S) = [cs \<mapsto> stage_plan c g \<sigma>]"
    using S ne by (simp_all add: council_at_def)
  have "\<And>d. d \<in> new_needs g i \<Longrightarrow> \<not> live (\<sigma> d)" using needs [of i] i by simp
  with i needs have fin: "plan_finish c i (stage_plan c g \<sigma>) = Inr (stage_plan c g \<sigma>', {c})"
    unfolding \<sigma>'_def by (intro stage_plan_finish)
  from finish_refines [OF clk S'(1) m] S'(3) fin
  obtain wl where M0: "r = Inr wl" "distinct wl" "set wl = {c}"
    "graph_leads_to clk cs (readings S) (complete_graph S) t G
      (if stage_plan c g \<sigma>' = Map.empty then None else Some (stage_plan c g \<sigma>'))"
    by auto
  have "plans_of G = (plans_of (complete_graph S))
      (cs := if stage_plan c g \<sigma>' = Map.empty then None else Some (stage_plan c g \<sigma>'))"
    by (rule graph_leads_to_up_to_date [OF M0(4)]) (auto split: if_splits dest: stage_plan_up_to_date)
  with M0 have M: "r = Inr wl" "distinct wl" "set wl = {c}" "good_graph clk t G"
    "plans_of G = (if stage_plan c g \<sigma>' = Map.empty then Map.empty else [cs \<mapsto> stage_plan c g \<sigma>'])"
    by (simp_all add: S'(3) graph_leads_toD(1) [OF M0(4)])
  have wl: "wl = [c]" using M(2,3) by (cases wl; cases "tl wl") auto
  let ?S = "S\<lparr>complete_graph := G, readings := t\<rparr>"
  have h: "handle_request (\<lambda>_ _. True) clk c (ProcessedValue cs i) S = (?S, [(c, BeenProcessed i)], Inr ())"
    by (simp add: job_processed_a_value_def m M(1) wl)
  have "council_at clk c cs g \<sigma>' ?S" using M(4,5) S'(2) by (simp add: council_at_def)
  from announce_stage [OF clk this] obtain S2 ids where A:
    "announce (\<lambda>_ _. True) clk ?S = (S2, map (\<lambda>k. (c, OkToProcess [k])) ids, Inr ())"
    "distinct ids" "set ids = startable g \<sigma>'" "council_at clk c cs g (offer g \<sigma>') S2"
    by metis
  have "server_turn clk c (ProcessedValue cs i) S
      = (S2, (c, BeenProcessed i) # map (\<lambda>k. (c, OkToProcess [k])) ids, Inr ())"
    by (simp only: server_turn_def h A(1) prod.case sum.case) simp
  with A(2-4) show thesis using that by blast
qed

lemma serve_registration:
  assumes clk: "mono clk" and ne: "g \<noteq> []"
    and S: "good_graph clk (readings S) (complete_graph S)" "value_create_queue S = ValueCreationQueue_default"
      "plans_of (complete_graph S) = Map.empty"
  obtains S' ids where "server_turn clk c (ValueDependencyGraph cs g) S
      = (S', map (\<lambda>k. (c, OkToProcess [k])) ids, Inr ())"
    "distinct ids" "set ids = startable g (\<lambda>_. Pending)" "council_at clk c cs g (offer g (\<lambda>_. Pending)) S'"
proof -
  obtain G t where m: "merge_dependency_graph clk (readings S) c g cs (complete_graph S) = (G, t)"
    by (cases "merge_dependency_graph clk (readings S) c g cs (complete_graph S)")
  note M0 = merge_refines [OF clk S(1) m]
  have M: "plans_of G = [cs \<mapsto> plan_merge c g Map.empty]" "good_graph clk t G"
  proof -
    have "plans_of G = (plans_of (complete_graph S))(cs \<mapsto>
        plan_merge c g (case plans_of (complete_graph S) cs of Some p \<Rightarrow> p | None \<Rightarrow> Map.empty))"
      by (rule graph_leads_to_up_to_date [OF M0]) (auto simp: S(3) stage_plan_merge dest: stage_plan_up_to_date)
    then show "plans_of G = [cs \<mapsto> plan_merge c g Map.empty]" by (simp add: S(3))
  qed (rule graph_leads_toD(1) [OF M0])
  have "touched g \<noteq> {}" using ne by (auto simp: touched_def)
  then have "stage_plan c g (\<lambda>_. Pending) \<noteq> Map.empty" by (auto simp: stage_plan_empty_iff)
  then have p: "plans_of G = (if stage_plan c g (\<lambda>_. Pending) = Map.empty then Map.empty
      else [cs \<mapsto> stage_plan c g (\<lambda>_. Pending)])"
    using M(1) S(3) by (simp add: stage_plan_merge)
  let ?S = "S\<lparr>complete_graph := G, readings := t\<rparr>"
  have h: "handle_request (\<lambda>_ _. True) clk c (ValueDependencyGraph cs g) S = (?S, [], Inr ())"
    by (simp add: register_graph_from_job_def m)
  have "council_at clk c cs g (\<lambda>_. Pending) ?S" using M(2) p S(2) by (simp add: council_at_def)
  from announce_stage [OF clk this] obtain S2 ids where A:
    "announce (\<lambda>_ _. True) clk ?S = (S2, map (\<lambda>k. (c, OkToProcess [k])) ids, Inr ())"
    "distinct ids" "set ids = startable g (\<lambda>_. Pending)" "council_at clk c cs g (offer g (\<lambda>_. Pending)) S2"
    by metis
  have "server_turn clk c (ValueDependencyGraph cs g) S = (S2, map (\<lambda>k. (c, OkToProcess [k])) ids, Inr ())"
    by (simp only: server_turn_def h A(1) prod.case sum.case) simp
  with A(2-4) show thesis using that by blast
qed

lemma serve_create_values:
  "server_turn clk c CreateValues Council_default
   = (Council_default\<lparr>value_create_queue := \<lparr>processing = Some c, queue = []\<rparr>\<rparr>, [(c, OkToCreate)], Inr ())"
  by (simp add: server_turn_def job_would_like_to_create_attribute_values_def announce_def Council_default_def
      push_def ValueCreationQueue_default_def fetch_next_def is_busy_def)

lemma serve_creation_done:
  "server_turn clk c ValueCreationDone (Council_default\<lparr>value_create_queue := \<lparr>processing = Some c, queue = []\<rparr>\<rparr>)
   = (Council_default, [], Inr ())"
  by (simp add: server_turn_def job_finished_value_creation_def announce_def Council_default_def
      finished_processing_def ValueCreationQueue_default_def fetch_next_def is_busy_def)

lemma plans_of_empty: "plans_of G = Map.empty \<longleftrightarrow> G = []"
  by (cases G) (auto simp: plans_of_def fun_eq_iff)

lemma serve_bye:
  assumes S: "council_at clk c cs g \<sigma> S" and all_done: "\<And>i. i \<in> touched g \<Longrightarrow> \<not> live (\<sigma> i)"
  obtains S' where "server_turn clk c (Bye cs) S = (S', [], Inr ())" "complete_graph S' = []"
proof -
  have G: "complete_graph S = []" "value_create_queue S = ValueCreationQueue_default"
    using S all_done stage_plan_empty_iff [of c g \<sigma>] plans_of_empty [of "complete_graph S"]
    by (auto simp: council_at_def)
  have "server_turn clk c (Bye cs) S = (S, [], Inr ())"
    by (simp add: server_turn_def job_is_going_away_def remove_channel_def G announce_def fetch_next_def
        is_busy_def ValueCreationQueue_remove_def ValueCreationQueue_default_def Let_def)
  then show thesis using that G(1) by blast
qed

section \<open>The job's side\<close>

definition job_quiet :: "'e job_env \<Rightarrow> bool" where
  "job_quiet env \<longleftrightarrow> (\<forall>n. job_fails env n = None) \<and> quiet (job_status_context env)
     \<and> (\<forall>i. attribute_value_exists env i) \<and> (\<forall>i. update_from_prototype_function env i = Updated)"

lemma job_call_quiet: "job_quiet env \<Longrightarrow> job_call env j = (j\<lparr>job_calls := Suc (job_calls j)\<rparr>, Inr ())"
  by (simp add: job_call_def job_quiet_def)

lemmas job_step_defs = seq_def modify_def publish_request_def update_status_def change_set_written_def
  publish_and_commit_def conclude_def

lemma receive_ok_to_process:
  assumes q: "job_quiet env" and j: "job_phase j = Updating" "dependency_graph j \<noteq> []"
    and st: "StatusUpdater_values_running (job_status_context env) [i] (status_updater j) (status_world j) = (inner, w)"
  shows "\<exists>n. job_receive env vs (Delivered (OkToProcess [i])) j
    = j\<lparr>job_calls := n, requests := requests j @ [ProcessedValue (job_change_set env) i],
        status_updater := inner, status_world := w, updated_values := updated_values j @ [i]\<rparr>"
proof -
  have "attribute_value_exists env i" "update_from_prototype_function env i = Updated"
    using q by (simp_all add: job_quiet_def)
  with j st show ?thesis
    by (intro exI [of _ "job_calls (job_receive env vs (Delivered (OkToProcess [i])) j)"] job.equality)
      (simp_all add: job_receive_def loop_turn_def loop_body_def update_value_def processed_value_def
        job_call_quiet [OF q] job_step_defs)
qed

lemma receive_been_processed:
  assumes q: "job_quiet env" and j: "job_phase j = Updating"
    and st: "StatusUpdater_values_completed (job_status_context env) [i] (status_updater j) (status_world j) = (inner, w)"
    and fin: "StatusUpdater_finish (job_status_context env) inner w = (inner', w')"
  shows "\<exists>n. job_receive env vs (Delivered (BeenProcessed i)) j =
    (if AList.delete i (dependency_graph j) = []
     then j\<lparr>job_calls := n, dependency_graph := [], status_updater := inner', status_world := w',
            receiver_request := Some (original_dependency_graph j),
            requests := requests j @ [Bye (job_change_set env)], job_phase := Ended (Inr ())\<rparr>
     else j\<lparr>job_calls := n, dependency_graph := AList.delete i (dependency_graph j),
            status_updater := inner, status_world := w\<rparr>)"
  using j st fin
  by (intro exI [of _ "job_calls (job_receive env vs (Delivered (BeenProcessed i)) j)"] job.equality)
    (simp_all add: job_receive_def loop_turn_def loop_body_def value_done_def inner_run_end_def bye_def
      job_call_quiet [OF q] job_step_defs)

lemma job_start_quiet:
  assumes q: "job_quiet env" and i: "StatusUpdater_initialize (job_status_context env) w = (inner, w0)"
  shows "job_phase (job_start env w) = AwaitingCreation" "requests (job_start env w) = [CreateValues]"
    "status_updater (job_start env w) = inner" "status_world (job_start env w) = w0"
    "updated_values (job_start env w) = []"
  by (simp_all add: job_start_def inner_run_start_def new_job_def job_call_quiet [OF q] job_step_defs i)

lemma receive_ok_to_create:
  assumes q: "job_quiet env" and j: "job_phase j = AwaitingCreation"
    and g: "prune_graph vs (dependent_value_graph env vs) = g" "g \<noteq> []"
    and st: "StatusUpdater_values_queued (job_status_context env) (job_value_reads env) (enqueued_values g)
      (status_updater j) (status_world j) = (inner, w)"
  shows "\<exists>n. job_receive env vs (Delivered OkToCreate) j
    = j\<lparr>job_calls := n, requests := requests j @ [ValueCreationDone, ValueDependencyGraph (job_change_set env) g],
        status_updater := inner, status_world := w, dependency_graph := g, original_dependency_graph := g,
        job_phase := Updating\<rparr>"
  using j g st
  by (intro exI [of _ "job_calls (job_receive env vs (Delivered OkToCreate) j)"] job.equality)
    (simp_all add: job_receive_def inner_run_created_def finished_creating_values_def
      register_dependency_graph_def job_call_quiet [OF q] job_step_defs)

end
