(* ===== verification/Update_Run.thy ===== *)
theory Update_Run
  imports Update_System
begin

text \<open>
  The run of a job with the council, step by step: an invariant that says for every number of remaining
  steps what the two sides and the messages between them look like, and that every step leads from one
  number to the next smaller one.
\<close>

section \<open>The order of messages and updates\<close>

text \<open>When a message about a value arrives, the values it depends on have been completed before, by
  messages that came earlier.\<close>

fun in_order :: "(Id \<times> Id list) list \<Rightarrow> Id set \<Rightarrow> Response list \<Rightarrow> bool" where
  "in_order g A [] \<longleftrightarrow> True"
| "in_order g A (m # ms) \<longleftrightarrow>
     (case m of
        OkToProcess [i] \<Rightarrow> new_needs g i \<subseteq> A \<and> in_order g A ms
      | BeenProcessed i \<Rightarrow> new_needs g i \<subseteq> A \<and> in_order g (insert i A) ms
      | _ \<Rightarrow> False)"

definition told :: "Response list \<Rightarrow> Id set" where
  "told ms = {i. BeenProcessed i \<in> set ms}"

lemma told_simps [simp]: "told [] = {}" "told (BeenProcessed i # ms) = insert i (told ms)"
    "told (OkToProcess ids # ms) = told ms"
  by (auto simp: told_def)

lemma in_order_append: "in_order g A (ms @ ns) \<longleftrightarrow> in_order g A ms \<and> in_order g (A \<union> told ms) ns"
  by (induction g A ms rule: in_order.induct) (auto split: Response.splits list.splits simp: Un_commute)

lemma in_order_offers [simp]:
  "in_order g A (map (\<lambda>k. OkToProcess [k]) ids) \<longleftrightarrow> (\<forall>k \<in> set ids. new_needs g k \<subseteq> A)"
  by (induction ids) auto

lemma in_order_needs:
  "in_order g A ms \<Longrightarrow> OkToProcess [i] \<in> set ms \<or> BeenProcessed i \<in> set ms \<Longrightarrow> new_needs g i \<subseteq> A \<union> told ms"
  by (induction g A ms rule: in_order.induct) (auto split: Response.splits list.splits)

fun after_needs :: "(Id \<times> Id list) list \<Rightarrow> Id set \<Rightarrow> Id list \<Rightarrow> bool" where
  "after_needs g A [] \<longleftrightarrow> True"
| "after_needs g A (i # ids) \<longleftrightarrow> new_needs g i \<subseteq> A \<and> after_needs g (insert i A) ids"

lemma after_needs_snoc: "after_needs g A (ids @ [i]) \<longleftrightarrow> after_needs g A ids \<and> new_needs g i \<subseteq> A \<union> set ids"
  by (induction g A ids rule: after_needs.induct) auto

definition ran_values :: "status_event list \<Rightarrow> Ulid list" where
  "ran_values es = concat (map (\<lambda>e. case e of Ran i \<Rightarrow> [i] | Done i \<Rightarrow> []) es)"

lemma ran_values_snoc [simp]: "ran_values (es @ [Ran i]) = ran_values es @ [i]"
    "ran_values (es @ [Done i]) = ran_values es"
  by (simp_all add: ran_values_def)

lemma settled_snoc: "settled (es @ [e]) i = (if event_value e = i then e = Done i else settled es i)"
  by (induction es) auto

lemma touched_enqueued: "set (enqueued_values g) = touched g"
  by (force simp: enqueued_values_def touched_def)

lemma finite_touched [simp]: "finite (touched g)"
  by (simp flip: touched_enqueued)

section \<open>While values are updated\<close>

definition mail_ok ::
  "Id \<Rightarrow> (Id \<times> Id list) list \<Rightarrow> (Id \<Rightarrow> stage) \<Rightarrow> Response list \<Rightarrow> Request list \<Rightarrow> bool" where
  "mail_ok cs g \<sigma> inb outb \<longleftrightarrow>
     distinct inb
     \<and> set inb = (\<lambda>k. OkToProcess [k]) ` {k \<in> touched g. \<sigma> k = Offered} \<union> BeenProcessed ` {k \<in> touched g. \<sigma> k = Told}
     \<and> distinct outb \<and> set outb = ProcessedValue cs ` {k \<in> touched g. \<sigma> k = Reported}
     \<and> in_order g {i \<in> touched g. \<sigma> i = Settled} inb
     \<and> (\<forall>i \<in> touched g. \<sigma> i \<in> {Reported, Settled} \<longrightarrow> new_needs g i \<subseteq> {i \<in> touched g. \<sigma> i = Settled})
     \<and> startable g \<sigma> = {}"

lemma mail_needs:
  assumes "mail_ok cs g \<sigma> inb outb" and "j \<in> touched g" "\<sigma> j \<noteq> Pending" "d \<in> new_needs g j"
  shows "\<not> live (\<sigma> d)"
proof (cases "\<sigma> j \<in> {Reported, Settled}")
  case True
  have "\<forall>i \<in> touched g. \<sigma> i \<in> {Reported, Settled} \<longrightarrow> new_needs g i \<subseteq> {i \<in> touched g. \<sigma> i = Settled}"
    using assms(1) by (simp add: mail_ok_def)
  with assms(2,4) True have "\<sigma> d = Settled" by blast
  then show ?thesis by simp
next
  case False
  with assms(3) have "\<sigma> j = Offered \<or> \<sigma> j = Told" by (cases "\<sigma> j") auto
  then have "OkToProcess [j] \<in> set inb \<or> BeenProcessed j \<in> set inb"
    using assms(1,2) by (auto simp: mail_ok_def)
  then have "d \<in> {i \<in> touched g. \<sigma> i = Settled} \<union> told inb"
    using in_order_needs [of g _ inb j] assms(1,4) by (fastforce simp: mail_ok_def)
  then show ?thesis using assms(1) by (auto simp: mail_ok_def told_def)
qed

definition updates_ok :: "(Id \<times> Id list) list \<Rightarrow> (Id \<Rightarrow> stage) \<Rightarrow> status_event list \<Rightarrow> bool" where
  "updates_ok g \<sigma> es \<longleftrightarrow>
     {i. Done i \<in> set es} = {i \<in> touched g. \<sigma> i = Settled}
     \<and> set (ran_values es) = {i \<in> touched g. \<sigma> i \<in> {Reported, Told, Settled}}
     \<and> event_value ` set es = set (ran_values es)
     \<and> distinct (ran_values es) \<and> after_needs g {} (ran_values es)
     \<and> (\<forall>i \<in> touched g. \<sigma> i = Settled \<longrightarrow> settled es i)"

definition status_at ::
  "'e job_env \<Rightarrow> (Ulid \<times> AttributeValueMetadata) list \<Rightarrow> status_event list \<Rightarrow> 'e job \<Rightarrow> bool" where
  "status_at env md es j \<longleftrightarrow>
     same_update (fold data_step es (queued_data md)) (new_pk (job_status_context env)) (status_updater j)
     \<and> row_data (status_world j) = fold data_step es (queued_data md)"

definition job_at ::
  "'e job_env \<Rightarrow> (Id \<times> Id list) list \<Rightarrow> (Ulid \<times> AttributeValueMetadata) list \<Rightarrow> (Id \<Rightarrow> stage) \<Rightarrow>
   status_event list \<Rightarrow> 'e job \<Rightarrow> bool" where
  "job_at env g md \<sigma> es j \<longleftrightarrow> job_phase j = Updating
     \<and> dependency_graph j = filter (\<lambda>(k, ds). \<sigma> k \<noteq> Settled) g \<and> dependency_graph j \<noteq> []
     \<and> status_at env md es j \<and> updates_ok g \<sigma> es \<and> updated_values j = ran_values es"

text \<open>Every value has three steps before it: its offer is delivered, its report is handled, and the answer
  is delivered.\<close>

fun rank :: "stage \<Rightarrow> nat" where
  "rank Pending = 3"
| "rank Offered = 3"
| "rank Reported = 2"
| "rank Told = 1"
| "rank Settled = 0"

definition steps_left :: "(Id \<times> Id list) list \<Rightarrow> (Id \<Rightarrow> stage) \<Rightarrow> nat" where
  "steps_left g \<sigma> = (\<Sum>i \<in> touched g. rank (\<sigma> i))"

lemma steps_left_offer [simp]: "steps_left g (offer g \<sigma>) = steps_left g \<sigma>"
  unfolding steps_left_def by (rule sum.cong) (auto simp: offer_def startable_def)

lemma steps_left_step:
  assumes "i \<in> touched g" and "rank (\<sigma> i) = Suc (rank t)"
  shows "steps_left g \<sigma> = Suc (steps_left g (\<sigma>(i := t)))"
proof -
  have "steps_left g \<tau> = rank (\<tau> i) + (\<Sum>k \<in> touched g - {i}. rank (\<tau> k))" for \<tau>
    unfolding steps_left_def using assms(1) by (simp add: sum.remove)
  moreover have "(\<Sum>k \<in> touched g - {i}. rank ((\<sigma>(i := t)) k)) = (\<Sum>k \<in> touched g - {i}. rank (\<sigma> k))"
    by (rule sum.cong) auto
  ultimately show ?thesis using assms(2) by simp
qed

lemma steps_left_zero: "steps_left g \<sigma> = 0 \<longleftrightarrow> (\<forall>i \<in> touched g. \<sigma> i = Settled)"
proof -
  have "rank t = 0 \<longleftrightarrow> t = Settled" for t by (cases t) simp_all
  then show ?thesis by (simp add: steps_left_def)
qed

section \<open>What a step does to the messages\<close>

lemma settled_upd:
  "{k \<in> touched g. (\<sigma>(i := t)) k = Settled}
   = (if i \<in> touched g \<and> t = Settled then insert i {k \<in> touched g. \<sigma> k = Settled}
      else {k \<in> touched g. \<sigma> k = Settled} - {i})"
  by auto

lemma startable_upd:
  assumes "startable g \<sigma> = {}" and "\<sigma> i \<noteq> Pending" "t \<noteq> Pending" and "live t = live (\<sigma> i)"
  shows "startable g (\<sigma>(i := t)) = {}"
proof -
  have "live ((\<sigma>(i := t)) d) = live (\<sigma> d)" for d using assms(4) by simp
  then have "startable g (\<sigma>(i := t)) = {k \<in> startable g \<sigma>. k \<noteq> i}"
    using assms(2,3) by (auto simp: startable_def)
  with assms(1) show ?thesis by simp
qed

lemma deliver_offer:
  assumes m: "mail_ok cs g \<sigma> (OkToProcess ids # ms) outb"
  obtains i where "ids = [i]" "i \<in> touched g" "\<sigma> i = Offered"
    "new_needs g i \<subseteq> {k \<in> touched g. \<sigma> k = Settled}"
    "mail_ok cs g (\<sigma>(i := Reported)) ms (outb @ [ProcessedValue cs i])"
proof -
  have s: "set (OkToProcess ids # ms) = (\<lambda>k. OkToProcess [k]) ` {k \<in> touched g. \<sigma> k = Offered}
      \<union> BeenProcessed ` {k \<in> touched g. \<sigma> k = Told}"
    using m by (simp only: mail_ok_def)
  then have "OkToProcess ids \<in> (\<lambda>k. OkToProcess [k]) ` {k \<in> touched g. \<sigma> k = Offered}
      \<union> BeenProcessed ` {k \<in> touched g. \<sigma> k = Told}"
    by (metis list.set_intros(1))
  then obtain i where i: "ids = [i]" "i \<in> touched g" "\<sigma> i = Offered" by auto
  let ?\<sigma> = "\<sigma>(i := Reported)"
  have io: "new_needs g i \<subseteq> {k \<in> touched g. \<sigma> k = Settled}" "in_order g {k \<in> touched g. \<sigma> k = Settled} ms"
    using m i(1) by (simp_all add: mail_ok_def)
  have S: "{k \<in> touched g. ?\<sigma> k = Settled} = {k \<in> touched g. \<sigma> k = Settled}" using i(3) by auto
  have "OkToProcess [i] \<notin> set ms" using m i(1) by (simp add: mail_ok_def)
  then have "set ms = set (OkToProcess ids # ms) - {OkToProcess [i]}" using i(1) by auto
  also have "\<dots> = (\<lambda>k. OkToProcess [k]) ` {k \<in> touched g. ?\<sigma> k = Offered} \<union> BeenProcessed ` {k \<in> touched g. ?\<sigma> k = Told}"
    unfolding s using i(3) by auto
  finally have "set ms = \<dots>" .
  moreover have "set (outb @ [ProcessedValue cs i]) = ProcessedValue cs ` {k \<in> touched g. ?\<sigma> k = Reported}"
    using m i by (auto simp: mail_ok_def)
  moreover have "distinct (outb @ [ProcessedValue cs i])" "distinct ms"
    using m i by (auto simp: mail_ok_def)
  moreover have "\<forall>k \<in> touched g. ?\<sigma> k \<in> {Reported, Settled} \<longrightarrow> new_needs g k \<subseteq> {k \<in> touched g. ?\<sigma> k = Settled}"
    unfolding S using m io(1) by (simp add: mail_ok_def)
  moreover have "startable g ?\<sigma> = {}"
    by (rule startable_upd) (use m i in \<open>simp_all add: mail_ok_def\<close>)
  ultimately have "mail_ok cs g ?\<sigma> ms (outb @ [ProcessedValue cs i])"
    unfolding mail_ok_def S using io(2) by simp
  with i io(1) show thesis using that by blast
qed

lemma deliver_answer:
  assumes m: "mail_ok cs g \<sigma> (BeenProcessed i # ms) outb"
  shows "i \<in> touched g" "\<sigma> i = Told" "mail_ok cs g (\<sigma>(i := Settled)) ms outb"
proof -
  have s: "set (BeenProcessed i # ms) = (\<lambda>k. OkToProcess [k]) ` {k \<in> touched g. \<sigma> k = Offered}
      \<union> BeenProcessed ` {k \<in> touched g. \<sigma> k = Told}"
    using m by (simp only: mail_ok_def)
  then have "BeenProcessed i \<in> (\<lambda>k. OkToProcess [k]) ` {k \<in> touched g. \<sigma> k = Offered}
      \<union> BeenProcessed ` {k \<in> touched g. \<sigma> k = Told}"
    by (metis list.set_intros(1))
  then show i: "i \<in> touched g" "\<sigma> i = Told" by auto
  let ?\<sigma> = "\<sigma>(i := Settled)"
  have io: "new_needs g i \<subseteq> {k \<in> touched g. \<sigma> k = Settled}"
    "in_order g (insert i {k \<in> touched g. \<sigma> k = Settled}) ms"
    using m by (simp_all add: mail_ok_def)
  have S: "{k \<in> touched g. ?\<sigma> k = Settled} = insert i {k \<in> touched g. \<sigma> k = Settled}" using i by auto
  have "BeenProcessed i \<notin> set ms" using m by (simp add: mail_ok_def)
  then have "set ms = set (BeenProcessed i # ms) - {BeenProcessed i}" by auto
  also have "\<dots> = (\<lambda>k. OkToProcess [k]) ` {k \<in> touched g. ?\<sigma> k = Offered} \<union> BeenProcessed ` {k \<in> touched g. ?\<sigma> k = Told}"
    unfolding s using i(2) by auto
  finally have "set ms = \<dots>" .
  moreover have "set outb = ProcessedValue cs ` {k \<in> touched g. ?\<sigma> k = Reported}"
    using m i by (auto simp: mail_ok_def)
  moreover have "\<forall>k \<in> touched g. ?\<sigma> k \<in> {Reported, Settled} \<longrightarrow> new_needs g k \<subseteq> {k \<in> touched g. ?\<sigma> k = Settled}"
    unfolding S using m io(1) by (auto simp: mail_ok_def)
  moreover have "startable g ?\<sigma> = {}"
    by (rule startable_upd) (use m i in \<open>simp_all add: mail_ok_def\<close>)
  moreover have "distinct ms" "distinct outb" using m by (simp_all add: mail_ok_def)
  ultimately show "mail_ok cs g ?\<sigma> ms outb"
    unfolding mail_ok_def S using io(2) by simp
qed

lemma startable_offer: "startable g (offer g \<sigma>) = {}"
  by (auto simp: startable_def offer_def split: if_splits)

lemma handle_report:
  assumes m: "mail_ok cs g \<sigma> inb (r # rs)"
  obtains i where "r = ProcessedValue cs i" "i \<in> touched g" "\<sigma> i = Reported"
    "\<forall>ids. distinct ids \<longrightarrow> set ids = startable g (\<sigma>(i := Told)) \<longrightarrow>
       mail_ok cs g (offer g (\<sigma>(i := Told))) (inb @ BeenProcessed i # map (\<lambda>k. OkToProcess [k]) ids) rs"
proof -
  have s: "set inb = (\<lambda>k. OkToProcess [k]) ` {k \<in> touched g. \<sigma> k = Offered} \<union> BeenProcessed ` {k \<in> touched g. \<sigma> k = Told}"
    "set (r # rs) = ProcessedValue cs ` {k \<in> touched g. \<sigma> k = Reported}"
    using m by (simp_all only: mail_ok_def)
  then have "r \<in> ProcessedValue cs ` {k \<in> touched g. \<sigma> k = Reported}" by (metis list.set_intros(1))
  then obtain i where i: "r = ProcessedValue cs i" "i \<in> touched g" "\<sigma> i = Reported" by blast
  let ?\<tau> = "\<sigma>(i := Told)" let ?\<sigma> = "offer g ?\<tau>"
  have st: "{k \<in> touched g. ?\<sigma> k = Settled} = {k \<in> touched g. \<sigma> k = Settled}"
    using i(3) by (auto simp: offer_def startable_def split: if_splits)
  have needs: "new_needs g i \<subseteq> {k \<in> touched g. \<sigma> k = Settled}" using m i by (simp add: mail_ok_def)
  have "mail_ok cs g ?\<sigma> (inb @ BeenProcessed i # map (\<lambda>k. OkToProcess [k]) ids) rs"
    if ids: "distinct ids" "set ids = startable g ?\<tau>" for ids
  proof -
    have off: "i \<notin> set ids" "\<And>k. k \<in> set ids \<Longrightarrow> k \<in> touched g \<and> \<sigma> k = Pending"
      using ids(2) i by (auto simp: startable_def split: if_splits)
    have "distinct (inb @ BeenProcessed i # map (\<lambda>k. OkToProcess [k]) ids)"
      using m ids(1) off s(1) i by (auto simp: mail_ok_def distinct_map inj_on_def)
    moreover have "set (inb @ BeenProcessed i # map (\<lambda>k. OkToProcess [k]) ids)
        = (\<lambda>k. OkToProcess [k]) ` {k \<in> touched g. ?\<sigma> k = Offered} \<union> BeenProcessed ` {k \<in> touched g. ?\<sigma> k = Told}"
      using s(1) i off ids(2) by (auto simp: offer_def split: if_splits)
    moreover have "ProcessedValue cs i \<notin> set rs" "distinct rs" using m i(1) by (simp_all add: mail_ok_def)
    moreover have "set rs = ProcessedValue cs ` {k \<in> touched g. ?\<sigma> k = Reported}"
    proof -
      have "set rs = set (r # rs) - {ProcessedValue cs i}"
        using i(1) \<open>ProcessedValue cs i \<notin> set rs\<close> by auto
      also have "\<dots> = ProcessedValue cs ` ({k \<in> touched g. \<sigma> k = Reported} - {i})"
        unfolding s(2) by auto
      also have "{k \<in> touched g. \<sigma> k = Reported} - {i} = {k \<in> touched g. ?\<sigma> k = Reported}"
        using off(2) ids(2) by (auto simp: offer_def split: if_splits)
      finally show ?thesis .
    qed
    moreover have "in_order g {k \<in> touched g. \<sigma> k = Settled} (inb @ BeenProcessed i # map (\<lambda>k. OkToProcess [k]) ids)"
    proof -
      have "new_needs g k \<subseteq> insert i ({k \<in> touched g. \<sigma> k = Settled} \<union> told inb)" if k: "k \<in> set ids" for k
      proof
        fix d
        assume d: "d \<in> new_needs g k"
        then have "d \<in> touched g" using new_needs_touched by blast
        moreover have "\<not> live (?\<tau> d)" using k d ids(2) by (simp add: startable_def)
        then have "d = i \<or> \<sigma> d = Told \<or> \<sigma> d = Settled" by (cases "\<sigma> d") (auto split: if_splits)
        ultimately show "d \<in> insert i ({k \<in> touched g. \<sigma> k = Settled} \<union> told inb)"
          using s(1) by (auto simp: told_def)
      qed
      then show ?thesis using m needs by (auto simp: mail_ok_def in_order_append)
    qed
    moreover have "\<forall>k \<in> touched g. ?\<sigma> k \<in> {Reported, Settled} \<longrightarrow> new_needs g k \<subseteq> {k \<in> touched g. \<sigma> k = Settled}"
      using m i by (auto simp: mail_ok_def offer_def split: if_splits)
    ultimately show ?thesis unfolding mail_ok_def st using startable_offer by simp
  qed
  with i show thesis using that by blast
qed

section \<open>What a step does to the job\<close>

lemma updates_ok_ran:
  assumes u: "updates_ok g \<sigma> es" and i: "i \<in> touched g" "\<sigma> i = Offered"
    and needs: "new_needs g i \<subseteq> {k \<in> touched g. \<sigma> k = Settled}"
  shows "updates_ok g (\<sigma>(i := Reported)) (es @ [Ran i])"
proof -
  have ran: "set (ran_values es) = {k \<in> touched g. \<sigma> k \<in> {Reported, Told, Settled}}"
    and ao: "after_needs g {} (ran_values es)"
    using u by (simp_all add: updates_ok_def)
  have "new_needs g i \<subseteq> set (ran_values es)" using needs ran by auto
  with ao have "after_needs g {} (ran_values es @ [i])" by (simp add: after_needs_snoc)
  moreover have "i \<notin> set (ran_values es)" using i ran by simp
  ultimately show ?thesis
    using u i by (auto simp: updates_ok_def settled_snoc)
qed

lemma updates_ok_done:
  assumes u: "updates_ok g \<sigma> es" and i: "i \<in> touched g" "\<sigma> i = Told"
  shows "updates_ok g (\<sigma>(i := Settled)) (es @ [Done i])"
proof -
  have "i \<in> set (ran_values es)" using u i by (simp add: updates_ok_def)
  with u i show ?thesis by (auto simp: updates_ok_def settled_snoc)
qed

lemma updates_ok_cong:
  assumes "updates_ok g \<sigma> es" and "\<And>i. i \<in> touched g \<Longrightarrow> \<tau> i = Settled \<longleftrightarrow> \<sigma> i = Settled"
    and "\<And>i. i \<in> touched g \<Longrightarrow> \<tau> i \<in> {Reported, Told, Settled} \<longleftrightarrow> \<sigma> i \<in> {Reported, Told, Settled}"
  shows "updates_ok g \<tau> es"
proof -
  have "{i \<in> touched g. \<tau> i = Settled} = {i \<in> touched g. \<sigma> i = Settled}"
    "{i \<in> touched g. \<tau> i \<in> {Reported, Told, Settled}} = {i \<in> touched g. \<sigma> i \<in> {Reported, Told, Settled}}"
    using assms(2,3) by blast+
  with assms(1,2) show ?thesis unfolding updates_ok_def by metis
qed

lemma updates_ok_told:
  assumes "updates_ok g \<sigma> es" and "\<sigma> i = Reported"
  shows "updates_ok g (offer g (\<sigma>(i := Told))) es"
  by (rule updates_ok_cong [OF assms(1)])
    (use assms(2) in \<open>auto simp: offer_def startable_def split: if_splits\<close>)

lemma status_after:
  assumes q: "quiet (job_status_context env)" and st: "status_at env md es j" and i: "event_value e \<in> fst ` set md"
  obtains inner w where
    "status_step (job_status_context env) e (status_updater j, status_world j) = (inner, w)"
    "same_update (fold data_step (es @ [e]) (queued_data md)) (new_pk (job_status_context env)) inner"
    "row_data w = fold data_step (es @ [e]) (queued_data md)"
proof -
  have md: "dependent_values_metadata (fold data_step es (queued_data md)) = md"
    by (induction es rule: rev_induct) (simp_all add: queued_data_def)
  have "event_value e \<in> dom (map_of md)" using i by (simp add: dom_map_of_conv_image_fst)
  then obtain m where "map_of md (event_value e) = Some m" by blast
  with status_step_quiet [OF q, of "fold data_step es (queued_data md)" _ "status_updater j" e m "status_world j"] st
  show thesis using that by (auto simp: status_at_def md)
qed

lemma job_after_offer:
  assumes q: "job_quiet env" and j: "job_at env g md \<sigma> es j" and md: "fst ` set md = touched g"
    and i: "i \<in> touched g" "\<sigma> i = Offered" and needs: "new_needs g i \<subseteq> {k \<in> touched g. \<sigma> k = Settled}"
  obtains "requests (job_receive env vs (Delivered (OkToProcess [i])) j)
      = requests j @ [ProcessedValue (job_change_set env) i]"
    "job_at env g md (\<sigma>(i := Reported)) (es @ [Ran i]) (job_receive env vs (Delivered (OkToProcess [i])) j)"
proof -
  have qs: "quiet (job_status_context env)" using q by (simp add: job_quiet_def)
  have st: "status_at env md es j" using j by (simp add: job_at_def)
  have i': "event_value (Ran i) \<in> fst ` set md" using i md by simp
  obtain inner w where S:
    "StatusUpdater_values_running (job_status_context env) [i] (status_updater j) (status_world j) = (inner, w)"
    "same_update (fold data_step (es @ [Ran i]) (queued_data md)) (new_pk (job_status_context env)) inner"
    "row_data w = fold data_step (es @ [Ran i]) (queued_data md)"
    using status_after [OF qs st i'] by auto
  have "job_phase j = Updating" "dependency_graph j \<noteq> []" using j unfolding job_at_def by blast+
  from receive_ok_to_process [OF q this S(1), of vs] obtain n where R:
    "job_receive env vs (Delivered (OkToProcess [i])) j
     = j\<lparr>job_calls := n, requests := requests j @ [ProcessedValue (job_change_set env) i],
        status_updater := inner, status_world := w, updated_values := updated_values j @ [i]\<rparr>"
    by blast
  have keep: "filter (\<lambda>(k, ds). (\<sigma>(i := Reported)) k \<noteq> Settled) g = filter (\<lambda>(k, ds). \<sigma> k \<noteq> Settled) g"
    by (rule filter_cong) (use i in \<open>auto split: if_splits\<close>)
  have "dependency_graph j = filter (\<lambda>(k, ds). \<sigma> k \<noteq> Settled) g" "filter (\<lambda>(k, ds). \<sigma> k \<noteq> Settled) g \<noteq> []"
    "job_phase j = Updating" "updated_values j = ran_values es" "updates_ok g (\<sigma>(i := Reported)) (es @ [Ran i])"
    using j updates_ok_ran [OF _ i needs] unfolding job_at_def by metis+
  then have "job_at env g md (\<sigma>(i := Reported)) (es @ [Ran i]) (job_receive env vs (Delivered (OkToProcess [i])) j)"
    unfolding R job_at_def status_at_def keep using S(2,3) by simp
  moreover have "requests (job_receive env vs (Delivered (OkToProcess [i])) j)
      = requests j @ [ProcessedValue (job_change_set env) i]"
    unfolding R by simp
  ultimately show thesis using that by blast
qed

text \<open>When the last value of the graph is completed the job ends; then all values are completed.\<close>

lemma keys_settled:
  assumes "\<And>k. k \<in> touched g \<Longrightarrow> \<sigma> k = Settled \<Longrightarrow> new_needs g k \<subseteq> {k \<in> touched g. \<sigma> k = Settled}"
    and "filter (\<lambda>(k, ds). \<sigma> k \<noteq> Settled) g = []"
  shows "\<forall>k \<in> touched g. \<sigma> k = Settled"
proof
  fix k
  assume k: "k \<in> touched g"
  have keys: "\<sigma> i = Settled" if "(i, ds) \<in> set g" for i ds
    using assms(2) that by (auto simp: filter_empty_conv)
  from k consider ds where "(k, ds) \<in> set g" | i ds where "(i, ds) \<in> set g" "k \<in> set ds"
    by (auto simp: touched_def)
  then show "\<sigma> k = Settled"
  proof cases
    case 1
    then show ?thesis by (rule keys)
  next
    case 2
    then have "k \<in> new_needs g i" "i \<in> touched g" by (force simp: new_needs_def touched_def)+
    with assms(1) [OF _ keys [OF 2(1)]] show ?thesis by auto
  qed
qed

definition job_finished :: "'e job_env \<Rightarrow> (Id \<times> Id list) list \<Rightarrow> 'e job \<Rightarrow> bool" where
  "job_finished env g j \<longleftrightarrow> job_phase j = Ended (Inr ())
     \<and> distinct (updated_values j) \<and> set (updated_values j) = touched g \<and> after_needs g {} (updated_values j)
     \<and> sent (status_world j) \<noteq> []
     \<and> last (sent (status_world j))
         = \<lparr>sm_pk = new_pk (job_status_context env), sm_status = StatusFinished, sm_values = []\<rparr>
     \<and> row_finished (status_world j) \<and> completed_dependent_value_ids (row_data (status_world j)) = touched g"

lemma metadata_fold [simp]: "dependent_values_metadata (fold data_step es d) = dependent_values_metadata d"
  by (induction es arbitrary: d) simp_all

lemma finish_after_all:
  assumes q: "quiet (job_status_context env)" and md: "fst ` set md = touched g"
    and st: "same_update (fold data_step es (queued_data md)) (new_pk (job_status_context env)) inner"
      "row_data w = fold data_step es (queued_data md)"
    and u: "updates_ok g \<sigma> es" and all: "\<forall>k \<in> touched g. \<sigma> k = Settled"
  obtains inner' w' where "StatusUpdater_finish (job_status_context env) inner w = (inner', w')"
    "sent w' = sent w @ [\<lparr>sm_pk = new_pk (job_status_context env), sm_status = StatusFinished, sm_values = []\<rparr>]"
    "row_finished w'" "completed_dependent_value_ids (row_data w') = touched g"
proof -
  let ?d = "fold data_step es (queued_data md)"
  have "event_value ` set es \<subseteq> touched g" using u by (auto simp: updates_ok_def)
  moreover have "\<forall>i \<in> touched g. settled es i" using u all by (simp add: updates_ok_def)
  ultimately have A: "touched g = completed_dependent_value_ids ?d" "queued_dependent_value_ids ?d = {}"
    "running_dependent_value_ids ?d = {}"
    using all_settled_iff [of "queued_data md" "touched g" es] md by (auto simp: queued_data_def)
  then have "fst ` set (dependent_values_metadata ?d) = completed_dependent_value_ids ?d"
    using md by (simp add: queued_data_def)
  moreover obtain inner' w' where "StatusUpdater_finish (job_status_context env) inner w = (inner', w')"
    "row_finished w'" "row_data w' = ?d"
    "sent w' = sent w @ (if fst ` set (dependent_values_metadata ?d) = completed_dependent_value_ids ?d
         \<and> queued_dependent_value_ids ?d = {} \<and> running_dependent_value_ids ?d = {}
       then [\<lparr>sm_pk = new_pk (job_status_context env), sm_status = StatusFinished, sm_values = []\<rparr>] else [])"
    by (rule status_finish_quiet [OF q st])
  ultimately show thesis using A(2,3) A(1) [symmetric] that [of inner' w'] by simp
qed

lemma job_after_answer:
  assumes q: "job_quiet env" and j: "job_at env g md \<sigma> es j" and md: "fst ` set md = touched g"
    and i: "i \<in> touched g" "\<sigma> i = Told"
    and closed: "\<And>k. k \<in> touched g \<Longrightarrow> (\<sigma>(i := Settled)) k = Settled \<Longrightarrow>
      new_needs g k \<subseteq> {k \<in> touched g. (\<sigma>(i := Settled)) k = Settled}"
  obtains (more) "requests (job_receive env vs (Delivered (BeenProcessed i)) j) = requests j"
      "job_at env g md (\<sigma>(i := Settled)) (es @ [Done i]) (job_receive env vs (Delivered (BeenProcessed i)) j)"
  | (over) "requests (job_receive env vs (Delivered (BeenProcessed i)) j) = requests j @ [Bye (job_change_set env)]"
      "job_finished env g (job_receive env vs (Delivered (BeenProcessed i)) j)"
      "\<forall>k \<in> touched g. (\<sigma>(i := Settled)) k = Settled"
proof -
  let ?\<sigma> = "\<sigma>(i := Settled)" and ?j = "job_receive env vs (Delivered (BeenProcessed i)) j"
  have qs: "quiet (job_status_context env)" using q by (simp add: job_quiet_def)
  have st: "status_at env md es j" and u: "updates_ok g ?\<sigma> (es @ [Done i])"
    and ph: "job_phase j = Updating" and g: "dependency_graph j = filter (\<lambda>(k, ds). \<sigma> k \<noteq> Settled) g"
    and up: "updated_values j = ran_values es"
    using j updates_ok_done [of g \<sigma> es, OF _ i] unfolding job_at_def by blast+
  have i': "event_value (Done i) \<in> fst ` set md" using i md by simp
  obtain inner w where S:
    "StatusUpdater_values_completed (job_status_context env) [i] (status_updater j) (status_world j) = (inner, w)"
    "same_update (fold data_step (es @ [Done i]) (queued_data md)) (new_pk (job_status_context env)) inner"
    "row_data w = fold data_step (es @ [Done i]) (queued_data md)"
    using status_after [OF qs st i'] by auto
  obtain inner' w' where F: "StatusUpdater_finish (job_status_context env) inner w = (inner', w')" by fastforce
  have g': "AList.delete i (dependency_graph j) = filter (\<lambda>(k, ds). ?\<sigma> k \<noteq> Settled) g"
    unfolding g AList.delete_eq filter_filter by (rule filter_cong) (auto split: if_splits)
  from receive_been_processed [OF q ph S(1) F, of vs] obtain n where R: "?j =
    (if filter (\<lambda>(k, ds). ?\<sigma> k \<noteq> Settled) g = []
     then j\<lparr>job_calls := n, dependency_graph := [], status_updater := inner', status_world := w',
            receiver_request := Some (original_dependency_graph j),
            requests := requests j @ [Bye (job_change_set env)], job_phase := Ended (Inr ())\<rparr>
     else j\<lparr>job_calls := n, dependency_graph := filter (\<lambda>(k, ds). ?\<sigma> k \<noteq> Settled) g,
            status_updater := inner, status_world := w\<rparr>)"
    unfolding g' by blast
  show thesis
  proof (cases "filter (\<lambda>(k, ds). ?\<sigma> k \<noteq> Settled) g = []")
    case False
    then have "job_at env g md ?\<sigma> (es @ [Done i]) ?j"
      unfolding R using S(2,3) u ph up by (simp add: job_at_def status_at_def)
    moreover have "requests ?j = requests j" unfolding R using False by simp
    ultimately show thesis by (rule more [rotated])
  next
    case True
    have all: "\<forall>k \<in> touched g. ?\<sigma> k = Settled" by (rule keys_settled [OF closed True])
    obtain inner2 w2 where E: "StatusUpdater_finish (job_status_context env) inner w = (inner2, w2)"
      "sent w2 = sent w @ [\<lparr>sm_pk = new_pk (job_status_context env), sm_status = StatusFinished, sm_values = []\<rparr>]"
      "row_finished w2" "completed_dependent_value_ids (row_data w2) = touched g"
      using finish_after_all [OF qs md S(2,3) u all] by metis
    have w': "w' = w2" using E(1) F by simp
    have ran: "set (ran_values es) = touched g" "distinct (ran_values es)" "after_needs g {} (ran_values es)"
      using u all by (auto simp: updates_ok_def)
    have "job_finished env g ?j" unfolding R using True E(2-4) ran by (simp add: job_finished_def w' up)
    moreover have "requests ?j = requests j @ [Bye (job_change_set env)]" unfolding R using True by simp
    ultimately show thesis using over all by blast
  qed
qed

end
