(* ===== verification/Update_Properties.thy ===== *)
theory Update_Properties
  imports Update_Run
begin

text \<open>
  What a job and the council achieve together. An invariant says for every number of remaining steps what
  the two sides and the messages between them look like; every step leads from a number to the next
  smaller one, and only at zero there is no further step.
\<close>

section \<open>The phases of a run\<close>

definition mail :: "'e system \<Rightarrow> Response list \<Rightarrow> Request list \<Rightarrow> bool" where
  "mail s inb outb \<longleftrightarrow> sys_inbox s = inb \<and> outbox s = outb \<and> sys_handled s \<le> length (requests (sys_job s))"

definition job_fresh :: "'e job_env \<Rightarrow> 'e job \<Rightarrow> bool" where
  "job_fresh env j \<longleftrightarrow> job_phase j = AwaitingCreation \<and> updated_values j = []
     \<and> (\<exists>w. StatusUpdater_initialize (job_status_context env) w = (status_updater j, status_world j))"

definition busy_council :: "channel \<Rightarrow> Council" where
  "busy_council c = Council_default\<lparr>value_create_queue := \<lparr>processing = Some c, queue = []\<rparr>\<rparr>"

inductive remaining ::
  "clock \<Rightarrow> channel \<Rightarrow> 'e job_env \<Rightarrow> (Id \<times> Id list) list \<Rightarrow> (Ulid \<times> AttributeValueMetadata) list \<Rightarrow>
   nat \<Rightarrow> 'e system \<Rightarrow> bool"
  for clk c env g md where
  starting: "mail s [] [CreateValues] \<Longrightarrow> sys_council s = Council_default \<Longrightarrow> job_fresh env (sys_job s) \<Longrightarrow>
    remaining clk c env g md (3 * card (touched g) + 5) s"
| creatable: "mail s [OkToCreate] [] \<Longrightarrow> sys_council s = busy_council c \<Longrightarrow> job_fresh env (sys_job s) \<Longrightarrow>
    remaining clk c env g md (3 * card (touched g) + 4) s"
| created: "mail s [] [ValueCreationDone, ValueDependencyGraph (job_change_set env) g] \<Longrightarrow>
    sys_council s = busy_council c \<Longrightarrow> job_at env g md (\<lambda>_. Pending) [] (sys_job s) \<Longrightarrow>
    remaining clk c env g md (3 * card (touched g) + 3) s"
| registering: "mail s [] [ValueDependencyGraph (job_change_set env) g] \<Longrightarrow>
    sys_council s = Council_default \<Longrightarrow> job_at env g md (\<lambda>_. Pending) [] (sys_job s) \<Longrightarrow>
    remaining clk c env g md (3 * card (touched g) + 2) s"
| updating: "mail s inb outb \<Longrightarrow> mail_ok (job_change_set env) g \<sigma> inb outb \<Longrightarrow>
    council_at clk c (job_change_set env) g \<sigma> (sys_council s) \<Longrightarrow> job_at env g md \<sigma> es (sys_job s) \<Longrightarrow>
    remaining clk c env g md (steps_left g \<sigma> + 1) s"
| leaving: "mail s [] [Bye (job_change_set env)] \<Longrightarrow>
    council_at clk c (job_change_set env) g \<sigma> (sys_council s) \<Longrightarrow> \<forall>k \<in> touched g. \<sigma> k = Settled \<Longrightarrow>
    job_finished env g (sys_job s) \<Longrightarrow> remaining clk c env g md 1 s"
| over: "mail s [] [] \<Longrightarrow> complete_graph (sys_council s) = [] \<Longrightarrow> job_finished env g (sys_job s) \<Longrightarrow>
    remaining clk c env g md 0 s"

section \<open>The messages\<close>

lemma mail_serve:
  assumes "mail s inb (r # rs)" and "msgs' = messages_for c msgs"
  shows "mail (s\<lparr>sys_council := S, sys_handled := Suc (sys_handled s), sys_inbox := sys_inbox s @ messages_for c msgs\<rparr>)
    (inb @ msgs') rs"
proof -
  have d: "drop (sys_handled s) (requests (sys_job s)) = r # rs" using assms(1) by (simp add: mail_def outbox_def)
  then have "sys_handled s < length (requests (sys_job s))" by (metis drop_all leI list.discI)
  moreover have "drop (Suc (sys_handled s)) (requests (sys_job s)) = rs" using d by (metis drop_Suc list.sel(3) tl_drop)
  ultimately show ?thesis using assms by (simp add: mail_def outbox_def)
qed

lemma mail_deliver:
  assumes "mail s (m # ms) outb" and "requests j = requests (sys_job s) @ new"
  shows "mail (s\<lparr>sys_job := j, sys_inbox := ms\<rparr>) ms (outb @ new)"
  using assms by (simp add: mail_def outbox_def)

lemma messages_for_simps [simp]: "messages_for c [] = []" "messages_for c ((c, m) # msgs) = m # messages_for c msgs"
    "messages_for c (map (\<lambda>k. (c, OkToProcess [k])) ids) = map (\<lambda>k. OkToProcess [k]) ids"
proof -
  show "messages_for c (map (\<lambda>k. (c, OkToProcess [k])) ids) = map (\<lambda>k. OkToProcess [k]) ids"
    by (induction ids) (simp_all add: messages_for_def)
qed (simp_all add: messages_for_def)

text \<open>A step of the system, when it is known what is in the mail.\<close>

lemma step_serve:
  assumes "mail s [] (r # rs)" and "server_turn clk c r (sys_council s) = (S, msgs, Inr ())"
    and "sys_step clk c env vs s s'"
  shows "mail s' (messages_for c msgs) rs" "sys_council s' = S" "sys_job s' = sys_job s"
proof -
  have "s' = s\<lparr>sys_council := S, sys_handled := Suc (sys_handled s), sys_inbox := sys_inbox s @ messages_for c msgs\<rparr>"
    using assms by (auto simp: mail_def elim!: sys_stepE)
  then show "mail s' (messages_for c msgs) rs" "sys_council s' = S" "sys_job s' = sys_job s"
    using mail_serve [OF assms(1) refl, of c msgs S] by simp_all
qed

lemma step_deliver:
  assumes "mail s [m] []" and "requests (job_receive env vs (Delivered m) (sys_job s)) = requests (sys_job s) @ new"
    and "sys_step clk c env vs s s'"
  shows "mail s' [] new" "sys_council s' = sys_council s" "sys_job s' = job_receive env vs (Delivered m) (sys_job s)"
proof -
  have "s' = s\<lparr>sys_job := job_receive env vs (Delivered m) (sys_job s), sys_inbox := []\<rparr>"
    using assms by (auto simp: mail_def elim!: sys_stepE)
  then show "mail s' [] new" "sys_council s' = sys_council s" "sys_job s' = job_receive env vs (Delivered m) (sys_job s)"
    using mail_deliver [OF assms(1,2)] by simp_all
qed

section \<open>Every step counts\<close>

definition update_setting ::
  "clock \<Rightarrow> 'e job_env \<Rightarrow> Ulid list \<Rightarrow> (Id \<times> Id list) list \<Rightarrow> (Ulid \<times> AttributeValueMetadata) list \<Rightarrow> bool" where
  "update_setting clk env vs g md \<longleftrightarrow> mono clk \<and> job_quiet env
     \<and> prune_graph vs (dependent_value_graph env vs) = g \<and> g \<noteq> []
     \<and> acyclic {(d, i). d \<in> new_needs g i}
     \<and> values_metadata (job_value_reads env) (enqueued_values g) [] = Inr md"

lemma setting_metadata: "update_setting clk env vs g md \<Longrightarrow> fst ` set md = touched g"
  unfolding update_setting_def using values_metadata_keys [of "job_value_reads env" "enqueued_values g" "[]" md]
  by (simp add: touched_enqueued)

lemma job_after_create:
  assumes st: "update_setting clk env vs g md" and j: "job_fresh env j"
  shows "requests (job_receive env vs (Delivered OkToCreate) j)
      = requests j @ [ValueCreationDone, ValueDependencyGraph (job_change_set env) g]"
    "job_at env g md (\<lambda>_. Pending) [] (job_receive env vs (Delivered OkToCreate) j)"
proof -
  have q: "job_quiet env" and g: "prune_graph vs (dependent_value_graph env vs) = g" "g \<noteq> []"
    and md: "values_metadata (job_value_reads env) (enqueued_values g) [] = Inr md"
    using st by (simp_all add: update_setting_def)
  have qs: "quiet (job_status_context env)" using q by (simp add: job_quiet_def)
  obtain w where ph: "job_phase j = AwaitingCreation" "updated_values j = []"
    and i: "StatusUpdater_initialize (job_status_context env) w = (status_updater j, status_world j)"
    using j by (auto simp: job_fresh_def)
  obtain inner w' where Q: "StatusUpdater_values_queued (job_status_context env) (job_value_reads env) (enqueued_values g)
      (status_updater j) (status_world j) = (inner, w')"
    "same_update (queued_data md) (new_pk (job_status_context env)) inner" "row_data w' = queued_data md"
    using status_start_quiet [OF qs md, of w] i by (metis Pair_inject)
  from receive_ok_to_create [OF q ph(1) g Q(1)] obtain n where R: "job_receive env vs (Delivered OkToCreate) j
    = j\<lparr>job_calls := n, requests := requests j @ [ValueCreationDone, ValueDependencyGraph (job_change_set env) g],
        status_updater := inner, status_world := w', dependency_graph := g, original_dependency_graph := g,
        job_phase := Updating\<rparr>"
    by blast
  show "requests (job_receive env vs (Delivered OkToCreate) j)
      = requests j @ [ValueCreationDone, ValueDependencyGraph (job_change_set env) g]"
    unfolding R by simp
  have "filter (\<lambda>(k, ds). Pending \<noteq> Settled) g = g" by (simp add: filter_True)
  then show "job_at env g md (\<lambda>_. Pending) [] (job_receive env vs (Delivered OkToCreate) j)"
    unfolding R using g(2) Q(2,3) ph(2)
    by (simp add: job_at_def status_at_def updates_ok_def ran_values_def)
qed

lemma mail_first:
  assumes "distinct ids" and "set ids = startable g (\<lambda>_. Pending)"
  shows "mail_ok cs g (offer g (\<lambda>_. Pending)) (map (\<lambda>k. OkToProcess [k]) ids) []"
proof -
  let ?\<sigma> = "offer g (\<lambda>_. Pending)"
  have \<sigma>: "?\<sigma> k = (if k \<in> startable g (\<lambda>_. Pending) then Offered else Pending)" for k by (simp add: offer_def)
  have "new_needs g k = {}" if "k \<in> startable g (\<lambda>_. Pending)" for k using that by (auto simp: startable_def)
  moreover have "{k \<in> touched g. ?\<sigma> k = Offered} = startable g (\<lambda>_. Pending)"
    by (auto simp: \<sigma> startable_def)
  moreover have "?\<sigma> k \<noteq> Told" "?\<sigma> k \<noteq> Settled" "?\<sigma> k \<noteq> Reported" for k by (simp_all add: \<sigma>)
  ultimately show ?thesis
    using assms startable_offer [of g "\<lambda>_. Pending"] by (simp add: mail_ok_def distinct_map inj_on_def)
qed

lemma steps_left_start: "steps_left g (\<lambda>_. Pending) = 3 * card (touched g)"
  by (simp add: steps_left_def)

lemma job_at_cong:
  assumes "job_at env g md \<sigma> es j" and "filter (\<lambda>(k, ds). \<tau> k \<noteq> Settled) g = filter (\<lambda>(k, ds). \<sigma> k \<noteq> Settled) g"
    and "updates_ok g \<tau> es"
  shows "job_at env g md \<tau> es j"
  using assms(1,3) unfolding job_at_def assms(2) by blast

lemma job_at_updates: "job_at env g md \<sigma> es j \<Longrightarrow> updates_ok g \<sigma> es"
  by (simp add: job_at_def)

lemma no_mail:
  assumes m: "mail_ok cs g \<sigma> inb outb" and all: "\<forall>k \<in> touched g. \<sigma> k = Settled"
  shows "inb = [] \<and> outb = []"
proof -
  have "{k \<in> touched g. \<sigma> k = t} = {}" if "t \<noteq> Settled" for t using all that by auto
  then have "set inb = {}" "set outb = {}" using m by (simp_all add: mail_ok_def)
  then show ?thesis by simp
qed

text \<open>While values are updated, the next request and the next answer are handled in any order.\<close>

lemma updating_serve:
  assumes st: "update_setting clk env vs g md" and m: "mail s inb (r # rs)"
    and ok: "mail_ok (job_change_set env) g \<sigma> inb (r # rs)"
    and S: "council_at clk c (job_change_set env) g \<sigma> (sys_council s)" and j: "job_at env g md \<sigma> es (sys_job s)"
  obtains S' msgs where "server_turn clk c r (sys_council s) = (S', msgs, Inr ())"
    "remaining clk c env g md (steps_left g \<sigma>)
      (s\<lparr>sys_council := S', sys_handled := Suc (sys_handled s), sys_inbox := sys_inbox s @ messages_for c msgs\<rparr>)"
proof -
  let ?cs = "job_change_set env"
  have clk: "mono clk" using st by (simp add: update_setting_def)
  obtain i where i: "r = ProcessedValue ?cs i" "i \<in> touched g" "\<sigma> i = Reported"
    and ok': "\<forall>ids. distinct ids \<longrightarrow> set ids = startable g (\<sigma>(i := Told)) \<longrightarrow>
       mail_ok ?cs g (offer g (\<sigma>(i := Told))) (inb @ BeenProcessed i # map (\<lambda>k. OkToProcess [k]) ids) rs"
    by (rule handle_report [OF ok])
  obtain S' ids where T: "server_turn clk c (ProcessedValue ?cs i) (sys_council s)
      = (S', (c, BeenProcessed i) # map (\<lambda>k. (c, OkToProcess [k])) ids, Inr ())"
    "distinct ids" "set ids = startable g (\<sigma>(i := Told))" "council_at clk c ?cs g (offer g (\<sigma>(i := Told))) S'"
    by (rule serve_processed [OF clk S i(2,3) mail_needs [OF ok]])
  let ?msgs = "(c, BeenProcessed i) # map (\<lambda>k. (c, OkToProcess [k])) ids"
  let ?s = "s\<lparr>sys_council := S', sys_handled := Suc (sys_handled s), sys_inbox := sys_inbox s @ messages_for c ?msgs\<rparr>"
  have "filter (\<lambda>(k, ds). offer g (\<sigma>(i := Told)) k \<noteq> Settled) g = filter (\<lambda>(k, ds). \<sigma> k \<noteq> Settled) g"
    by (rule filter_cong) (use i(3) in \<open>auto simp: offer_def startable_def split: if_splits\<close>)
  then have "job_at env g md (offer g (\<sigma>(i := Told))) es (sys_job ?s)"
    using job_at_cong [OF j] j updates_ok_told [of g \<sigma> es i, OF _ i(3)] by (simp add: job_at_updates)
  moreover have "mail ?s (inb @ BeenProcessed i # map (\<lambda>k. OkToProcess [k]) ids) rs"
    using mail_serve [OF m refl, of c ?msgs S'] by simp
  ultimately have "remaining clk c env g md (steps_left g (offer g (\<sigma>(i := Told))) + 1) ?s"
    using T(4) by (intro updating [OF _ ok' [rule_format, OF T(2,3)]]) simp_all
  moreover have "steps_left g \<sigma> = Suc (steps_left g (\<sigma>(i := Told)))"
    using i(2,3) by (intro steps_left_step) simp_all
  ultimately show thesis using that T(1) i(1) by simp
qed

lemma updating_offer:
  assumes st: "update_setting clk env vs g md" and m: "mail s (OkToProcess ids # ms) outb"
    and ok: "mail_ok (job_change_set env) g \<sigma> (OkToProcess ids # ms) outb"
    and S: "council_at clk c (job_change_set env) g \<sigma> (sys_council s)" and j: "job_at env g md \<sigma> es (sys_job s)"
  shows "remaining clk c env g md (steps_left g \<sigma>)
    (s\<lparr>sys_job := job_receive env vs (Delivered (OkToProcess ids)) (sys_job s), sys_inbox := ms\<rparr>)"
proof -
  let ?cs = "job_change_set env"
  have q: "job_quiet env" using st by (simp add: update_setting_def)
  obtain i where i: "ids = [i]" "i \<in> touched g" "\<sigma> i = Offered"
    and needs: "new_needs g i \<subseteq> {k \<in> touched g. \<sigma> k = Settled}"
    and ok': "mail_ok ?cs g (\<sigma>(i := Reported)) ms (outb @ [ProcessedValue ?cs i])"
    by (rule deliver_offer [OF ok])
  let ?j = "job_receive env vs (Delivered (OkToProcess [i])) (sys_job s)"
  obtain r: "requests ?j = requests (sys_job s) @ [ProcessedValue ?cs i]"
    and j': "job_at env g md (\<sigma>(i := Reported)) (es @ [Ran i]) ?j"
    by (rule job_after_offer [OF q j setting_metadata [OF st] i(2,3) needs])
  have same: "stage_plan c g (\<sigma>(i := Reported)) = stage_plan c g \<sigma>"
    using i(3) by (auto simp: stage_plan_def fun_eq_iff split: if_splits)
  have "remaining clk c env g md (steps_left g (\<sigma>(i := Reported)) + 1) (s\<lparr>sys_job := ?j, sys_inbox := ms\<rparr>)"
    using updating [OF mail_deliver [OF m r] ok'] S j' by (simp add: council_at_def same)
  moreover have "steps_left g \<sigma> = Suc (steps_left g (\<sigma>(i := Reported)))"
    using i(2,3) by (intro steps_left_step) simp_all
  ultimately show ?thesis by (simp add: i(1))
qed

lemma updating_answer:
  assumes st: "update_setting clk env vs g md" and m: "mail s (BeenProcessed i # ms) outb"
    and ok: "mail_ok (job_change_set env) g \<sigma> (BeenProcessed i # ms) outb"
    and S: "council_at clk c (job_change_set env) g \<sigma> (sys_council s)" and j: "job_at env g md \<sigma> es (sys_job s)"
  shows "remaining clk c env g md (steps_left g \<sigma>)
    (s\<lparr>sys_job := job_receive env vs (Delivered (BeenProcessed i)) (sys_job s), sys_inbox := ms\<rparr>)"
proof -
  let ?cs = "job_change_set env" and ?\<sigma> = "\<sigma>(i := Settled)"
  let ?j = "job_receive env vs (Delivered (BeenProcessed i)) (sys_job s)"
  let ?s = "s\<lparr>sys_job := ?j, sys_inbox := ms\<rparr>"
  have q: "job_quiet env" using st by (simp add: update_setting_def)
  note A = deliver_answer [OF ok]
  have same: "stage_plan c g ?\<sigma> = stage_plan c g \<sigma>"
    using A(2) by (auto simp: stage_plan_def fun_eq_iff)
  have S': "council_at clk c ?cs g ?\<sigma> (sys_council ?s)" using S by (simp add: council_at_def same)
  have left: "steps_left g \<sigma> = Suc (steps_left g ?\<sigma>)"
    using A(1,2) by (intro steps_left_step) simp_all
  show ?thesis
  proof (rule job_after_answer [OF q j setting_metadata [OF st] A(1,2), where vs = vs])
    show "new_needs g k \<subseteq> {k \<in> touched g. ?\<sigma> k = Settled}" if "k \<in> touched g" "?\<sigma> k = Settled" for k
      using A(3) that unfolding mail_ok_def by blast
  next
    assume "requests ?j = requests (sys_job s)" "job_at env g md ?\<sigma> (es @ [Done i]) ?j"
    then show ?thesis
      using updating [OF mail_deliver [OF m, of ?j "[]"] _ S'] A(3) left by simp
  next
    assume over: "requests ?j = requests (sys_job s) @ [Bye ?cs]" "job_finished env g ?j"
      "\<forall>k \<in> touched g. ?\<sigma> k = Settled"
    then have "steps_left g ?\<sigma> = 0" by (simp add: steps_left_zero)
    moreover have "ms = []" "outb = []" using no_mail [OF A(3) over(3)] by simp_all
    ultimately show ?thesis
      using leaving [OF _ S' over(3)] mail_deliver [OF m over(1)] over(2) left by simp
  qed
qed

lemma remaining_step:
  assumes st: "update_setting clk env vs g md" and r: "remaining clk c env g md n s"
    and step: "sys_step clk c env vs s s'"
  obtains m where "n = Suc m" "remaining clk c env g md m s'"
  using r
proof cases
  case starting
  note T = step_serve [OF starting(2) serve_create_values [of clk c, folded starting(3)] step]
  have "remaining clk c env g md (3 * card (touched g) + 4) s'"
    using T starting(3,4) by (intro creatable) (simp_all add: busy_council_def)
  then show thesis by (rule that [rotated]) (simp add: starting(1))
next
  case creatable
  note J = job_after_create [OF st creatable(4)]
  note T = step_deliver [OF creatable(2) J(1) step]
  have "remaining clk c env g md (3 * card (touched g) + 3) s'"
    using T J(2) creatable(3) by (intro created) simp_all
  then show thesis by (rule that [rotated]) (simp add: creatable(1))
next
  case created
  note T = step_serve [OF created(2) _ step, unfolded created(3) busy_council_def, OF serve_creation_done]
  have "remaining clk c env g md (3 * card (touched g) + 2) s'"
    using T created(4) by (intro registering) simp_all
  then show thesis by (rule that [rotated]) (simp add: created(1))
next
  case registering
  let ?cs = "job_change_set env"
  have clk: "mono clk" and ne: "g \<noteq> []" using st by (simp_all add: update_setting_def)
  have S: "good_graph clk (readings (sys_council s)) (complete_graph (sys_council s))"
    "value_create_queue (sys_council s) = ValueCreationQueue_default" "plans_of (complete_graph (sys_council s)) = Map.empty"
    by (simp_all add: registering(3) Council_default_def plans_of_empty good_graph_def)
  obtain S' ids where R: "server_turn clk c (ValueDependencyGraph ?cs g) (sys_council s)
      = (S', map (\<lambda>k. (c, OkToProcess [k])) ids, Inr ())"
    "distinct ids" "set ids = startable g (\<lambda>_. Pending)" "council_at clk c ?cs g (offer g (\<lambda>_. Pending)) S'"
    by (rule serve_registration [OF clk ne S])
  note T = step_serve [OF registering(2) R(1) step]
  have "filter (\<lambda>(k, ds). offer g (\<lambda>_. Pending) k \<noteq> Settled) g = g"
    by (rule filter_True) (auto simp: offer_def split: if_splits)
  moreover have "updates_ok g (offer g (\<lambda>_. Pending)) []"
    by (simp add: updates_ok_def ran_values_def offer_def)
  moreover have "filter (\<lambda>(k, ds). (\<lambda>_. Pending) k \<noteq> Settled) g = g" by (simp add: filter_True)
  ultimately have "job_at env g md (offer g (\<lambda>_. Pending)) [] (sys_job s')"
    using job_at_cong [OF registering(4)] T(3) by simp
  with T R(4) have "remaining clk c env g md (steps_left g (offer g (\<lambda>_. Pending)) + 1) s'"
    by (intro updating [OF _ mail_first [OF R(2,3)]]) simp_all
  then show thesis by (rule that [rotated]) (simp add: registering(1) steps_left_start)
next
  case (updating inb outb \<sigma> es)
  from step have "remaining clk c env g md (steps_left g \<sigma>) s'"
  proof cases
    case (serve r rs S msgs)
    have outb: "outb = r # rs" using serve(2) updating(2) by (simp add: mail_def)
    obtain S' msgs' where T: "server_turn clk c r (sys_council s) = (S', msgs', Inr ())"
      "remaining clk c env g md (steps_left g \<sigma>)
        (s\<lparr>sys_council := S', sys_handled := Suc (sys_handled s), sys_inbox := sys_inbox s @ messages_for c msgs'\<rparr>)"
      by (rule updating_serve [OF st updating(2,3) [unfolded outb] updating(4,5)])
    with serve(1,3) show ?thesis by simp
  next
    case (deliver m ms)
    have inb: "inb = m # ms" using deliver(2) updating(2) by (simp add: mail_def)
    have "m \<in> set inb" by (simp add: inb)
    then consider ids where "m = OkToProcess ids" | i where "m = BeenProcessed i"
      using updating(3) by (auto simp: mail_ok_def)
    then show ?thesis
    proof cases
      case 1
      show ?thesis unfolding deliver(1) 1
        by (rule updating_offer [OF st updating(2,3) [unfolded inb 1] updating(4,5)])
    next
      case 2
      show ?thesis unfolding deliver(1) 2
        by (rule updating_answer [OF st updating(2,3) [unfolded inb 2] updating(4,5)])
    qed
  qed
  then show thesis by (rule that [rotated]) (simp add: updating(1))
next
  case (leaving \<sigma>)
  obtain S' where B: "server_turn clk c (Bye (job_change_set env)) (sys_council s) = (S', [], Inr ())" "complete_graph S' = []"
    by (rule serve_bye [OF leaving(3)]) (use leaving(4) in auto)
  note T = step_serve [OF leaving(2) B(1) step]
  have "remaining clk c env g md 0 s'" using T B(2) leaving(5) by (intro over) simp_all
  then show thesis by (rule that [rotated]) (simp add: leaving(1))
next
  case over
  then show thesis using step by (auto simp: mail_def elim!: sys_stepE)
qed

section \<open>There is always a next step\<close>

text \<open>When no message is under way, a value that waits has all values before it completed, so it would have
  been handed out.\<close>

lemma mail_waits:
  assumes st: "update_setting clk env vs g md" and ok: "mail_ok cs g \<sigma> [] []"
  shows "\<forall>k \<in> touched g. \<sigma> k = Settled"
proof (rule ccontr)
  let ?P = "{k \<in> touched g. \<sigma> k = Pending}" and ?R = "{(d, i). d \<in> new_needs g i}"
  have none: "\<sigma> k \<in> {Pending, Settled}" if "k \<in> touched g" for k
    using ok that by (cases "\<sigma> k") (auto simp: mail_ok_def)
  assume "\<not> (\<forall>k \<in> touched g. \<sigma> k = Settled)"
  then obtain k where k: "k \<in> ?P" using none by blast
  have sub: "new_needs g i \<subseteq> touched g" for i by (auto simp: new_needs_def touched_def split: if_splits)
  have "new_needs g i = {}" if "i \<notin> touched g" for i
    using that by (force simp: new_needs_def touched_def split: if_splits)
  with sub have "?R \<subseteq> touched g \<times> touched g" by fastforce
  then have "finite ?R" by (rule finite_subset) simp
  then have "wf ?R" using st by (intro finite_acyclic_wf) (simp_all add: update_setting_def)
  then have "\<exists>i \<in> ?P. \<forall>d. (d, i) \<in> ?R \<longrightarrow> d \<notin> ?P" unfolding wf_eq_minimal using k by (elim allE [of _ ?P]) blast
  then obtain i where i: "i \<in> ?P" "\<forall>d. (d, i) \<in> ?R \<longrightarrow> d \<notin> ?P" by blast
  have "\<not> live (\<sigma> d)" if "d \<in> new_needs g i" for d
    using i(2) none [of d] sub that by fastforce
  with i(1) have "i \<in> startable g \<sigma>" by (simp add: startable_def)
  moreover have "startable g \<sigma> = {}" using ok by (simp add: mail_ok_def)
  ultimately show False by simp
qed

lemma serve_exists:
  assumes "mail s inb (r # rs)" and "server_turn clk c r (sys_council s) = (S, msgs, Inr ())"
  shows "\<exists>s'. sys_step clk c env vs s s'"
  using sys_step.serve [of s r rs clk c S msgs env vs] assms by (auto simp: mail_def)

lemma deliver_exists:
  assumes "mail s (m # ms) outb"
  shows "\<exists>s'. sys_step clk c env vs s s'"
  using sys_step.deliver [of s m ms clk c env vs] assms by (auto simp: mail_def)

lemma remaining_progress:
  assumes st: "update_setting clk env vs g md" and r: "remaining clk c env g md (Suc n) s"
  shows "\<exists>s'. sys_step clk c env vs s s'"
  using r
proof cases
  case starting
  then show ?thesis using serve_exists serve_create_values [of clk c] by metis
next
  case creatable
  then show ?thesis using deliver_exists by blast
next
  case created
  then show ?thesis using serve_exists serve_creation_done [of clk c] unfolding busy_council_def by metis
next
  case registering
  have "mono clk" "g \<noteq> []" using st by (simp_all add: update_setting_def)
  moreover have "good_graph clk (readings Council_default) (complete_graph Council_default)"
    "value_create_queue Council_default = ValueCreationQueue_default" "plans_of (complete_graph Council_default) = Map.empty"
    by (simp_all add: Council_default_def plans_of_empty good_graph_def)
  ultimately obtain S' msgs where "server_turn clk c (ValueDependencyGraph (job_change_set env) g) (sys_council s) = (S', msgs, Inr ())"
    unfolding registering(3) by (rule serve_registration)
  then show ?thesis using serve_exists [OF registering(2)] by blast
next
  case (updating inb outb \<sigma> es)
  show ?thesis
  proof (cases outb)
    case (Cons r rs)
    then show ?thesis
      using updating_serve [OF st updating(2,3) [unfolded Cons] updating(4,5)] serve_exists [OF updating(2) [unfolded Cons]]
      by metis
  next
    case Nil
    show ?thesis
    proof (cases inb)
      case (Cons m ms)
      then show ?thesis using updating(2) deliver_exists by blast
    next
      case inb: Nil
      have "\<forall>k \<in> touched g. \<sigma> k = Settled" using mail_waits [OF st] updating(3) Nil inb by simp
      moreover have "fst ` set g \<subseteq> touched g" by (auto simp: touched_def)
      ultimately have "filter (\<lambda>(k, ds). \<sigma> k \<noteq> Settled) g = []" by (force simp: filter_empty_conv)
      then show ?thesis using updating(5) unfolding job_at_def by metis
    qed
  qed
next
  case (leaving \<sigma>)
  obtain S' where "server_turn clk c (Bye (job_change_set env)) (sys_council s) = (S', [], Inr ())"
    by (rule serve_bye [OF leaving(3)]) (use leaving(4) in auto)
  then show ?thesis using serve_exists [OF leaving(2)] by blast
qed

section \<open>The whole run\<close>

lemma remaining_start:
  assumes st: "update_setting clk env vs g md"
  shows "remaining clk c env g md (3 * card (touched g) + 5) (sys_start env w)"
proof (rule starting)
  have q: "job_quiet env" using st by (simp add: update_setting_def)
  obtain inner w0 where i: "StatusUpdater_initialize (job_status_context env) w = (inner, w0)" by fastforce
  note J = job_start_quiet [OF q i]
  show "mail (sys_start env w) [] [CreateValues]" by (simp add: mail_def outbox_def sys_start_def J)
  show "sys_council (sys_start env w) = Council_default" by (simp add: sys_start_def)
  show "job_fresh env (sys_job (sys_start env w))" using i by (auto simp: job_fresh_def sys_start_def J)
qed

lemma remaining_run:
  assumes st: "update_setting clk env vs g md" and r: "remaining clk c env g md n s"
    and k: "(sys_step clk c env vs ^^ k) s s'"
  shows "k \<le> n \<and> remaining clk c env g md (n - k) s'"
  using k
proof (induction k arbitrary: s')
  case 0
  then show ?case using r by simp
next
  case (Suc k)
  then obtain t where t: "(sys_step clk c env vs ^^ k) s t" "sys_step clk c env vs t s'" by auto
  with Suc.IH have IH: "k \<le> n" "remaining clk c env g md (n - k) t" by blast+
  obtain m where "n - k = Suc m" "remaining clk c env g md m s'" by (rule remaining_step [OF st IH(2) t(2)])
  moreover from this(1) have "m = n - Suc k" "Suc k \<le> n" by simp_all
  ultimately show ?case by simp
qed

lemma run_exists:
  assumes st: "update_setting clk env vs g md" and r: "remaining clk c env g md n s"
  shows "\<exists>s'. (sys_step clk c env vs ^^ n) s s'"
  using r
proof (induction n arbitrary: s)
  case (Suc n)
  obtain t where t: "sys_step clk c env vs s t" using remaining_progress [OF st Suc.prems] by blast
  then have "remaining clk c env g md n t" using remaining_step [OF st Suc.prems t] by blast
  with Suc.IH obtain s' where "(sys_step clk c env vs ^^ n) t s'" by blast
  then show ?case using t by (blast intro: relpowp_Suc_I2)
qed (intro exI, rule relpowp_0_I)

text \<open>C4: A job and the council bring every value up to date. When no call is refused, every update succeeds
  and the graph of the dependencies has no cycle, then however the messages between the job and the council
  interleave: the run can be continued until it has taken three steps for each value of the graph and five
  more, and never further. Then the job has ended without an error, it has updated every value of the graph
  exactly once and each one after the values it depends on, the frontend has been told at last that the
  update is finished, all values are recorded as completed, and the council has no work left.\<close>

theorem job_brings_values_up_to_date:
  assumes clk: "mono clk" and q: "job_quiet env"
    and g: "prune_graph vs (dependent_value_graph env vs) = g" "g \<noteq> []" "acyclic {(d, i). d \<in> new_needs g i}"
    and md: "values_metadata (job_value_reads env) (enqueued_values g) [] = Inr md"
  shows "let N = 3 * card (touched g) + 5 in (\<exists>s. (sys_step clk c env vs ^^ N) (sys_start env w) s)
    \<and> (\<forall>k s. (sys_step clk c env vs ^^ k) (sys_start env w) s \<longrightarrow>
         k \<le> N
         \<and> (k < N \<longrightarrow> (\<exists>s'. sys_step clk c env vs s s'))
         \<and> (k = N \<longrightarrow> (let j = sys_job s in
              job_phase j = Ended (Inr ())
              \<and> distinct (updated_values j) \<and> set (updated_values j) = touched g
              \<and> after_needs g {} (updated_values j)
              \<and> sent (status_world j) \<noteq> []
              \<and> last (sent (status_world j))
                  = \<lparr>sm_pk = new_pk (job_status_context env), sm_status = StatusFinished, sm_values = []\<rparr>
              \<and> row_finished (status_world j)
              \<and> completed_dependent_value_ids (row_data (status_world j)) = touched g
              \<and> complete_graph (sys_council s) = [])))"
proof -
  define N where "N = 3 * card (touched g) + 5"
  have st: "update_setting clk env vs g md" using assms by (simp add: update_setting_def)
  note start = remaining_start [OF st, of c w, folded N_def]
  have "k \<le> N \<and> (k < N \<longrightarrow> (\<exists>s'. sys_step clk c env vs s s'))
      \<and> (k = N \<longrightarrow> job_finished env g (sys_job s) \<and> complete_graph (sys_council s) = [])"
    if "(sys_step clk c env vs ^^ k) (sys_start env w) s" for k s
  proof -
    have R: "k \<le> N" "remaining clk c env g md (N - k) s" using remaining_run [OF st start that] by simp_all
    have "\<exists>s'. sys_step clk c env vs s s'" if "k < N"
      using R(2) that by (intro remaining_progress [OF st, of c "N - k - 1"]) (simp add: Suc_diff_Suc)
    moreover have "job_finished env g (sys_job s) \<and> complete_graph (sys_council s) = []" if "k = N"
    proof -
      have "remaining clk c env g md 0 s" using R(2) that by simp
      then show ?thesis by cases simp_all
    qed
    ultimately show ?thesis using R(1) by blast
  qed
  then show ?thesis
    unfolding Let_def N_def [symmetric] using run_exists [OF st start] by (simp add: job_finished_def)
qed

text \<open>Value 1 was changed; 2 and 3 depend on it, 4 depends on 2, and 5 on all of these.\<close>

definition sample_job_env :: "unit job_env" where
  "sample_job_env = \<lparr>job_change_set = 9, job_fails = \<lambda>_. None, job_status_context = sample_status_context,
     job_value_reads = sample_reads,
     dependent_value_graph = \<lambda>_. [(2, [1]), (3, [1]), (4, [2]), (5, [2, 3, 4])],
     attribute_value_exists = \<lambda>_. True, update_from_prototype_function = \<lambda>_. Updated\<rparr>"

lemma sample_pruned: "prune_graph [1] (dependent_value_graph sample_job_env [1]) = [(4, [2]), (5, [2, 3, 4])]"
  by (simp add: sample_job_env_def prune_graph_def Let_def)

lemma sample_touched: "touched [(4, [2]), (5, [2, 3, 4 :: Id])] = {2, 3, 4, 5}"
  by (auto simp: touched_def)

lemma sample_acyclic: "acyclic {(d, i). d \<in> new_needs [(4, [2]), (5, [2, 3, 4 :: Id])] i}"
proof -
  have "{(d, i). d \<in> new_needs [(4, [2]), (5, [2, 3, 4 :: Id])] i} \<subseteq> measure unat"
    by (auto simp: new_needs_def split: if_splits)
  then show ?thesis by (rule acyclic_subset [rotated]) (simp add: wf_acyclic)
qed

theorem job_brings_values_up_to_date_witness:
  "\<exists>s. (sys_step Suc ''job'' sample_job_env [1] ^^ 17) (sys_start sample_job_env sample_world) s
     \<and> \<not> (\<exists>s'. sys_step Suc ''job'' sample_job_env [1] s s')
     \<and> job_phase (sys_job s) = Ended (Inr ()) \<and> set (updated_values (sys_job s)) = {2, 3, 4, 5}"
proof -
  let ?g = "[(4, [2]), (5, [2, 3, 4 :: Id])]"
  have clock: "mono Suc" by (simp add: mono_def)
  have "job_quiet sample_job_env" by (simp add: job_quiet_def sample_job_env_def sample_quiet)
  note T = job_brings_values_up_to_date [OF clock this sample_pruned _ sample_acyclic, where w = sample_world and c = "''job''"]
  obtain md where "values_metadata (job_value_reads sample_job_env) (enqueued_values ?g) [] = Inr md"
    using sample_values_metadata [of "enqueued_values ?g" "[]"] by (auto simp: sample_job_env_def)
  from T [OF _ this] have A: "\<exists>s. (sys_step Suc ''job'' sample_job_env [1] ^^ 17) (sys_start sample_job_env sample_world) s"
    "\<forall>k s. (sys_step Suc ''job'' sample_job_env [1] ^^ k) (sys_start sample_job_env sample_world) s \<longrightarrow> k \<le> 17
       \<and> (k = 17 \<longrightarrow> job_phase (sys_job s) = Ended (Inr ()) \<and> set (updated_values (sys_job s)) = {2, 3, 4, 5})"
    by (simp_all add: sample_touched Let_def)
  then obtain s where s: "(sys_step Suc ''job'' sample_job_env [1] ^^ 17) (sys_start sample_job_env sample_world) s" by blast
  have "\<not> sys_step Suc ''job'' sample_job_env [1] s s'" for s'
    using A(2) [rule_format, of 18 s'] relpowp_Suc_I [OF s, of s'] by auto
  with s A(2) show ?thesis by blast
qed

end
