(* ===== verification/Update_Failures.thy ===== *)
theory Update_Failures
  imports Update_Properties
begin

text \<open>
  What a job leaves undone. Which values are in the graph of a job at all, what happens when none is, and
  what happens when the last entry of the graph goes while a value is under way.
\<close>

section \<open>The values of a job\<close>

lemma fold_delete: "fold AList.delete ks g = filter (\<lambda>(k, _). k \<notin> set ks) g"
proof (induction ks arbitrary: g)
  case (Cons k ks)
  have "filter (\<lambda>(i, _). i \<notin> set ks) (AList.delete k g) = filter (\<lambda>(i, _). i \<notin> set (k # ks)) g"
    unfolding AList.delete_eq filter_filter by (rule filter_cong) auto
  with Cons show ?case by simp
qed (simp add: case_prod_unfold)

text \<open>C37: Which values a job looks at. Of the values that depend on the changed ones, the graph of the job
  has those that depend on another value than the changed ones, and the values these depend on, without
  the changed ones. So a value that depends on changed values only, and on which nothing else depends, is
  in no graph, and no job updates it.\<close>

theorem values_of_pruned_graph:
  assumes "distinct (map fst graph)"
  shows "touched (prune_graph vs graph)
    = {i. \<exists>k ds. (k, ds) \<in> set graph \<and> \<not> set ds \<subseteq> set vs \<and> (i = k \<or> i \<in> set ds - set vs)}"
proof -
  let ?r = "map (\<lambda>(i, ds). (i, filter (\<lambda>d. d \<notin> set vs) ds)) graph"
  have r: "(k, ds) \<in> set ?r \<longleftrightarrow> (\<exists>es. (k, es) \<in> set graph \<and> ds = filter (\<lambda>d. d \<notin> set vs) es)" for k ds
    by auto
  have "map fst ?r = map fst graph" by (simp add: comp_def case_prod_unfold)
  then have d: "ds = ds'" if "(k, ds) \<in> set ?r" "(k, ds') \<in> set ?r" for k ds ds'
    using assms that by (metis eq_key_imp_eq_value)
  have "k \<in> set (map fst (filter (\<lambda>(i, ds). ds = []) xs)) \<longleftrightarrow> (k, []) \<in> set xs" for k and xs :: "(Id \<times> Id list) list"
    by force
  then have "(k, ds) \<in> set (prune_graph vs graph) \<longleftrightarrow> (k, ds) \<in> set ?r \<and> (k, []) \<notin> set ?r" for k ds
    by (simp add: prune_graph_def Let_def fold_delete del: set_map)
  then have "set (prune_graph vs graph) = {(k, ds). (k, ds) \<in> set ?r \<and> ds \<noteq> []}"
    using d by blast
  then have "(k, ds) \<in> set (prune_graph vs graph) \<longleftrightarrow>
      (\<exists>es. (k, es) \<in> set graph \<and> ds = filter (\<lambda>d. d \<notin> set vs) es) \<and> ds \<noteq> []" for k ds
    by (simp only: r mem_Collect_eq prod.case)
  moreover have "filter (\<lambda>d. d \<notin> set vs) es \<noteq> [] \<longleftrightarrow> \<not> set es \<subseteq> set vs" for es
    by (auto simp: filter_empty_conv)
  ultimately have m: "(k, ds) \<in> set (prune_graph vs graph) \<longleftrightarrow>
      (\<exists>es. (k, es) \<in> set graph \<and> ds = filter (\<lambda>d. d \<notin> set vs) es \<and> \<not> set es \<subseteq> set vs)" for k ds
    by metis
  have t: "i \<in> touched g \<longleftrightarrow> (\<exists>k ds. (k, ds) \<in> set g \<and> (i = k \<or> i \<in> set ds))" for i and g :: "(Id \<times> Id list) list"
    by (force simp: touched_def)
  have "i \<in> touched (prune_graph vs graph) \<longleftrightarrow>
      (\<exists>k es. (k, es) \<in> set graph \<and> \<not> set es \<subseteq> set vs \<and> (i = k \<or> i \<in> set (filter (\<lambda>d. d \<notin> set vs) es)))" for i
    unfolding t m by blast
  then show ?thesis by auto
qed

theorem values_of_pruned_graph_witness:
  "2 \<in> touched (prune_graph [1] [(2, [1]), (3, [1]), (4, [2, 1])])
   \<and> 3 \<notin> touched (prune_graph [1] [(2, [1]), (3, [1]), (4, [2, 1])])"
proof -
  let ?g = "[(2, [1]), (3, [1]), (4, [2, 1])] :: (Id \<times> Id list) list"
  have d: "distinct (map fst ?g)" by simp
  have "(4, [2, 1]) \<in> set ?g \<and> \<not> set [2, 1] \<subseteq> set [1 :: Id] \<and> 2 \<in> set [2, 1] - set [1 :: Id]" by simp
  then have "2 \<in> {i. \<exists>k ds. (k, ds) \<in> set ?g \<and> \<not> set ds \<subseteq> set [1 :: Id] \<and> (i = k \<or> i \<in> set ds - set [1])}"
    by blast
  moreover have "3 \<notin> {i. \<exists>k ds. (k, ds) \<in> set ?g \<and> \<not> set ds \<subseteq> set [1 :: Id] \<and> (i = k \<or> i \<in> set ds - set [1])}"
    by clarsimp (elim disjE; simp)
  ultimately show ?thesis unfolding values_of_pruned_graph [OF d, of "[1]"] by blast
qed

section \<open>Nothing to do\<close>

text \<open>C38: A job that finds nothing to do leaves its status open. When every value that depends on the changed
  ones depends on these only, the job returns as soon as it has the graph: it updates no value, it does
  not say goodbye, the frontend has been told that an update started and is not told that it ended, and
  the row of the update is not marked as finished.\<close>

theorem job_without_graph:
  assumes q: "job_quiet env" and "\<forall>(i, ds) \<in> set (dependent_value_graph env vs). set ds \<subseteq> set vs"
  shows "let j = job_receive env vs (Delivered OkToCreate) (job_start env w) in
    job_phase j = Ended (Inr ()) \<and> updated_values j = [] \<and> requests j = [CreateValues, ValueCreationDone]
    \<and> sent (status_world j) = sent w
        @ [\<lparr>sm_pk = new_pk (job_status_context env), sm_status = StatusStarted, sm_values = []\<rparr>]
    \<and> \<not> row_finished (status_world j)"
proof -
  have qs: "quiet (job_status_context env)" using q by (simp add: job_quiet_def)
  obtain inner w0 where i: "StatusUpdater_initialize (job_status_context env) w = (inner, w0)" by fastforce
  have w0: "\<not> row_finished w0"
    "sent w0 = sent w @ [\<lparr>sm_pk = new_pk (job_status_context env), sm_status = StatusStarted, sm_values = []\<rparr>]"
    using i by (auto simp: StatusUpdater_initialize_def Inner_initialize_def StatusUpdate_new_def
        call_quiet [OF qs] publish_quiet [OF qs] status_update_def)
  have "filter (\<lambda>d. d \<notin> set vs) ds = []" if "(i, ds) \<in> set (dependent_value_graph env vs)" for i ds
    using assms(2) that by (auto simp: filter_empty_conv)
  then have "prune_graph vs (dependent_value_graph env vs) = []"
    by (force simp: prune_graph_def Let_def fold_delete filter_empty_conv)
  then show ?thesis
    using job_start_quiet [OF q i] w0
    by (simp add: job_receive_def inner_run_created_def finished_creating_values_def Let_def
        job_call_quiet [OF q] job_step_defs)
qed

definition sample_leaf_env :: "unit job_env" where
  "sample_leaf_env = sample_job_env\<lparr>dependent_value_graph := \<lambda>_. [(2, [1])]\<rparr>"

theorem job_without_graph_witness:
  "updated_values (job_receive sample_leaf_env [1] (Delivered OkToCreate) (job_start sample_leaf_env sample_world)) = []"
  using job_without_graph [of sample_leaf_env "[1]" sample_world]
  by (simp add: sample_leaf_env_def sample_job_env_def job_quiet_def sample_quiet Let_def)

section \<open>The end of a job\<close>

text \<open>Calls to the database, to the transaction and to the bus are not refused; what the values do is open.\<close>

definition calls_served :: "'e job_env \<Rightarrow> bool" where
  "calls_served env \<longleftrightarrow> (\<forall>n. job_fails env n = None) \<and> quiet (job_status_context env)"

lemma job_call_served: "calls_served env \<Longrightarrow> job_call env j = (j\<lparr>job_calls := Suc (job_calls j)\<rparr>, Inr ())"
  by (simp add: job_call_def calls_served_def)

lemma receive_last_done:
  assumes q: "calls_served env" and j: "job_phase j = Updating" "AList.delete k (dependency_graph j) = []"
    and r: "r = Failed k \<or> r = BeenProcessed k"
    and st: "StatusUpdater_values_completed (job_status_context env) [k] (status_updater j) (status_world j) = (inner, w)"
    and fin: "StatusUpdater_finish (job_status_context env) inner w = (inner', w')"
  shows "job_phase (job_receive env vs (Delivered r) j) = Ended (Inr ())"
    "requests (job_receive env vs (Delivered r) j) = requests j @ [Bye (job_change_set env)]"
    "status_world (job_receive env vs (Delivered r) j) = w'"
  using r j st fin
  by (auto simp: job_receive_def loop_turn_def loop_body_def value_done_def inner_run_end_def bye_def
      job_call_served [OF q] job_step_defs)

lemma ended_job_receives_nothing:
  "job_phase j = Ended r \<Longrightarrow> fold (job_receive env vs) ds j = j"
  by (induction ds) (simp_all add: job_receive_def)

text \<open>C39: A job ends as soon as its graph has no entry left, whatever it has under way. The graph has no
  entry for a value that only others depend on. When the council reports the value of the last entry as
  failed (or as processed) while another value is recorded as running, the job says goodbye and ends without
  an error; the row of the update is marked as finished with the other value still running, nothing but the
  completion of the last value is announced, so the frontend is not told that the update ended, and no later
  message changes any of this.\<close>

theorem failure_leaves_value_running:
  assumes "calls_served env" and "job_phase j = Updating" and "map fst (dependency_graph j) = [k]"
    and "status_updater j = Some u" and "row_data (status_world j) = su_data u"
    and "map_of (dependent_values_metadata (su_data u)) k = Some m"
    and "b \<in> running_dependent_value_ids (su_data u)" and "b \<noteq> k"
    and "r = Failed k \<or> r = BeenProcessed k"
  shows "let j' = job_receive env vs (Delivered r) j in
    job_phase j' = Ended (Inr ()) \<and> requests j' = requests j @ [Bye (job_change_set env)]
    \<and> row_finished (status_world j') \<and> b \<in> running_dependent_value_ids (row_data (status_world j'))
    \<and> sent (status_world j') = sent (status_world j) @ [\<lparr>sm_pk = su_pk u, sm_status = Completed, sm_values = [m]\<rparr>]
    \<and> fold (job_receive env vs) ds j' = j'"
proof -
  have q: "quiet (job_status_context env)" using assms(1) by (simp add: calls_served_def)
  have d: "AList.delete k (dependency_graph j) = []" using assms(3) by (auto simp: map_eq_Cons_conv)
  have u: "same_update (su_data u) (su_pk u) (status_updater j)" by (simp add: same_update_def assms(4))
  have md: "map_of (dependent_values_metadata (su_data u)) (event_value (Done k)) = Some m" using assms(6) by simp
  let ?d = "data_step (Done k) (su_data u)"
  obtain inner w where st: "status_step (job_status_context env) (Done k) (status_updater j, status_world j) = (inner, w)"
    "same_update ?d (su_pk u) inner" "row_data w = ?d"
    "sent w = sent (status_world j) @ [\<lparr>sm_pk = su_pk u, sm_status = Completed, sm_values = [m]\<rparr>]"
    using status_step_quiet [OF q u md, of "status_world j"] by auto
  obtain inner' w' where fin: "StatusUpdater_finish (job_status_context env) inner w = (inner', w')"
    "row_finished w'" "row_data w' = ?d"
    "sent w' = sent w @ (if fst ` set (dependent_values_metadata ?d) = completed_dependent_value_ids ?d
         \<and> queued_dependent_value_ids ?d = {} \<and> running_dependent_value_ids ?d = {}
       then [\<lparr>sm_pk = su_pk u, sm_status = StatusFinished, sm_values = []\<rparr>] else [])"
    by (rule status_finish_quiet [OF q st(2,3)])
  have b: "b \<in> running_dependent_value_ids ?d" using assms(7,8) by simp
  then have "sent w' = sent w" using fin(4) by (auto simp del: data_step.simps)
  moreover note R = receive_last_done [OF assms(1,2) d assms(9) st(1) [unfolded status_step.simps] fin(1), of vs]
  ultimately show ?thesis
    using fin(2,3) b st(4) ended_job_receives_nothing [OF R(1)]
    by (simp only: Let_def R simp_thms)
qed

text \<open>A run by a schedule: at each step either the council handles a request or an answer is delivered.\<close>

fun sys_play :: "clock \<Rightarrow> channel \<Rightarrow> 'e job_env \<Rightarrow> Ulid list \<Rightarrow> bool list \<Rightarrow> 'e system \<Rightarrow> 'e system option" where
  "sys_play clk c env vs [] s = Some s"
| "sys_play clk c env vs (True # schedule) s =
     (case outbox s of
        [] \<Rightarrow> None
      | r # rs \<Rightarrow> (case server_turn clk c r (sys_council s) of
          (S, msgs, Inl e) \<Rightarrow> None
        | (S, msgs, Inr _) \<Rightarrow> sys_play clk c env vs schedule (s\<lparr>sys_council := S, sys_handled := Suc (sys_handled s),
            sys_inbox := sys_inbox s @ messages_for c msgs\<rparr>)))"
| "sys_play clk c env vs (False # schedule) s =
     (case sys_inbox s of
        [] \<Rightarrow> None
      | m # ms \<Rightarrow> sys_play clk c env vs schedule
          (s\<lparr>sys_job := job_receive env vs (Delivered m) (sys_job s), sys_inbox := ms\<rparr>))"

lemma sys_play_steps: "sys_play clk c env vs schedule s = Some s' \<Longrightarrow> (sys_step clk c env vs)\<^sup>*\<^sup>* s s'"
proof (induction clk c env vs schedule s rule: sys_play.induct)
  case (2 clk c env vs schedule s)
  obtain r rs where r: "outbox s = r # rs" using 2(2) by (auto split: list.splits)
  obtain S msgs where t: "server_turn clk c r (sys_council s) = (S, msgs, Inr ())"
    using 2(2) r by (auto split: prod.splits sum.splits)
  have "sys_step clk c env vs s (s\<lparr>sys_council := S, sys_handled := Suc (sys_handled s),
      sys_inbox := sys_inbox s @ messages_for c msgs\<rparr>)"
    by (rule serve [OF r t])
  moreover have "(sys_step clk c env vs)\<^sup>*\<^sup>* (s\<lparr>sys_council := S, sys_handled := Suc (sys_handled s),
      sys_inbox := sys_inbox s @ messages_for c msgs\<rparr>) s'"
    using 2(1) [of r rs S "(msgs, Inr ())" msgs "Inr ()" "()"] 2(2) r t by simp
  ultimately show ?case by (rule converse_rtranclp_into_rtranclp)
next
  case (3 clk c env vs schedule s)
  obtain m ms where m: "sys_inbox s = m # ms" using 3(2) by (auto split: list.splits)
  show ?case
    using deliver [OF m, of clk c env vs] 3(1) [OF m] 3(2) m by (auto intro: converse_rtranclp_into_rtranclp)
qed simp

definition sample_failing_env :: "unit job_env" where
  "sample_failing_env = sample_job_env\<lparr>dependent_value_graph := \<lambda>_. [(2, [1]), (3, [1]), (4, [2, 3])],
     update_from_prototype_function := \<lambda>i. if i = 2 then UpdateFailed else Updated\<rparr>"

definition sample_schedule :: "bool list" where
  "sample_schedule = [True, False, True, True, False, False, True, True, False]"

text \<open>Value 4 depends on 2 and 3, and 2 fails. The council tells the job that 2 and 4 failed before it tells it
  that 3 was processed.\<close>

definition sample_failing_state :: "unit system option" where
  "sample_failing_state =
     sys_play Suc ''job'' sample_failing_env [1] sample_schedule (sys_start sample_failing_env sample_world)"

lemma sample_failing_run:
  "map_option (\<lambda>s. (job_phase (sys_job s), sys_inbox s, map fst (dependency_graph (sys_job s)))) sample_failing_state
   = Some (Updating, [Failed 4, BeenProcessed 3], [4])"
  "map_option (\<lambda>s. case status_updater (sys_job s) of
       None \<Rightarrow> False
     | Some u \<Rightarrow> row_data (status_world (sys_job s)) = su_data u
         \<and> map_of (dependent_values_metadata (su_data u)) 4 \<noteq> None
         \<and> 3 \<in> running_dependent_value_ids (su_data u)) sample_failing_state
   = Some True"
  by code_simp+

theorem failure_leaves_value_running_witness:
  "\<exists>s. (sys_step Suc ''job'' sample_failing_env [1])\<^sup>*\<^sup>* (sys_start sample_failing_env sample_world) s
     \<and> sys_inbox s = [Failed 4, BeenProcessed 3]
     \<and> (let j = job_receive sample_failing_env [1] (Delivered (Failed 4)) (sys_job s) in
          job_phase j = Ended (Inr ()) \<and> 3 \<in> running_dependent_value_ids (row_data (status_world j)))"
proof -
  obtain s where s: "sample_failing_state = Some s" using sample_failing_run(1) by blast
  have phase: "job_phase (sys_job s) = Updating" "sys_inbox s = [Failed 4, BeenProcessed 3]"
    "map fst (dependency_graph (sys_job s)) = [4]"
    using sample_failing_run(1) by (simp_all add: s)
  obtain u m where u: "status_updater (sys_job s) = Some u" "row_data (status_world (sys_job s)) = su_data u"
    "map_of (dependent_values_metadata (su_data u)) 4 = Some m" "3 \<in> running_dependent_value_ids (su_data u)"
    using sample_failing_run(2) by (auto simp: s split: option.splits)
  have "calls_served sample_failing_env"
    using sample_quiet by (simp add: calls_served_def sample_failing_env_def sample_job_env_def)
  from failure_leaves_value_running [OF this phase(1,3) u, of "Failed 4" "[1]" "[]"]
  have "let j = job_receive sample_failing_env [1] (Delivered (Failed 4)) (sys_job s) in
      job_phase j = Ended (Inr ()) \<and> 3 \<in> running_dependent_value_ids (row_data (status_world j))"
    by (simp add: Let_def)
  with phase(2) sys_play_steps [OF s [unfolded sample_failing_state_def]] show ?thesis by blast
qed

end
