(* ===== verification/Spec2Isabelle.thy ===== *)
theory Spec2Isabelle
  imports Bytes_Lines_Codec Attribute_Context Asset_Properties Pkg_Properties Council_Properties
    Node_Menu_Properties Update_Failures
begin

text \<open>
  A verification development of System Initiative: how the definition of an asset becomes a package, how
  packages are stored, addressed by hash and read back, how assets are arranged in a menu, how jobs and the
  council recompute attribute values, and how function output is framed on the wire.

  \<^bold>\<open>The program.\<close> The function of an asset runs in a JavaScript sandbox and describes the asset with the
  builders of \<open>bin/lang-js\<close>. Its result is read by the data access layer (\<open>lib/dal\<close>), turned into a
  specification of \<open>lib/si-pkg\<close> and loaded as a package by a handler of \<open>lib/sdf-server\<close>. A package is a
  tree of typed nodes in an object tree (\<open>lib/object-tree\<close>): each node is written as text, hashed
  together with the hashes of its children (\<open>lib/si-hash\<close>), and stored under its hash in a tar archive.
  The jobs that recompute attribute values (\<open>lib/dal\<close>) ask the council (\<open>lib/council-server\<close>) which value may
  be processed next, and announce the status of the values to the frontend. Lines of output of functions are framed by \<open>lib/bytes-lines-codec\<close>.

  \<^bold>\<open>Conventions.\<close> A Rust \<open>Result\<close> is a sum whose left is the error; a panic is an error constructor of its own.
  A struct is a record with a prefix for its fields, an enum a datatype with the names of the source.
  Strings are lists of bytes. Loops over graphs that the code does not bound (\<open>create_hashed_tree_loop\<close>,
  \<open>read_from_tar_loop\<close>, \<open>visit_props\<close>) are partial functions into option types, in which a run that does not
  end is \<open>None\<close>; the theorems about them say that they end. All other loops are total, with termination proofs.
  Only the reading of a menu out of its shared vectors has fuel, the size of the store, which is shown to be
  enough for every menu the code builds (\<open>create_menu_json_refines\<close>). Code outside the repository is a parameter: the graph library (locale
  \<open>petgraph\<close> of \<open>Graph_Interface\<close>), the hash function (\<open>blake3_laws\<close>), the archive format (\<open>tar_laws\<close>), JSON,
  URLs, dates and base 64, and the clock and message bus of the council. What a theorem assumes of them is
  a named hypothesis, and \<open>Sample_Instances\<close> and \<open>ref_graph\<close> give functions for which it holds. The law of the
  archive format is about the paths the code writes only, \<open>refs/root\<close> and \<open>objects/\<close> with a hash. The graph library
  is idealised in one respect: the number of nodes it can hold (a \<open>u32\<close>) is not bounded. The clock is only
  assumed never to go back, as \<open>Instant\<close> is documented; it may repeat a reading.

  \<^bold>\<open>Shared theories.\<close>
  \<^item> \<open>SI_Prelude\<close>: results, readers of byte strings, the collections of simplification rules.
  \<^item> \<open>Rust_Text\<close>: the operations on strings and numbers of the Rust library the sources use.
  \<^item> \<open>Graph_Interface\<close>: the graph library as a locale, with a reference implementation interpreting it.

  \<^bold>\<open>Object trees\<close> (\<open>lib/object-tree\<close>, \<open>lib/si-hash\<close>).
  \<^item> \<open>Key_Value_Lines\<close>: the lines \<open>key:len=value\<close> of a node; any text survives.
  \<^item> \<open>Node_Entries\<close>: the text of a node with the hashes of its children; locale \<open>node_codec\<close> is the contract
    of a node type (write, read, normal form), from which the round trip of a node with entries follows.
  \<^item> \<open>Hashing_Tree\<close>: \<open>HashingTree\<close> and \<open>ObjectTree::create_from_root\<close>; the loops build the Merkle tree.
  \<^item> \<open>Tar_Bundle\<close>: \<open>TarWriter\<close> and \<open>TarReader\<close>; what was written is read back with the same hashes.
  \<^item> \<open>Merkle_Integrity\<close>: objects verify, and equal root hashes mean equal trees or a collision.

  \<^bold>\<open>Packages\<close> (\<open>lib/si-pkg\<close>).
  \<^item> \<open>Pkg_Enums\<close>, \<open>Pkg_Node_Common\<close>, \<open>Pkg_Nodes_A\<close> to \<open>Pkg_Nodes_D\<close>, \<open>Pkg_Node\<close>: every enumeration and node type
    with its text; each interprets \<open>strum_enum\<close> or \<open>node_codec\<close>.
  \<^item> \<open>Pkg_Spec\<close>, \<open>Pkg_As_Node\<close>: specifications, their builders, and the tree of nodes of a specification.
  \<^item> \<open>Pkg_Graph_Read\<close>, \<open>Pkg_To_Spec\<close>: the typed view of a package graph and \<open>SiPkg\<close>.
  \<^item> \<open>Pkg_Restored\<close>, \<open>Pkg_Restored_Props\<close>, \<open>Pkg_Restored_Variant\<close>, \<open>Pkg_Restored_Package\<close>: exactly what
    \<open>to_spec\<close> of a loaded package gives back, and that it ends.
  \<^item> \<open>Pkg_Properties\<close>: the properties of packages and specifications.

  \<^bold>\<open>Assets\<close> (\<open>bin/lang-js\<close>, \<open>lib/dal\<close>, \<open>lib/sdf-server\<close>).
  \<^item> \<open>Asset_Builder\<close>: the builder classes of \<open>asset_builder.ts\<close>; \<open>buildable\<close> is the step relation of
    \<open>AssetBuilder\<close>, and its invariant keeps secrets connected to sockets.
  \<^item> \<open>Prop_Path\<close>, \<open>Variant_Definition\<close>: paths of props, and the conversion of definitions to specifications.
  \<^item> \<open>Intrinsic_Funcs\<close>: the functions of every workspace as specifications.
  \<^item> \<open>Asset_Package\<close>: what is read of an asset, and the package \<open>exec_variant_def\<close> makes of it.
  \<^item> \<open>Asset_Properties\<close>: the properties that follow an asset from the builder to the package.
  \<^item> \<open>Attribute_Context\<close>: contexts of attribute values, their builder and their order.

  \<^bold>\<open>Menus\<close> (\<open>lib/dal/src/node_menu.rs\<close>, \<open>lib/sdf-server\<close>).
  \<^item> \<open>Node_Menu\<close>: categories and items in a store of vectors, which stands for \<open>Rc\<close> and \<open>RefCell\<close>, the insertion by
    path and the generation of the menu; \<open>Node_Menu_Refinement\<close>: the store implements insertion into a tree.
  \<^item> \<open>Node_Menu_Properties\<close>: which assets the menu shows and where, and where it goes wrong.

  \<^bold>\<open>Council\<close> (\<open>lib/council-server\<close>).
  \<^item> \<open>Council_Metadata\<close>, \<open>Council_Graph\<close>, \<open>Council_Server\<close>: the data structures, the handlers and the server loop
    with the messages they send.
  \<^item> \<open>Council_Spec\<close>: plans, the abstract specification; \<open>Council_Refinement\<close> and \<open>Council_Removal\<close>: the code
    implements the operations on plans, exactly if the clock has moved on since work was handed out
    (\<open>moved_on\<close>), and otherwise up to work that it fails to take for outdated (\<open>plan_le\<close>).
  \<^item> \<open>Council_Queue\<close>: the queue for creating values (locale \<open>turn_queue\<close>), for every sequence of events.
  \<^item> \<open>Council_Invariants\<close>: the reachable states and what holds in them (locale \<open>plan_invariant\<close>);
    \<open>Council_Liveness\<close>: registered work gets done. \<open>Council_Properties\<close> states the properties.

  \<^bold>\<open>Updates of values\<close> (\<open>lib/dal/src/job/definition/dependent_values_update.rs\<close>, \<open>lib/dal/src/status.rs\<close>,
  \<open>lib/council-server/src/client.rs\<close>).
  \<^item> \<open>Status_Update\<close>: the status of an update in memory, in its row and in messages; every call to the outside
    may be refused, by a function of the number of calls so far. \<open>Status_Properties\<close>: what is announced.
  \<^item> \<open>Dependent_Values_Update\<close>: the job, one definition for each stretch between two messages, with the client
    of the council.
  \<^item> \<open>Update_System\<close>: the job and the council with the messages between them, as a step relation; what the
    council does is followed by the stages of the values. \<open>Update_Run\<close>, \<open>Update_Properties\<close>: an invariant for
    every number of remaining steps, and that every run without refusals ends well, after three steps for
    each value and five more.
  \<^item> \<open>Update_Failures\<close>: the values a job passes over, a job with nothing to do, and what a job leaves
    behind when it ends.

  \<^bold>\<open>Streams\<close> (\<open>lib/bytes-lines-codec\<close>). \<open>Bytes_Lines_Codec\<close>: the decoder against a reference function on the
  whole stream, for every way to cut the stream into pieces. The limit of a line is assumed smaller
  than the largest \<open>usize\<close>, so that the byte after the window can be addressed.

  This theory holds the properties that span object trees and packages.

  \<^bold>\<open>Not modelled.\<close> Most of \<open>lib/dal\<close>, \<open>lib/sdf-server\<close> and the other servers are sequences of calls of stored
  procedures, message buses, containers, child processes and HTTP services, whose meaning is outside the
  sources; so are the clients of these services, the command line tools, the user interface, telemetry,
  configuration files and the tests. Of the modelled crates, convenience setters, error texts,
  and the generation of unique identifiers are left out. Of the job, its creation from the queue and the
  opening of its channel are left out, and tasks spawned for one message run in the order of the message. Objects of the asset builders are passed by
  value: sharing of one JavaScript object between two builders is not modelled.
\<close>

section \<open>Packages in archives\<close>

definition sample_package :: "(bytes, bytes, bytes) PkgNode NodeWithChildren" where
  "sample_package = NodeWithChildren Tree (PkgNode.Package \<lparr>
       pkg_kind = SiPkgKind.Module, pkg_name = ''p'', pkg_version = ''1'', pkg_description = [],
       pkg_created_at = ''now'', pkg_created_by = ''me'', pkg_default_change_set = None,
       pkg_workspace_pk = None, pkg_workspace_name = None\<rparr>)
     [NodeWithChildren Tree (PkgNode.Category CategoryNode.Schemas) [],
      NodeWithChildren Tree (PkgNode.Category CategoryNode.Funcs)
        [NodeWithChildren Tree (PkgNode.Func \<lparr>fn_name = ''f'', fn_data = None, fn_unique_id = ''u'',
           fn_deleted = False, fn_is_from_builtin = None\<rparr>) []]]"

lemma sample_package_storable:
  "storable (valid_PkgNode sample_externals) PkgNode_name sample_package"
  by (simp add: sample_package_def valid_PackageNode_def valid_FuncNode_def rust_string_def
      datetime_ok_def sample_externals_def nonempty_text_def entry_name_ok_def)

lemma sample_package_distinct: "distinct_names PkgNode_name sample_package"
  by (simp add: sample_package_def)

lemma sample_package_free:
  "collision_free (write_PkgNode sample_externals) PkgNode_name sample_blake3 sample_package"
  by (rule sample_collision_free)
    (simp_all add: sample_package_def sample_bytes_length write_PkgNode_eq write_PackageNode_def
      write_FuncNode_def write_CategoryNode_def write_kind_def writer_simps kv_line_def show_nat_small
      NodeKind_as_ref_def sample_externals_def common_text_def show_bool_def)

text \<open>The same package with its categories given in the other order.\<close>

definition sample_package_swapped :: "(bytes, bytes, bytes) PkgNode NodeWithChildren" where
  "sample_package_swapped = NodeWithChildren (nwc_kind sample_package) (nwc_inner sample_package)
     (rev (nwc_children sample_package))"

lemma sample_swapped_storable:
  "storable (valid_PkgNode sample_externals) PkgNode_name sample_package_swapped"
  using sample_package_storable by (simp add: sample_package_swapped_def sample_package_def)

lemma sample_swapped_bytes:
  "merkle_bytes wr PkgNode_name B sample_package_swapped = merkle_bytes wr PkgNode_name B sample_package"
  unfolding merkle_bytes_def
  by (simp add: sample_package_swapped_def sample_package_def)
    (rule node_bytes_sorted; simp add: merkle_entry_def)

lemma sample_swapped_objects:
  "merkle_bytes wr PkgNode_name B ` (set (subtrees sample_package) \<union> set (subtrees sample_package_swapped))
     = merkle_bytes wr PkgNode_name B ` set (subtrees sample_package)"
proof -
  have "set (subtrees sample_package_swapped) \<subseteq> {sample_package_swapped} \<union> set (subtrees sample_package)"
    by (auto simp: sample_package_swapped_def sample_package_def)
  then show ?thesis
    using sample_swapped_bytes [of wr B] subtrees_self [of sample_package] by blast
qed

text \<open>C1: A package survives its archive. For every package tree whose nodes are valid and whose
  names fit into entry lines, the object tree is created without an error and with the Merkle hashes
  of the nodes, it is written to an archive without an error, and reading the archive ends and gives a
  tree with the same shape and the same hashes, its nodes in normal form and siblings in the order of
  their names. It relies on the documented behaviour of the graph, hash and archive libraries and on
  the absence of a hash collision among the objects of this package.\<close>

theorem package_archive_roundtrip:
  assumes "petgraph P" and "petgraph Q" and "petgraph R" and "blake3_laws B" and "tar_laws T"
    and "storable (valid_PkgNode E) PkgNode_name n"
    and "collision_free (write_PkgNode E) PkgNode_name B n"
  shows "\<exists>tree a tree'. ObjectTree_create_from_root (write_PkgNode E) PkgNode_name B P Q n = Some (Inr tree)
    \<and> TarWriter_new (write_PkgNode E) PkgNode_name B Q T tree = Inr a
    \<and> read_from_tar (read_PkgNode E) B R T a = Some (Inr tree')
    \<and> represents Q (ot_graph tree) (ot_root_idx tree) (hashed_tree (write_PkgNode E) PkgNode_name B n)
    \<and> represents R (ot_graph tree') (ot_root_idx tree')
        (stored_tree (write_PkgNode E) PkgNode_name norm_PkgNode B n)"
  by (rule pkg_node.tar_roundtrip [OF assms(1-5) PkgNode_name_norm assms(6,7)])

theorem package_archive_roundtrip_witness:
  "\<exists>tree a tree'.
    ObjectTree_create_from_root (write_PkgNode sample_externals) PkgNode_name sample_blake3
      ref_graph ref_graph sample_package = Some (Inr tree)
    \<and> TarWriter_new (write_PkgNode sample_externals) PkgNode_name sample_blake3 ref_graph sample_tar tree
        = Inr a
    \<and> read_from_tar (read_PkgNode sample_externals) sample_blake3 ref_graph sample_tar a
        = Some (Inr tree')
    \<and> represents ref_graph (ot_graph tree') (ot_root_idx tree')
        (stored_tree (write_PkgNode sample_externals) PkgNode_name norm_PkgNode sample_blake3
           sample_package)"
  using package_archive_roundtrip [OF ref_graph.petgraph_axioms ref_graph.petgraph_axioms
      ref_graph.petgraph_axioms sample_blake3_laws sample_tar_laws sample_package_storable
      sample_package_free]
  by blast

text \<open>Every object read from an archive that holds the bytes of a package node under its hash is
  found, and passes \<open>verify_hash\<close>: the bytes written for what was read hash to the stored hash,
  although optional fields and the order of entries are normalised on the way.\<close>

theorem archived_node_verifies:
  assumes "blake3_laws B" and "storable (valid_PkgNode E) PkgNode_name m"
    and "tar_data (object_path B (merkle (write_PkgNode E) PkgNode_name B m))
      = Some (merkle_bytes (write_PkgNode E) PkgNode_name B m)"
  shows "\<exists>node. get_node (read_PkgNode E) B tar_data (merkle (write_PkgNode E) PkgNode_name B m)
      = Inr (Some node) \<and> verify_hash (write_PkgNode E) B node = Inr ()"
  using pkg_node.get_node_stored [where tar_data = tar_data, OF assms] pkg_node.verify_stored [OF assms(1,2)] by blast

theorem archived_node_verifies_witness:
  "\<exists>node. get_node (read_PkgNode sample_externals) sample_blake3
      (\<lambda>_. Some (merkle_bytes (write_PkgNode sample_externals) PkgNode_name sample_blake3 sample_package))
      (merkle (write_PkgNode sample_externals) PkgNode_name sample_blake3 sample_package)
      = Inr (Some node)
    \<and> verify_hash (write_PkgNode sample_externals) sample_blake3 node = Inr ()"
  by (rule archived_node_verifies [OF sample_blake3_laws sample_package_storable refl])

text \<open>C9: The root hash identifies a package. Two storable package trees with the same root hash are
  read from their archives as the same tree, unless two of their objects collide under the hash
  function.\<close>

theorem root_hash_identifies_package:
  assumes "blake3_laws B"
    and "storable (valid_PkgNode E) PkgNode_name n" and "storable (valid_PkgNode E) PkgNode_name m"
    and "inj_on (Hash_new B)
      (merkle_bytes (write_PkgNode E) PkgNode_name B ` (set (subtrees n) \<union> set (subtrees m)))"
    and "merkle (write_PkgNode E) PkgNode_name B n = merkle (write_PkgNode E) PkgNode_name B m"
  shows "stored_tree (write_PkgNode E) PkgNode_name norm_PkgNode B n
    = stored_tree (write_PkgNode E) PkgNode_name norm_PkgNode B m"
  by (rule pkg_node.root_hash_determines [OF assms(1) PkgNode_name_norm assms(2-5)])

theorem root_hash_identifies_package_witness:
  "sample_package \<noteq> sample_package_swapped
    \<and> stored_tree (write_PkgNode sample_externals) PkgNode_name norm_PkgNode sample_blake3 sample_package
    = stored_tree (write_PkgNode sample_externals) PkgNode_name norm_PkgNode sample_blake3
        sample_package_swapped"
proof
  show "sample_package \<noteq> sample_package_swapped"
    by (simp add: sample_package_def sample_package_swapped_def)
  show "stored_tree (write_PkgNode sample_externals) PkgNode_name norm_PkgNode sample_blake3
      sample_package
    = stored_tree (write_PkgNode sample_externals) PkgNode_name norm_PkgNode sample_blake3
        sample_package_swapped"
    by (rule root_hash_identifies_package [OF sample_blake3_laws sample_package_storable
          sample_swapped_storable])
      (use sample_package_free in \<open>simp_all add: sample_swapped_objects collision_free_def merkle_hash
        sample_swapped_bytes\<close>)
qed

text \<open>Reading and writing again keeps every hash. When the names of siblings differ, the object
  tree made from what was read from the archive of a package is, node for node and hash for hash, the
  tree that was read.\<close>

theorem reread_package_keeps_hashes:
  assumes "petgraph P" and "petgraph Q"
    and "storable (valid_PkgNode E) PkgNode_name n" and "distinct_names PkgNode_name n"
  shows "\<exists>tree. ObjectTree_create_from_root (write_PkgNode E) PkgNode_name B P Q
        (reread PkgNode_name norm_PkgNode n) = Some (Inr tree)
    \<and> represents Q (ot_graph tree) (ot_root_idx tree)
        (stored_tree (write_PkgNode E) PkgNode_name norm_PkgNode B n)"
proof -
  have "storable (valid_PkgNode E) PkgNode_name (reread PkgNode_name norm_PkgNode n)"
    using pkg_node.reread_storable [OF PkgNode_name_norm assms(3)] .
  then have "all_inner (\<lambda>x. is_ok (write_PkgNode E x)) (reread PkgNode_name norm_PkgNode n)"
    using storable_inner pkg_node.write_ok by (blast intro: all_inner_mono)
  from create_from_root_merkle [OF assms(1,2) this, of PkgNode_name B]
  show ?thesis
    using pkg_node.reread_hashed [OF PkgNode_name_norm assms(3,4)] by metis
qed

theorem reread_package_keeps_hashes_witness:
  "\<exists>tree. ObjectTree_create_from_root (write_PkgNode sample_externals) PkgNode_name sample_blake3
        ref_graph ref_graph (reread PkgNode_name norm_PkgNode sample_package) = Some (Inr tree)
    \<and> represents ref_graph (ot_graph tree) (ot_root_idx tree)
        (stored_tree (write_PkgNode sample_externals) PkgNode_name norm_PkgNode sample_blake3
          sample_package)"
  by (rule reread_package_keeps_hashes [OF ref_graph.petgraph_axioms ref_graph.petgraph_axioms
        sample_package_storable sample_package_distinct])

end
